(* ===== verification/Js_Prelude.thy ===== *)
theory Js_Prelude
  imports Complex_Main "HOL-Library.AList" "HOL-Library.Sublist"
begin

text \<open>
  Shared vocabulary of the development.

  \<^item> \<open>string\<close> stands for a JavaScript string. A \<open>char\<close> is one UTF-16 code unit; the 256
    characters available are read as code page Windows-1252, which is where the ellipsis and
    the em dash of the user messages live. White space is what \<open>String.prototype.trim\<close>
    removes among them; \<open>strings.TrimSpace\<close> of Go removes U+0085 too, which is none of them.
  \<^item> \<open>rat\<close> stands for a finite JavaScript number (only exact arithmetic is modelled; NaN and
    the infinities are separate branches where the code tests for them).
  \<^item> \<open>jv\<close> is a value that \<open>JSON.parse\<close> can return, or \<open>undefined\<close>. An object is an association
    list in insertion order.
  \<^item> \<open>jtext\<close> is a text that came out of \<open>JSON.stringify\<close> or that \<open>JSON.parse\<close> rejects.

  The locales at the end are the contracts that several components share: a state machine with
  an invariant, and a list of keyed entries one of which is selected.
\<close>

named_theorems js_simps \<open>unfoldings of the small JavaScript helpers\<close>

section \<open>Strings\<close>

definition js_ws :: "char \<Rightarrow> bool" where
  "js_ws c \<longleftrightarrow> (of_char c :: nat) \<in> {9, 10, 11, 12, 13, 32, 160}"

definition trim_start :: "string \<Rightarrow> string" where
  "trim_start s = dropWhile js_ws s"

definition trim_end :: "string \<Rightarrow> string" where
  "trim_end s = rev (dropWhile js_ws (rev s))"

definition trim :: "string \<Rightarrow> string" where
  "trim s = trim_end (trim_start s)"

definition starts_with :: "'a list \<Rightarrow> 'a list \<Rightarrow> bool" where
  "starts_with s p \<longleftrightarrow> take (length p) s = p"

definition ends_with :: "'a list \<Rightarrow> 'a list \<Rightarrow> bool" where
  "ends_with s p \<longleftrightarrow> starts_with (rev s) (rev p)"

text \<open>\<open>s.includes(p)\<close>.\<close>

fun str_includes :: "'a list \<Rightarrow> 'a list \<Rightarrow> bool" where
  "str_includes [] p = (p = [])"
| "str_includes (x # xs) p = (starts_with (x # xs) p \<or> str_includes xs p)"

text \<open>\<open>a || b\<close> on strings.\<close>

definition or_str :: "string \<Rightarrow> string \<Rightarrow> string" where
  "or_str a b = (if a \<noteq> [] then a else b)"

text \<open>\<open>s.split(sep)\<close> for a non-empty separator, scanning from the left.\<close>

function js_split :: "'a list \<Rightarrow> 'a list \<Rightarrow> 'a list list" where
  "js_split sep [] = [[]]"
| "js_split sep (x # xs) =
     (if sep \<noteq> [] \<and> starts_with (x # xs) sep
      then [] # js_split sep (drop (length sep) (x # xs))
      else (case js_split sep xs of [] \<Rightarrow> [[x]] | p # ps \<Rightarrow> (x # p) # ps))"
  by pat_completeness auto
termination
  by (relation "measure (\<lambda>(sep, xs). length xs)") (auto simp: neq_Nil_conv)

fun js_join :: "'a list \<Rightarrow> 'a list list \<Rightarrow> 'a list" where
  "js_join sep [] = []"
| "js_join sep [p] = p"
| "js_join sep (p # q # ps) = p @ sep @ js_join sep (q # ps)"

text \<open>\<open>s.replace(/c/g, r)\<close> for one character \<open>c\<close>.\<close>

definition replace_char :: "'a \<Rightarrow> 'a list \<Rightarrow> 'a list \<Rightarrow> 'a list" where
  "replace_char c r s = concat (map (\<lambda>x. if x = c then r else [x]) s)"

text \<open>\<open>s.indexOf(c)\<close>, \<open>None\<close> for -1.\<close>

fun index_of :: "'a \<Rightarrow> 'a list \<Rightarrow> nat option" where
  "index_of c [] = None"
| "index_of c (x # xs) = (if x = c then Some 0 else map_option Suc (index_of c xs))"

text \<open>\<open>String(n)\<close> for integers.\<close>

fun show_nat :: "nat \<Rightarrow> string" where
  "show_nat n = (if n < 10 then [char_of (48 + n)]
                 else show_nat (n div 10) @ [char_of (48 + n mod 10)])"

declare show_nat.simps [simp del]

definition show_int :: "int \<Rightarrow> string" where
  "show_int i = (if i < 0 then ''-'' @ show_nat (nat (- i)) else show_nat (nat i))"

text \<open>
  \<open>toLowerCase\<close>, and \<open>strings.ToLower\<close> of the server, on the capital letters of Windows-1252: those
  of ASCII and of Latin-1, S and Z with a caron, the ligature OE, and Y with a diaeresis.
\<close>

definition char_code :: "char \<Rightarrow> nat" where "char_code c = of_char c"

definition js_lower :: "char \<Rightarrow> char" where
  "js_lower c =
     (let n = char_code c in
      if (65 \<le> n \<and> n \<le> 90) \<or> (192 \<le> n \<and> n \<le> 222 \<and> n \<noteq> 215) then char_of (n + 32)
      else if n = 138 \<or> n = 140 \<or> n = 142 then char_of (n + 16)
      else if n = 159 then char_of (255 :: nat)
      else c)"

section \<open>Values\<close>

datatype jv = JUndef | JNull | JBool bool | JNum rat | JStr string | JArr "jv list"
  | JObj "(string \<times> jv) list"

type_synonym obj = "(string \<times> jv) list"

datatype jtext = JText jv | BadText

fun truthy :: "jv \<Rightarrow> bool" where
  "truthy JUndef = False"
| "truthy JNull = False"
| "truthy (JBool b) = b"
| "truthy (JNum n) = (n \<noteq> 0)"
| "truthy (JStr s) = (s \<noteq> [])"
| "truthy (JArr _) = True"
| "truthy (JObj _) = True"

text \<open>Reading a named property; an absent one is \<open>undefined\<close>.\<close>

definition oget :: "obj \<Rightarrow> string \<Rightarrow> jv" where
  "oget b k = (case map_of b k of None \<Rightarrow> JUndef | Some v \<Rightarrow> v)"

text \<open>
  The properties that \<open>value && typeof value === "object"\<close> lets the code read. An array has
  no property under the names the code asks for.
\<close>

fun as_object :: "jv \<Rightarrow> obj option" where
  "as_object (JObj b) = Some b"
| "as_object (JArr _) = Some []"
| "as_object _ = None"

fun as_string :: "jv \<Rightarrow> string option" where
  "as_string (JStr s) = Some s"
| "as_string _ = None"

text \<open>\<open>{ ...a, ...b }\<close>: a key of \<open>a\<close> keeps its place, a new key goes last.\<close>

definition obj_spread :: "('k \<times> 'v) list \<Rightarrow> ('k \<times> 'v) list \<Rightarrow> ('k \<times> 'v) list" where
  "obj_spread a b = foldl (\<lambda>acc (k, v). AList.update k v acc) a b"

text \<open>
  \<open>JSON.stringify\<close>: a property that is \<open>undefined\<close> is left out, an array element becomes null.
\<close>

fun strip_undef :: "jv \<Rightarrow> jv" where
  "strip_undef (JArr xs) =
     JArr (map (\<lambda>x. case x of JUndef \<Rightarrow> JNull | _ \<Rightarrow> strip_undef x) xs)"
| "strip_undef (JObj b) =
     JObj (map (\<lambda>(k, v). (k, strip_undef v)) (filter (\<lambda>(k, v). v \<noteq> JUndef) b))"
| "strip_undef v = v"

definition stringify :: "jv \<Rightarrow> jtext" where
  "stringify v = JText (strip_undef v)"

text \<open>\<open>String(v)\<close>; \<open>numStr\<close> is its value on numbers.\<close>

fun js_string :: "(rat \<Rightarrow> string) \<Rightarrow> jv \<Rightarrow> string" where
  "js_string numStr JUndef = ''undefined''"
| "js_string numStr JNull = ''null''"
| "js_string numStr (JBool b) = (if b then ''true'' else ''false'')"
| "js_string numStr (JNum n) = numStr n"
| "js_string numStr (JStr s) = s"
| "js_string numStr (JArr xs) =
     js_join '','' (map (\<lambda>x. case x of JUndef \<Rightarrow> [] | JNull \<Rightarrow> [] | _ \<Rightarrow> js_string numStr x) xs)"
| "js_string numStr (JObj b) = ''[object Object]''"

definition get_str :: "obj \<Rightarrow> string \<Rightarrow> string option" where
  "get_str b k = as_string (oget b k)"

text \<open>What the platform answers: \<open>crypto.randomUUID()\<close> where it exists, and \<open>Date.now()\<close>.\<close>

record platform =
  random_uuid :: "string option"
  date_now :: int

section \<open>Facts about strings\<close>

lemma starts_with_iff: "starts_with s p \<longleftrightarrow> (\<exists>r. s = p @ r)"
  unfolding starts_with_def by (metis append_take_drop_id append_eq_conv_conj)

lemma starts_with_append [simp]: "starts_with (p @ r) p"
  by (simp add: starts_with_def)

lemma starts_with_refl [simp]: "starts_with s s"
  by (simp add: starts_with_def)

lemma starts_with_Nil [simp]: "starts_with s []"
  by (simp add: starts_with_def)

lemma starts_with_length: "starts_with s p \<Longrightarrow> length p \<le> length s"
  by (auto simp: starts_with_iff)

lemma starts_with_trans: "starts_with a b \<Longrightarrow> starts_with b c \<Longrightarrow> starts_with a c"
  by (auto simp: starts_with_iff)

lemma starts_with_linear:
  "starts_with s p \<Longrightarrow> starts_with s q \<Longrightarrow> length p \<le> length q \<Longrightarrow> starts_with q p"
  unfolding starts_with_def by (metis min.absorb1 take_take)

lemma set_dropWhile_subset: "set (dropWhile P xs) \<subseteq> set xs"
  by (auto dest: set_dropWhileD)

lemma trim_Nil_iff: "trim s = [] \<longleftrightarrow> (\<forall>c \<in> set s. js_ws c)"
  by (auto simp: trim_def trim_end_def trim_start_def dropWhile_eq_Nil_conv
      dest: set_dropWhileD) (metis dropWhile_eq_Nil_conv list.set_sel(1) hd_dropWhile set_dropWhileD)

lemma trim_Nil [simp]: "trim [] = []"
  by (simp add: trim_Nil_iff)

lemma set_trim: "set (trim s) \<subseteq> set s"
  by (auto simp: trim_def trim_end_def trim_start_def dest!: set_dropWhileD)

lemma trim_start_id: "s = [] \<or> \<not> js_ws (hd s) \<Longrightarrow> trim_start s = s"
  by (cases s) (auto simp: trim_start_def)

lemma trim_end_id: "s = [] \<or> \<not> js_ws (last s) \<Longrightarrow> trim_end s = s"
  by (cases s rule: rev_cases) (auto simp: trim_end_def)

text \<open>A string that neither begins nor ends with white space.\<close>

definition tight :: "string \<Rightarrow> bool" where
  "tight s \<longleftrightarrow> s = [] \<or> (\<not> js_ws (hd s) \<and> \<not> js_ws (last s))"

lemma trim_id: "tight s \<Longrightarrow> trim s = s"
  by (auto simp: tight_def trim_def trim_start_id trim_end_id)

lemma trim_end_suffix: "\<exists>t. s = trim_end s @ t \<and> (\<forall>c \<in> set t. js_ws c)"
proof -
  have "rev s = takeWhile js_ws (rev s) @ dropWhile js_ws (rev s)" by simp
  then have "s = trim_end s @ rev (takeWhile js_ws (rev s))"
    unfolding trim_end_def by (metis rev_append rev_rev_ident)
  then show ?thesis by (metis set_rev set_takeWhileD)
qed

lemma hd_trim_end: "trim_end s \<noteq> [] \<Longrightarrow> hd (trim_end s) = hd s"
  using trim_end_suffix [of s] by (metis hd_append2)

lemma trim_end_mid: "\<not> js_ws c \<Longrightarrow> trim_end (xs @ c # ys) = xs @ c # trim_end ys"
  by (cases "\<forall>x \<in> set ys. js_ws x")
    (auto simp: trim_end_def dropWhile_append)

lemma last_trim_end: "trim_end s \<noteq> [] \<Longrightarrow> \<not> js_ws (last (trim_end s))"
  unfolding trim_end_def by (metis hd_dropWhile hd_rev rev_is_Nil_conv rev_rev_ident)

lemma show_nat_digits: "c \<in> set (show_nat n) \<Longrightarrow> 48 \<le> char_code c \<and> char_code c < 58"
proof (induction n rule: show_nat.induct)
  case (1 n)
  show ?case
  proof (cases "n < 10")
    case True
    then show ?thesis using "1.prems" by (simp add: show_nat.simps [of n] char_code_def)
  next
    case False
    then show ?thesis using 1 by (auto simp: show_nat.simps [of n] char_code_def)
  qed
qed

lemma show_nat_ne [simp]: "show_nat n \<noteq> []"
  by (subst show_nat.simps) simp

lemma tight_no_ws: "list_all (\<lambda>c. \<not> js_ws c) s \<Longrightarrow> tight s"
  using hd_in_set [of s] last_in_set [of s] by (auto simp: tight_def list_all_iff)

lemma trim_show_nat [simp]: "trim (show_nat n) = show_nat n"
  using show_nat_digits [of _ n]
  by (intro trim_id tight_no_ws) (fastforce simp: list_all_iff js_ws_def char_code_def)

lemma tight_trim: "tight (trim s)"
proof (cases "trim s = []")
  case False
  then have ne: "trim_start s \<noteq> []"
    by (auto simp: trim_def trim_end_def)
  then have "\<not> js_ws (hd (trim_start s))"
    unfolding trim_start_def by (rule hd_dropWhile)
  with False show ?thesis
    by (auto simp: tight_def trim_def hd_trim_end last_trim_end)
qed (simp add: tight_def)

lemma trim_trim [simp]: "trim (trim s) = trim s"
  by (rule trim_id [OF tight_trim])

lemma js_split_ne [simp]: "js_split sep xs \<noteq> []"
  by (induction sep xs rule: js_split.induct) (auto split: list.splits)

lemma js_join_Cons: "ps \<noteq> [] \<Longrightarrow> js_join sep (p # ps) = p @ sep @ js_join sep ps"
  by (cases ps) auto

lemma js_join_Cons_head: "js_join sep ((x # p) # ps) = x # js_join sep (p # ps)"
  by (cases ps) auto

lemma js_join_split: "js_join sep (js_split sep xs) = xs"
proof (induction sep xs rule: js_split.induct)
  case (2 sep x xs)
  show ?case
  proof (cases "sep \<noteq> [] \<and> starts_with (x # xs) sep")
    case True
    then have "x # xs = sep @ drop (length sep) (x # xs)"
      by (metis append_take_drop_id starts_with_def)
    with True "2.IH"(1) show ?thesis by (simp add: js_join_Cons)
  next
    case False
    with "2.IH"(2) show ?thesis
      by (auto split: list.splits simp: js_join_Cons_head)
  qed
qed simp

lemma js_split_short: "length xs < length sep \<Longrightarrow> js_split sep xs = [xs]"
proof (induction xs)
  case (Cons x xs)
  then have "\<not> starts_with (x # xs) sep"
    by (auto dest!: starts_with_length)
  with Cons show ?case by simp
qed simp

lemma js_split_single: "js_split sep xs = [p] \<Longrightarrow> p = xs"
  using js_join_split [of sep xs] by simp

text \<open>
  Splitting is incremental: what follows the last separator seen so far is all that later
  input can still change.
\<close>

lemma js_split_append:
  "js_split sep (xs @ ys) =
     butlast (js_split sep xs) @ js_split sep (last (js_split sep xs) @ ys)"
proof (induction sep xs rule: js_split.induct)
  case (2 sep x xs)
  show ?case
  proof (cases "sep \<noteq> [] \<and> starts_with (x # xs) sep")
    case True
    then have "starts_with (x # xs @ ys) sep"
      by (metis append_Cons append_assoc starts_with_iff)
    moreover have "length sep \<le> length (x # xs)"
      using True starts_with_length by blast
    then have "drop (length sep) (x # xs @ ys) = drop (length sep) (x # xs) @ ys"
      by (metis append_Cons diff_is_0_eq' drop0 drop_append)
    ultimately show ?thesis using True "2.IH"(1) by simp
  next
    case False
    obtain p ps where sp: "js_split sep xs = p # ps"
      by (cases "js_split sep xs") auto
    show ?thesis
    proof (cases "ps = []")
      case True
      then have "js_split sep (x # xs) = [x # xs]"
        using False sp js_split_single [of sep xs p] by simp
      then show ?thesis by simp
    next
      case ne: False
      have "length sep \<le> length xs"
        using sp ne js_split_short [of xs sep] by force
      then have "take (length sep) (x # xs @ ys) = take (length sep) (x # xs)"
        using take_append [of "length sep" "x # xs" ys] by simp
      then have "\<not> (sep \<noteq> [] \<and> starts_with (x # xs @ ys) sep)"
        using False by (auto simp: starts_with_def)
      then show ?thesis using False sp ne "2.IH"(2) by auto
    qed
  qed
qed simp

text \<open>With a one-character separator the pieces are the maximal runs without it.\<close>

lemma js_split_char_free: "c \<notin> set xs \<Longrightarrow> js_split [c] xs = [xs]"
  by (induction xs) (auto simp: starts_with_def)

lemma js_split_char_append:
  "c \<notin> set xs \<Longrightarrow> js_split [c] (xs @ c # ys) = xs # js_split [c] ys"
  by (induction xs) (auto simp: starts_with_def)

lemma js_split_char_pieces: "p \<in> set (js_split [c] xs) \<Longrightarrow> c \<notin> set p"
proof (induction xs arbitrary: p)
  case (Cons x xs)
  then show ?case
    by (cases "js_split [c] xs") (auto simp: starts_with_def split: if_splits)
qed simp

lemma js_split_join_char:
  "\<forall>p \<in> set ps. c \<notin> set p \<Longrightarrow> ps \<noteq> [] \<Longrightarrow> js_split [c] (js_join [c] ps) = ps"
proof (induction ps)
  case (Cons p ps)
  then show ?case
    by (cases ps) (auto simp: js_split_char_free js_split_char_append)
qed simp

lemma index_of_None: "index_of c xs = None \<longleftrightarrow> c \<notin> set xs"
  by (induction xs) auto

lemma index_of_append: "c \<notin> set xs \<Longrightarrow> index_of c (xs @ c # ys) = Some (length xs)"
  by (induction xs) auto

lemma index_of_less: "index_of c xs = Some i \<Longrightarrow> i < length xs"
  by (induction xs arbitrary: i) (auto split: if_splits)

lemma replace_char_id: "c \<notin> set s \<Longrightarrow> replace_char c r s = s"
  by (induction s) (auto simp: replace_char_def)

section \<open>Facts about objects\<close>

lemma find_map_image: "find P (map f xs) = map_option f (find (\<lambda>x. P (f x)) xs)"
  by (induction xs) auto

lemma find_cong_set: "(\<And>x. x \<in> set xs \<Longrightarrow> P x = Q x) \<Longrightarrow> find P xs = find Q xs"
  by (induction xs) auto

lemma map_of_obj_spread:
  "map_of (obj_spread a b) = map_of a ++ map_of (rev b)"
proof (induction b arbitrary: a)
  case (Cons p b)
  then show ?case
    by (cases p) (auto simp: obj_spread_def update_conv' map_add_def fun_eq_iff
        split: option.splits)
qed (simp add: obj_spread_def)

lemma map_of_rev_distinct: "distinct (map fst b) \<Longrightarrow> map_of (rev b) = map_of b"
proof (induction b)
  case (Cons p b)
  obtain k v where p: "p = (k, v)" by (cases p)
  have "map_of b k = None" using Cons.prems p by (simp add: map_of_eq_None_iff)
  moreover have "map_of (rev (p # b)) = map_of [p] ++ map_of (rev b)"
    by (simp only: rev.simps map_of_append)
  ultimately show ?case using Cons p
    by (auto simp: map_add_def fun_eq_iff split: option.splits)
qed simp

lemma keys_obj_spread: "fst ` set (obj_spread a b) = fst ` set a \<union> fst ` set b"
proof (induction b arbitrary: a)
  case (Cons p b)
  have "fst ` set (AList.update (fst p) (snd p) a) = insert (fst p) (fst ` set a)"
    by (metis dom_map_of_conv_image_fst dom_fun_upd option.distinct(1) update_conv')
  with Cons show ?case by (cases p) (auto simp: obj_spread_def)
qed (simp add: obj_spread_def)

lemma distinct_obj_spread:
  "distinct (map fst a) \<Longrightarrow> distinct (map fst (obj_spread a b))"
  by (induction b arbitrary: a) (auto simp: obj_spread_def distinct_update)

text \<open>Nothing undefined in an array: \<open>JSON.stringify\<close> writes it as it is.\<close>

lemma strip_array:
  assumes "\<And>x. x \<in> set xs \<Longrightarrow> strip_undef x = x \<and> x \<noteq> JUndef"
  shows "strip_undef (JArr xs) = JArr xs"
proof -
  have "map (\<lambda>x. case x of JUndef \<Rightarrow> JNull | _ \<Rightarrow> strip_undef x) xs = xs"
    using assms by (intro map_idI) (auto split: jv.split simp del: strip_undef.simps)
  then show ?thesis by (simp only: strip_undef.simps)
qed

section \<open>Contracts shared by components\<close>

text \<open>
  Events that are admissible one after the other: the guard of each is asked in the state the
  earlier ones left.
\<close>

fun admissible :: "('e \<Rightarrow> 's \<Rightarrow> bool) \<Rightarrow> ('e \<Rightarrow> 's \<Rightarrow> 's) \<Rightarrow> 'e list \<Rightarrow> 's \<Rightarrow> bool" where
  "admissible ok step [] s = True"
| "admissible ok step (e # es) s = (ok e s \<and> admissible ok step es (step e s))"

locale guarded_machine =
  fixes step :: "'e \<Rightarrow> 's \<Rightarrow> 's"
    and ok :: "'e \<Rightarrow> 's \<Rightarrow> bool"
    and inv :: "'s \<Rightarrow> bool"
  assumes step_inv: "inv s \<Longrightarrow> ok e s \<Longrightarrow> inv (step e s)"
begin

lemma run_inv: "inv s \<Longrightarrow> admissible ok step es s \<Longrightarrow> inv (fold step es s)"
  by (induction es arbitrary: s) (auto intro: step_inv)

text \<open>A measure that no admissible step lowers is not lowered by a run either.\<close>

lemma run_mono:
  fixes m :: "'s \<Rightarrow> 'a::preorder"
  assumes "\<And>e s. inv s \<Longrightarrow> ok e s \<Longrightarrow> m s \<le> m (step e s)"
    and "inv s" and "admissible ok step es s"
  shows "m s \<le> m (fold step es s)"
  using assms(2,3)
proof (induction es arbitrary: s)
  case (Cons e es)
  then have "m s \<le> m (step e s)" "m (step e s) \<le> m (fold step es (step e s))"
    by (auto intro: assms(1) step_inv)
  then show ?case by (auto intro: order_trans)
qed simp

end

text \<open>
  A machine that refines another one by an abstraction function: the same event takes the abstract
  machine from the abstraction of a state to the abstraction of the next, so the abstract machine
  tells the whole run in advance.
\<close>

locale refining_machine = guarded_machine step ok inv
  for step :: "'e \<Rightarrow> 's \<Rightarrow> 's" and ok :: "'e \<Rightarrow> 's \<Rightarrow> bool" and inv :: "'s \<Rightarrow> bool" +
  fixes abs :: "'s \<Rightarrow> 'a"
    and abs_step :: "'e \<Rightarrow> 'a \<Rightarrow> 'a"
  assumes simulates: "inv s \<Longrightarrow> ok e s \<Longrightarrow> abs (step e s) = abs_step e (abs s)"
begin

lemma run_simulates:
  "inv s \<Longrightarrow> admissible ok step es s \<Longrightarrow> abs (fold step es s) = fold abs_step es (abs s)"
proof (induction es arbitrary: s)
  case (Cons e es)
  then show ?case using step_inv simulates by simp
qed simp

end

text \<open>The special case of a machine every event of which is always admissible.\<close>

locale state_machine =
  fixes step :: "'e \<Rightarrow> 's \<Rightarrow> 's"
    and inv :: "'s \<Rightarrow> bool"
  assumes always_inv: "inv s \<Longrightarrow> inv (step e s)"
begin

lemma all_admissible: "admissible (\<lambda>_ _. True) step es s"
  by (induction es arbitrary: s) auto

end

sublocale state_machine \<subseteq> guarded: guarded_machine step "\<lambda>_ _. True" inv
  by unfold_locales (rule always_inv)

context state_machine
begin

lemma fold_inv: "inv s \<Longrightarrow> inv (fold step es s)"
  using guarded.run_inv all_admissible by blast

end

text \<open>
  A list of entries with distinct keys, one of which may be selected, and an operation that
  closes an entry. Sign-in sessions, terminal tabs and file-manager tabs all promise this.
\<close>

locale keyed_tabs =
  fixes keys :: "'s \<Rightarrow> 'k list"
    and selected :: "'s \<Rightarrow> 'k option"
    and close :: "'k \<Rightarrow> 's \<Rightarrow> 's"
    and inv :: "'s \<Rightarrow> bool"
  assumes distinct_keys: "inv s \<Longrightarrow> distinct (keys s)"
    and selected_key: "inv s \<Longrightarrow> selected s = Some k \<Longrightarrow> k \<in> set (keys s)"
    and close_inv: "inv s \<Longrightarrow> inv (close k s)"
    and close_keys: "inv s \<Longrightarrow> 1 < length (keys s) \<Longrightarrow>
      keys (close k s) = filter (\<lambda>x. x \<noteq> k) (keys s)"
    and close_other: "inv s \<Longrightarrow> 1 < length (keys s) \<Longrightarrow> selected s \<noteq> Some k \<Longrightarrow>
      selected (close k s) = selected s"
begin

lemma close_run_inv: "inv s \<Longrightarrow> inv (fold close ks s)"
  by (induction ks arbitrary: s) (auto intro: close_inv)

lemma close_keys_length:
  assumes "inv s" "1 < length (keys s)"
  shows "length (keys s) \<le> Suc (length (keys (close k s)))"
proof -
  have "length (filter (\<lambda>x. x = k) (keys s)) \<le> 1"
    using distinct_keys [OF assms(1)]
    by (metis distinct_length_filter card_mono finite.intros card_1_singleton_iff
        Int_lower1 One_nat_def singleton_conv)
  then show ?thesis
    using assms sum_length_filter_compl [of "\<lambda>x. x = k" "keys s"] by (simp add: close_keys)
qed

text \<open>Closing every entry but one keeps exactly that one, and its selection.\<close>

lemma close_others:
  assumes "inv s" "k \<in> set (keys s)" "set ks \<subseteq> set (keys s) - {k}" "distinct ks"
  shows "keys (fold close ks s) = filter (\<lambda>x. x \<notin> set ks) (keys s)"
  using assms
proof (induction ks arbitrary: s)
  case (Cons j ks)
  have "set [j, k] \<subseteq> set (keys s)" "distinct [j, k]" using Cons.prems by auto
  then have len: "1 < length (keys s)"
    by (metis card_mono distinct_card distinct_keys Cons.prems(1) finite_set
        length_Cons list.size(3) One_nat_def Suc_le_lessD)
  have kc: "keys (close j s) = filter (\<lambda>x. x \<noteq> j) (keys s)"
    using Cons.prems(1) len by (rule close_keys)
  have "keys (fold close ks (close j s)) = filter (\<lambda>x. x \<notin> set ks) (keys (close j s))"
    using Cons.prems kc by (intro Cons.IH) (auto intro: close_inv)
  then show ?case by (auto simp: kc intro!: filter_cong)
qed simp

lemma close_others_selected:
  assumes "inv s" "selected s = Some k" "set ks \<subseteq> set (keys s) - {k}" "distinct ks"
  shows "selected (fold close ks s) = Some k"
  using assms
proof (induction ks arbitrary: s)
  case (Cons j ks)
  have "k \<in> set (keys s)" using Cons.prems selected_key by blast
  then have "set [j, k] \<subseteq> set (keys s)" "distinct [j, k]" using Cons.prems by auto
  then have len: "1 < length (keys s)"
    by (metis card_mono distinct_card distinct_keys Cons.prems(1) finite_set
        length_Cons list.size(3) One_nat_def Suc_le_lessD)
  have "selected (close j s) = Some k"
    using Cons.prems len by (auto simp: close_other)
  moreover have "set ks \<subseteq> set (keys (close j s)) - {k}"
    using Cons.prems len by (auto simp: close_keys)
  ultimately show ?case using Cons.prems by (auto intro: Cons.IH close_inv)
qed simp

end

end
