(* ===== verification/Table_Filters.thy ===== *)
theory Table_Filters
  imports Js_Prelude "HOL-Library.Multiset"
begin

text \<open>
  Advanced filters of the data table, \<open>components/datatable/lib\<close> and \<open>config\<close>: a list of
  entries, each a condition or a group of conditions, joined by and/or. Here are the editing
  operations of the filter panel, the normalisation of the join operators and the filter of
  incomplete conditions. Enumerations keep the source's members; \<open>operator_name\<close> and its like
  are the strings they are in the source.
\<close>

section \<open>Vocabulary\<close>

datatype filter_variant = VText | VNumber | VRange | VDate | VDateRange | VBoolean | VSelect
  | VMultiSelect

datatype filter_operator = ILike | NotILike | Eq | Ne | InArray | NotInArray | IsEmpty
  | IsNotEmpty | Lt | Lte | Gt | Gte | IsBetween | IsRelativeToToday

datatype join_operator = JoinAnd | JoinOr

instantiation filter_variant :: enum
begin

definition enum_filter_variant :: "filter_variant list" where
  "enum_filter_variant =
     [VText, VNumber, VRange, VDate, VDateRange, VBoolean, VSelect, VMultiSelect]"

definition enum_all_filter_variant :: "(filter_variant \<Rightarrow> bool) \<Rightarrow> bool" where
  "enum_all_filter_variant P = list_all P enum_class.enum"

definition enum_ex_filter_variant :: "(filter_variant \<Rightarrow> bool) \<Rightarrow> bool" where
  "enum_ex_filter_variant P = list_ex P enum_class.enum"

instance
proof
  show univ: "(UNIV :: filter_variant set) = set enum_class.enum"
    by (auto simp: enum_filter_variant_def intro: filter_variant.exhaust)
  show "distinct (enum_class.enum :: filter_variant list)" by (simp add: enum_filter_variant_def)
  show "enum_class.enum_all P \<longleftrightarrow> Ball UNIV P" for P :: "filter_variant \<Rightarrow> bool"
    unfolding univ by (simp add: enum_all_filter_variant_def list_all_iff)
  show "enum_class.enum_ex P \<longleftrightarrow> Bex UNIV P" for P :: "filter_variant \<Rightarrow> bool"
    unfolding univ by (simp add: enum_ex_filter_variant_def list_ex_iff)
qed

end

fun variant_name :: "filter_variant \<Rightarrow> string" where
  "variant_name VText = ''text''"
| "variant_name VNumber = ''number''"
| "variant_name VRange = ''range''"
| "variant_name VDate = ''date''"
| "variant_name VDateRange = ''dateRange''"
| "variant_name VBoolean = ''boolean''"
| "variant_name VSelect = ''select''"
| "variant_name VMultiSelect = ''multiSelect''"

fun operator_name :: "filter_operator \<Rightarrow> string" where
  "operator_name ILike = ''iLike''"
| "operator_name NotILike = ''notILike''"
| "operator_name Eq = ''eq''"
| "operator_name Ne = ''ne''"
| "operator_name InArray = ''inArray''"
| "operator_name NotInArray = ''notInArray''"
| "operator_name IsEmpty = ''isEmpty''"
| "operator_name IsNotEmpty = ''isNotEmpty''"
| "operator_name Lt = ''lt''"
| "operator_name Lte = ''lte''"
| "operator_name Gt = ''gt''"
| "operator_name Gte = ''gte''"
| "operator_name IsBetween = ''isBetween''"
| "operator_name IsRelativeToToday = ''isRelativeToToday''"

fun join_name :: "join_operator \<Rightarrow> string" where
  "join_name JoinAnd = ''and''"
| "join_name JoinOr = ''or''"

section \<open>Operators of each variant\<close>

definition textOperators :: "(string \<times> filter_operator) list" where
  "textOperators =
     [(''Contains'', ILike), (''Does not contain'', NotILike), (''Is'', Eq), (''Is not'', Ne),
      (''Is empty'', IsEmpty), (''Is not empty'', IsNotEmpty)]"

definition numericOperators :: "(string \<times> filter_operator) list" where
  "numericOperators =
     [(''Is'', Eq), (''Is not'', Ne), (''Is less than'', Lt), (''Is less than or equal to'', Lte),
      (''Is greater than'', Gt), (''Is greater than or equal to'', Gte),
      (''Is between'', IsBetween), (''Is empty'', IsEmpty), (''Is not empty'', IsNotEmpty)]"

definition dateOperators :: "(string \<times> filter_operator) list" where
  "dateOperators =
     [(''Is'', Eq), (''Is not'', Ne), (''Is before'', Lt), (''Is after'', Gt),
      (''Is on or before'', Lte), (''Is on or after'', Gte), (''Is between'', IsBetween),
      (''Is relative to today'', IsRelativeToToday), (''Is empty'', IsEmpty),
      (''Is not empty'', IsNotEmpty)]"

definition selectOperators :: "(string \<times> filter_operator) list" where
  "selectOperators =
     [(''Is'', Eq), (''Is not'', Ne), (''Is empty'', IsEmpty), (''Is not empty'', IsNotEmpty)]"

definition multiSelectOperators :: "(string \<times> filter_operator) list" where
  "multiSelectOperators =
     [(''Has any of'', InArray), (''Has none of'', NotInArray), (''Is empty'', IsEmpty),
      (''Is not empty'', IsNotEmpty)]"

definition booleanOperators :: "(string \<times> filter_operator) list" where
  "booleanOperators = [(''Is'', Eq), (''Is not'', Ne)]"

fun getFilterOperators :: "filter_variant \<Rightarrow> (string \<times> filter_operator) list" where
  "getFilterOperators VText = textOperators"
| "getFilterOperators VNumber = numericOperators"
| "getFilterOperators VRange = numericOperators"
| "getFilterOperators VDate = dateOperators"
| "getFilterOperators VDateRange = dateOperators"
| "getFilterOperators VBoolean = booleanOperators"
| "getFilterOperators VSelect = selectOperators"
| "getFilterOperators VMultiSelect = multiSelectOperators"

definition getDefaultFilterOperator :: "filter_variant \<Rightarrow> filter_operator" where
  "getDefaultFilterOperator v =
     (case getFilterOperators v of
        (_, op) # _ \<Rightarrow> op
      | [] \<Rightarrow> if v = VText then ILike else Eq)"

section \<open>Filters\<close>

datatype filter_value = One string | Many "string list"

record filter_item =
  fi_id :: string
  fi_value :: "filter_value option"
  fi_variant :: filter_variant
  fi_operator :: filter_operator
  fi_filterId :: string
  fi_join :: "join_operator option"

record filter_group =
  fg_groupId :: string
  fg_join :: "join_operator option"
  fg_filters :: "filter_item list"

datatype filter_entry = Cond filter_item | Group filter_group

definition isAdvancedFilterGroup :: "filter_entry \<Rightarrow> bool" where
  "isAdvancedFilterGroup e = (case e of Group _ \<Rightarrow> True | Cond _ \<Rightarrow> False)"

definition getAdvancedFilterEntryKey :: "filter_entry \<Rightarrow> string" where
  "getAdvancedFilterEntryKey e = (case e of Group g \<Rightarrow> fg_groupId g | Cond f \<Rightarrow> fi_filterId f)"

definition countAdvancedFilterEntries :: "filter_entry list \<Rightarrow> nat" where
  "countAdvancedFilterEntries es =
     foldl (\<lambda>count e. case e of Group g \<Rightarrow> count + 1 + length (fg_filters g) | Cond _ \<Rightarrow> count + 1)
       0 es"

text \<open>\<open>x ?? y\<close>.\<close>

definition or_else :: "'a option \<Rightarrow> 'a \<Rightarrow> 'a" where
  "or_else x y = (case x of Some v \<Rightarrow> v | None \<Rightarrow> y)"

definition normalizeConditionJoinOperators ::
  "join_operator \<Rightarrow> filter_item list \<Rightarrow> filter_item list" where
  "normalizeConditionJoinOperators fallback fs =
     map (\<lambda>(i, f). if i = 0 then f\<lparr>fi_join := None\<rparr>
                   else f\<lparr>fi_join := Some (or_else (fi_join f) fallback)\<rparr>)
       (List.enumerate 0 fs)"

definition normalizeAdvancedFilterJoinOperators ::
  "join_operator \<Rightarrow> filter_entry list \<Rightarrow> filter_entry list" where
  "normalizeAdvancedFilterJoinOperators fallback es =
     map (\<lambda>(i, e). case e of
            Group g \<Rightarrow>
              (let g' = g\<lparr>fg_filters := normalizeConditionJoinOperators fallback (fg_filters g)\<rparr>
               in if i = 0 then Group (g'\<lparr>fg_join := None\<rparr>)
                  else Group (g'\<lparr>fg_join := Some (or_else (fg_join g) fallback)\<rparr>))
          | Cond f \<Rightarrow>
              if i = 0 then Cond (f\<lparr>fi_join := None\<rparr>)
              else Cond (f\<lparr>fi_join := Some (or_else (fi_join f) fallback)\<rparr>))
       (List.enumerate 0 es)"

text \<open>
  Updates are partial records: \<open>None\<close> is a field the update does not mention. A filter's
  \<open>filterId\<close> and a group's \<open>groupId\<close> and \<open>type\<close> cannot be updated.
\<close>

record filter_update =
  fu_id :: "string option"
  fu_value :: "filter_value option"
  fu_variant :: "filter_variant option"
  fu_operator :: "filter_operator option"
  fu_join :: "join_operator option"

definition apply_filter_update :: "filter_update \<Rightarrow> filter_item \<Rightarrow> filter_item" where
  "apply_filter_update u f =
     f\<lparr>fi_id := or_else (fu_id u) (fi_id f),
       fi_value := (if fu_value u = None then fi_value f else fu_value u),
       fi_variant := or_else (fu_variant u) (fi_variant f),
       fi_operator := or_else (fu_operator u) (fi_operator f),
       fi_join := (if fu_join u = None then fi_join f else fu_join u)\<rparr>"

record group_update =
  gu_join :: "join_operator option"
  gu_filters :: "filter_item list option"

definition apply_group_update :: "group_update \<Rightarrow> filter_group \<Rightarrow> filter_group" where
  "apply_group_update u g =
     g\<lparr>fg_join := (if gu_join u = None then fg_join g else gu_join u),
       fg_filters := or_else (gu_filters u) (fg_filters g)\<rparr>"

definition updateFilterInEntries ::
  "string \<Rightarrow> filter_update \<Rightarrow> filter_entry list \<Rightarrow> filter_entry list" where
  "updateFilterInEntries fid upd es =
     map (\<lambda>e. case e of
            Group g \<Rightarrow> Group (g\<lparr>fg_filters :=
              map (\<lambda>f. if fi_filterId f = fid then apply_filter_update upd f else f) (fg_filters g)\<rparr>)
          | Cond f \<Rightarrow> if fi_filterId f = fid then Cond (apply_filter_update upd f) else Cond f) es"

fun removeFilterFromEntries :: "string \<Rightarrow> filter_entry list \<Rightarrow> filter_entry list" where
  "removeFilterFromEntries fid [] = []"
| "removeFilterFromEntries fid (Group g # es) =
     (let fs = filter (\<lambda>f. fi_filterId f \<noteq> fid) (fg_filters g) in
      if fs = [] then removeFilterFromEntries fid es
      else Group (g\<lparr>fg_filters := fs\<rparr>) # removeFilterFromEntries fid es)"
| "removeFilterFromEntries fid (Cond f # es) =
     (if fi_filterId f = fid then removeFilterFromEntries fid es
      else Cond f # removeFilterFromEntries fid es)"

definition updateGroupInEntries ::
  "string \<Rightarrow> group_update \<Rightarrow> filter_entry list \<Rightarrow> filter_entry list" where
  "updateGroupInEntries gid upd es =
     map (\<lambda>e. case e of
            Group g \<Rightarrow> if fg_groupId g = gid then Group (apply_group_update upd g) else e
          | Cond _ \<Rightarrow> e) es"

definition removeGroupFromEntries :: "string \<Rightarrow> filter_entry list \<Rightarrow> filter_entry list" where
  "removeGroupFromEntries gid es =
     filter (\<lambda>e. \<not> (case e of Group g \<Rightarrow> fg_groupId g = gid | Cond _ \<Rightarrow> False)) es"

definition addFilterToGroup ::
  "string \<Rightarrow> filter_item \<Rightarrow> filter_entry list \<Rightarrow> filter_entry list" where
  "addFilterToGroup gid f es =
     map (\<lambda>e. case e of
            Group g \<Rightarrow> if fg_groupId g \<noteq> gid then e
                       else Group (g\<lparr>fg_filters := fg_filters g @ [f]\<rparr>)
          | Cond _ \<Rightarrow> e) es"

text \<open>
  A column as the panel sees it: its id and the variant of its metadata. Fresh ids come from
  \<open>generateId\<close>, one argument per call, in call order.
\<close>

definition createDefaultGroupFilter ::
  "string \<Rightarrow> filter_variant option \<Rightarrow> string \<Rightarrow> filter_item" where
  "createDefaultGroupFilter col v freshId =
     (let variant = or_else v VText in
      \<lparr>fi_id = col, fi_value = Some (One []), fi_variant = variant,
       fi_operator = getDefaultFilterOperator variant, fi_filterId = freshId, fi_join = None\<rparr>)"

definition createDefaultAdvancedFilterGroup ::
  "string \<Rightarrow> filter_variant option \<Rightarrow> string \<Rightarrow> string \<Rightarrow> join_operator option \<Rightarrow> filter_group" where
  "createDefaultAdvancedFilterGroup col v groupId filterId j =
     \<lparr>fg_groupId = groupId, fg_join = j,
      fg_filters = [createDefaultGroupFilter col v filterId]\<rparr>"

definition getLastRemovableFilterId :: "filter_entry list \<Rightarrow> string option" where
  "getLastRemovableFilterId es =
     (if es = [] then None
      else case last es of
        Group g \<Rightarrow> (if fg_filters g = [] then Some (fg_groupId g)
                    else Some (fi_filterId (last (fg_filters g))))
      | Cond f \<Rightarrow> Some (fi_filterId f))"

fun flattenAdvancedFilterConditions :: "filter_entry list \<Rightarrow> filter_item list" where
  "flattenAdvancedFilterConditions [] = []"
| "flattenAdvancedFilterConditions (Group g # es) =
     fg_filters g @ flattenAdvancedFilterConditions es"
| "flattenAdvancedFilterConditions (Cond f # es) = f # flattenAdvancedFilterConditions es"

section \<open>Complete conditions\<close>

definition valueless :: "filter_operator \<Rightarrow> bool" where
  "valueless op \<longleftrightarrow> op = IsEmpty \<or> op = IsNotEmpty"

definition has_value :: "filter_value option \<Rightarrow> bool" where
  "has_value v = (case v of None \<Rightarrow> False | Some (One s) \<Rightarrow> s \<noteq> [] | Some (Many xs) \<Rightarrow> xs \<noteq> [])"

definition getValidFilters :: "filter_item list \<Rightarrow> filter_item list" where
  "getValidFilters fs = filter (\<lambda>f. valueless (fi_operator f) \<or> has_value (fi_value f)) fs"

definition getValidAdvancedFilterEntries :: "filter_entry list \<Rightarrow> filter_entry list" where
  "getValidAdvancedFilterEntries es =
     foldl (\<lambda>acc e. case e of
              Group g \<Rightarrow>
                (let valid = getValidFilters (fg_filters g) in
                 if valid = [] then acc else acc @ [Group (g\<lparr>fg_filters := valid\<rparr>)])
            | Cond f \<Rightarrow>
                if valueless (fi_operator f) \<or> has_value (fi_value f) then acc @ [Cond f] else acc)
       [] es"

section \<open>The filter panel\<close>

text \<open>
  What the panel of \<open>data-table-filter-list.tsx\<close> does to the list: the column is the first
  filterable one, \<open>AddToGroup\<close> reads the group's current filters, the two remove shortcuts are
  \<open>RemoveLast\<close>, and a drag leaves a permutation.
\<close>

record panel_column =
  pc_id :: string
  pc_variant :: "filter_variant option"

datatype panel_event =
    FilterAdd panel_column string
  | GroupAdd panel_column string string
  | FilterUpdate string filter_update
  | FilterRemove string
  | GroupJoin string join_operator
  | GroupRemove string
  | AddToGroup string panel_column string
  | FiltersReset
  | RemoveLast
  | Reorder "filter_entry list"

definition group_filters :: "string \<Rightarrow> filter_entry list \<Rightarrow> filter_item list" where
  "group_filters gid es = concat (map (\<lambda>e. case e of
       Group g \<Rightarrow> if fg_groupId g = gid then fg_filters g else []
     | Cond _ \<Rightarrow> []) es)"

fun panel_step :: "panel_event \<Rightarrow> filter_entry list \<Rightarrow> filter_entry list" where
  "panel_step (FilterAdd c i) es =
     es @ [Cond ((createDefaultGroupFilter (pc_id c) (pc_variant c) i)
       \<lparr>fi_join := (if es \<noteq> [] then Some JoinAnd else None)\<rparr>)]"
| "panel_step (GroupAdd c g i) es =
     es @ [Group (createDefaultAdvancedFilterGroup (pc_id c) (pc_variant c) g i
       (if es \<noteq> [] then Some JoinAnd else None))]"
| "panel_step (FilterUpdate i u) es = updateFilterInEntries i u es"
| "panel_step (FilterRemove i) es = removeFilterFromEntries i es"
| "panel_step (GroupJoin g j) es =
     updateGroupInEntries g \<lparr>gu_join = Some j, gu_filters = None\<rparr> es"
| "panel_step (GroupRemove g) es = removeGroupFromEntries g es"
| "panel_step (AddToGroup g c i) es =
     addFilterToGroup g ((createDefaultGroupFilter (pc_id c) (pc_variant c) i)
       \<lparr>fi_join := (if group_filters g es \<noteq> [] then Some JoinAnd else None)\<rparr>) es"
| "panel_step FiltersReset es = []"
| "panel_step RemoveLast es =
     (case getLastRemovableFilterId es of
        None \<Rightarrow> es
      | Some i \<Rightarrow> if i \<noteq> [] then removeFilterFromEntries i es else es)"
| "panel_step (Reorder es') es = es'"

text \<open>Every id in the list, those of groups and those of conditions.\<close>

definition ids_of :: "filter_entry \<Rightarrow> string list" where
  "ids_of e = (case e of Group g \<Rightarrow> fg_groupId g # map fi_filterId (fg_filters g)
                       | Cond f \<Rightarrow> [fi_filterId f])"

definition entry_ids :: "filter_entry list \<Rightarrow> string list" where
  "entry_ids es = concat (map ids_of es)"

text \<open>\<open>generateId\<close> returns an id not in use, and a drag only reorders.\<close>

fun panel_ok :: "panel_event \<Rightarrow> filter_entry list \<Rightarrow> bool" where
  "panel_ok (FilterAdd c i) es = (i \<noteq> [] \<and> i \<notin> set (entry_ids es))"
| "panel_ok (GroupAdd c g i) es =
     (i \<noteq> [] \<and> g \<noteq> [] \<and> g \<noteq> i \<and> {g, i} \<inter> set (entry_ids es) = {})"
| "panel_ok (AddToGroup g c i) es = (i \<noteq> [] \<and> i \<notin> set (entry_ids es))"
| "panel_ok (Reorder es') es = (mset es' = mset es)"
| "panel_ok _ es = True"

section \<open>Facts\<close>

named_theorems filter_simps \<open>unfoldings of the entry operations\<close>

declare isAdvancedFilterGroup_def [filter_simps] or_else_def [filter_simps]
  updateFilterInEntries_def [filter_simps] updateGroupInEntries_def [filter_simps]
  addFilterToGroup_def [filter_simps]

definition entry_join :: "filter_entry \<Rightarrow> join_operator option" where
  "entry_join e = (case e of Group g \<Rightarrow> fg_join g | Cond f \<Rightarrow> fi_join f)"

definition entry_conditions :: "filter_entry \<Rightarrow> filter_item list" where
  "entry_conditions e = (case e of Group g \<Rightarrow> fg_filters g | Cond f \<Rightarrow> [f])"

definition no_empty_group :: "filter_entry list \<Rightarrow> bool" where
  "no_empty_group es \<longleftrightarrow> (\<forall>g. Group g \<in> set es \<longrightarrow> fg_filters g \<noteq> [])"

text \<open>The shape a query builder expects: a join operator before every element but the first.\<close>

definition joined :: "join_operator option list \<Rightarrow> bool" where
  "joined js \<longleftrightarrow> js = [] \<or> (hd js = None \<and> None \<notin> set (tl js))"

definition well_joined :: "filter_entry list \<Rightarrow> bool" where
  "well_joined es \<longleftrightarrow> joined (map entry_join es) \<and>
     (\<forall>g. Group g \<in> set es \<longrightarrow> joined (map fi_join (fg_filters g)))"

lemma flatten_concat: "flattenAdvancedFilterConditions es = concat (map entry_conditions es)"
  by (induction es rule: flattenAdvancedFilterConditions.induct)
    (simp_all add: entry_conditions_def)

lemma filter_item_id:
  "fi_join f = j \<Longrightarrow> f\<lparr>fi_join := j\<rparr> = f"
  by (cases f) simp

lemma filter_group_id:
  "fg_join g = j \<Longrightarrow> fg_filters g = fs \<Longrightarrow> g\<lparr>fg_filters := fs, fg_join := j\<rparr> = g"
  by (cases g) simp

text \<open>Normalising a list with a position-dependent map: the head and the rest.\<close>

lemma enumerate_head_rest:
  "map (\<lambda>(i, x). if i = 0 then h x else r x) (List.enumerate 0 (x # xs)) = h x # map r xs"
proof -
  have "map (\<lambda>(i, x). if i = 0 then h x else r x) (List.enumerate (Suc n) xs) = map r xs" for n
    by (induction xs arbitrary: n) auto
  then show ?thesis by simp
qed

lemma normalize_conditions_Cons:
  "normalizeConditionJoinOperators fb (f # fs) =
     f\<lparr>fi_join := None\<rparr> # map (\<lambda>f. f\<lparr>fi_join := Some (or_else (fi_join f) fb)\<rparr>) fs"
  unfolding normalizeConditionJoinOperators_def by (rule enumerate_head_rest)

lemma normalize_conditions_Nil [simp]: "normalizeConditionJoinOperators fb [] = []"
  by (simp add: normalizeConditionJoinOperators_def)

definition norm_entry :: "join_operator \<Rightarrow> join_operator option \<Rightarrow> filter_entry \<Rightarrow> filter_entry" where
  "norm_entry fb j e = (case e of
       Group g \<Rightarrow> Group (g\<lparr>fg_filters := normalizeConditionJoinOperators fb (fg_filters g),
                          fg_join := j\<rparr>)
     | Cond f \<Rightarrow> Cond (f\<lparr>fi_join := j\<rparr>))"

lemma normalize_entries_Cons:
  "normalizeAdvancedFilterJoinOperators fb (e # es) =
     norm_entry fb None e # map (\<lambda>e. norm_entry fb (Some (or_else (entry_join e) fb)) e) es"
proof -
  have "normalizeAdvancedFilterJoinOperators fb xs =
      map (\<lambda>(i, e). if i = 0 then norm_entry fb None e
                    else norm_entry fb (Some (or_else (entry_join e) fb)) e)
        (List.enumerate 0 xs)" for xs
    unfolding normalizeAdvancedFilterJoinOperators_def norm_entry_def
    by (rule map_cong) (auto simp: entry_join_def Let_def split: filter_entry.splits)
  then show ?thesis by (simp only: enumerate_head_rest)
qed

lemma normalize_entries_Nil [simp]: "normalizeAdvancedFilterJoinOperators fb [] = []"
  by (simp add: normalizeAdvancedFilterJoinOperators_def)

lemma joined_conditions: "joined (map fi_join (normalizeConditionJoinOperators fb fs))"
  by (cases fs) (auto simp: normalize_conditions_Cons joined_def)

lemma normalize_conditions_fixed:
  "joined (map fi_join fs) \<Longrightarrow> normalizeConditionJoinOperators fb fs = fs"
proof (cases fs)
  case (Cons f fs')
  assume j: "joined (map fi_join fs)"
  have "\<exists>j. fi_join x = Some j" if "x \<in> set fs'" for x
    using that j Cons by (force simp: joined_def)
  then have "map (\<lambda>f. f\<lparr>fi_join := Some (or_else (fi_join f) fb)\<rparr>) fs' = fs'"
    by (intro map_idI) (fastforce simp: or_else_def intro!: filter_item_id)
  then show ?thesis using j Cons by (simp add: normalize_conditions_Cons joined_def filter_item_id)
qed simp

lemma entry_join_norm [simp]: "entry_join (norm_entry fb j e) = j"
  by (cases e) (simp_all add: entry_join_def norm_entry_def)

lemma norm_entry_Group:
  "Group g = norm_entry fb j e \<Longrightarrow> joined (map fi_join (fg_filters g))"
  by (cases e) (auto simp: norm_entry_def joined_conditions)

lemma well_joined_normalize: "well_joined (normalizeAdvancedFilterJoinOperators fb es)"
proof (cases es)
  case (Cons e es')
  let ?r = "\<lambda>e. norm_entry fb (Some (or_else (entry_join e) fb)) e"
  have "joined (map entry_join (norm_entry fb None e # map ?r es'))"
    by (auto simp: joined_def)
  moreover have "joined (map fi_join (fg_filters g))"
    if "Group g \<in> set (norm_entry fb None e # map ?r es')" for g
    using that by (auto intro: norm_entry_Group)
  ultimately show ?thesis
    by (simp only: Cons normalize_entries_Cons well_joined_def) blast
qed (simp add: well_joined_def joined_def)

lemma norm_entry_fixed:
  assumes "entry_join e = j" "\<And>g. e = Group g \<Longrightarrow> joined (map fi_join (fg_filters g))"
  shows "norm_entry fb j e = e"
  using assms
  by (cases e) (auto simp: norm_entry_def entry_join_def normalize_conditions_fixed
      filter_item_id filter_group_id)

lemma normalize_well_joined:
  assumes "well_joined es"
  shows "normalizeAdvancedFilterJoinOperators fb es = es"
proof (cases es)
  case (Cons e es')
  have g: "joined (map fi_join (fg_filters g))" if "Group g \<in> set es" for g
    using assms that by (simp add: well_joined_def)
  have js: "entry_join e = None" "None \<notin> entry_join ` set es'"
    using assms Cons by (simp_all add: well_joined_def joined_def)
  then have j: "entry_join e = None" "\<And>x. x \<in> set es' \<Longrightarrow> \<exists>j. entry_join x = Some j"
    by (simp, metis image_eqI option.exhaust)
  have "norm_entry fb (Some (or_else (entry_join x) fb)) x = x" if "x \<in> set es'" for x
    using j(2) [OF that] g that Cons by (auto simp: or_else_def intro!: norm_entry_fixed)
  then have "map (\<lambda>e. norm_entry fb (Some (or_else (entry_join e) fb)) e) es' = es'"
    by (intro map_idI)
  moreover have "norm_entry fb None e = e"
    using j(1) g Cons by (intro norm_entry_fixed) auto
  ultimately show ?thesis using Cons by (simp add: normalize_entries_Cons)
qed simp

lemma key_norm_entry [simp]:
  "getAdvancedFilterEntryKey (norm_entry fb j e) = getAdvancedFilterEntryKey e"
  by (cases e) (simp_all add: norm_entry_def getAdvancedFilterEntryKey_def)

lemma keys_normalize:
  "map getAdvancedFilterEntryKey (normalizeAdvancedFilterJoinOperators fb es) =
     map getAdvancedFilterEntryKey es"
  by (cases es) (simp_all add: normalize_entries_Cons comp_def)

lemma flatten_remove:
  "flattenAdvancedFilterConditions (removeFilterFromEntries fid es) =
     filter (\<lambda>f. fi_filterId f \<noteq> fid) (flattenAdvancedFilterConditions es)"
  by (induction fid es rule: removeFilterFromEntries.induct) (auto simp: Let_def)

lemma no_empty_group_remove: "no_empty_group (removeFilterFromEntries fid es)"
  by (induction fid es rule: removeFilterFromEntries.induct)
    (auto simp: no_empty_group_def Let_def)

lemma remove_absent:
  assumes "no_empty_group es" "fid \<notin> fi_filterId ` set (flattenAdvancedFilterConditions es)"
  shows "removeFilterFromEntries fid es = es"
  using assms
proof (induction fid es rule: removeFilterFromEntries.induct)
  case (2 fid g es)
  then have "filter (\<lambda>f. fi_filterId f \<noteq> fid) (fg_filters g) = fg_filters g"
    by (intro filter_True) force
  with 2 show ?case by (auto simp: no_empty_group_def image_Un)
qed (auto simp: no_empty_group_def)

lemma count_sum:
  "countAdvancedFilterEntries es =
     sum_list (map (\<lambda>e. case e of Group g \<Rightarrow> Suc (length (fg_filters g)) | Cond _ \<Rightarrow> 1) es)"
proof -
  have "foldl (\<lambda>count e. case e of Group g \<Rightarrow> count + 1 + length (fg_filters g) | Cond _ \<Rightarrow> count + 1)
      n es = n + sum_list (map (\<lambda>e. case e of Group g \<Rightarrow> Suc (length (fg_filters g)) | Cond _ \<Rightarrow> 1) es)"
    for n by (induction es arbitrary: n) (auto split: filter_entry.splits)
  then show ?thesis by (simp add: countAdvancedFilterEntries_def)
qed

lemma count_remove_le:
  "countAdvancedFilterEntries (removeFilterFromEntries fid es) \<le> countAdvancedFilterEntries es"
  by (induction fid es rule: removeFilterFromEntries.induct)
    (auto simp: count_sum Let_def intro: le_trans le_SucI add_le_mono trans_le_add2)

lemma count_remove_append:
  "removeFilterFromEntries fid (xs @ ys) =
     removeFilterFromEntries fid xs @ removeFilterFromEntries fid ys"
  by (induction fid xs rule: removeFilterFromEntries.induct) (auto simp: Let_def)

lemma count_remove_last:
  assumes "es \<noteq> []" "getLastRemovableFilterId es = Some k"
  shows "countAdvancedFilterEntries (removeFilterFromEntries k es) < countAdvancedFilterEntries es"
proof -
  have "countAdvancedFilterEntries (removeFilterFromEntries k [last es]) <
      countAdvancedFilterEntries [last es]"
  proof (cases "last es")
    case (Group g)
    show ?thesis
    proof (cases "fg_filters g = []")
      case False
      then have "length (filter (\<lambda>f. fi_filterId f \<noteq> k) (fg_filters g)) < length (fg_filters g)"
        using assms Group by (intro length_filter_less [of "last (fg_filters g)"])
          (auto simp: getLastRemovableFilterId_def)
      then show ?thesis using Group by (simp add: count_sum Let_def)
    qed (use Group in \<open>simp add: count_sum\<close>)
  qed (use assms in \<open>simp add: count_sum getLastRemovableFilterId_def\<close>)
  moreover have "countAdvancedFilterEntries (removeFilterFromEntries k (butlast es)) \<le>
      countAdvancedFilterEntries (butlast es)"
    by (rule count_remove_le)
  moreover have "es = butlast es @ [last es]" using assms(1) by simp
  ultimately show ?thesis
    by (metis (no_types, lifting) count_remove_append count_sum map_append sum_list_append
        add_le_less_mono)
qed

lemma valid_entries_Cons:
  "getValidAdvancedFilterEntries es = concat (map (\<lambda>e. case e of
      Group g \<Rightarrow> (let valid = getValidFilters (fg_filters g) in
                 if valid = [] then [] else [Group (g\<lparr>fg_filters := valid\<rparr>)])
    | Cond f \<Rightarrow> map Cond (getValidFilters [f])) es)"
proof -
  have "foldl (\<lambda>acc e. case e of
        Group g \<Rightarrow> (let valid = getValidFilters (fg_filters g) in
                   if valid = [] then acc else acc @ [Group (g\<lparr>fg_filters := valid\<rparr>)])
      | Cond f \<Rightarrow> if valueless (fi_operator f) \<or> has_value (fi_value f) then acc @ [Cond f] else acc)
      acc es = acc @ concat (map (\<lambda>e. case e of
      Group g \<Rightarrow> (let valid = getValidFilters (fg_filters g) in
                 if valid = [] then [] else [Group (g\<lparr>fg_filters := valid\<rparr>)])
    | Cond f \<Rightarrow> map Cond (getValidFilters [f])) es)" for acc
    by (induction es arbitrary: acc)
      (auto simp: getValidFilters_def Let_def split: filter_entry.splits)
  then show ?thesis by (simp add: getValidAdvancedFilterEntries_def)
qed

lemma getValidFilters_idem [simp]: "getValidFilters (getValidFilters fs) = getValidFilters fs"
  by (simp add: getValidFilters_def)

lemma flatten_append:
  "flattenAdvancedFilterConditions (xs @ ys) =
     flattenAdvancedFilterConditions xs @ flattenAdvancedFilterConditions ys"
  by (simp add: flatten_concat)

lemma flatten_valid:
  "flattenAdvancedFilterConditions (getValidAdvancedFilterEntries es) =
     getValidFilters (flattenAdvancedFilterConditions es)"
  by (induction es)
    (auto simp: valid_entries_Cons flatten_append getValidFilters_def Let_def
      split: filter_entry.splits)

lemma no_empty_group_valid: "no_empty_group (getValidAdvancedFilterEntries es)"
proof -
  have "fg_filters g \<noteq> []" if "Group g \<in> set (case e of
      Group g \<Rightarrow> (let valid = getValidFilters (fg_filters g) in
                 if valid = [] then [] else [Group (g\<lparr>fg_filters := valid\<rparr>)])
    | Cond f \<Rightarrow> map Cond (getValidFilters [f]))" for g e
    using that by (cases e) (auto simp: Let_def split: if_splits)
  then show ?thesis unfolding no_empty_group_def valid_entries_Cons by auto
qed

lemma valid_entries_idem:
  "getValidAdvancedFilterEntries (getValidAdvancedFilterEntries es) =
     getValidAdvancedFilterEntries es"
  by (induction es)
    (auto simp: valid_entries_Cons getValidFilters_def Let_def split: filter_entry.splits)

section \<open>The panel keeps its invariant\<close>

definition panel_inv :: "filter_entry list \<Rightarrow> bool" where
  "panel_inv es \<longleftrightarrow> no_empty_group es \<and> distinct (entry_ids es) \<and> [] \<notin> set (entry_ids es)"

lemma entry_ids_simps [simp]:
  "entry_ids [] = []"
  "entry_ids (Group g # es) = fg_groupId g # map fi_filterId (fg_filters g) @ entry_ids es"
  "entry_ids (Cond f # es) = fi_filterId f # entry_ids es"
  "entry_ids (es @ es') = entry_ids es @ entry_ids es'"
  by (simp_all add: entry_ids_def ids_of_def)

lemma filterId_apply [simp]: "fi_filterId (apply_filter_update u f) = fi_filterId f"
  by (simp add: apply_filter_update_def)

lemma entry_ids_update_filter [simp]:
  "entry_ids (updateFilterInEntries i u es) = entry_ids es"
  by (induction es) (auto simp: updateFilterInEntries_def split: filter_entry.splits)

lemma entry_ids_join [simp]:
  "entry_ids (updateGroupInEntries g \<lparr>gu_join = j, gu_filters = None\<rparr> es) = entry_ids es"
  by (induction es)
    (auto simp: updateGroupInEntries_def apply_group_update_def or_else_def
      split: filter_entry.splits)

lemma no_empty_group_simps [simp]:
  "no_empty_group []"
  "no_empty_group (Group g # es) \<longleftrightarrow> fg_filters g \<noteq> [] \<and> no_empty_group es"
  "no_empty_group (Cond f # es) \<longleftrightarrow> no_empty_group es"
  "no_empty_group (es @ es') \<longleftrightarrow> no_empty_group es \<and> no_empty_group es'"
  by (auto simp: no_empty_group_def)

lemma no_empty_group_maps:
  "no_empty_group (updateFilterInEntries i u es) \<longleftrightarrow> no_empty_group es"
  "no_empty_group (updateGroupInEntries g \<lparr>gu_join = j, gu_filters = None\<rparr> es) \<longleftrightarrow>
     no_empty_group es"
  "no_empty_group es \<Longrightarrow> no_empty_group (addFilterToGroup g f es)"
  by (induction es)
    (auto simp: updateFilterInEntries_def updateGroupInEntries_def apply_group_update_def
      or_else_def addFilterToGroup_def split: filter_entry.splits)

lemma subseq_remove: "subseq (entry_ids (removeFilterFromEntries i es)) (entry_ids es)"
proof (induction i es rule: removeFilterFromEntries.induct)
  case (2 i g es)
  let ?fs = "filter (\<lambda>f. fi_filterId f \<noteq> i) (fg_filters g)"
  have ih: "subseq (entry_ids (removeFilterFromEntries i es)) (entry_ids es)"
    using 2 by (cases "?fs = []") auto
  have "subseq (map fi_filterId ?fs @ entry_ids (removeFilterFromEntries i es))
          (map fi_filterId (fg_filters g) @ entry_ids es)"
    by (intro list_emb_append_mono subseq_map ih) auto
  moreover have "subseq (entry_ids (removeFilterFromEntries i es)) (xs @ entry_ids es)" for xs
    using ih by (rule list_emb_append2)
  ultimately show ?case
    by (cases "?fs = []") (auto simp: Let_def list_emb_Cons)
qed auto

lemma subseq_remove_group: "subseq (entry_ids (removeGroupFromEntries g es)) (entry_ids es)"
proof (induction es)
  case (Cons e es)
  then have "subseq (xs @ entry_ids (removeGroupFromEntries g es)) (xs @ entry_ids es)"
    "subseq (entry_ids (removeGroupFromEntries g es)) (xs @ entry_ids es)" for xs
    by (auto intro: list_emb_append_mono list_emb_append2)
  from this(1) [of "ids_of e"] this(2) [of "ids_of e"] show ?case
    by (cases e) (auto simp: removeGroupFromEntries_def ids_of_def)
qed (simp add: removeGroupFromEntries_def)

lemma panel_inv_subseq:
  "panel_inv es \<Longrightarrow> no_empty_group es' \<Longrightarrow> subseq (entry_ids es') (entry_ids es) \<Longrightarrow> panel_inv es'"
  unfolding panel_inv_def
  by (auto simp: subseq_conv_nths dest: in_set_nthsD intro: distinct_nthsI)

lemma addFilterToGroup_absent:
  "g \<notin> set (entry_ids es) \<Longrightarrow> addFilterToGroup g f es = es"
  by (induction es) (auto simp: addFilterToGroup_def split: filter_entry.splits)

lemma mset_ids_add:
  "distinct (entry_ids es) \<Longrightarrow>
   mset (entry_ids (addFilterToGroup g f es)) \<subseteq># add_mset (fi_filterId f) (mset (entry_ids es))"
proof (induction es)
  case (Cons e es)
  show ?case
  proof (cases "\<exists>h. e = Group h \<and> fg_groupId h = g")
    case True
    then obtain h where h: "e = Group h" "fg_groupId h = g" by blast
    then have "addFilterToGroup g f es = es"
      using Cons.prems by (intro addFilterToGroup_absent) auto
    then show ?thesis using h by (simp add: addFilterToGroup_def)
  next
    case False
    then have "addFilterToGroup g f (e # es) = e # addFilterToGroup g f es"
      by (auto simp: addFilterToGroup_def split: filter_entry.splits)
    moreover have "mset (ids_of e) + mset (entry_ids (addFilterToGroup g f es)) \<subseteq>#
        mset (ids_of e) + add_mset (fi_filterId f) (mset (entry_ids es))"
      using Cons by (intro mset_subset_eq_mono_add) (auto simp: entry_ids_def)
    ultimately show ?thesis by (simp add: entry_ids_def)
  qed
qed (simp add: addFilterToGroup_def)

lemma distinct_mset_subset: "mset xs \<subseteq># mset ys \<Longrightarrow> distinct ys \<Longrightarrow> distinct xs"
proof -
  assume sub: "mset xs \<subseteq># mset ys" and d: "distinct ys"
  have "count (mset xs) a = (if a \<in> set xs then 1 else 0)" for a
  proof (cases "a \<in> set xs")
    case True
    have "count (mset xs) a \<le> count (mset ys) a" using sub by (rule mset_subset_eq_count)
    also have "\<dots> \<le> 1" using d by (simp add: distinct_count_atmost_1)
    finally show ?thesis using True
      by (simp add: le_Suc_eq count_mset_0_iff)
  qed (simp add: count_mset_0_iff)
  then show ?thesis by (simp add: distinct_count_atmost_1)
qed

lemma panel_inv_add:
  assumes "panel_inv es" "fi_filterId f \<noteq> []" "fi_filterId f \<notin> set (entry_ids es)"
  shows "panel_inv (addFilterToGroup g f es)"
proof -
  have "mset (entry_ids (addFilterToGroup g f es)) \<subseteq># mset (fi_filterId f # entry_ids es)"
    using mset_ids_add assms(1) by (simp add: panel_inv_def)
  then have "distinct (entry_ids (addFilterToGroup g f es))"
    "set (entry_ids (addFilterToGroup g f es)) \<subseteq> set (fi_filterId f # entry_ids es)"
    using assms distinct_mset_subset [of _ "fi_filterId f # entry_ids es"] set_mset_mono
    by (force simp: panel_inv_def simp del: mset.simps)+
  then show ?thesis using assms by (auto simp: panel_inv_def no_empty_group_maps)
qed

lemma mset_entry_ids: "mset es' = mset es \<Longrightarrow> mset (entry_ids es') = mset (entry_ids es)"
  by (simp add: entry_ids_def mset_concat flip: sum_mset_sum_list mset_map) (simp add: image_mset.compositionality)

lemma panel_inv_reorder:
  assumes "panel_inv es" "mset es' = mset es"
  shows "panel_inv es'"
proof -
  have "set es' = set es" using assms(2) by (metis set_mset_mset)
  moreover have "mset (entry_ids es') = mset (entry_ids es)" by (rule mset_entry_ids [OF assms(2)])
  ultimately show ?thesis using assms(1) unfolding panel_inv_def no_empty_group_def
    by (metis distinct_mset_subset set_mset_mset subset_mset.order_refl)
qed

lemma filterId_default [simp]: "fi_filterId (createDefaultGroupFilter c v i) = i"
  by (simp add: createDefaultGroupFilter_def Let_def)

lemma panel_step_inv:
  assumes "panel_inv es" "panel_ok e es"
  shows "panel_inv (panel_step e es)"
  using assms
proof (cases e)
  case (FilterRemove i)
  then show ?thesis using assms
    by (auto intro: panel_inv_subseq no_empty_group_remove subseq_remove)
next
  case (GroupRemove g)
  have "no_empty_group (removeGroupFromEntries g es)"
    using assms by (auto simp: panel_inv_def no_empty_group_def removeGroupFromEntries_def)
  with GroupRemove show ?thesis using assms
    by (auto intro: panel_inv_subseq subseq_remove_group)
next
  case RemoveLast
  then show ?thesis using assms
    by (auto intro: panel_inv_subseq no_empty_group_remove subseq_remove split: option.splits)
next
  case (AddToGroup g c i)
  then show ?thesis using assms by (auto intro!: panel_inv_add)
next
  case (Reorder es')
  then show ?thesis using assms by (auto intro: panel_inv_reorder)
qed (auto simp: panel_inv_def no_empty_group_maps createDefaultAdvancedFilterGroup_def)

interpretation panel: guarded_machine panel_step panel_ok panel_inv
  by unfold_locales (rule panel_step_inv)

lemma add_then_remove:
  assumes "no_empty_group es" "fi_filterId f \<notin> set (entry_ids es)"
  shows "removeFilterFromEntries (fi_filterId f) (addFilterToGroup g f es) = es"
  using assms
proof (induction es)
  case (Cons e es)
  then have ih: "removeFilterFromEntries (fi_filterId f) (addFilterToGroup g f es) = es"
    by (cases e) auto
  show ?case
  proof (cases e)
    case (Group h)
    have "filter (\<lambda>x. fi_filterId x \<noteq> fi_filterId f) (fg_filters h) = fg_filters h"
      using Cons.prems Group by (intro filter_True) (auto simp: image_iff)
    then show ?thesis using Group Cons.prems ih by (auto simp: addFilterToGroup_def Let_def)
  qed (use Cons.prems ih in \<open>auto simp: addFilterToGroup_def\<close>)
qed (simp add: addFilterToGroup_def)

lemma last_removable_id:
  "es \<noteq> [] \<Longrightarrow> \<exists>i. getLastRemovableFilterId es = Some i \<and> i \<in> set (entry_ids es)"
  by (cases es rule: rev_cases)
    (auto simp: getLastRemovableFilterId_def split: filter_entry.splits)

section \<open>Properties\<close>

definition demo_filter :: "string \<Rightarrow> filter_item" where
  "demo_filter i = \<lparr>fi_id = ''name'', fi_value = Some (One ''x''), fi_variant = VText,
     fi_operator = ILike, fi_filterId = i, fi_join = None\<rparr>"

definition demo_events :: "panel_event list" where
  "demo_events =
     [FilterAdd \<lparr>pc_id = ''name'', pc_variant = None\<rparr> ''a'',
      GroupAdd \<lparr>pc_id = ''size'', pc_variant = Some VNumber\<rparr> ''g'' ''b'',
      AddToGroup ''g'' \<lparr>pc_id = ''name'', pc_variant = None\<rparr> ''c'',
      FilterRemove ''b'', RemoveLast]"

text \<open>C26: Whatever the user does in the filter panel, starting from no filter, no group is ever
  left without a condition (which the URL schema would reject on reload) and no two elements
  share an id, so every edit addresses one element.\<close>

theorem panel_reachable_wf:
  assumes "admissible panel_ok panel_step evs []"
  shows "no_empty_group (fold panel_step evs []) \<and> distinct (entry_ids (fold panel_step evs []))"
proof -
  have "panel_inv []" by (simp add: panel_inv_def)
  then have "panel_inv (fold panel_step evs [])" using assms by (rule panel.run_inv)
  then show ?thesis by (simp add: panel_inv_def)
qed

lemma demo_events_ok: "admissible panel_ok panel_step demo_events []"
  by code_simp

theorem panel_reachable_wf_witness:
  "no_empty_group (fold panel_step demo_events []) \<and>
   map getAdvancedFilterEntryKey (fold panel_step demo_events []) = [''a'']"
proof
  show "no_empty_group (fold panel_step demo_events [])"
    using panel_reachable_wf [OF demo_events_ok] by (rule conjunct1)
  show "map getAdvancedFilterEntryKey (fold panel_step demo_events []) = [''a'']"
    by code_simp
qed

text \<open>Pressing the remove shortcut in a reachable panel always removes something, so
  pressing it often enough empties the panel.\<close>

theorem remove_shortcut_progress:
  assumes "admissible panel_ok panel_step evs []" and "fold panel_step evs [] \<noteq> []"
  shows "countAdvancedFilterEntries (panel_step RemoveLast (fold panel_step evs []))
           < countAdvancedFilterEntries (fold panel_step evs [])"
proof -
  let ?es = "fold panel_step evs []"
  have inv: "panel_inv ?es"
    using assms(1) by (rule panel.run_inv [rotated]) (simp add: panel_inv_def)
  obtain i where i: "getLastRemovableFilterId ?es = Some i" "i \<in> set (entry_ids ?es)"
    using last_removable_id [OF assms(2)] by blast
  then have "i \<noteq> []" using inv by (auto simp: panel_inv_def)
  then show ?thesis using i assms(2) by (simp add: count_remove_last)
qed

theorem remove_shortcut_progress_witness:
  "countAdvancedFilterEntries (panel_step RemoveLast (fold panel_step (take 3 demo_events) []))
     < countAdvancedFilterEntries (fold panel_step (take 3 demo_events) [])"
  by (rule remove_shortcut_progress; code_simp)

text \<open>Normalising join operators leaves none before the first element and one before every
  other, at the top and inside every group; it keeps the elements and their order, and
  normalising again, with whatever fallback, changes nothing.\<close>

theorem normalize_join_operators:
  "well_joined (normalizeAdvancedFilterJoinOperators fb es) \<and>
   normalizeAdvancedFilterJoinOperators fb' (normalizeAdvancedFilterJoinOperators fb es) =
     normalizeAdvancedFilterJoinOperators fb es \<and>
   map getAdvancedFilterEntryKey (normalizeAdvancedFilterJoinOperators fb es) =
     map getAdvancedFilterEntryKey es"
  by (simp add: well_joined_normalize normalize_well_joined keys_normalize)

text \<open>Removing a condition removes exactly the conditions of that id from the flattened
  query and leaves no empty group behind.\<close>

theorem remove_filter_law:
  "flattenAdvancedFilterConditions (removeFilterFromEntries fid es) =
     filter (\<lambda>f. fi_filterId f \<noteq> fid) (flattenAdvancedFilterConditions es) \<and>
   no_empty_group (removeFilterFromEntries fid es)"
  by (simp add: flatten_remove no_empty_group_remove)

text \<open>Adding a condition of a fresh id to a group and removing it again restores the
  list.\<close>

theorem add_remove_roundtrip:
  assumes "no_empty_group es" and "fi_filterId f \<notin> set (entry_ids es)"
  shows "removeFilterFromEntries (fi_filterId f) (addFilterToGroup gid f es) = es"
  using assms by (rule add_then_remove)

theorem add_remove_roundtrip_witness:
  "let es = [Cond (demo_filter ''a''),
             Group \<lparr>fg_groupId = ''g'', fg_join = Some JoinOr, fg_filters = [demo_filter ''b'']\<rparr>]
   in addFilterToGroup ''g'' (demo_filter ''c'') es \<noteq> es \<and>
      removeFilterFromEntries (fi_filterId (demo_filter ''c''))
        (addFilterToGroup ''g'' (demo_filter ''c'') es) = es"
  unfolding Let_def
  by (rule conjI, code_simp)
    (rule add_remove_roundtrip; simp add: demo_filter_def)

text \<open>The entries sent to the server are the complete conditions, in order, with no empty
  group; filtering twice is filtering once.\<close>

theorem valid_entries_law:
  "flattenAdvancedFilterConditions (getValidAdvancedFilterEntries es) =
     getValidFilters (flattenAdvancedFilterConditions es) \<and>
   no_empty_group (getValidAdvancedFilterEntries es) \<and>
   getValidAdvancedFilterEntries (getValidAdvancedFilterEntries es) =
     getValidAdvancedFilterEntries es"
  by (simp add: flatten_valid no_empty_group_valid valid_entries_idem)

end
