(* ===== verification/Table_Url.thy ===== *)
theory Table_Url
  imports Table_Filters
begin

text \<open>
  Table state in the page's URL, \<open>components/datatable/lib/filter-schema.ts\<close> and \<open>parsers.ts\<close>:
  the schemas of sort items and filter entries, and the parsers that read them from the text of a
  query parameter. The schemas are the values the source builds; what the package zod does with a
  schema is the parameter \<open>safeParse\<close> of the locale below, which states its documented behaviour
  and is instantiated by a function that has it.
\<close>

section \<open>Schemas\<close>

text \<open>A field of an object schema is marked optional or not.\<close>

datatype zschema =
    ZString
  | ZBoolean
  | ZEnum "string list"
  | ZLiteral string
  | ZArray nat zschema
  | ZUnion zschema zschema
  | ZObject "(string \<times> zschema \<times> bool) list"

definition filterVariants :: "filter_variant list" where
  "filterVariants = [VText, VNumber, VRange, VDate, VDateRange, VBoolean, VSelect, VMultiSelect]"

definition operators :: "filter_operator list" where
  "operators = [ILike, NotILike, Eq, Ne, InArray, NotInArray, IsEmpty, IsNotEmpty, Lt, Lte, Gt, Gte,
     IsBetween, IsRelativeToToday]"

definition joinOperators :: "join_operator list" where "joinOperators = [JoinAnd, JoinOr]"

definition sortingItemSchema :: zschema where
  "sortingItemSchema = ZObject [(''id'', ZString, False), (''desc'', ZBoolean, False)]"

definition joinOperatorSchema :: zschema where
  "joinOperatorSchema = ZEnum (map join_name joinOperators)"

definition filterConditionSchema :: zschema where
  "filterConditionSchema = ZObject
     [(''id'', ZString, False),
      (''value'', ZUnion ZString (ZArray 0 ZString), True),
      (''variant'', ZEnum (map variant_name filterVariants), False),
      (''operator'', ZEnum (map operator_name operators), False),
      (''filterId'', ZString, False),
      (''joinOperator'', joinOperatorSchema, True)]"

definition filterGroupSchema :: zschema where
  "filterGroupSchema = ZObject
     [(''type'', ZLiteral ''group'', False),
      (''groupId'', ZString, False),
      (''joinOperator'', joinOperatorSchema, True),
      (''filters'', ZArray 1 filterConditionSchema, False)]"

definition filterEntrySchema :: zschema where
  "filterEntrySchema = ZUnion filterGroupSchema filterConditionSchema"

section \<open>What zod promises\<close>

text \<open>The fields of an object schema, in its order; an absent optional field is left out.\<close>

fun zod_fields :: "(zschema \<Rightarrow> jv \<Rightarrow> jv option) \<Rightarrow> (string \<times> zschema \<times> bool) list \<Rightarrow> obj \<Rightarrow> obj option" where
  "zod_fields parse [] b = Some []"
| "zod_fields parse ((k, s, optional) # shape) b =
     (case map_of b k of
        None \<Rightarrow> if optional then zod_fields parse shape b else None
      | Some v \<Rightarrow> (case parse s v of
            None \<Rightarrow> None
          | Some w \<Rightarrow> map_option (Cons (k, w)) (zod_fields parse shape b)))"

locale zod_parser =
  fixes safeParse :: "zschema \<Rightarrow> jv \<Rightarrow> jv option"
  assumes parse_string: "safeParse ZString v = (case v of JStr s \<Rightarrow> Some v | _ \<Rightarrow> None)"
    and parse_boolean: "safeParse ZBoolean v = (case v of JBool b \<Rightarrow> Some v | _ \<Rightarrow> None)"
    and parse_enum: "safeParse (ZEnum ns) v =
      (case v of JStr s \<Rightarrow> if s \<in> set ns then Some v else None | _ \<Rightarrow> None)"
    and parse_literal: "safeParse (ZLiteral l) v =
      (case v of JStr s \<Rightarrow> if s = l then Some v else None | _ \<Rightarrow> None)"
    and parse_array: "safeParse (ZArray n s) v =
      (case v of JArr xs \<Rightarrow> if n \<le> length xs then map_option JArr (those (map (safeParse s) xs)) else None
       | _ \<Rightarrow> None)"
    and parse_union: "safeParse (ZUnion a b) v =
      (case safeParse a v of Some x \<Rightarrow> Some x | None \<Rightarrow> safeParse b v)"
    and parse_object: "safeParse (ZObject shape) v =
      (case v of JObj b \<Rightarrow> map_option JObj (zod_fields safeParse shape b) | _ \<Rightarrow> None)"

section \<open>Parsers\<close>

text \<open>The set of valid keys, absent when no columns are given or the set is empty.\<close>

definition resolveValidColumnKeys :: "string list option \<Rightarrow> string set option" where
  "resolveValidColumnKeys columnIds =
     (case columnIds of
        None \<Rightarrow> None
      | Some ids \<Rightarrow> if ids \<noteq> [] then Some (set ids) else None)"

definition sort_id :: "jv \<Rightarrow> string option" where
  "sort_id v = (case v of JObj b \<Rightarrow> get_str b ''id'' | _ \<Rightarrow> None)"

definition getSortingStateParser ::
  "(zschema \<Rightarrow> jv \<Rightarrow> jv option) \<Rightarrow> string list option \<Rightarrow> jtext \<Rightarrow> jv list option" where
  "getSortingStateParser safeParse columnIds raw =
     (case raw of
        BadText \<Rightarrow> None
      | JText parsed \<Rightarrow>
          (case safeParse (ZArray 0 sortingItemSchema) parsed of
             Some (JArr items) \<Rightarrow>
               (case resolveValidColumnKeys columnIds of
                  None \<Rightarrow> Some items
                | Some keys \<Rightarrow>
                    if \<exists>item \<in> set items. \<not> (case sort_id item of Some i \<Rightarrow> i \<in> keys | None \<Rightarrow> False)
                    then None else Some items)
           | _ \<Rightarrow> None))"

definition getFiltersStateParser ::
  "(zschema \<Rightarrow> jv \<Rightarrow> jv option) \<Rightarrow> jtext \<Rightarrow> jv list option" where
  "getFiltersStateParser safeParse raw =
     (case raw of
        BadText \<Rightarrow> None
      | JText parsed \<Rightarrow>
          (case safeParse (ZArray 0 filterEntrySchema) parsed of
             Some (JArr entries) \<Rightarrow> Some entries
           | _ \<Rightarrow> None))"

definition serialize_state :: "jv list \<Rightarrow> jtext" where
  "serialize_state vs = stringify (JArr vs)"

text \<open>The sorting parser's equality.\<close>

definition sorting_eq :: "(string \<times> bool) list \<Rightarrow> (string \<times> bool) list \<Rightarrow> bool" where
  "sorting_eq a b \<longleftrightarrow> length a = length b \<and>
     list_all (\<lambda>(i, item). i < length b \<and> fst item = fst (b ! i) \<and> snd item = snd (b ! i))
       (List.enumerate 0 a)"

section \<open>Typed state as JSON\<close>

definition sort_jv :: "string \<times> bool \<Rightarrow> jv" where
  "sort_jv s = JObj [(''id'', JStr (fst s)), (''desc'', JBool (snd s))]"

fun value_jv :: "filter_value \<Rightarrow> jv" where
  "value_jv (One s) = JStr s"
| "value_jv (Many ss) = JArr (map JStr ss)"

definition opt_field :: "string \<Rightarrow> ('a \<Rightarrow> jv) \<Rightarrow> 'a option \<Rightarrow> obj" where
  "opt_field k f x = (case x of Some v \<Rightarrow> [(k, f v)] | None \<Rightarrow> [])"

definition condition_jv :: "filter_item \<Rightarrow> jv" where
  "condition_jv f = JObj
     ([(''id'', JStr (fi_id f))] @ opt_field ''value'' value_jv (fi_value f) @
      [(''variant'', JStr (variant_name (fi_variant f))),
       (''operator'', JStr (operator_name (fi_operator f))),
       (''filterId'', JStr (fi_filterId f))] @
      opt_field ''joinOperator'' (JStr \<circ> join_name) (fi_join f))"

definition group_jv :: "filter_group \<Rightarrow> jv" where
  "group_jv g = JObj
     ([(''type'', JStr ''group''), (''groupId'', JStr (fg_groupId g))] @
      opt_field ''joinOperator'' (JStr \<circ> join_name) (fg_join g) @
      [(''filters'', JArr (map condition_jv (fg_filters g)))])"

definition entry_jv :: "filter_entry \<Rightarrow> jv" where
  "entry_jv e = (case e of Group g \<Rightarrow> group_jv g | Cond f \<Rightarrow> condition_jv f)"

section \<open>Facts\<close>

lemma those_Some: "those xs = Some ys \<longleftrightarrow> xs = map Some ys"
  by (induction xs arbitrary: ys) (auto split: option.splits)

lemma those_all: "\<forall>x \<in> set xs. f x = Some x \<Longrightarrow> those (map f xs) = Some xs"
  by (induction xs) auto

lemma those_image:
  "those (map f xs) = Some ys \<Longrightarrow> \<forall>x \<in> set xs. \<forall>y. f x = Some y \<longrightarrow> (\<exists>a. y = g a \<and> P a) \<Longrightarrow>
   \<exists>as. ys = map g as \<and> list_all P as"
proof (induction xs arbitrary: ys)
  case (Cons x xs)
  then obtain y ys' where y: "f x = Some y" "those (map f xs) = Some ys'" "ys = y # ys'"
    by (auto split: option.splits)
  moreover obtain a where "y = g a" "P a" using Cons.prems(2) y(1) by auto
  moreover obtain as where "ys' = map g as" "list_all P as" using Cons.IH [OF y(2)] Cons.prems(2) by auto
  ultimately show ?case by (auto intro: exI [of _ "a # as"])
qed simp

lemma those_length: "those xs = Some ys \<Longrightarrow> length ys = length xs"
  by (simp add: those_Some)

lemma names_known:
  "n \<in> set (map variant_name filterVariants) \<longleftrightarrow> (\<exists>v. n = variant_name v)"
  "n \<in> set (map operator_name operators) \<longleftrightarrow> (\<exists>op. n = operator_name op)"
  "n \<in> set (map join_name joinOperators) \<longleftrightarrow> (\<exists>j. n = join_name j)"
proof -
  have "set filterVariants = UNIV" "set operators = UNIV" "set joinOperators = UNIV"
    by (auto simp: filterVariants_def operators_def joinOperators_def
        intro: filter_variant.exhaust filter_operator.exhaust join_operator.exhaust)
  then show "n \<in> set (map variant_name filterVariants) \<longleftrightarrow> (\<exists>v. n = variant_name v)"
    "n \<in> set (map operator_name operators) \<longleftrightarrow> (\<exists>op. n = operator_name op)"
    "n \<in> set (map join_name joinOperators) \<longleftrightarrow> (\<exists>j. n = join_name j)"
    by auto
qed

context zod_parser
begin

lemma parse_union_some: "safeParse (ZUnion a b) v = Some w \<Longrightarrow> safeParse a v = Some w \<or> safeParse b v = Some w"
  by (auto simp: parse_union split: option.splits)

lemma string_typed: "safeParse ZString v = Some w \<Longrightarrow> \<exists>s. w = JStr s"
  by (cases v) (auto simp: parse_string)

lemma enum_typed: "safeParse (ZEnum ns) v = Some w \<Longrightarrow> \<exists>s \<in> set ns. w = JStr s"
  by (cases v) (auto simp: parse_enum split: if_splits)

lemma string_array_typed: "safeParse (ZArray n ZString) v = Some w \<Longrightarrow> \<exists>ss. w = JArr (map JStr ss)"
proof (cases v)
  case (JArr xs)
  assume "safeParse (ZArray n ZString) v = Some w"
  then obtain ys where y: "those (map (safeParse ZString) xs) = Some ys" "w = JArr ys"
    using JArr by (auto simp: parse_array split: if_splits)
  have "\<exists>ss. ys = map JStr ss \<and> list_all (\<lambda>_. True) ss"
    using those_image [OF y(1), of JStr "\<lambda>_. True"] string_typed by blast
  then show ?thesis using y(2) by blast
qed (simp_all add: parse_array)

lemma value_typed:
  "safeParse (ZUnion ZString (ZArray 0 ZString)) v = Some w \<Longrightarrow> \<exists>x. w = value_jv x"
  using parse_union_some string_typed string_array_typed value_jv.simps by metis

lemma parse_value [simp]: "safeParse (ZUnion ZString (ZArray 0 ZString)) (value_jv x) = Some (value_jv x)"
  by (cases x) (simp_all add: parse_union parse_string parse_array those_Some)

lemma join_typed: "safeParse joinOperatorSchema v = Some w \<Longrightarrow> \<exists>j. w = JStr (join_name j)"
  unfolding joinOperatorSchema_def using enum_typed names_known(3) by blast

lemma parse_join [simp]: "safeParse joinOperatorSchema (JStr (join_name j)) = Some (JStr (join_name j))"
  using names_known(3) [of "join_name j"] by (auto simp: joinOperatorSchema_def parse_enum)

lemma parse_variant [simp]:
  "safeParse (ZEnum (map variant_name filterVariants)) (JStr (variant_name x)) = Some (JStr (variant_name x))"
  using names_known(1) [of "variant_name x"] by (auto simp: parse_enum)

lemma parse_operator [simp]:
  "safeParse (ZEnum (map operator_name operators)) (JStr (operator_name x)) = Some (JStr (operator_name x))"
  using names_known(2) [of "operator_name x"] by (auto simp: parse_enum)

text \<open>A field of an object, read in order.\<close>

lemma field_required:
  "zod_fields safeParse ((k, s, False) # shape) b = Some r \<Longrightarrow>
   \<exists>v w r'. safeParse s v = Some w \<and> zod_fields safeParse shape b = Some r' \<and> r = (k, w) # r'"
  by (auto split: option.splits)

lemma field_optional:
  "zod_fields safeParse ((k, s, True) # shape) b = Some r \<Longrightarrow>
   \<exists>r'. zod_fields safeParse shape b = Some r' \<and>
     (r = r' \<or> (\<exists>v w. safeParse s v = Some w \<and> r = (k, w) # r'))"
  by (auto split: option.splits)

lemma optional_typed:
  assumes "zod_fields safeParse ((k, s, True) # shape) b = Some r"
    and "\<And>v w. safeParse s v = Some w \<Longrightarrow> \<exists>x. w = f x"
  shows "\<exists>r' x. zod_fields safeParse shape b = Some r' \<and> r = opt_field k f x @ r'"
proof -
  obtain r' where "zod_fields safeParse shape b = Some r'"
      "r = r' \<or> (\<exists>v w. safeParse s v = Some w \<and> r = (k, w) # r')"
    using field_optional [OF assms(1)] by blast
  then have "r = opt_field k f None @ r' \<or> (\<exists>x. r = opt_field k f (Some x) @ r')"
    using assms(2) by (auto simp: opt_field_def)
  then show ?thesis using \<open>zod_fields safeParse shape b = Some r'\<close> by blast
qed

lemma condition_typed:
  assumes "safeParse filterConditionSchema v = Some w"
  shows "\<exists>f. w = condition_jv f"
proof -
  obtain b r where v: "v = JObj b" "w = JObj r"
      "zod_fields safeParse
        [(''id'', ZString, False), (''value'', ZUnion ZString (ZArray 0 ZString), True),
         (''variant'', ZEnum (map variant_name filterVariants), False),
         (''operator'', ZEnum (map operator_name operators), False),
         (''filterId'', ZString, False), (''joinOperator'', joinOperatorSchema, True)] b = Some r"
    using assms by (cases v) (auto simp: filterConditionSchema_def parse_object simp del: zod_fields.simps)
  obtain i r1 where 1: "r = (''id'', JStr i) # r1" and
      f1: "zod_fields safeParse
        [(''value'', ZUnion ZString (ZArray 0 ZString), True),
         (''variant'', ZEnum (map variant_name filterVariants), False),
         (''operator'', ZEnum (map operator_name operators), False),
         (''filterId'', ZString, False), (''joinOperator'', joinOperatorSchema, True)] b = Some r1"
    using field_required [OF v(3)] string_typed by blast
  obtain x r2 where 2: "r1 = opt_field ''value'' value_jv x @ r2" and
      f2: "zod_fields safeParse
        [(''variant'', ZEnum (map variant_name filterVariants), False),
         (''operator'', ZEnum (map operator_name operators), False),
         (''filterId'', ZString, False), (''joinOperator'', joinOperatorSchema, True)] b = Some r2"
    using optional_typed [OF f1, of value_jv] value_typed by blast
  obtain va r3 where 3: "r2 = (''variant'', JStr (variant_name va)) # r3" and
      f3: "zod_fields safeParse
        [(''operator'', ZEnum (map operator_name operators), False),
         (''filterId'', ZString, False), (''joinOperator'', joinOperatorSchema, True)] b = Some r3"
    using field_required [OF f2] enum_typed names_known(1) by blast
  obtain op r4 where 4: "r3 = (''operator'', JStr (operator_name op)) # r4" and
      f4: "zod_fields safeParse
        [(''filterId'', ZString, False), (''joinOperator'', joinOperatorSchema, True)] b = Some r4"
    using field_required [OF f3] enum_typed names_known(2) by blast
  obtain fid r5 where 5: "r4 = (''filterId'', JStr fid) # r5" and
      f5: "zod_fields safeParse [(''joinOperator'', joinOperatorSchema, True)] b = Some r5"
    using field_required [OF f4] string_typed by blast
  obtain j r6 where 6: "r5 = opt_field ''joinOperator'' (JStr \<circ> join_name) j @ r6"
      and f6: "zod_fields safeParse [] b = Some r6"
    using optional_typed [OF f5, of "JStr \<circ> join_name"] join_typed by fastforce
  have "w = condition_jv \<lparr>fi_id = i, fi_value = x, fi_variant = va, fi_operator = op,
      fi_filterId = fid, fi_join = j\<rparr>"
    using v(2) 1 2 3 4 5 6 f6 by (simp add: condition_jv_def)
  then show ?thesis by blast
qed

lemma group_typed:
  assumes "safeParse filterGroupSchema v = Some w"
  shows "\<exists>g. w = group_jv g \<and> fg_filters g \<noteq> []"
proof -
  obtain b r where v: "v = JObj b" "w = JObj r"
      "zod_fields safeParse
        [(''type'', ZLiteral ''group'', False), (''groupId'', ZString, False),
         (''joinOperator'', joinOperatorSchema, True),
         (''filters'', ZArray 1 filterConditionSchema, False)] b = Some r"
    using assms by (cases v) (auto simp: filterGroupSchema_def parse_object simp del: zod_fields.simps)
  have lit: "safeParse (ZLiteral l) x = Some y \<Longrightarrow> y = JStr l" for l x y
    by (cases x) (simp_all add: parse_literal split: if_splits)
  obtain r1 where 1: "r = (''type'', JStr ''group'') # r1" and
      f1: "zod_fields safeParse
        [(''groupId'', ZString, False), (''joinOperator'', joinOperatorSchema, True),
         (''filters'', ZArray 1 filterConditionSchema, False)] b = Some r1"
    using field_required [OF v(3)] lit by blast
  obtain i r2 where 2: "r1 = (''groupId'', JStr i) # r2" and
      f2: "zod_fields safeParse
        [(''joinOperator'', joinOperatorSchema, True),
         (''filters'', ZArray 1 filterConditionSchema, False)] b = Some r2"
    using field_required [OF f1] string_typed by blast
  obtain j r3 where 3: "r2 = opt_field ''joinOperator'' (JStr \<circ> join_name) j @ r3" and
      f3: "zod_fields safeParse [(''filters'', ZArray 1 filterConditionSchema, False)] b = Some r3"
    using optional_typed [OF f2, of "JStr \<circ> join_name"] join_typed by fastforce
  obtain x y where 4: "safeParse (ZArray 1 filterConditionSchema) x = Some y" "r3 = [(''filters'', y)]"
    using field_required [OF f3] by auto
  obtain xs ys where 5: "y = JArr ys" "1 \<le> length xs" "those (map (safeParse filterConditionSchema) xs) = Some ys"
    using 4(1) by (cases x) (auto simp: parse_array split: if_splits)
  obtain fs where "ys = map condition_jv fs"
    using those_image [OF 5(3), of condition_jv "\<lambda>_. True"] condition_typed by blast
  moreover have "fs \<noteq> []" using those_length [OF 5(3)] 5(2) calculation by auto
  moreover have "w = group_jv \<lparr>fg_groupId = i, fg_join = j, fg_filters = fs\<rparr>"
    using v(2) 1 2 3 4(2) 5(1) calculation(1) by (simp add: group_jv_def)
  ultimately show ?thesis by force
qed

lemma entry_typed:
  assumes "safeParse filterEntrySchema v = Some w"
  shows "\<exists>e. w = entry_jv e \<and> no_empty_group [e]"
proof -
  have "safeParse filterGroupSchema v = Some w \<or> safeParse filterConditionSchema v = Some w"
    using assms parse_union_some by (simp add: filterEntrySchema_def)
  then show ?thesis
  proof
    assume "safeParse filterGroupSchema v = Some w"
    then obtain g where "w = group_jv g" "fg_filters g \<noteq> []" using group_typed by blast
    then show ?thesis by (intro exI [of _ "Group g"]) (simp add: entry_jv_def no_empty_group_def)
  next
    assume "safeParse filterConditionSchema v = Some w"
    then obtain f where "w = condition_jv f" using condition_typed by blast
    then show ?thesis by (intro exI [of _ "Cond f"]) (simp add: entry_jv_def no_empty_group_def)
  qed
qed

lemma parse_condition: "safeParse filterConditionSchema (condition_jv f) = Some (condition_jv f)"
  by (cases "fi_value f"; cases "fi_join f")
    (simp_all add: filterConditionSchema_def parse_object condition_jv_def opt_field_def parse_string)

lemma parse_conditions: "those (map (safeParse filterConditionSchema \<circ> condition_jv) fs) = Some (map condition_jv fs)"
  using parse_condition by (simp add: those_Some)

lemma parse_group: "fg_filters g \<noteq> [] \<Longrightarrow> safeParse filterGroupSchema (group_jv g) = Some (group_jv g)"
  by (cases "fg_join g"; cases "fg_filters g")
    (simp_all add: filterGroupSchema_def parse_object group_jv_def opt_field_def parse_string
      parse_literal parse_array parse_condition parse_conditions)

lemma condition_no_group: "safeParse filterGroupSchema (condition_jv f) = None"
  by (cases "fi_value f"; cases "fi_join f")
    (simp_all add: filterGroupSchema_def parse_object condition_jv_def opt_field_def)

lemma parse_entry: "no_empty_group [e] \<Longrightarrow> safeParse filterEntrySchema (entry_jv e) = Some (entry_jv e)"
  by (cases e) (simp_all add: filterEntrySchema_def parse_union entry_jv_def parse_group
      parse_condition condition_no_group no_empty_group_def)

lemma filters_parser_typed:
  assumes "getFiltersStateParser safeParse raw = Some vs"
  shows "\<exists>es. vs = map entry_jv es \<and> no_empty_group es"
proof -
  obtain v xs where v: "raw = JText v" "v = JArr xs" "those (map (safeParse filterEntrySchema) xs) = Some vs"
    using assms by (auto simp: getFiltersStateParser_def parse_array split: jtext.splits option.splits
        jv.splits)
  obtain es where "vs = map entry_jv es" "list_all (\<lambda>e. no_empty_group [e]) es"
    using those_image [OF v(3), of entry_jv "\<lambda>e. no_empty_group [e]"] entry_typed by blast
  then show ?thesis by (auto simp: no_empty_group_def list_all_iff)
qed

lemma sort_item_typed: "safeParse sortingItemSchema v = Some w \<Longrightarrow> \<exists>s. w = sort_jv s"
proof (cases v)
  case (JObj b)
  assume "safeParse sortingItemSchema v = Some w"
  then show ?thesis
    using JObj
    by (auto simp: sortingItemSchema_def parse_object parse_string parse_boolean sort_jv_def
        split: option.splits jv.splits)
qed (simp_all add: sortingItemSchema_def parse_object)

lemma parse_sort: "safeParse sortingItemSchema (sort_jv s) = Some (sort_jv s)"
  by (simp add: sortingItemSchema_def parse_object parse_string parse_boolean sort_jv_def)

end

section \<open>A function with zod's documented behaviour\<close>

lemma zod_fields_cong [fundef_cong]:
  "shape = shape' \<Longrightarrow> b = b' \<Longrightarrow>
   (\<And>k s q v. (k, s, q) \<in> set shape' \<Longrightarrow> p s v = p' s v) \<Longrightarrow>
   zod_fields p shape b = zod_fields p' shape' b'"
  by (induction p shape b arbitrary: shape' b' rule: zod_fields.induct) (force split: option.splits)+

fun zod_ref :: "zschema \<Rightarrow> jv \<Rightarrow> jv option" where
  "zod_ref ZString v = (case v of JStr s \<Rightarrow> Some v | _ \<Rightarrow> None)"
| "zod_ref ZBoolean v = (case v of JBool b \<Rightarrow> Some v | _ \<Rightarrow> None)"
| "zod_ref (ZEnum ns) v = (case v of JStr s \<Rightarrow> if s \<in> set ns then Some v else None | _ \<Rightarrow> None)"
| "zod_ref (ZLiteral l) v = (case v of JStr s \<Rightarrow> if s = l then Some v else None | _ \<Rightarrow> None)"
| "zod_ref (ZArray n s) v =
     (case v of JArr xs \<Rightarrow> if n \<le> length xs then map_option JArr (those (map (zod_ref s) xs)) else None
      | _ \<Rightarrow> None)"
| "zod_ref (ZUnion a b) v = (case zod_ref a v of Some x \<Rightarrow> Some x | None \<Rightarrow> zod_ref b v)"
| "zod_ref (ZObject shape) v =
     (case v of JObj b \<Rightarrow> map_option JObj (zod_fields zod_ref shape b) | _ \<Rightarrow> None)"

interpretation zod: zod_parser zod_ref
  by unfold_locales simp_all

section \<open>Properties\<close>

lemma strip_value [simp]: "strip_undef (value_jv x) = value_jv x"
  by (cases x) (simp_all add: comp_def)

lemma value_defined [simp]: "value_jv x \<noteq> JUndef"
  by (cases x) simp_all

lemma strip_condition [simp]: "strip_undef (condition_jv f) = condition_jv f"
  by (cases "fi_value f"; cases "fi_join f") (simp_all add: condition_jv_def opt_field_def)

lemma condition_defined [simp]: "condition_jv f \<noteq> JUndef"
  by (simp add: condition_jv_def)

lemma strip_entry: "strip_undef (entry_jv e) = entry_jv e \<and> entry_jv e \<noteq> JUndef"
proof (cases e)
  case (Group g)
  have "strip_undef (JArr (map condition_jv (fg_filters g))) = JArr (map condition_jv (fg_filters g))"
    by (rule strip_array) auto
  then show ?thesis
    by (cases "fg_join g")
      (simp_all add: entry_jv_def group_jv_def Group opt_field_def del: strip_undef.simps(1))
qed (simp add: entry_jv_def)

lemma serialized_entries: "serialize_state (map entry_jv es) = JText (JArr (map entry_jv es))"
  using strip_entry by (simp only: serialize_state_def stringify_def) (rule arg_cong [OF strip_array], auto)

lemma serialized_sorting: "serialize_state (map sort_jv ss) = JText (JArr (map sort_jv ss))"
  by (simp only: serialize_state_def stringify_def) (rule arg_cong [OF strip_array], auto simp: sort_jv_def)

context zod_parser
begin

lemma empty_group_rejected: "fg_filters g = [] \<Longrightarrow> safeParse filterEntrySchema (group_jv g) = None"
  by (cases "fg_join g")
    (simp_all add: filterEntrySchema_def filterGroupSchema_def filterConditionSchema_def parse_union
      parse_object group_jv_def opt_field_def parse_string parse_literal parse_array)

lemma parse_entries:
  "those (map (safeParse filterEntrySchema \<circ> entry_jv) es) =
     (if no_empty_group es then Some (map entry_jv es) else None)"
proof (induction es)
  case (Cons e es)
  show ?case
  proof (cases "no_empty_group [e]")
    case True
    then have "no_empty_group (e # es) = no_empty_group es" by (auto simp: no_empty_group_def)
    then show ?thesis using Cons parse_entry [OF True] by simp
  next
    case False
    then obtain g where "e = Group g" "fg_filters g = []" by (cases e) (auto simp: no_empty_group_def)
    then have "safeParse filterEntrySchema (entry_jv e) = None"
      using empty_group_rejected by (simp add: entry_jv_def)
    moreover have "\<not> no_empty_group (e # es)" using False by (auto simp: no_empty_group_def)
    ultimately show ?thesis by simp
  qed
qed (simp add: no_empty_group_def)

lemma filters_roundtrip:
  "getFiltersStateParser safeParse (serialize_state (map entry_jv es)) =
     (if no_empty_group es then Some (map entry_jv es) else None)"
  using parse_entries [of es] by (simp add: getFiltersStateParser_def serialized_entries parse_array)

lemma sorting_roundtrip:
  "getSortingStateParser safeParse columnIds (serialize_state (map sort_jv ss)) =
     (if columnIds = None \<or> columnIds = Some [] \<or> fst ` set ss \<subseteq> set (or_else columnIds [])
      then Some (map sort_jv ss) else None)"
proof -
  have "those (map (safeParse sortingItemSchema \<circ> sort_jv) ss) = Some (map sort_jv ss)"
    using parse_sort by (simp add: those_Some)
  moreover have "sort_id (sort_jv s) = Some (fst s)" for s
    by (simp add: sort_id_def sort_jv_def get_str_def oget_def)
  ultimately show ?thesis
    by (auto simp: getSortingStateParser_def serialized_sorting parse_array or_else_def
        resolveValidColumnKeys_def split: option.splits)
qed

end

text \<open>C23: Whatever text the URL carries, filters that are read from it are well-typed: every
condition has a column, a known operator and variant, an id and, where it has one, a textual value,
and no group is empty.\<close>

theorem url_filters_typed:
  assumes "zod_parser safeParse" and "getFiltersStateParser safeParse raw = Some vs"
  shows "\<exists>es. vs = map entry_jv es \<and> no_empty_group es"
  using assms by (rule zod_parser.filters_parser_typed)

theorem url_filters_typed_witness:
  "\<exists>es. [condition_jv (createDefaultGroupFilter ''email'' None ''f1'')] = map entry_jv es \<and> no_empty_group es"
proof -
  have "getFiltersStateParser zod_ref
      (JText (JArr [condition_jv (createDefaultGroupFilter ''email'' None ''f1'')])) =
    Some [condition_jv (createDefaultGroupFilter ''email'' None ''f1'')]"
    by code_simp
  then show ?thesis by (rule url_filters_typed [OF zod.zod_parser_axioms])
qed

text \<open>Filters and sorting written to the URL are read back as they were: filters unless a group is
empty, sorting unless it names a column the table does not have; then nothing is read.\<close>

theorem url_state_roundtrip:
  assumes "zod_parser safeParse"
  shows "getFiltersStateParser safeParse (serialize_state (map entry_jv es)) =
           (if no_empty_group es then Some (map entry_jv es) else None) \<and>
         getSortingStateParser safeParse columnIds (serialize_state (map sort_jv ss)) =
           (if columnIds = None \<or> columnIds = Some [] \<or> fst ` set ss \<subseteq> set (or_else columnIds [])
            then Some (map sort_jv ss) else None)"
  using zod_parser.filters_roundtrip [OF assms] zod_parser.sorting_roundtrip [OF assms] by blast

theorem url_state_roundtrip_witness:
  "getSortingStateParser zod_ref (Some [''name'']) (serialize_state [sort_jv (''name'', True)]) =
     Some [sort_jv (''name'', True)]"
  using url_state_roundtrip [OF zod.zod_parser_axioms, of "[]" "Some [''name'']" "[(''name'', True)]"]
  by (simp add: or_else_def)

end
