(* ===== verification/Table_Request.thy ===== *)
theory Table_Request
  imports Table_Filters
begin

text \<open>
  From the state of a data table to the request for its rows: \<open>serialize-server-table-params.ts\<close>,
  the state the hook \<open>use-server-table-data.ts\<close> builds, the local state of
  \<open>context/data-table-local-state.tsx\<close>, and the paging and column-filter handlers of
  \<open>use-datatable.ts\<close> with the debounced write (\<open>use-debounced-callback.ts\<close>). TanStack Table and
  react-query are outside the repository; their calls are the arguments of the operations.
\<close>

section \<open>Server state\<close>

record column_filter =
  cf_id :: string
  cf_value :: filter_value
  cf_variant :: "filter_variant option"

record server_state =
  sv_page :: int
  sv_perPage :: int
  sv_sorting :: "(string \<times> bool) list"
  sv_columnFilters :: "column_filter list"
  sv_filters :: "filter_entry list option"
  sv_join :: "join_operator option"

section \<open>Query parameters\<close>

text \<open>A parameter's value: a plain string or the text of \<open>JSON.stringify\<close>.\<close>

datatype param = PlainParam string | JsonParam jtext

definition defaultColumnFilterOperator :: "column_filter \<Rightarrow> string option" where
  "defaultColumnFilterOperator f =
     (case cf_variant f of
        Some VText \<Rightarrow> Some ''iLike''
      | Some VMultiSelect \<Rightarrow> Some ''inArray''
      | Some VSelect \<Rightarrow> Some ''inArray''
      | Some VDateRange \<Rightarrow> Some ''isBetween''
      | _ \<Rightarrow> None)"

text \<open>\<open>values\<close> for an array, \<open>value\<close> for a string that is not empty.\<close>

definition value_fields :: "filter_value option \<Rightarrow> obj" where
  "value_fields v =
     (case v of
        Some (Many ss) \<Rightarrow> [(''values'', JArr (map JStr ss))]
      | Some (One s) \<Rightarrow> if s \<noteq> [] then [(''value'', JStr s)] else []
      | None \<Rightarrow> [])"

definition serializeColumnFilter :: "column_filter \<Rightarrow> jv" where
  "serializeColumnFilter f = JObj
     ([(''id'', JStr (cf_id f))] @ value_fields (Some (cf_value f)) @
      (case cf_variant f of Some v \<Rightarrow> [(''variant'', JStr (variant_name v))] | None \<Rightarrow> []) @
      (case defaultColumnFilterOperator f of Some op \<Rightarrow> [(''operator'', JStr op)] | None \<Rightarrow> []))"

definition join_field :: "nat \<Rightarrow> join_operator option \<Rightarrow> obj" where
  "join_field index j =
     (case j of Some op \<Rightarrow> if 0 < index then [(''joinOperator'', JStr (join_name op))] else []
      | None \<Rightarrow> [])"

definition serializeAdvancedFilter :: "nat \<Rightarrow> filter_item \<Rightarrow> jv" where
  "serializeAdvancedFilter index f = JObj
     ([(''id'', JStr (fi_id f)), (''variant'', JStr (variant_name (fi_variant f))),
       (''operator'', JStr (operator_name (fi_operator f)))] @
      join_field index (fi_join f) @
      (if valueless (fi_operator f) then [] else value_fields (fi_value f)))"

definition serializeAdvancedFilterEntry :: "nat \<Rightarrow> filter_entry \<Rightarrow> jv" where
  "serializeAdvancedFilterEntry index e =
     (case e of
        Group g \<Rightarrow> JObj
          ([(''type'', JStr ''group''),
            (''filters'', JArr (map (\<lambda>(i, f). serializeAdvancedFilter i f)
               (List.enumerate 0 (fg_filters g))))] @
           join_field index (fg_join g))
      | Cond f \<Rightarrow> serializeAdvancedFilter index f)"

definition serialize_entries :: "filter_entry list \<Rightarrow> jv" where
  "serialize_entries es =
     JArr (map (\<lambda>(i, e). serializeAdvancedFilterEntry i e) (List.enumerate 0 es))"

definition serializeServerTableParams :: "server_state \<Rightarrow> (string \<times> param) list" where
  "serializeServerTableParams s =
     [(''pagination[page]'', PlainParam (show_int (sv_page s))),
      (''pagination[perPage]'', PlainParam (show_int (sv_perPage s)))] @
     (if sv_sorting s \<noteq> []
      then [(''sorting'', JsonParam (stringify (JArr (map (\<lambda>(i, d).
             JObj [(''id'', JStr i), (''desc'', JBool d)]) (sv_sorting s)))))]
      else []) @
     (if sv_columnFilters s \<noteq> []
      then [(''columnFilters'',
             JsonParam (stringify (JArr (map serializeColumnFilter (sv_columnFilters s)))))]
      else []) @
     (case sv_filters s of
        Some (e # es) \<Rightarrow>
          [(''filters'', JsonParam (stringify (serialize_entries
              (normalizeAdvancedFilterJoinOperators (or_else (sv_join s) JoinAnd) (e # es))))),
           (''filterFlag'', PlainParam ''advancedFilters'')] @
          (case sv_join s of Some j \<Rightarrow> [(''joinOperator'', PlainParam (join_name j))] | None \<Rightarrow> [])
      | _ \<Rightarrow> [])"

section \<open>The state of the hook\<close>

text \<open>A column, as far as the filters read it.\<close>

record table_column =
  tc_id :: string
  tc_filterable :: bool
  tc_only_advanced :: bool
  tc_variant :: "filter_variant option"
  tc_options :: "string list option"

definition LIST_ALL_PER_PAGE :: int where "LIST_ALL_PER_PAGE = -1"

definition defaultPerPage :: "bool \<Rightarrow> int option \<Rightarrow> int" where
  "defaultPerPage listAll initialPerPage =
     (if listAll then LIST_ALL_PER_PAGE else or_else initialPerPage 10)"

definition filterableColumns :: "table_column list \<Rightarrow> table_column list" where
  "filterableColumns cs = filter (\<lambda>c. tc_filterable c \<and> \<not> tc_only_advanced c) cs"

text \<open>The values of the column filters, in the order of the object; null is an inactive filter.\<close>

type_synonym filter_values = "(string \<times> filter_value option) list"

definition active_values :: "filter_values \<Rightarrow> (string \<times> filter_value) list" where
  "active_values vs =
     List.map_filter (\<lambda>(i, v). case v of
        Some x \<Rightarrow> if x \<noteq> One [] then Some (i, x) else None | None \<Rightarrow> None) vs"

definition state_column_filters :: "table_column list \<Rightarrow> filter_values \<Rightarrow> column_filter list" where
  "state_column_filters cols vs =
     map (\<lambda>(i, v). \<lparr>cf_id = i, cf_value = v,
            cf_variant = (case find (\<lambda>c. tc_id c = i) (filterableColumns cols) of
               Some c \<Rightarrow> tc_variant c | None \<Rightarrow> None)\<rparr>) (active_values vs)"

definition server_table_state ::
  "bool \<Rightarrow> table_column list \<Rightarrow> int \<Rightarrow> int \<Rightarrow> (string \<times> bool) list \<Rightarrow> filter_values \<Rightarrow>
   filter_entry list \<Rightarrow> join_operator \<Rightarrow> server_state" where
  "server_table_state adv cols page perPage sorting vs advancedFilters j =
     \<lparr>sv_page = page, sv_perPage = perPage, sv_sorting = sorting,
      sv_columnFilters = (if adv then [] else state_column_filters cols vs),
      sv_filters = (if adv then Some (normalizeAdvancedFilterJoinOperators j
                      (getValidAdvancedFilterEntries advancedFilters)) else None),
      sv_join = (if adv then Some j else None)\<rparr>"

section \<open>Paging and column filters\<close>

text \<open>Page index and size as TanStack counts them, from zero.\<close>

definition pagination :: "int \<Rightarrow> int \<Rightarrow> int \<times> int" where
  "pagination page perPage = (page - 1, perPage)"

definition onPaginationChange :: "int \<times> int \<Rightarrow> int \<times> int" where
  "onPaginationChange p = (fst p + 1, snd p)"

text \<open>
  The table keeps its own list of column filters; the values the request is built from follow it
  through a debounced write, which also goes back to the first page.
\<close>

record filter_state =
  fs_filters :: "(string \<times> filter_value) list"
  fs_pending :: "filter_values option"
  fs_values :: filter_values
  fs_page :: int

definition initialColumnFilters ::
  "bool \<Rightarrow> table_column list \<Rightarrow> filter_values \<Rightarrow> (string \<times> filter_value) list" where
  "initialColumnFilters adv cols vs =
     (if adv then [] else map (\<lambda>(i, v). (i, case v of
            Many ss \<Rightarrow> Many ss
          | One s \<Rightarrow> (case find (\<lambda>c. tc_id c = i) (filterableColumns cols) of
              Some c \<Rightarrow> if tc_options c \<noteq> None then Many [s] else One s | None \<Rightarrow> One s)))
       (active_values vs))"

definition filterUpdates ::
  "table_column list \<Rightarrow> (string \<times> filter_value) list \<Rightarrow> (string \<times> filter_value) list \<Rightarrow> filter_values" where
  "filterUpdates cols prev next =
     (let acc = foldl (\<lambda>acc (i, v).
            if list_ex (\<lambda>c. tc_id c = i) (filterableColumns cols) then AList.update i (Some v) acc else acc)
          [] next
      in foldl (\<lambda>acc (i, v). if \<not> list_ex (\<lambda>(j, _). j = i) next then AList.update i None acc else acc)
           acc prev)"

definition onColumnFiltersChange ::
  "bool \<Rightarrow> table_column list \<Rightarrow> (string \<times> filter_value) list \<Rightarrow> filter_state \<Rightarrow> filter_state" where
  "onColumnFiltersChange adv cols next s =
     (if adv then s
      else s\<lparr>fs_pending := Some (filterUpdates cols (fs_filters s) next), fs_filters := next\<rparr>)"

text \<open>\<open>{ ...prev, ...updates }\<close> of the local state.\<close>

definition setFilterValues :: "filter_values \<Rightarrow> filter_values \<Rightarrow> filter_values" where
  "setFilterValues updates prev = obj_spread prev updates"

definition clearColumnFilters :: "filter_state \<Rightarrow> filter_state" where
  "clearColumnFilters s = s\<lparr>fs_values := []\<rparr>"

definition debounce_fires :: "filter_state \<Rightarrow> filter_state" where
  "debounce_fires s =
     (case fs_pending s of
        None \<Rightarrow> s
      | Some values \<Rightarrow> s\<lparr>fs_pending := None, fs_page := 1,
                         fs_values := setFilterValues values (fs_values s)\<rparr>)"

section \<open>Local state\<close>

record table_local =
  tl_page :: int
  tl_perPage :: int
  tl_sorting :: "(string \<times> bool) list"
  tl_filterValues :: filter_values
  tl_advancedFilters :: "filter_entry list"
  tl_join :: join_operator
  tl_advanced_mode :: "bool option"

definition createDataTableLocalState :: "(string \<times> bool) list option \<Rightarrow> int option \<Rightarrow> table_local" where
  "createDataTableLocalState initialSorting initialPerPage =
     \<lparr>tl_page = 1, tl_perPage = or_else initialPerPage 10, tl_sorting = or_else initialSorting [],
      tl_filterValues = [], tl_advancedFilters = [], tl_join = JoinAnd, tl_advanced_mode = None\<rparr>"

definition local_clearSorting :: "table_local \<Rightarrow> table_local" where
  "local_clearSorting s = s\<lparr>tl_sorting := []\<rparr>"

definition local_clearColumnFilters :: "table_local \<Rightarrow> table_local" where
  "local_clearColumnFilters s = s\<lparr>tl_filterValues := []\<rparr>"

definition local_clearAdvancedFilters :: "table_local \<Rightarrow> table_local" where
  "local_clearAdvancedFilters s = s\<lparr>tl_advancedFilters := [], tl_join := JoinAnd\<rparr>"

section \<open>Cell edits\<close>

text \<open>A row is an object; \<open>getRowId\<close> may be given, and \<open>numStr\<close> is \<open>String\<close> on numbers.\<close>

definition resolveRowId :: "(rat \<Rightarrow> string) \<Rightarrow> (obj \<Rightarrow> string) option \<Rightarrow> obj \<Rightarrow> string" where
  "resolveRowId numStr getRowId row =
     (case getRowId of
        Some f \<Rightarrow> f row
      | None \<Rightarrow> (let i = oget row ''id'' in
                 if i \<noteq> JNull \<and> i \<noteq> JUndef then js_string numStr i else []))"

definition handleCellEdit ::
  "(rat \<Rightarrow> string) \<Rightarrow> (obj \<Rightarrow> string) option \<Rightarrow> string \<Rightarrow> string \<Rightarrow> jv \<Rightarrow> obj list \<Rightarrow> obj list" where
  "handleCellEdit numStr getRowId rowId columnId v rows =
     map (\<lambda>row. if resolveRowId numStr getRowId row \<noteq> rowId then row
                else obj_spread row [(columnId, v)]) rows"

section \<open>What the request tells the server\<close>

text \<open>A condition as the server reads it: column, variant, operator, join operator and value.\<close>

type_synonym wire_condition =
  "string option \<times> string option \<times> string option \<times> string option \<times> filter_value option"

datatype wire_entry = WireCond wire_condition | WireGroup "string option" "wire_condition list"

definition read_condition :: "obj \<Rightarrow> wire_condition" where
  "read_condition b =
     (get_str b ''id'', get_str b ''variant'', get_str b ''operator'', get_str b ''joinOperator'',
      case oget b ''values'' of
        JArr xs \<Rightarrow> Some (Many (List.map_filter as_string xs))
      | _ \<Rightarrow> map_option One (get_str b ''value''))"

definition obj_of :: "jv \<Rightarrow> obj" where
  "obj_of v = (case v of JObj b \<Rightarrow> b | _ \<Rightarrow> [])"

definition items_of :: "jv \<Rightarrow> jv list" where
  "items_of v = (case v of JArr xs \<Rightarrow> xs | _ \<Rightarrow> [])"

definition read_entry :: "jv \<Rightarrow> wire_entry" where
  "read_entry v =
     (let b = obj_of v in
      if get_str b ''type'' = Some ''group''
      then WireGroup (get_str b ''joinOperator'')
             (map (\<lambda>x. read_condition (obj_of x)) (items_of (oget b ''filters'')))
      else WireCond (read_condition b))"

definition sent_value :: "filter_item \<Rightarrow> filter_value option" where
  "sent_value f =
     (if valueless (fi_operator f) \<or> fi_value f = Some (One []) then None else fi_value f)"

definition told :: "filter_item \<Rightarrow> wire_condition" where
  "told f = (Some (fi_id f), Some (variant_name (fi_variant f)), Some (operator_name (fi_operator f)),
     map_option join_name (fi_join f), sent_value f)"

definition told_entry :: "filter_entry \<Rightarrow> wire_entry" where
  "told_entry e = (case e of
       Group g \<Rightarrow> WireGroup (map_option join_name (fg_join g)) (map told (fg_filters g))
     | Cond f \<Rightarrow> WireCond (told f))"

lemma string_items: "List.map_filter as_string (map JStr ss) = ss"
  by (induction ss) (simp_all add: List.map_filter_simps)

lemma value_fields_simps [simp]:
  "value_fields None = []"
  "value_fields (Some (One s)) = (if s \<noteq> [] then [(''value'', JStr s)] else [])"
  "value_fields (Some (Many ss)) = [(''values'', JArr (map JStr ss))]"
  by (simp_all add: value_fields_def)

lemma value_fields_cases:
  obtains "value_fields x = []" | s where "value_fields x = [(''value'', JStr s)]"
  | ss where "value_fields x = [(''values'', JArr (map JStr ss))]"
proof -
  have "value_fields x = [] \<or> (\<exists>s. value_fields x = [(''value'', JStr s)]) \<or>
      (\<exists>ss. value_fields x = [(''values'', JArr (map JStr ss))])"
    by (auto simp: value_fields_def split: option.split filter_value.split)
  then show ?thesis using that by blast
qed

lemma read_condition_fields:
  "read_condition ((''id'', JStr i) # (''variant'', JStr v) # (''operator'', JStr op) #
     join_field index j @ value_fields x) =
   (Some i, Some v, Some op, if 0 < index then map_option join_name j else None,
    if x = Some (One []) then None else x)"
  by (auto simp: read_condition_def get_str_def oget_def join_field_def value_fields_def string_items
      split: option.split filter_value.split)

lemma read_advanced:
  assumes "index = 0 \<longrightarrow> fi_join f = None"
  shows "read_condition (obj_of (serializeAdvancedFilter index f)) = told f"
proof (cases "valueless (fi_operator f)")
  case True
  then show ?thesis
    using assms read_condition_fields [of _ _ _ index "fi_join f" None]
    by (auto simp: serializeAdvancedFilter_def obj_of_def told_def sent_value_def value_fields_simps)
next
  case False
  then show ?thesis
    using assms read_condition_fields [of _ _ _ index "fi_join f" "fi_value f"]
    by (auto simp: serializeAdvancedFilter_def obj_of_def told_def sent_value_def)
qed

lemma enumerate_map_cong:
  "(\<And>i. i < length xs \<Longrightarrow> F i (xs ! i) = G (xs ! i)) \<Longrightarrow>
   map (\<lambda>(i, x). F i x) (List.enumerate 0 xs) = map G xs"
  by (rule nth_equalityI) (simp_all add: nth_enumerate_eq)

lemma joined_first: "joined (map J xs) \<Longrightarrow> 0 < length xs \<Longrightarrow> J (xs ! 0) = None"
  by (cases xs) (simp_all add: joined_def)

lemma read_group_filters:
  assumes "joined (map fi_join fs)"
  shows "map (\<lambda>x. read_condition (obj_of x))
      (map (\<lambda>(i, f). serializeAdvancedFilter i f) (List.enumerate 0 fs)) = map told fs"
proof -
  have "map (\<lambda>(i, f). read_condition (obj_of (serializeAdvancedFilter i f))) (List.enumerate 0 fs) = map told fs"
    using joined_first [OF assms] by (intro enumerate_map_cong read_advanced) auto
  then show ?thesis by (simp add: comp_def case_prod_unfold)
qed

lemma read_entry_told:
  assumes "index = 0 \<longrightarrow> entry_join e = None" "\<And>g. e = Group g \<Longrightarrow> joined (map fi_join (fg_filters g))"
  shows "read_entry (serializeAdvancedFilterEntry index e) = told_entry e"
proof (cases e)
  case (Group g)
  then show ?thesis
    using assms read_group_filters [of "fg_filters g"]
    by (auto simp: read_entry_def serializeAdvancedFilterEntry_def obj_of_def items_of_def told_entry_def
        get_str_def oget_def join_field_def entry_join_def split: option.split)
next
  case (Cond f)
  have "get_str (obj_of (serializeAdvancedFilter index f)) ''type'' = None"
    by (cases "fi_value f" rule: value_fields_cases)
      (auto simp: serializeAdvancedFilter_def obj_of_def get_str_def oget_def join_field_def
        split: option.split)
  then show ?thesis
    using assms(1) read_advanced [of index f]
    by (simp add: Cond read_entry_def serializeAdvancedFilterEntry_def told_entry_def entry_join_def Let_def)
qed

lemma read_entries_told:
  assumes "well_joined es"
  shows "map read_entry (items_of (serialize_entries es)) = map told_entry es"
proof -
  have "map (\<lambda>(i, e). read_entry (serializeAdvancedFilterEntry i e)) (List.enumerate 0 es) = map told_entry es"
  proof (intro enumerate_map_cong read_entry_told)
    fix i assume "i < length es"
    then show "i = 0 \<longrightarrow> entry_join (es ! i) = None"
      using joined_first [of entry_join es] assms by (auto simp: well_joined_def)
    show "joined (map fi_join (fg_filters g))" if "es ! i = Group g" for g
      using that assms nth_mem [OF \<open>i < length es\<close>] by (simp add: well_joined_def)
  qed
  then show ?thesis by (simp add: serialize_entries_def items_of_def comp_def case_prod_unfold)
qed

text \<open>Nothing in the request is undefined.\<close>

lemma strip_fields:
  "(\<And>k v. (k, v) \<in> set b \<Longrightarrow> strip_undef v = v \<and> v \<noteq> JUndef) \<Longrightarrow> strip_undef (JObj b) = JObj b"
proof -
  assume a: "\<And>k v. (k, v) \<in> set b \<Longrightarrow> strip_undef v = v \<and> v \<noteq> JUndef"
  then have "filter (\<lambda>(k, v). v \<noteq> JUndef) b = b" by (intro filter_True) auto
  moreover have "map (\<lambda>(k, v). (k, strip_undef v)) b = b" using a by (intro map_idI) auto
  ultimately show ?thesis by (simp only: strip_undef.simps)
qed

lemma strip_strings: "strip_undef (JArr (map JStr ss)) = JArr (map JStr ss)"
  by (rule strip_array) auto

lemma strip_advanced:
  "strip_undef (serializeAdvancedFilter i f) = serializeAdvancedFilter i f \<and>
   serializeAdvancedFilter i f \<noteq> JUndef"
  unfolding serializeAdvancedFilter_def
  by (cases "fi_value f" rule: value_fields_cases; rule conjI, rule strip_fields)
    (auto simp: join_field_def strip_strings simp del: strip_undef.simps(1)
      split: if_splits option.splits)

lemma strip_entry_request:
  "strip_undef (serializeAdvancedFilterEntry i e) = serializeAdvancedFilterEntry i e \<and>
   serializeAdvancedFilterEntry i e \<noteq> JUndef"
proof (cases e)
  case (Group g)
  have "strip_undef (JArr (map (\<lambda>(i, f). serializeAdvancedFilter i f) (List.enumerate 0 (fg_filters g)))) =
      JArr (map (\<lambda>(i, f). serializeAdvancedFilter i f) (List.enumerate 0 (fg_filters g)))"
    using strip_advanced by (intro strip_array) auto
  then show ?thesis
    unfolding serializeAdvancedFilterEntry_def Group
    by (auto intro!: strip_fields simp: join_field_def simp del: strip_undef.simps(1)
        split: if_splits option.splits)
qed (simp add: serializeAdvancedFilterEntry_def strip_advanced)

lemma strip_entries: "stringify (serialize_entries es) = JText (serialize_entries es)"
  unfolding stringify_def serialize_entries_def
  using strip_entry_request by (intro arg_cong [where f = JText] strip_array) auto

section \<open>Column filters and their delayed write\<close>

lemma cond_update:
  "map_of (foldl (\<lambda>acc (i, v). if P i then AList.update i (f v) acc else acc) acc xs) i =
     (if P i \<and> i \<in> fst ` set xs then map_option f (map_of (rev xs) i) else map_of acc i)"
proof (induction xs arbitrary: acc)
  case (Cons x xs)
  obtain k v where x: "x = (k, v)" by (cases x)
  have "map_of (rev xs) i = None \<longleftrightarrow> i \<notin> fst ` set xs" by (metis map_of_eq_None_iff set_rev)
  then show ?case
    unfolding x by (auto simp: Cons update_conv' map_add_def split: option.splits)
qed simp

lemma cond_update_distinct:
  "distinct (map fst acc) \<Longrightarrow>
   distinct (map fst (foldl (\<lambda>acc (i, v). if P i then AList.update i (f v) acc else acc) acc xs))"
  by (induction xs arbitrary: acc) (auto simp: distinct_update)

definition filterable :: "table_column list \<Rightarrow> string \<Rightarrow> bool" where
  "filterable cols i \<longleftrightarrow> list_ex (\<lambda>c. tc_id c = i) (filterableColumns cols)"

lemma updates_lookup:
  "map_of (filterUpdates cols prev next) i =
     (if i \<in> fst ` set prev \<and> i \<notin> fst ` set next then Some None
      else if filterable cols i \<and> i \<in> fst ` set next then map_option Some (map_of (rev next) i)
      else None)"
proof -
  have e: "(\<not> list_ex (\<lambda>(j, _). j = k) next) = (k \<notin> fst ` set next)" for k
    by (force simp: list_ex_iff)
  have "map_of (rev prev) i \<noteq> None" if "i \<in> fst ` set prev"
    using that by (simp add: map_of_eq_None_iff)
  then show ?thesis
    unfolding filterUpdates_def Let_def e
    by (auto simp: cond_update filterable_def)
qed

lemma updates_distinct: "distinct (map fst (filterUpdates cols prev next))"
  unfolding filterUpdates_def Let_def by (intro cond_update_distinct) simp

text \<open>The filters the table shows and those the request asks for.\<close>

definition shown :: "filter_state \<Rightarrow> string \<Rightarrow> filter_value option" where
  "shown s = map_of (fs_filters s)"

definition asked :: "filter_state \<Rightarrow> string \<Rightarrow> filter_value option" where
  "asked s = map_of (active_values (fs_values s))"

lemma active_Cons:
  "active_values ((i, v) # vs) =
     (case v of Some x \<Rightarrow> if x \<noteq> One [] then [(i, x)] else [] | None \<Rightarrow> []) @ active_values vs"
  by (simp add: active_values_def List.map_filter_simps split: option.split)

lemma asked_lookup:
  "distinct (map fst vs) \<Longrightarrow>
   map_of (active_values vs) i =
     (case map_of vs i of Some (Some x) \<Rightarrow> if x \<noteq> One [] then Some x else None | _ \<Rightarrow> None)"
proof (induction vs)
  case (Cons p vs)
  obtain k v where p: "p = (k, v)" by (cases p)
  show ?case
  proof (cases "k = i")
    case True
    then have "map_of vs i = None" using Cons.prems p by (auto simp: map_of_eq_None_iff)
    then have "map_of (active_values vs) i = None" using Cons by simp
    then show ?thesis using True p by (auto simp: active_Cons split: option.split)
  next
    case False
    then show ?thesis using Cons p by (auto simp: active_Cons split: option.split)
  qed
qed (simp add: active_values_def List.map_filter_simps)

definition settled :: "filter_state \<Rightarrow> bool" where
  "settled s \<longleftrightarrow> fs_pending s = None \<and> distinct (map fst (fs_values s)) \<and> asked s = shown s"

text \<open>A list of filters the table can show: one per column, filterable columns, no empty text.\<close>

definition filters_ok :: "table_column list \<Rightarrow> (string \<times> filter_value) list \<Rightarrow> bool" where
  "filters_ok cols xs \<longleftrightarrow> distinct (map fst xs) \<and>
     list_all (\<lambda>(i, v). filterable cols i \<and> v \<noteq> One []) xs"

definition change_settles :: "table_column list \<Rightarrow> (string \<times> filter_value) list \<Rightarrow> filter_state \<Rightarrow> filter_state" where
  "change_settles cols next s = debounce_fires (onColumnFiltersChange False cols next s)"

lemma change_values:
  "fs_values (change_settles cols next s) = obj_spread (fs_values s) (filterUpdates cols (fs_filters s) next)"
  "fs_filters (change_settles cols next s) = next" "fs_pending (change_settles cols next s) = None"
  "fs_page (change_settles cols next s) = 1"
  by (simp_all add: change_settles_def debounce_fires_def onColumnFiltersChange_def setFilterValues_def)

lemma change_keeps_settled:
  assumes "settled s" "filters_ok cols next"
  shows "settled (change_settles cols next s) \<and> asked (change_settles cols next s) = map_of next"
proof -
  let ?u = "filterUpdates cols (fs_filters s) next"
  have d: "distinct (map fst (obj_spread (fs_values s) ?u))"
    using assms(1) by (simp add: settled_def distinct_obj_spread)
  have ok: "filterable cols i \<and> v \<noteq> One []" if "map_of next i = Some v" for i v
    using that assms(2) by (auto simp: filters_ok_def list_all_iff dest: map_of_SomeD)
  have r: "map_of (rev next) = map_of next" using assms(2) by (simp add: filters_ok_def map_of_rev_distinct)
  have look: "map_of (obj_spread (fs_values s) ?u) i =
      (case map_of ?u i of Some x \<Rightarrow> Some x | None \<Rightarrow> map_of (fs_values s) i)" for i
    using updates_distinct by (simp add: map_of_obj_spread map_of_rev_distinct map_add_def)
  have "map_of (active_values (obj_spread (fs_values s) ?u)) i = map_of next i" for i
  proof (cases "map_of next i")
    case (Some v)
    then have "i \<in> fst ` set next" by (metis map_of_eq_None_iff option.distinct(1))
    then have "map_of ?u i = Some (Some v)" using ok [OF Some] r Some by (simp add: updates_lookup)
    then show ?thesis using Some ok [OF Some] by (simp add: asked_lookup [OF d] look)
  next
    case None
    then have n: "i \<notin> fst ` set next" by (simp add: map_of_eq_None_iff)
    have u: "map_of ?u i = (if i \<in> fst ` set (fs_filters s) then Some None else None)"
      using n by (simp add: updates_lookup)
    show ?thesis
    proof (cases "i \<in> fst ` set (fs_filters s)")
      case False
      then have "shown s i = None" by (simp add: shown_def map_of_eq_None_iff)
      then have "map_of (active_values (fs_values s)) i = None"
        using assms(1) by (simp add: settled_def asked_def)
      then show ?thesis
        using False u assms(1) by (simp add: None asked_lookup [OF d] look settled_def asked_lookup)
    qed (simp add: None u asked_lookup [OF d] look)
  qed
  then show ?thesis
    using d by (auto simp: settled_def asked_def shown_def change_values)
qed

section \<open>Properties\<close>

text \<open>C25: What an advanced query tells the server is exactly the query: when no condition is
  complete the request has no filters, and otherwise reading its filters back gives every
  complete condition of the query, in order, grouped as they were and joined as the normal form
  joins them, with its value unless the operator takes none.\<close>

theorem request_tells_conditions:
  "map_of (serializeServerTableParams (server_table_state True cols page perPage sorting vs es j)) ''filters'' =
     (if getValidAdvancedFilterEntries es = [] then None
      else Some (JsonParam (JText (serialize_entries
        (normalizeAdvancedFilterJoinOperators j (getValidAdvancedFilterEntries es)))))) \<and>
   map read_entry (items_of (serialize_entries
        (normalizeAdvancedFilterJoinOperators j (getValidAdvancedFilterEntries es)))) =
     map told_entry (normalizeAdvancedFilterJoinOperators j (getValidAdvancedFilterEntries es))"
proof -
  let ?n = "normalizeAdvancedFilterJoinOperators j (getValidAdvancedFilterEntries es)"
  have idem: "normalizeAdvancedFilterJoinOperators j ?n = ?n"
    by (rule normalize_well_joined [OF well_joined_normalize])
  have "?n = [] \<longleftrightarrow> getValidAdvancedFilterEntries es = []"
    by (cases "getValidAdvancedFilterEntries es") (simp_all add: normalizeAdvancedFilterJoinOperators_def)
  then show ?thesis
    using read_entries_told [OF well_joined_normalize, of j "getValidAdvancedFilterEntries es"] idem
    by (cases ?n) (auto simp: serializeServerTableParams_def server_table_state_def strip_entries or_else_def)
qed

text \<open>The column filters the request carries.\<close>

definition requested :: "table_column list \<Rightarrow> filter_state \<Rightarrow> string \<Rightarrow> filter_value option" where
  "requested cols s =
     map_of (map (\<lambda>f. (cf_id f, cf_value f)) (state_column_filters cols (fs_values s)))"

lemma requested_asked: "requested cols s = asked s"
proof -
  have "map (\<lambda>f. (cf_id f, cf_value f)) (state_column_filters cols (fs_values s)) =
      active_values (fs_values s)"
    by (simp add: state_column_filters_def comp_def case_prod_unfold)
  then show ?thesis by (simp only: requested_def asked_def)
qed

lemma changes_settle:
  assumes "settled s" "nexts \<noteq> []" "list_all (filters_ok cols) nexts"
  shows "settled (fold (change_settles cols) nexts s) \<and>
    shown (fold (change_settles cols) nexts s) = map_of (last nexts) \<and>
    fs_page (fold (change_settles cols) nexts s) = 1"
  using assms
proof (induction nexts arbitrary: s)
  case (Cons x nexts)
  then show ?case
    using change_keeps_settled [of s cols x] change_values [of cols x s]
    by (cases "nexts = []") (auto simp: shown_def)
qed simp

text \<open>C34: Column filters reach the server: from a settled table, after any sequence of filter
  changes that each outlast the delay, the request carries exactly the filters the table shows,
  which are those of the last change, and the table is back on its first page.\<close>

theorem column_filters_reach_server:
  assumes "settled s" "nexts \<noteq> []" "list_all (filters_ok cols) nexts"
  shows "requested cols (fold (change_settles cols) nexts s) = map_of (last nexts) \<and>
    shown (fold (change_settles cols) nexts s) = map_of (last nexts) \<and>
    fs_page (fold (change_settles cols) nexts s) = 1"
  using changes_settle [OF assms] by (auto simp: requested_asked settled_def)

text \<open>A filter removed just before another change stays in the request: the second change
  replaces the delayed write of the first one, and with it the entry that clears the filter, so
  the table no longer shows the filter while the server still applies it.\<close>

theorem quick_change_loses_removal:
  assumes "settled s" "shown s i = Some v" "map_of next1 i = None" "map_of next2 i = None"
  shows "let s' = debounce_fires (onColumnFiltersChange False cols next2
                    (onColumnFiltersChange False cols next1 s))
    in shown s' i = None \<and> requested cols s' i = Some v"
proof -
  let ?u = "filterUpdates cols next1 next2"
  have d: "distinct (map fst (obj_spread (fs_values s) ?u))"
    using assms(1) by (simp add: settled_def distinct_obj_spread)
  have "map_of ?u i = None" using assms(3,4) by (auto simp: updates_lookup map_of_eq_None_iff)
  then have "map_of (obj_spread (fs_values s) ?u) i = map_of (fs_values s) i"
    using updates_distinct by (simp add: map_of_obj_spread map_of_rev_distinct map_add_def)
  moreover have "map_of (active_values (fs_values s)) i = Some v"
    using assms(1,2) by (simp add: settled_def asked_def)
  ultimately have "map_of (active_values (obj_spread (fs_values s) ?u)) i = Some v"
    using assms(1) by (simp add: settled_def asked_lookup asked_lookup [OF d])
  then show ?thesis
    using assms(4)
    by (simp add: requested_asked asked_def shown_def debounce_fires_def setFilterValues_def
        onColumnFiltersChange_def)
qed

text \<open>A cell edit writes the one cell of every row of that id and nothing else.\<close>

lemma cell_edit_cell:
  assumes "k < length rows"
  shows "oget (handleCellEdit ns g rid cid v rows ! k) key =
    (if resolveRowId ns g (rows ! k) = rid \<and> key = cid then v else oget (rows ! k) key)"
  using assms by (simp add: handleCellEdit_def oget_def map_of_obj_spread map_add_def)

section \<open>Instances\<close>

definition filter_columns_example :: "table_column list" where
  "filter_columns_example =
     [\<lparr>tc_id = ''name'', tc_filterable = True, tc_only_advanced = False, tc_variant = Some VText, tc_options = None\<rparr>,
      \<lparr>tc_id = ''role'', tc_filterable = True, tc_only_advanced = False, tc_variant = Some VSelect,
       tc_options = Some [''admin'']\<rparr>]"

definition filter_state_example :: filter_state where
  "filter_state_example = \<lparr>fs_filters = [(''name'', One ''x'')], fs_pending = None,
     fs_values = [(''name'', Some (One ''x''))], fs_page = 3\<rparr>"

lemma filter_example_settled: "settled filter_state_example"
  by (simp add: settled_def filter_state_example_def asked_def shown_def active_values_def
      List.map_filter_simps)

lemma column_filters_reach_server_witness:
  "requested filter_columns_example (fold (change_settles filter_columns_example)
     [[(''name'', One ''y'')], [(''role'', Many [''admin''])]] filter_state_example) =
   map_of [(''role'', Many [''admin''])]"
  using column_filters_reach_server [OF filter_example_settled,
      of "[[(''name'', One ''y'')], [(''role'', Many [''admin''])]]" filter_columns_example]
  by (simp add: filters_ok_def filterable_def filterableColumns_def filter_columns_example_def)

lemma quick_change_loses_removal_witness:
  "requested filter_columns_example (debounce_fires (onColumnFiltersChange False filter_columns_example
     [(''role'', Many [''admin''])] (onColumnFiltersChange False filter_columns_example []
       filter_state_example))) ''name'' = Some (One ''x'')"
  using quick_change_loses_removal [OF filter_example_settled,
      of "''name''" "One ''x''" "[]" "[(''role'', Many [''admin''])]" filter_columns_example]
  by (simp add: Let_def shown_def filter_state_example_def)

end
