(* ===== verification/Token_Interface.thy ===== *)
theory Token_Interface
  imports Js_Prelude
begin

text \<open>
  The contract between the sign-in store and the request pipeline: what a store of token pairs
  promises to code that reads the current pair, replaces its access token after a refresh, and
  drops the current account when the session is gone.
\<close>

locale token_store =
  fixes tokens_of :: "'s \<Rightarrow> ('a \<times> 'r) option"
    and rotate :: "'a \<Rightarrow> 's \<Rightarrow> 's"
    and discard :: "'s \<Rightarrow> 's"
    and accounts :: "'s \<Rightarrow> 'k list"
    and inv :: "'s \<Rightarrow> bool"
  assumes rotate_tokens: "inv s \<Longrightarrow>
      tokens_of (rotate a s) = map_option (\<lambda>(_, r). (a, r)) (tokens_of s)"
    and rotate_accounts: "inv s \<Longrightarrow> accounts (rotate a s) = accounts s"
    and rotate_inv: "inv s \<Longrightarrow> inv (rotate a s)"
    and discard_accounts: "inv s \<Longrightarrow> accounts s \<noteq> [] \<Longrightarrow>
      Suc (length (accounts (discard s))) = length (accounts s)"
    and discard_inv: "inv s \<Longrightarrow> inv (discard s)"
    and no_accounts: "inv s \<Longrightarrow> accounts s = [] \<Longrightarrow> tokens_of s = None"
begin

text \<open>However often the access token is refreshed, the refresh token and the accounts stay.\<close>

lemma rotations:
  assumes "inv s"
  shows "inv (fold rotate as s) \<and> accounts (fold rotate as s) = accounts s \<and>
    tokens_of (fold rotate as s) = map_option (\<lambda>(a, r). (last (a # as), r)) (tokens_of s)"
  using assms
proof (induction as arbitrary: s)
  case (Cons a as)
  then show ?case
    by (auto simp: rotate_tokens rotate_accounts rotate_inv option.map_comp comp_def
        case_prod_unfold)
qed (auto simp: case_prod_unfold option.map_ident)

text \<open>Dropping the current account as many times as there are accounts signs everyone out.\<close>

lemma discard_all:
  assumes "inv s"
  shows "length (accounts s) = n \<Longrightarrow> tokens_of ((discard ^^ n) s) = None"
  using assms
proof (induction n arbitrary: s)
  case (Suc n)
  then have "Suc (length (accounts (discard s))) = length (accounts s)"
    by (intro discard_accounts) auto
  with Suc show ?case
    by (auto simp: funpow_Suc_right discard_inv simp del: funpow.simps)
qed (auto intro: no_accounts)

end

end
