(* ===== verification/Auth_Store.thy ===== *)
theory Auth_Store
  imports Token_Interface
begin

text \<open>
  The sign-in store: \<open>store/authorization.ts\<close> (a zustand store, persisted in localStorage) and
  the account switching of \<open>lib/switch-account.ts\<close>. A state holds the signed-in sessions and the
  id of the current one. Setters return the new state; the sign-out request that \<open>signOut\<close> and
  \<open>signOutAll\<close> fire is returned beside it. The user object is kept as the JSON object it is.
\<close>

section \<open>Data\<close>

record tokens =
  access_token :: string
  refresh_token :: string

type_synonym user = obj

definition user_id :: "user \<Rightarrow> string" where
  "user_id u = (case oget u ''id'' of JStr s \<Rightarrow> s | _ \<Rightarrow> [])"

record auth_session =
  ses_id :: string
  ses_trusted :: bool
  ses_user :: user
  ses_tokens :: tokens

record auth_state =
  current_session :: string
  sessions :: "auth_session list"
  redirectUrl :: "string option"
  accessDenied :: bool

datatype auth_effect = SignOutEndpoint

section \<open>Selectors\<close>

definition getCurrentSession :: "auth_state \<Rightarrow> auth_session option" where
  "getCurrentSession s =
     (if current_session s = [] then None
      else find (\<lambda>x. ses_id x = current_session s) (sessions s))"

definition getCurrentTokens :: "auth_state \<Rightarrow> tokens option" where
  "getCurrentTokens s = map_option ses_tokens (getCurrentSession s)"

definition isSignedIn :: "auth_state \<Rightarrow> bool" where
  "isSignedIn s =
     (case getCurrentTokens s of None \<Rightarrow> False
      | Some t \<Rightarrow> access_token t \<noteq> [] \<or> refresh_token t \<noteq> [])"

definition getCurrentUser :: "auth_state \<Rightarrow> user option" where
  "getCurrentUser s =
     map_option ses_user (find (\<lambda>x. ses_id x = current_session s) (sessions s))"

definition resolveSessionId :: "platform \<Rightarrow> user \<Rightarrow> string option \<Rightarrow> string" where
  "resolveSessionId p u sid =
     (if user_id u \<noteq> [] then user_id u
      else case sid of
        Some (c # cs) \<Rightarrow> c # cs
      | _ \<Rightarrow> (case random_uuid p of
              Some r \<Rightarrow> r
            | None \<Rightarrow> ''session-'' @ show_int (date_now p)))"

section \<open>Reading persisted state\<close>

text \<open>\<open>normalizeSession\<close>: a stored session is kept only with a user id and a token.\<close>

definition normalizeSession :: "jv \<Rightarrow> auth_session option" where
  "normalizeSession raw =
     (case as_object raw of None \<Rightarrow> None
      | Some rec \<Rightarrow>
        (case as_object (oget rec ''user'') of None \<Rightarrow> None
         | Some usr \<Rightarrow>
           (case get_str usr ''id'' of None \<Rightarrow> None
            | Some uid \<Rightarrow>
              if uid = [] then None
              else (case as_object (oget rec ''tokens'') of None \<Rightarrow> None
               | Some tks \<Rightarrow>
                 (case (get_str tks ''access_token'', get_str tks ''refresh_token'') of
                    (Some a, Some r) \<Rightarrow>
                      if a = [] \<and> r = [] then None
                      else Some \<lparr>ses_id = uid,
                                 ses_trusted = truthy (oget rec ''trusted''),
                                 ses_user = obj_spread [(''id'', JStr uid)] usr,
                                 ses_tokens = \<lparr>access_token = a, refresh_token = r\<rparr>\<rparr>
                  | _ \<Rightarrow> None)))))"

definition first_id :: "auth_session list \<Rightarrow> string" where
  "first_id xs = (case xs of [] \<Rightarrow> [] | x # _ \<Rightarrow> ses_id x)"

text \<open>The properties a value other than null and undefined has under the names asked for.\<close>

definition props :: "jv \<Rightarrow> obj" where
  "props v = (case v of JObj b \<Rightarrow> b | _ \<Rightarrow> [])"

text \<open>
  \<open>[...new Map(pairs).values()]\<close>: one session per id, in the order the ids first appear, with
  the last session of each id. A stored \<open>current_session\<close> that is no string counts as absent:
  the code treats both as "take the first session".
\<close>

definition dedupe_sessions :: "auth_session list \<Rightarrow> auth_session list" where
  "dedupe_sessions xs = map snd (foldl (\<lambda>m s. AList.update (ses_id s) s m) [] xs)"

definition migratePersistedState :: "jv \<Rightarrow> auth_session list \<times> string" where
  "migratePersistedState persisted =
     (if \<not> truthy persisted then ([], [])
      else let p = props persisted; cur = get_str p ''current_session'' in
        (case oget p ''sessions'' of
           JArr raws \<Rightarrow>
             (let ss = dedupe_sessions (List.map_filter normalizeSession raws) in
              (ss, (case cur of
                      Some c \<Rightarrow> if c \<noteq> [] \<and> (\<exists>s \<in> set ss. ses_id s = c) then c
                                 else first_id ss
                    | None \<Rightarrow> first_id ss)))
         | _ \<Rightarrow>
             if truthy (oget p ''user'') \<and> truthy (oget p ''tokens'')
             then (case normalizeSession (JObj [(''session_id'', oget p ''current_session''),
                                                (''user'', oget p ''user''),
                                                (''tokens'', oget p ''tokens''),
                                                (''trusted'', JBool False)]) of
                     None \<Rightarrow> ([], [])
                   | Some s \<Rightarrow> ([s], ses_id s))
             else ([], case cur of Some c \<Rightarrow> c | None \<Rightarrow> [])))"

definition isZustandPersistEnvelope :: "jv \<Rightarrow> jv option" where
  "isZustandPersistEnvelope v =
     (case v of
        JObj b \<Rightarrow> (case map_of b ''state'' of
                    Some (JObj x) \<Rightarrow> Some (JObj x)
                  | Some (JArr x) \<Rightarrow> Some (JArr x)
                  | Some JNull \<Rightarrow> Some JNull
                  | _ \<Rightarrow> None)
      | _ \<Rightarrow> None)"

definition parsePersistedSnapshot :: "jtext option \<Rightarrow> jv option" where
  "parsePersistedSnapshot raw =
     (case raw of
        Some (JText v) \<Rightarrow>
          (case isZustandPersistEnvelope v of
             Some st \<Rightarrow> Some st
           | None \<Rightarrow> (case v of
               JObj b \<Rightarrow> (case map_of b ''sessions'' of Some (JArr _) \<Rightarrow> Some v | _ \<Rightarrow> None)
             | _ \<Rightarrow> None))
      | _ \<Rightarrow> None)"

definition storage_getItem :: "jtext option \<Rightarrow> jtext option" where
  "storage_getItem cell =
     (case parsePersistedSnapshot cell of
        None \<Rightarrow> None
      | Some snap \<Rightarrow> if \<not> truthy snap then None
          else Some (stringify (JObj [(''state'', snap), (''version'', JNum 0)])))"

definition storage_setItem :: "jtext \<Rightarrow> jtext option" where
  "storage_setItem value =
     (case value of
        JText v \<Rightarrow> (case isZustandPersistEnvelope v of
                       Some st \<Rightarrow> Some (stringify st)
                     | None \<Rightarrow> Some (stringify v))
      | BadText \<Rightarrow> Some BadText)"

definition session_jv :: "auth_session \<Rightarrow> jv" where
  "session_jv s =
     JObj [(''session_id'', JStr (ses_id s)), (''user'', JObj (ses_user s)),
           (''tokens'', JObj [(''access_token'', JStr (access_token (ses_tokens s))),
                              (''refresh_token'', JStr (refresh_token (ses_tokens s)))]),
           (''trusted'', JBool (ses_trusted s))]"

definition partialize :: "auth_state \<Rightarrow> jv" where
  "partialize s =
     JObj ([(''sessions'', JArr (map session_jv (sessions s))),
            (''current_session'', JStr (current_session s))] @
           (case redirectUrl s of Some u \<Rightarrow> [(''redirectUrl'', JStr u)] | None \<Rightarrow> []))"

definition merge_persisted :: "jv \<Rightarrow> auth_state \<Rightarrow> auth_state" where
  "merge_persisted persisted cur =
     (let (ss, c0) = migratePersistedState persisted;
          c = (if c0 \<noteq> [] \<and> \<not> (\<exists>s \<in> set ss. ses_id s = c0) then first_id ss else c0)
      in cur\<lparr>sessions := ss, current_session := c,
             redirectUrl := (case get_str (props persisted) ''redirectUrl'' of
                               Some u \<Rightarrow> Some u | None \<Rightarrow> redirectUrl cur)\<rparr>)"

text \<open>
  What \<open>persist\<close> does with these callbacks: after a change it hands the storage the partial
  state in an envelope with its version; at start-up it merges the stored state, or undefined
  where there is none, into the initial one.
\<close>

definition persist_write :: "auth_state \<Rightarrow> jtext option" where
  "persist_write s =
     storage_setItem (stringify (JObj [(''state'', partialize s), (''version'', JNum 0)]))"

definition rehydrate :: "jtext option \<Rightarrow> auth_state \<Rightarrow> auth_state" where
  "rehydrate cell cur =
     merge_persisted
       (case storage_getItem cell of
          Some (JText v) \<Rightarrow> oget (props v) ''state''
        | _ \<Rightarrow> JUndef) cur"

section \<open>The store's operations\<close>

definition initial_auth :: auth_state where
  "initial_auth = \<lparr>current_session = [], sessions = [], redirectUrl = Some [],
                   accessDenied = False\<rparr>"

definition setRedirectUrl :: "string \<Rightarrow> auth_state \<Rightarrow> auth_state" where
  "setRedirectUrl url s = s\<lparr>redirectUrl := Some url\<rparr>"

definition setAccessDenied :: "bool \<Rightarrow> auth_state \<Rightarrow> auth_state" where
  "setAccessDenied b s = s\<lparr>accessDenied := b\<rparr>"

definition clearAccessDenied :: "auth_state \<Rightarrow> auth_state" where
  "clearAccessDenied s = s\<lparr>accessDenied := False\<rparr>"

definition signIn ::
  "platform \<Rightarrow> string option \<Rightarrow> user \<Rightarrow> tokens \<Rightarrow> bool \<Rightarrow> auth_state \<Rightarrow> auth_state" where
  "signIn p sid u t trusted s =
     (let i = resolveSessionId p u sid in
      s\<lparr>sessions := filter (\<lambda>x. ses_id x \<noteq> i) (sessions s) @
            [\<lparr>ses_id = i, ses_trusted = trusted,
              ses_user = obj_spread u [(''id'', oget u ''id'')], ses_tokens = t\<rparr>],
        current_session := i, accessDenied := False\<rparr>)"

definition signOut :: "auth_state \<Rightarrow> auth_state \<times> auth_effect list" where
  "signOut s =
     (let rest = filter (\<lambda>x. ses_id x \<noteq> current_session s) (sessions s) in
      (s\<lparr>sessions := rest, current_session := first_id rest, accessDenied := False\<rparr>,
       [SignOutEndpoint]))"

definition signOutAll :: "auth_state \<Rightarrow> auth_state \<times> auth_effect list" where
  "signOutAll s =
     (s\<lparr>sessions := [], current_session := [], accessDenied := False\<rparr>, [SignOutEndpoint])"

definition setTrusted :: "string \<Rightarrow> bool \<Rightarrow> auth_state \<Rightarrow> auth_state" where
  "setTrusted i b s =
     s\<lparr>sessions := map (\<lambda>x. if ses_id x = i then x\<lparr>ses_trusted := b\<rparr> else x) (sessions s)\<rparr>"

definition setCurrentSession :: "string \<Rightarrow> auth_state \<Rightarrow> auth_state" where
  "setCurrentSession i s =
     (if \<not> (\<exists>x \<in> set (sessions s). ses_id x = i) then s
      else s\<lparr>current_session := i, accessDenied := False\<rparr>)"

definition setAccessToken :: "string \<Rightarrow> auth_state \<Rightarrow> auth_state" where
  "setAccessToken tok s =
     s\<lparr>sessions := map (\<lambda>x. if ses_id x = current_session s
                          then x\<lparr>ses_tokens := (ses_tokens x)\<lparr>access_token := tok\<rparr>\<rparr> else x)
                        (sessions s)\<rparr>"

section \<open>Switching accounts\<close>

definition removeStoredSession :: "string \<Rightarrow> auth_state \<Rightarrow> auth_state" where
  "removeStoredSession i s =
     (let rest = filter (\<lambda>x. ses_id x \<noteq> i) (sessions s) in
      s\<lparr>sessions := rest,
        current_session := (if current_session s = i then first_id rest
                            else current_session s)\<rparr>)"

definition restorePreviousSession :: "string \<Rightarrow> string \<Rightarrow> auth_state \<Rightarrow> auth_state" where
  "restorePreviousSession prev attempted s =
     (if prev = [] \<or> prev = attempted then s
      else if \<exists>x \<in> set (sessions s). ses_id x = prev then setCurrentSession prev s
      else s)"

record signin_response =
  si_user :: user
  si_tokens :: tokens
  si_session :: "string option"

datatype verify_result = VerifyOk signin_response | VerifyFailed bool

text \<open>
  \<open>verifyStoredSession\<close> up to its \<open>await check(...)\<close>, which is given the refresh token; and what
  follows the await, from the state the store has by then. \<open>None\<close> is a rejected check.
\<close>

datatype verify_step = Verified auth_state verify_result | AwaitCheck auth_state string

definition verify_begin :: "auth_session \<Rightarrow> string \<Rightarrow> auth_state \<Rightarrow> verify_step" where
  "verify_begin x prev s =
     (if refresh_token (ses_tokens x) = []
      then let s' = restorePreviousSession prev (ses_id x) (removeStoredSession (ses_id x) s)
           in Verified s' (VerifyFailed (sessions s' = []))
      else AwaitCheck (setCurrentSession (ses_id x) s) (refresh_token (ses_tokens x)))"

definition verify_end ::
  "platform \<Rightarrow> auth_session \<Rightarrow> string \<Rightarrow> signin_response option \<Rightarrow> auth_state
     \<Rightarrow> auth_state \<times> verify_result" where
  "verify_end p x prev answer s =
     (case answer of
        Some d \<Rightarrow> (signIn p (si_session d) (si_user d) (si_tokens d) False s, VerifyOk d)
      | None \<Rightarrow>
          (let s' = restorePreviousSession prev (ses_id x) (removeStoredSession (ses_id x) s) in
           (s', if sessions s' = [] then VerifyFailed True
                else VerifyFailed (\<not> (\<exists>y \<in> set (sessions s'). ses_id y = prev)))))"

text \<open>Every way the store changes, as an event.\<close>

datatype auth_event =
    SignIn platform "string option" user tokens bool
  | SignOut
  | SignOutAll
  | SetTrusted string bool
  | SetCurrentSession string
  | SetAccessToken string
  | SetRedirectUrl string
  | SetAccessDenied bool
  | ClearAccessDenied
  | RemoveStoredSession string

fun auth_apply :: "auth_event \<Rightarrow> auth_state \<Rightarrow> auth_state" where
  "auth_apply (SignIn p sid u t b) s = signIn p sid u t b s"
| "auth_apply SignOut s = fst (signOut s)"
| "auth_apply SignOutAll s = fst (signOutAll s)"
| "auth_apply (SetTrusted i b) s = setTrusted i b s"
| "auth_apply (SetCurrentSession i) s = setCurrentSession i s"
| "auth_apply (SetAccessToken t) s = setAccessToken t s"
| "auth_apply (SetRedirectUrl u) s = setRedirectUrl u s"
| "auth_apply (SetAccessDenied b) s = setAccessDenied b s"
| "auth_apply ClearAccessDenied s = clearAccessDenied s"
| "auth_apply (RemoveStoredSession i) s = removeStoredSession i s"

section \<open>Well-formed stores\<close>

definition session_ids :: "auth_state \<Rightarrow> string list" where
  "session_ids s = map ses_id (sessions s)"

definition auth_wf :: "auth_state \<Rightarrow> bool" where
  "auth_wf s \<longleftrightarrow> distinct (session_ids s) \<and> [] \<notin> set (session_ids s) \<and>
     (if sessions s = [] then current_session s = []
      else current_session s \<in> set (session_ids s))"

text \<open>A sign-in is admissible when the platform's UUID, where consulted, is a non-empty string.\<close>

fun auth_ok :: "auth_event \<Rightarrow> auth_state \<Rightarrow> bool" where
  "auth_ok (SignIn p sid u t b) s = (random_uuid p \<noteq> Some [])"
| "auth_ok _ s = True"

named_theorems auth_defs \<open>definitions of the store's operations\<close>

lemmas auth_op_defs [auth_defs] =
  signIn_def signOut_def signOutAll_def setTrusted_def setCurrentSession_def
  setAccessToken_def setRedirectUrl_def setAccessDenied_def clearAccessDenied_def
  removeStoredSession_def Let_def

lemma resolveSessionId_ne: "random_uuid p \<noteq> Some [] \<Longrightarrow> resolveSessionId p u sid \<noteq> []"
  by (auto simp: resolveSessionId_def split: option.splits list.splits)

lemma map_filter_ids:
  "map ses_id (filter (\<lambda>x. ses_id x \<noteq> i) xs) = filter (\<lambda>j. j \<noteq> i) (map ses_id xs)"
  by (induction xs) auto

lemma map_if_ids:
  "(\<And>x. ses_id (f x) = ses_id x) \<Longrightarrow>
   map ses_id (map (\<lambda>x. if P x then f x else x) xs) = map ses_id xs"
  by (induction xs) auto

lemma first_id_in: "xs \<noteq> [] \<Longrightarrow> first_id xs \<in> ses_id ` set xs"
  by (cases xs) (auto simp: first_id_def)

lemma first_id_Nil [simp]: "first_id [] = []"
  by (simp add: first_id_def)

lemma session_ids_ops:
  "session_ids (setTrusted i b s) = session_ids s"
  "session_ids (setAccessToken tk s) = session_ids s"
  "session_ids (setCurrentSession j s) = session_ids s"
  "session_ids (removeStoredSession i s) = filter (\<lambda>j. j \<noteq> i) (session_ids s)"
  "session_ids (fst (signOut s)) = filter (\<lambda>j. j \<noteq> current_session s) (session_ids s)"
  "session_ids (fst (signOutAll s)) = []"
  "session_ids (signIn p sid u t b s) =
     filter (\<lambda>j. j \<noteq> resolveSessionId p u sid) (session_ids s) @ [resolveSessionId p u sid]"
  by (auto simp: session_ids_def auth_defs map_filter_ids map_if_ids
      simp del: map_map)

lemma sessions_Nil_ids: "sessions s = [] \<longleftrightarrow> session_ids s = []"
  by (simp add: session_ids_def)

lemma auth_wf_ids:
  "auth_wf s \<longleftrightarrow> distinct (session_ids s) \<and> [] \<notin> set (session_ids s) \<and>
     (if session_ids s = [] then current_session s = []
      else current_session s \<in> set (session_ids s))"
  by (simp add: auth_wf_def sessions_Nil_ids)

lemma first_id_ids: "first_id xs = (case map ses_id xs of [] \<Rightarrow> [] | i # _ \<Rightarrow> i)"
  by (cases xs) (auto simp: first_id_def)

lemma wf_signIn: "random_uuid p \<noteq> Some [] \<Longrightarrow> auth_wf s \<Longrightarrow> auth_wf (signIn p sid u t b s)"
  using resolveSessionId_ne [of p u sid]
  by (simp add: auth_wf_ids session_ids_ops) (simp add: signIn_def Let_def)

lemma wf_drop:
  assumes "auth_wf s" "session_ids s' = filter (\<lambda>j. j \<noteq> i) (session_ids s)"
    and "current_session s' = (if current_session s = i
           then (case session_ids s' of [] \<Rightarrow> [] | j # _ \<Rightarrow> j) else current_session s)"
  shows "auth_wf s'"
proof (cases "session_ids s'")
  case Nil
  then have "current_session s = i \<or> session_ids s = []"
    using assms(1,2) by (auto simp: auth_wf_ids filter_empty_conv split: if_splits)
  then show ?thesis using Nil assms by (auto simp: auth_wf_ids)
next
  case (Cons j js)
  have "distinct (session_ids s')" "set (session_ids s') = set (session_ids s) - {i}"
    using assms(1,2) by (auto simp: auth_wf_ids)
  moreover have "j \<in> set (session_ids s')" using Cons by simp
  ultimately show ?thesis using Cons assms(1,3)
    by (cases "session_ids s = []") (simp_all add: auth_wf_ids)
qed

lemma wf_removeStoredSession: "auth_wf s \<Longrightarrow> auth_wf (removeStoredSession i s)"
  by (erule wf_drop [of _ _ i])
     (auto simp: session_ids_ops, auto simp: removeStoredSession_def Let_def first_id_ids
        session_ids_def map_filter_ids)

lemma wf_signOut: "auth_wf s \<Longrightarrow> auth_wf (fst (signOut s))"
  by (erule wf_drop [of _ _ "current_session s"])
     (auto simp: session_ids_ops, auto simp: signOut_def Let_def first_id_ids
        session_ids_def map_filter_ids)

lemma wf_setCurrentSession: "auth_wf s \<Longrightarrow> auth_wf (setCurrentSession i s)"
  by (auto simp: auth_wf_def setCurrentSession_def session_ids_def)

lemma wf_same_ids:
  "auth_wf s \<Longrightarrow> session_ids s' = session_ids s \<Longrightarrow> current_session s' = current_session s
   \<Longrightarrow> auth_wf s'"
  by (simp add: auth_wf_ids)

lemma current_session_ops [simp]:
  "current_session (setTrusted i b s) = current_session s"
  "current_session (setAccessToken tk s) = current_session s"
  by (simp_all add: auth_defs)

lemma wf_flags:
  "auth_wf s \<Longrightarrow> auth_wf (setRedirectUrl x s)"
  "auth_wf s \<Longrightarrow> auth_wf (setAccessDenied b s)"
  "auth_wf s \<Longrightarrow> auth_wf (clearAccessDenied s)"
  "auth_wf (fst (signOutAll s))"
  by (auto simp: auth_wf_def session_ids_def auth_defs)

lemma wf_setTrusted: "auth_wf s \<Longrightarrow> auth_wf (setTrusted i b s)"
  by (rule wf_same_ids) (auto simp: session_ids_ops)

lemma wf_setAccessToken: "auth_wf s \<Longrightarrow> auth_wf (setAccessToken tk s)"
  by (rule wf_same_ids) (auto simp: session_ids_ops)

lemmas wf_ops = wf_signIn wf_signOut wf_removeStoredSession wf_setCurrentSession wf_flags
  wf_setTrusted wf_setAccessToken

lemma auth_apply_wf: "auth_wf s \<Longrightarrow> auth_ok e s \<Longrightarrow> auth_wf (auth_apply e s)"
  by (cases e) (simp_all add: wf_ops)

interpretation auth: guarded_machine auth_apply auth_ok auth_wf
  by unfold_locales (rule auth_apply_wf)

lemma wf_restorePreviousSession: "auth_wf s \<Longrightarrow> auth_wf (restorePreviousSession a b s)"
  by (simp add: restorePreviousSession_def wf_setCurrentSession)

section \<open>What hydration accepts\<close>

lemma map_of_dedupe:
  "dom (map_of (foldl (\<lambda>m s. AList.update (ses_id s) s m) a xs)) =
     dom (map_of a) \<union> ses_id ` set xs"
  by (induction xs arbitrary: a) (auto simp: update_conv')

lemma dedupe_inv:
  assumes "distinct (map fst a)" "\<forall>(k, s) \<in> set a. k = ses_id s"
  shows "distinct (map fst (foldl (\<lambda>m s. AList.update (ses_id s) s m) a xs)) \<and>
    (\<forall>(k, s) \<in> set (foldl (\<lambda>m s. AList.update (ses_id s) s m) a xs). k = ses_id s)"
  using assms
proof (induction xs arbitrary: a)
  case (Cons x xs)
  have "set (AList.update (ses_id x) x a) \<subseteq> insert (ses_id x, x) (set a)"
    by (induction a) auto
  with Cons show ?case by (auto intro!: Cons.IH simp: distinct_update)
qed simp

lemma keys_snd: "\<forall>(k, s) \<in> set m. k = ses_id s \<Longrightarrow> map ses_id (map snd m) = map fst m"
  by (induction m) auto

lemma dedupe_ids:
  "distinct (map ses_id (dedupe_sessions xs))"
  "ses_id ` set (dedupe_sessions xs) = ses_id ` set xs"
proof -
  let ?m = "foldl (\<lambda>m s. AList.update (ses_id s) s m) [] xs"
  have inv: "distinct (map fst ?m) \<and> (\<forall>(k, s) \<in> set ?m. k = ses_id s)"
    by (rule dedupe_inv) auto
  then have eq: "map ses_id (dedupe_sessions xs) = map fst ?m"
    unfolding dedupe_sessions_def by (intro keys_snd) blast
  show "distinct (map ses_id (dedupe_sessions xs))" using eq inv by simp
  have "ses_id ` set (dedupe_sessions xs) = fst ` set ?m"
    using arg_cong [OF eq, of set] by simp
  also have "\<dots> = dom (map_of ?m)" by (simp add: dom_map_of_conv_image_fst)
  also have "\<dots> = ses_id ` set xs" using map_of_dedupe [of "[]" xs] by simp
  finally show "ses_id ` set (dedupe_sessions xs) = ses_id ` set xs" .
qed

lemma dedupe_distinct: "distinct (map ses_id xs) \<Longrightarrow> dedupe_sessions xs = xs"
proof -
  have upd: "k \<notin> fst ` set a \<Longrightarrow> AList.update k v a = a @ [(k, v)]"
    for k and v :: auth_session and a
    by (induction a) auto
  have "distinct (map ses_id xs) \<Longrightarrow> fst ` set a \<inter> ses_id ` set xs = {} \<Longrightarrow>
    map snd (foldl (\<lambda>m s. AList.update (ses_id s) s m) a xs) = map snd a @ xs" for a
  proof (induction xs arbitrary: a)
    case (Cons x xs)
    then have "AList.update (ses_id x) x a = a @ [(ses_id x, x)]" by (intro upd) auto
    then show ?case using Cons by (auto simp: Cons.IH)
  qed simp
  from this [of "[]"] show "distinct (map ses_id xs) \<Longrightarrow> dedupe_sessions xs = xs"
    by (simp add: dedupe_sessions_def)
qed

lemma normalizeSession_id: "normalizeSession raw = Some s \<Longrightarrow> ses_id s \<noteq> []"
  by (auto simp: normalizeSession_def Let_def split: option.splits if_splits)

lemma normalizeSession_tokens:
  "normalizeSession raw = Some s \<Longrightarrow>
     access_token (ses_tokens s) \<noteq> [] \<or> refresh_token (ses_tokens s) \<noteq> []"
  by (auto simp: normalizeSession_def Let_def split: option.splits if_splits)

lemma dedupe_normalized:
  "x \<in> set (dedupe_sessions (List.map_filter normalizeSession raws)) \<Longrightarrow> ses_id x \<noteq> []"
proof
  assume "x \<in> set (dedupe_sessions (List.map_filter normalizeSession raws))" "ses_id x = []"
  then have "[] \<in> ses_id ` set (List.map_filter normalizeSession raws)"
    by (metis dedupe_ids(2) image_eqI)
  then show False by (auto simp: List.map_filter_def) (metis normalizeSession_id)
qed

lemma migrated_sessions:
  assumes "migratePersistedState v = (ss, c)"
  shows "distinct (map ses_id ss) \<and> (\<forall>x \<in> set ss. ses_id x \<noteq> [])"
  using assms
  by (auto simp: migratePersistedState_def Let_def dedupe_ids dedupe_normalized
      split: if_splits option.splits jv.splits dest: normalizeSession_id)

lemma migrated_current:
  "migratePersistedState v = (ss, c) \<Longrightarrow> ss \<noteq> [] \<Longrightarrow> c \<in> ses_id ` set ss"
  using first_id_in [of ss]
  by (auto simp: migratePersistedState_def Let_def
      split: if_splits option.splits jv.splits)

lemma merge_persisted_wf: "auth_wf (merge_persisted v cur)"
proof -
  obtain ss c where m: "migratePersistedState v = (ss, c)" by force
  with migrated_sessions [OF m] migrated_current [OF m] first_id_in [of ss]
  show ?thesis
    by (auto simp: merge_persisted_def auth_wf_def session_ids_def Let_def)
qed

section \<open>The store as a list of tabs and as a token store\<close>

definition current_key :: "auth_state \<Rightarrow> string option" where
  "current_key s = (if current_session s = [] then None else Some (current_session s))"

definition token_pair :: "auth_state \<Rightarrow> (string \<times> string) option" where
  "token_pair s = map_option (\<lambda>t. (access_token t, refresh_token t)) (getCurrentTokens s)"

interpretation accounts: keyed_tabs session_ids current_key removeStoredSession auth_wf
proof unfold_locales
  fix s k
  assume "auth_wf s"
  then show "distinct (session_ids s)" by (simp add: auth_wf_def)
  show "current_key s = Some k \<Longrightarrow> k \<in> set (session_ids s)"
    using \<open>auth_wf s\<close> by (auto simp: current_key_def auth_wf_ids split: if_splits)
  show "auth_wf (removeStoredSession k s)" using \<open>auth_wf s\<close> by (rule wf_removeStoredSession)
  show "session_ids (removeStoredSession k s) = filter (\<lambda>x. x \<noteq> k) (session_ids s)"
    by (simp add: session_ids_ops)
  show "current_key s \<noteq> Some k \<Longrightarrow> 1 < length (session_ids s) \<Longrightarrow>
      current_key (removeStoredSession k s) = current_key s"
    using \<open>auth_wf s\<close>
    by (auto simp: current_key_def removeStoredSession_def Let_def auth_wf_ids split: if_splits)
qed

lemma getCurrentSession_setAccessToken:
  "getCurrentSession (setAccessToken tk s) =
     map_option (\<lambda>x. x\<lparr>ses_tokens := (ses_tokens x)\<lparr>access_token := tk\<rparr>\<rparr>) (getCurrentSession s)"
proof -
  let ?f = "\<lambda>x. if ses_id x = current_session s
     then x\<lparr>ses_tokens := (ses_tokens x)\<lparr>access_token := tk\<rparr>\<rparr> else x"
  have "find (\<lambda>x. ses_id x = current_session s) (map ?f (sessions s)) =
      map_option ?f (find (\<lambda>x. ses_id x = current_session s) (sessions s))"
    by (simp add: find_map_image cong: find_cong_set)
  then show ?thesis
    by (auto simp: getCurrentSession_def setAccessToken_def find_Some_iff
        intro!: option.map_cong0 cong: option.map_cong)
qed

lemma length_filter_out: "distinct xs \<Longrightarrow> x \<in> set xs \<Longrightarrow>
   Suc (length (filter (\<lambda>y. y \<noteq> x) xs)) = length xs"
  by (induction xs) (auto, subst filter_True, auto)

lemma getCurrentSession_wf:
  "auth_wf s \<Longrightarrow> sessions s \<noteq> [] \<Longrightarrow> \<exists>x. getCurrentSession s = Some x"
  by (auto simp: auth_wf_def getCurrentSession_def session_ids_def find_None_iff
      simp flip: not_None_eq)

lemma getCurrentSession_None: "auth_wf s \<Longrightarrow> getCurrentSession s = None \<longleftrightarrow> sessions s = []"
  using getCurrentSession_wf [of s] by (cases "sessions s") (auto simp: getCurrentSession_def)

interpretation auth_tokens: token_store token_pair setAccessToken "fst \<circ> signOut" session_ids auth_wf
proof unfold_locales
  fix s a
  assume wf: "auth_wf s"
  show "token_pair (setAccessToken a s) = map_option (\<lambda>(_, r). (a, r)) (token_pair s)"
    by (simp add: token_pair_def getCurrentTokens_def getCurrentSession_setAccessToken
        option.map_comp comp_def)
  show "session_ids (setAccessToken a s) = session_ids s" by (simp add: session_ids_ops)
  show "auth_wf (setAccessToken a s)" using wf by (rule wf_setAccessToken)
  show "auth_wf ((fst \<circ> signOut) s)" using wf by (simp add: wf_signOut)
  show "session_ids s \<noteq> [] \<Longrightarrow>
      Suc (length (session_ids ((fst \<circ> signOut) s))) = length (session_ids s)"
    using wf by (auto simp: session_ids_ops auth_wf_ids intro: length_filter_out)
  show "session_ids s = [] \<Longrightarrow> token_pair s = None"
    using wf by (auto simp: token_pair_def getCurrentTokens_def getCurrentSession_def
        session_ids_def)
qed

section \<open>Persistence\<close>

text \<open>Sessions that a reload can restore: their id is their user's id and they hold a token.\<close>

definition restorable :: "auth_session \<Rightarrow> bool" where
  "restorable x \<longleftrightarrow> user_id (ses_user x) = ses_id x \<and> ses_id x \<noteq> [] \<and>
     distinct (map fst (ses_user x)) \<and>
     strip_undef (JObj (ses_user x)) = JObj (ses_user x) \<and>
     (access_token (ses_tokens x) \<noteq> [] \<or> refresh_token (ses_tokens x) \<noteq> [])"

definition restored :: "auth_session \<Rightarrow> auth_session" where
  "restored x = x\<lparr>ses_user := obj_spread [(''id'', JStr (ses_id x))] (ses_user x)\<rparr>"

lemma user_id_get: "user_id u \<noteq> [] \<Longrightarrow> oget u ''id'' = JStr (user_id u)"
  by (auto simp: user_id_def split: jv.splits)

lemma normalize_session_jv: "restorable x \<Longrightarrow> normalizeSession (session_jv x) = Some (restored x)"
  using user_id_get [of "ses_user x"]
  by (auto simp: restorable_def normalizeSession_def session_jv_def oget_def get_str_def
      restored_def)

lemma strip_session_jv: "restorable x \<Longrightarrow> strip_undef (session_jv x) = session_jv x"
  by (simp add: restorable_def session_jv_def)

lemma strip_partialize:
  assumes "\<forall>x \<in> set (sessions s). restorable x"
  shows "strip_undef (partialize s) = partialize s"
proof -
  have "(case session_jv x of JUndef \<Rightarrow> JNull | _ \<Rightarrow> strip_undef (session_jv x)) = session_jv x"
    if "x \<in> set (sessions s)" for x
    using strip_session_jv [of x] assms that
    by (cases "session_jv x") (auto simp: session_jv_def)
  then have "map (\<lambda>v. case v of JUndef \<Rightarrow> JNull | _ \<Rightarrow> strip_undef v) (map session_jv (sessions s)) =
      map session_jv (sessions s)"
    by simp
  then show ?thesis by (auto simp: partialize_def split: option.splits)
qed

lemma map_filter_all: "\<forall>x \<in> set xs. f x = Some (g x) \<Longrightarrow> List.map_filter f xs = map g xs"
  by (induction xs) (auto simp: List.map_filter_simps)

lemma restored_id [simp]: "ses_id (restored x) = ses_id x"
  by (simp add: restored_def)

lemma partialize_get:
  "oget (props (partialize s)) ''sessions'' = JArr (map session_jv (sessions s))"
  "get_str (props (partialize s)) ''current_session'' = Some (current_session s)"
  "get_str (props (partialize s)) ''redirectUrl'' = redirectUrl s"
  "truthy (partialize s)"
  by (auto simp: partialize_def props_def oget_def get_str_def split: option.splits)

lemma migrate_partialize:
  assumes "auth_wf s" "\<forall>x \<in> set (sessions s). restorable x"
  shows "migratePersistedState (partialize s) = (map restored (sessions s), current_session s)"
proof -
  have mf: "List.map_filter normalizeSession (map session_jv (sessions s)) =
      map restored (sessions s)"
    using assms(2) by (simp add: List.map_filter_def comp_def normalize_session_jv)
  have dd: "dedupe_sessions (map restored (sessions s)) = map restored (sessions s)"
    using assms(1) by (intro dedupe_distinct) (simp add: auth_wf_def session_ids_def comp_def)
  show ?thesis using assms(1)
    by (auto simp: migratePersistedState_def partialize_get Let_def mf dd auth_wf_def
        session_ids_def split: if_splits)
qed

lemma storage_roundtrip:
  assumes "\<forall>x \<in> set (sessions s). restorable x"
  shows "rehydrate (persist_write s) cur = merge_persisted (partialize s) cur"
proof -
  have ne: "partialize s \<noteq> JUndef" by (simp add: partialize_def)
  have state: "isZustandPersistEnvelope (JObj [(''state'', partialize s), v]) = Some (partialize s)"
    for v by (simp add: isZustandPersistEnvelope_def partialize_def)
  have no_env: "isZustandPersistEnvelope (partialize s) = None"
    by (auto simp: isZustandPersistEnvelope_def partialize_def split: option.splits)
  have w: "persist_write s = Some (JText (partialize s))"
    using strip_partialize [OF assms] ne
    by (simp add: persist_write_def storage_setItem_def stringify_def state)
  have "parsePersistedSnapshot (Some (JText (partialize s))) = Some (partialize s)"
    using no_env by (simp add: parsePersistedSnapshot_def) (simp add: partialize_def)
  then show ?thesis
    using strip_partialize [OF assms] ne
    by (simp add: rehydrate_def w storage_getItem_def partialize_get stringify_def)
       (simp add: props_def oget_def)
qed

lemma restored_fields: "restorable x \<Longrightarrow> oget (ses_user (restored x)) k = oget (ses_user x) k"
  using user_id_get [of "ses_user x"]
  by (auto simp: restorable_def restored_def oget_def map_of_obj_spread map_of_rev_distinct
      map_add_def split: option.splits if_splits)

section \<open>Properties\<close>

text \<open>C17: whatever localStorage holds at start-up (nothing, text that does not parse, or any
  JSON value), and whatever store events follow, the sign-in store stays well formed: session
  ids are distinct and non-empty, and there is a current session exactly when anyone is signed
  in, one of the stored ones.\<close>

theorem auth_reachable_wf:
  assumes "admissible auth_ok auth_apply es (rehydrate cell initial_auth)"
  shows "auth_wf (fold auth_apply es (rehydrate cell initial_auth)) \<and>
    (getCurrentSession (fold auth_apply es (rehydrate cell initial_auth)) = None \<longleftrightarrow>
     sessions (fold auth_apply es (rehydrate cell initial_auth)) = [])"
proof -
  have "auth_wf (rehydrate cell initial_auth)"
    by (simp add: rehydrate_def merge_persisted_wf)
  then have wf: "auth_wf (fold auth_apply es (rehydrate cell initial_auth))"
    using assms by (rule auth.run_inv)
  then show ?thesis by (simp add: getCurrentSession_None)
qed

definition demo_user :: "string \<Rightarrow> user" where
  "demo_user i = [(''id'', JStr i), (''email'', JStr (i @ ''@x''))]"

definition demo_tokens :: "string \<Rightarrow> tokens" where
  "demo_tokens i = \<lparr>access_token = ''a-'' @ i, refresh_token = ''r-'' @ i\<rparr>"

definition demo_sign_in :: "string \<Rightarrow> auth_event" where
  "demo_sign_in i = SignIn \<lparr>random_uuid = None, date_now = 0\<rparr> None (demo_user i) (demo_tokens i) False"

theorem auth_reachable_wf_witness:
  "auth_wf (fold auth_apply [demo_sign_in ''u1'', demo_sign_in ''u2'', SignOut]
     (rehydrate (Some BadText) initial_auth))"
  using auth_reachable_wf [of "[demo_sign_in ''u1'', demo_sign_in ''u2'', SignOut]" "Some BadText"]
  by (simp add: demo_sign_in_def)

text \<open>a reload restores the store. After a write and a read of localStorage every session
  comes back with its id, trust flag, tokens and user fields, the same session is current, and
  the flags that are not persisted keep the values of the fresh store.\<close>

theorem persist_roundtrip:
  assumes "auth_wf s" and "\<forall>x \<in> set (sessions s). restorable x"
  shows "rehydrate (persist_write s) cur =
      cur\<lparr>sessions := map restored (sessions s), current_session := current_session s,
          redirectUrl := (case redirectUrl s of Some u \<Rightarrow> Some u | None \<Rightarrow> redirectUrl cur)\<rparr> \<and>
    (\<forall>x \<in> set (sessions s). \<forall>k. oget (ses_user (restored x)) k = oget (ses_user x) k)"
proof -
  have "\<exists>x \<in> set (sessions s). ses_id x = current_session s" if "current_session s \<noteq> []"
    using assms(1) that by (auto simp: auth_wf_def session_ids_def split: if_splits)
  then show ?thesis
    using assms restored_fields
    by (auto simp: storage_roundtrip merge_persisted_def migrate_partialize partialize_get)
qed

definition demo_store :: auth_state where
  "demo_store = \<lparr>current_session = ''u1'',
     sessions = [\<lparr>ses_id = ''u1'', ses_trusted = True, ses_user = demo_user ''u1'',
                  ses_tokens = demo_tokens ''u1''\<rparr>,
                 \<lparr>ses_id = ''u2'', ses_trusted = False, ses_user = demo_user ''u2'',
                  ses_tokens = demo_tokens ''u2''\<rparr>],
     redirectUrl = Some ''/home'', accessDenied = True\<rparr>"

lemma demo_store_ok: "auth_wf demo_store" "\<forall>x \<in> set (sessions demo_store). restorable x"
  by (simp_all add: demo_store_def auth_wf_def session_ids_def restorable_def demo_user_def
      demo_tokens_def user_id_def oget_def)

theorem persist_roundtrip_witness:
  "current_session (rehydrate (persist_write demo_store) initial_auth) = ''u1'' \<and>
   accessDenied (rehydrate (persist_write demo_store) initial_auth) = False"
  using persist_roundtrip [OF demo_store_ok, of initial_auth]
  by (simp add: demo_store_def initial_auth_def)

text \<open>a switch to a stored account whose refresh token the server rejects leaves the user
  where they were: the account tried is forgotten, the previous one is current again, and no
  sign-in page is asked for.\<close>

theorem verify_failure_restores_previous:
  assumes "verify_begin x prev s = AwaitCheck s' rt"
    and "prev \<in> set (session_ids s)" and "prev \<noteq> []" and "prev \<noteq> ses_id x"
  shows "session_ids (fst (verify_end p x prev None s')) =
      filter (\<lambda>i. i \<noteq> ses_id x) (session_ids s) \<and>
    current_session (fst (verify_end p x prev None s')) = prev \<and>
    snd (verify_end p x prev None s') = VerifyFailed False"
proof -
  have s': "s' = setCurrentSession (ses_id x) s"
    using assms(1) by (auto simp: verify_begin_def Let_def split: if_splits)
  obtain t where t: "t = removeStoredSession (ses_id x) s'" by blast
  have ids: "session_ids t = filter (\<lambda>i. i \<noteq> ses_id x) (session_ids s)"
    by (simp add: t s' session_ids_ops)
  then have "prev \<in> set (session_ids t)" using assms by simp
  then have ex: "\<exists>y \<in> set (sessions t). ses_id y = prev" by (auto simp: session_ids_def)
  then have "restorePreviousSession prev (ses_id x) t =
      t\<lparr>current_session := prev, accessDenied := False\<rparr>"
    using assms by (simp add: restorePreviousSession_def setCurrentSession_def)
  then have "verify_end p x prev None s' =
      (t\<lparr>current_session := prev, accessDenied := False\<rparr>, VerifyFailed False)"
    using ex by (auto simp: verify_end_def Let_def simp flip: t)
  then show ?thesis using ids by (simp add: session_ids_def)
qed

theorem verify_failure_restores_previous_witness:
  "current_session (fst (verify_end \<lparr>random_uuid = None, date_now = 0\<rparr>
     (sessions demo_store ! 1) ''u1'' None (setCurrentSession ''u2'' demo_store))) = ''u1''"
proof -
  have "verify_begin (sessions demo_store ! 1) ''u1'' demo_store =
      AwaitCheck (setCurrentSession ''u2'' demo_store) ''r-u2''"
    by (simp add: verify_begin_def demo_store_def demo_tokens_def)
  then show ?thesis
    using verify_failure_restores_previous [of "sessions demo_store ! 1" "''u1''" demo_store]
    by (simp add: demo_store_def session_ids_def)
qed

text \<open>refreshing the access token any number of times changes neither the accounts nor the
  current account's refresh token; the last token stored is the one in use.\<close>

theorem refreshes_keep_refresh_token:
  assumes "auth_wf s"
  shows "session_ids (fold setAccessToken toks s) = session_ids s \<and>
    token_pair (fold setAccessToken toks s) =
      map_option (\<lambda>(a, r). (last (a # toks), r)) (token_pair s)"
  using auth_tokens.rotations [OF assms] by blast

theorem refreshes_keep_refresh_token_witness:
  "token_pair (fold setAccessToken [''n1'', ''n2''] demo_store) = Some (''n2'', ''r-u1'')"
  using refreshes_keep_refresh_token [OF demo_store_ok(1), of "[''n1'', ''n2'']"]
  by (simp add: token_pair_def getCurrentTokens_def getCurrentSession_def demo_store_def
      demo_tokens_def)

text \<open>closing every other stored account, in any order, keeps the current one and only it.\<close>

theorem remove_other_accounts:
  assumes "auth_wf s" and "current_session s = i" and "i \<noteq> []"
    and "distinct ks" and "set ks = set (session_ids s) - {i}"
  shows "session_ids (fold removeStoredSession ks s) = [i] \<and>
    current_key (fold removeStoredSession ks s) = Some i"
proof -
  have sel: "current_key s = Some i" using assms by (simp add: current_key_def)
  have mem: "i \<in> set (session_ids s)"
    using accounts.selected_key [OF assms(1) sel] .
  have "filter (\<lambda>x. x \<notin> set (session_ids s) - {i}) xs = filter (\<lambda>x. x = i) xs"
    if "set xs \<subseteq> set (session_ids s)" for xs
    using that by (intro filter_cong) auto
  moreover have "distinct xs \<Longrightarrow> i \<in> set xs \<Longrightarrow> filter (\<lambda>x. x = i) xs = [i]" for xs
    by (induction xs) (auto simp: filter_empty_conv)
  ultimately show ?thesis
    using accounts.close_others [OF assms(1) mem _ assms(4)]
      accounts.close_others_selected [OF assms(1) sel _ assms(4)]
      accounts.distinct_keys [OF assms(1)] mem assms(5) by simp
qed

theorem remove_other_accounts_witness:
  "session_ids (fold removeStoredSession [''u2''] demo_store) = [''u1'']"
  using remove_other_accounts [of demo_store "''u1''" "[''u2'']"] demo_store_ok(1)
  by (auto simp: demo_store_def session_ids_def)

end
