(* ===== verification/Jwt.thy ===== *)
theory Jwt
  imports Js_Prelude
begin

text \<open>
  \<open>lib/network/jwt.ts\<close>: when an access token counts as stale. \<open>jwtDecode\<close> is a library function
  and stays a parameter \<open>dec\<close>: \<open>None\<close> where it throws, otherwise the payload, whose two claims
  are \<open>None\<close> where they are not numbers. Claims are seconds, everything else milliseconds.
\<close>

record payload =
  claim_exp :: "rat option"
  claim_iat :: "rat option"

type_synonym decoder = "string \<Rightarrow> payload option"

definition REFRESH_SKEW_MS :: rat where
  "REFRESH_SKEW_MS = 2 * 1000"

definition isValidJwtFormat :: "decoder \<Rightarrow> string option \<Rightarrow> bool" where
  "isValidJwtFormat dec token =
     (case token of None \<Rightarrow> False
      | Some t \<Rightarrow> if t = [] then False else dec t \<noteq> None)"

definition getTokenExpiryMs :: "decoder \<Rightarrow> string option \<Rightarrow> rat option" where
  "getTokenExpiryMs dec token =
     (if \<not> isValidJwtFormat dec token then None
      else case Option.bind token dec of
        None \<Rightarrow> None
      | Some p \<Rightarrow> map_option (\<lambda>e. e * 1000) (claim_exp p))"

definition getTokenLifetimeMs :: "decoder \<Rightarrow> string option \<Rightarrow> rat option" where
  "getTokenLifetimeMs dec token =
     (if \<not> isValidJwtFormat dec token then None
      else case Option.bind token dec of
        None \<Rightarrow> None
      | Some p \<Rightarrow>
          (case (claim_exp p, claim_iat p) of
             (Some e, Some i) \<Rightarrow>
               (let lifetimeMs = (e - i) * 1000 in if lifetimeMs > 0 then Some lifetimeMs else None)
           | _ \<Rightarrow> None))"

definition resolveEffectiveRefreshSkewMs :: "decoder \<Rightarrow> string option \<Rightarrow> rat \<Rightarrow> rat" where
  "resolveEffectiveRefreshSkewMs dec token skewMs =
     (case getTokenLifetimeMs dec token of
        None \<Rightarrow> skewMs
      | Some lifetimeMs \<Rightarrow> min skewMs (max 0 (lifetimeMs - 1000)))"

definition isAccessTokenStale :: "decoder \<Rightarrow> rat \<Rightarrow> string option \<Rightarrow> rat \<Rightarrow> bool" where
  "isAccessTokenStale dec now token skewMs =
     (case getTokenExpiryMs dec token of
        None \<Rightarrow> False
      | Some e \<Rightarrow>
          (let remainingMs = e - now in
           if remainingMs \<le> 0 then True
           else remainingMs \<le> resolveEffectiveRefreshSkewMs dec token skewMs))"

lemma valid_Some: "isValidJwtFormat dec (Some t) \<longleftrightarrow> t \<noteq> [] \<and> dec t \<noteq> None"
  by (simp add: isValidJwtFormat_def)

lemma expiry_Some:
  "t \<noteq> [] \<Longrightarrow> dec t = Some p \<Longrightarrow> claim_exp p = Some e \<Longrightarrow>
     getTokenExpiryMs dec (Some t) = Some (e * 1000)"
  by (simp add: getTokenExpiryMs_def valid_Some)

lemma lifetime_Some:
  "t \<noteq> [] \<Longrightarrow> dec t = Some p \<Longrightarrow> claim_exp p = Some e \<Longrightarrow> claim_iat p = Some i \<Longrightarrow> i < e \<Longrightarrow>
     getTokenLifetimeMs dec (Some t) = Some ((e - i) * 1000)"
  by (simp add: getTokenLifetimeMs_def valid_Some Let_def)

lemma stale_deadline:
  "getTokenExpiryMs dec token = Some e \<Longrightarrow>
   isAccessTokenStale dec now token skew \<longleftrightarrow>
     e - max 0 (resolveEffectiveRefreshSkewMs dec token skew) \<le> now"
  by (auto simp: isAccessTokenStale_def Let_def max_def)

text \<open>a token with an expiry is stale from one instant on, and never before it: the instant is
  its expiry less the effective refresh window, the window being the requested one capped at a
  second less than the token's whole lifetime.\<close>

theorem stale_iff_after_deadline:
  assumes "getTokenExpiryMs dec token = Some e"
  shows "isAccessTokenStale dec now token skew \<longleftrightarrow>
    e - max 0 (resolveEffectiveRefreshSkewMs dec token skew) \<le> now"
  using assms by (rule stale_deadline)

theorem stale_iff_after_deadline_witness:
  "isAccessTokenStale (\<lambda>t. Some \<lparr>claim_exp = Some 100, claim_iat = Some 90\<rparr>) 98000 (Some ''t'')
     REFRESH_SKEW_MS"
  using stale_iff_after_deadline
    [of "\<lambda>t. Some \<lparr>claim_exp = Some 100, claim_iat = Some 90\<rparr>" "Some ''t''" 100000 98000
        REFRESH_SKEW_MS]
  by (simp add: expiry_Some resolveEffectiveRefreshSkewMs_def lifetime_Some REFRESH_SKEW_MS_def)

text \<open>no token is stale at the moment it is issued, however short its lifetime and however
  long the refresh window asked for: a fresh token can always be used once.\<close>

theorem fresh_token_not_stale:
  assumes "t \<noteq> []" and "dec t = Some p" and "claim_exp p = Some e" and "claim_iat p = Some i"
    and "i < e"
  shows "\<not> isAccessTokenStale dec (i * 1000) (Some t) skew"
proof -
  have "getTokenExpiryMs dec (Some t) = Some (e * 1000)"
    using assms(1-3) by (rule expiry_Some)
  moreover have "getTokenLifetimeMs dec (Some t) = Some ((e - i) * 1000)"
    using assms by (rule lifetime_Some)
  moreover have "0 < (e - i) * 1000" using assms(5) by simp
  ultimately show ?thesis
    by (simp add: stale_deadline resolveEffectiveRefreshSkewMs_def)
qed

theorem fresh_token_not_stale_witness:
  "\<not> isAccessTokenStale (\<lambda>t. Some \<lparr>claim_exp = Some 11, claim_iat = Some 10\<rparr>) (10 * 1000)
     (Some ''t'') 3600000"
  by (rule fresh_token_not_stale [where e = 11 and p = "\<lparr>claim_exp = Some 11, claim_iat = Some 10\<rparr>"])
     simp_all

end
