(* ===== verification/Auth_Pipeline.thy ===== *)
theory Auth_Pipeline
  imports Auth_Store Jwt
begin

text \<open>
  The request pipeline of \<open>lib/network\<close>: the constants, the single-flight token refresh
  (\<open>refresh.ts\<close>) and the request and response interceptors (\<open>interceptors.ts\<close>). Each interceptor
  is a function up to its \<open>await\<close> and another one after it. \<open>net_step\<close> composes them into a
  system of concurrent requests sharing the store and the module variable \<open>inFlight\<close>: a step is
  what runs between two awaits. The server, the user and the clock are arbitrary.

  axios is not under src/. The steps rely on its documented behaviour: a request runs the
  request interceptors, then the network, then the response interceptors, and a config passed to
  the client again keeps properties such as \<open>_authRetried\<close>.
\<close>

section \<open>Constants\<close>

definition TOKEN_TYPE :: string where "TOKEN_TYPE = ''Bearer ''"

definition REQUEST_HEADER_AUTH_KEY :: string where "REQUEST_HEADER_AUTH_KEY = ''Authorization''"

definition REFRESH_TIMEOUT_MS :: nat where "REFRESH_TIMEOUT_MS = 15 * 1000"

definition FATAL_AUTH_CODES :: "string list" where
  "FATAL_AUTH_CODES = [''INVALID_CREDENTIALS'']"

definition REFRESHABLE_AUTH_CODES :: "string list" where
  "REFRESHABLE_AUTH_CODES = [''TOKEN_EXPIRED'', ''TOKEN_INVALID'', ''AUTH_REQUIRED'']"

definition PERMISSION_CODES :: "string list" where
  "PERMISSION_CODES = [''INSUFFICIENT_PERMISSIONS'', ''ROLE_NOT_ALLOWED'', ''API_KEY_FORBIDDEN'']"

section \<open>Requests\<close>

record config =
  cfg_method :: "string option"
  cfg_url :: string
  cfg_base :: "string option"
  cfg_timeout :: "nat option"
  cfg_headers :: "(string \<times> string) list"
  auth_retried :: bool
  is_refresh :: bool

definition set_header :: "string \<Rightarrow> string \<Rightarrow> config \<Rightarrow> config" where
  "set_header k v c = c\<lparr>cfg_headers := AList.update k v (cfg_headers c)\<rparr>"

definition applyAuthHeader :: "config \<Rightarrow> string \<Rightarrow> config" where
  "applyAuthHeader c token = set_header REQUEST_HEADER_AUTH_KEY (TOKEN_TYPE @ token) c"

text \<open>The config of the refresh round trip; \<open>base\<close> is \<open>BaseService.defaults.baseURL\<close>.\<close>

definition refresh_config :: "string \<Rightarrow> config \<Rightarrow> string \<Rightarrow> config" where
  "refresh_config base c refreshToken =
     \<lparr>cfg_method = Some (case cfg_method c of Some m \<Rightarrow> m | None \<Rightarrow> ''get''),
      cfg_url = cfg_url c,
      cfg_base = Some (case cfg_base c of Some b \<Rightarrow> b | None \<Rightarrow> base),
      cfg_timeout = Some REFRESH_TIMEOUT_MS,
      cfg_headers = [(''accept'', ''application/json''),
                     (''Authorization'', TOKEN_TYPE @ refreshToken), (''cft'', ''t'')],
      auth_retried = False, is_refresh = True\<rparr>"

text \<open>How the refresh round trip ends: with response data, or by throwing.\<close>

datatype refresh_reply = RefreshData jv | RefreshFailed

definition performRefresh ::
  "decoder \<Rightarrow> refresh_reply \<Rightarrow> auth_state \<Rightarrow> auth_state \<times> string option" where
  "performRefresh dec reply st =
     (case reply of
        RefreshData (JStr t) \<Rightarrow>
          if isValidJwtFormat dec (Some t) then (setAccessToken t st, Some t) else (st, None)
      | _ \<Rightarrow> (st, None))"

section \<open>The request interceptor\<close>

definition stored_access :: "auth_state \<Rightarrow> string" where
  "stored_access st = (case getCurrentTokens st of None \<Rightarrow> [] | Some t \<Rightarrow> access_token t)"

definition stored_refresh :: "auth_state \<Rightarrow> string" where
  "stored_refresh st = (case getCurrentTokens st of None \<Rightarrow> [] | Some t \<Rightarrow> refresh_token t)"

text \<open>
  Either the request goes out now, or it awaits \<open>refreshAccessToken\<close>; the access token read
  before the await is its last resort.
\<close>

datatype request_step = SendNow config | AwaitToken config string string

definition request_interceptor :: "decoder \<Rightarrow> rat \<Rightarrow> auth_state \<Rightarrow> config \<Rightarrow> request_step" where
  "request_interceptor dec now st cfg =
     (if is_refresh cfg then SendNow cfg
      else let accessToken = stored_access st; refreshToken = stored_refresh st in
        if accessToken = [] \<and> refreshToken = [] then SendNow (set_header ''cra'' ''t'' cfg)
        else let cfg = set_header ''cra'' ''f'' cfg in
          if accessToken \<noteq> [] \<and> \<not> isAccessTokenStale dec now (Some accessToken) REFRESH_SKEW_MS
          then SendNow (applyAuthHeader cfg accessToken)
          else if refreshToken \<noteq> [] then AwaitToken cfg accessToken refreshToken
          else if accessToken \<noteq> [] then SendNow (applyAuthHeader cfg accessToken)
          else SendNow cfg)"

definition request_resume :: "config \<Rightarrow> string \<Rightarrow> string option \<Rightarrow> config" where
  "request_resume cfg accessToken newAccess =
     (case newAccess of
        Some (c # cs) \<Rightarrow> applyAuthHeader cfg (c # cs)
      | _ \<Rightarrow> if accessToken \<noteq> [] then applyAuthHeader cfg accessToken else cfg)"

section \<open>The response interceptors\<close>

text \<open>A successful response; \<open>reauth\<close> is the user and tokens of a \<open>reauthorize\<close> envelope.\<close>

record ok_response =
  ok_status :: nat
  reauth :: "(user \<times> tokens) option"

datatype ok_step = Deliver auth_state | Resend auth_state config

definition response_interceptor ::
  "platform \<Rightarrow> config \<Rightarrow> ok_response \<Rightarrow> auth_state \<Rightarrow> ok_step" where
  "response_interceptor p cfg resp st =
     (case reauth resp of
        Some (u, t) \<Rightarrow>
          if ok_status resp = 200
          then let st' = signIn p None u t False st in
            if \<not> auth_retried cfg then Resend st' (cfg\<lparr>auth_retried := True\<rparr>) else Deliver st'
          else Deliver st
      | None \<Rightarrow> Deliver st)"

text \<open>A failed request: no response at all, or a status with the response data.\<close>

datatype failure = NoResponse | ErrorResponse nat jv

definition getResponseCode :: "jv \<Rightarrow> string option" where
  "getResponseCode data = Option.bind (as_object data) (\<lambda>b. get_str b ''code'')"

definition code_in :: "string option \<Rightarrow> string list \<Rightarrow> bool" where
  "code_in code codes = (case code of None \<Rightarrow> False | Some c \<Rightarrow> c \<in> set codes)"

definition isAccessDenied :: "bool \<Rightarrow> nat \<Rightarrow> string option \<Rightarrow> bool" where
  "isAccessDenied signedIn status code \<longleftrightarrow>
     code_in code PERMISSION_CODES \<or> status = 403 \<or> (signedIn \<and> code = Some ''UNAUTHORIZED'')"

definition forceSignOut :: "string \<Rightarrow> auth_state \<Rightarrow> auth_state \<times> string list" where
  "forceSignOut message st = (fst (signOut st), if message \<noteq> [] then [message] else [])"

definition sign_out_message :: "string option \<Rightarrow> string" where
  "sign_out_message code =
     (if code = Some ''INVALID_CREDENTIALS'' then ''Invalid credentials''
      else ''Session expired. Please sign in again.'')"

datatype error_step =
    RejectWith auth_state "string list"
  | AwaitRetry config string "string option"

text \<open>\<open>!code || REFRESHABLE_AUTH_CODES.has(code)\<close>.\<close>

definition isRefreshable :: "string option \<Rightarrow> bool" where
  "isRefreshable code \<longleftrightarrow> code = None \<or> code = Some [] \<or> code_in code REFRESHABLE_AUTH_CODES"

definition error_interceptor :: "config option \<Rightarrow> failure \<Rightarrow> auth_state \<Rightarrow> error_step" where
  "error_interceptor cfg fail st =
     (if (case cfg of Some c \<Rightarrow> is_refresh c | None \<Rightarrow> False) then RejectWith st []
      else case fail of
        NoResponse \<Rightarrow> RejectWith st []
      | ErrorResponse status data \<Rightarrow>
          (let code = getResponseCode data in
           if isAccessDenied (isSignedIn st) status code
           then RejectWith (setAccessDenied True st) []
           else if status = 401 then
             (let signed_out = (case forceSignOut (sign_out_message code) st of
                                  (st', ts) \<Rightarrow> RejectWith st' ts) in
              case cfg of
                Some c \<Rightarrow>
                  if isRefreshable code \<and> \<not> code_in code FATAL_AUTH_CODES \<and> \<not> auth_retried c
                     \<and> stored_refresh st \<noteq> []
                  then AwaitRetry (c\<lparr>auth_retried := True\<rparr>) (stored_refresh st) code
                  else signed_out
              | None \<Rightarrow> signed_out)
           else RejectWith st []))"

datatype retry_step = RetryWith config | GiveUp auth_state "string list"

definition error_resume ::
  "config \<Rightarrow> string option \<Rightarrow> string option \<Rightarrow> auth_state \<Rightarrow> retry_step" where
  "error_resume cfg code newAccess st =
     (case newAccess of
        Some (c # cs) \<Rightarrow> RetryWith (applyAuthHeader cfg (c # cs))
      | _ \<Rightarrow> (case forceSignOut (sign_out_message code) st of (st', ts) \<Rightarrow> GiveUp st' ts))"

section \<open>Concurrent requests\<close>

text \<open>
  Where a request is: awaiting a refresh in the request interceptor (with its last-resort access
  token) or in the error interceptor (with the code of the 401); woken up with the refresh's
  result; on the network; or settled.
\<close>

datatype phase =
    WaitingRequest string
  | WaitingRetry "string option"
  | WokenRequest string "string option"
  | WokenRetry "string option" "string option"
  | Sent
  | Fulfilled
  | Rejected

record flow =
  fl_cfg :: config
  fl_phase :: phase
  fl_sends :: nat

text \<open>The promise in \<open>inFlight\<close>: its round trip is open, or it has settled with a result.\<close>

datatype flight = Calling config | Settled "string option"

record net =
  store :: auth_state
  inFlight :: "flight option"
  flows :: "flow list"
  calls :: nat
  toasts :: "string list"

text \<open>\<open>refreshAccessToken\<close>: join the refresh in flight or start one.\<close>

definition refreshAccessToken :: "string \<Rightarrow> config \<Rightarrow> string \<Rightarrow> net \<Rightarrow> net" where
  "refreshAccessToken base cfg refreshToken n =
     (case inFlight n of
        Some _ \<Rightarrow> n
      | None \<Rightarrow> n\<lparr>inFlight := Some (Calling (refresh_config base cfg refreshToken)),
                   calls := Suc (calls n)\<rparr>)"

definition set_flow :: "nat \<Rightarrow> flow \<Rightarrow> net \<Rightarrow> net" where
  "set_flow i f n = n\<lparr>flows := (flows n)[i := f]\<rparr>"

text \<open>\<open>BaseService(cfg)\<close> for the request \<open>i\<close>, which has been on the network \<open>k\<close> times.\<close>

definition dispatch :: "decoder \<Rightarrow> string \<Rightarrow> rat \<Rightarrow> nat \<Rightarrow> nat \<Rightarrow> config \<Rightarrow> net \<Rightarrow> net" where
  "dispatch dec base now i k cfg n =
     (case request_interceptor dec now (store n) cfg of
        SendNow c \<Rightarrow> set_flow i \<lparr>fl_cfg = c, fl_phase = Sent, fl_sends = Suc k\<rparr> n
      | AwaitToken c a r \<Rightarrow>
          refreshAccessToken base c r
            (set_flow i \<lparr>fl_cfg = c, fl_phase = WaitingRequest a, fl_sends = k\<rparr> n))"

definition wake :: "string option \<Rightarrow> flow \<Rightarrow> flow" where
  "wake r f =
     (case fl_phase f of
        WaitingRequest a \<Rightarrow> f\<lparr>fl_phase := WokenRequest a r\<rparr>
      | WaitingRetry code \<Rightarrow> f\<lparr>fl_phase := WokenRetry code r\<rparr>
      | _ \<Rightarrow> f)"

definition settle :: "phase \<Rightarrow> nat \<Rightarrow> auth_state \<Rightarrow> string list \<Rightarrow> net \<Rightarrow> net" where
  "settle ph i st ts n =
     (set_flow i ((flows n ! i)\<lparr>fl_phase := ph\<rparr>) n)\<lparr>store := st, toasts := toasts n @ ts\<rparr>"

definition on_success ::
  "decoder \<Rightarrow> string \<Rightarrow> rat \<Rightarrow> platform \<Rightarrow> nat \<Rightarrow> ok_response \<Rightarrow> net \<Rightarrow> net" where
  "on_success dec base now p i resp n =
     (let f = flows n ! i in
      case response_interceptor p (fl_cfg f) resp (store n) of
        Deliver st \<Rightarrow> settle Fulfilled i st [] n
      | Resend st c \<Rightarrow> dispatch dec base now i (fl_sends f) c (n\<lparr>store := st\<rparr>))"

definition on_failure :: "string \<Rightarrow> nat \<Rightarrow> failure \<Rightarrow> net \<Rightarrow> net" where
  "on_failure base i fail n =
     (let f = flows n ! i in
      case error_interceptor (Some (fl_cfg f)) fail (store n) of
        RejectWith st ts \<Rightarrow> settle Rejected i st ts n
      | AwaitRetry c r code \<Rightarrow>
          refreshAccessToken base c r
            (set_flow i (f\<lparr>fl_cfg := c, fl_phase := WaitingRetry code\<rparr>) n))"

definition on_retry ::
  "decoder \<Rightarrow> string \<Rightarrow> rat \<Rightarrow> nat \<Rightarrow> string option \<Rightarrow> string option \<Rightarrow> net \<Rightarrow> net" where
  "on_retry dec base now i code r n =
     (let f = flows n ! i in
      case error_resume (fl_cfg f) code r (store n) of
        RetryWith c \<Rightarrow> dispatch dec base now i (fl_sends f) c n
      | GiveUp st ts \<Rightarrow> settle Rejected i st ts n)"

inductive net_step :: "decoder \<Rightarrow> string \<Rightarrow> net \<Rightarrow> net \<Rightarrow> bool" for dec base where
  issue: "\<not> auth_retried cfg \<Longrightarrow>
    net_step dec base n
      (dispatch dec base now (length (flows n)) 0 cfg
        (n\<lparr>flows := flows n @ [\<lparr>fl_cfg = cfg, fl_phase = Sent, fl_sends = 0\<rparr>]\<rparr>))"
| refresh_replies: "inFlight n = Some (Calling c) \<Longrightarrow>
    net_step dec base n
      (n\<lparr>store := fst (performRefresh dec reply (store n)),
         inFlight := Some (Settled (snd (performRefresh dec reply (store n)))),
         calls := calls n - 1\<rparr>)"
| refresh_finally: "inFlight n = Some (Settled r) \<Longrightarrow>
    net_step dec base n (n\<lparr>inFlight := None, flows := map (wake r) (flows n)\<rparr>)"
| resume_request: "i < length (flows n) \<Longrightarrow> fl_phase (flows n ! i) = WokenRequest a r \<Longrightarrow>
    net_step dec base n
      (set_flow i \<lparr>fl_cfg = request_resume (fl_cfg (flows n ! i)) a r, fl_phase = Sent,
                   fl_sends = Suc (fl_sends (flows n ! i))\<rparr> n)"
| resume_retry: "i < length (flows n) \<Longrightarrow> fl_phase (flows n ! i) = WokenRetry code r \<Longrightarrow>
    net_step dec base n (on_retry dec base now i code r n)"
| succeeds: "i < length (flows n) \<Longrightarrow> fl_phase (flows n ! i) = Sent \<Longrightarrow>
    random_uuid p \<noteq> Some [] \<Longrightarrow>
    net_step dec base n (on_success dec base now p i resp n)"
| fails: "i < length (flows n) \<Longrightarrow> fl_phase (flows n ! i) = Sent \<Longrightarrow>
    net_step dec base n (on_failure base i fail n)"
| user_acts: "auth_ok e (store n) \<Longrightarrow>
    net_step dec base n (n\<lparr>store := auth_apply e (store n)\<rparr>)"

text \<open>A page load: the store is hydrated, nothing is in flight.\<close>

definition boot :: "jtext option \<Rightarrow> net" where
  "boot cell = \<lparr>store = rehydrate cell initial_auth, inFlight = None, flows = [], calls = 0,
                toasts = []\<rparr>"

inductive net_reachable :: "decoder \<Rightarrow> string \<Rightarrow> net \<Rightarrow> bool" for dec base where
  boots: "net_reachable dec base (boot cell)"
| steps: "net_reachable dec base n \<Longrightarrow> net_step dec base n n' \<Longrightarrow> net_reachable dec base n'"

section \<open>The invariant of the system\<close>

inductive_cases net_stepE: "net_step dec base n n'"

fun waiting_phase :: "phase \<Rightarrow> bool" where
  "waiting_phase (WaitingRequest a) = True"
| "waiting_phase (WaitingRetry c) = True"
| "waiting_phase _ = False"

text \<open>Transmissions a request in this phase has ahead of it before its next response.\<close>

fun pending :: "phase \<Rightarrow> nat" where
  "pending Sent = 0"
| "pending Fulfilled = 0"
| "pending Rejected = 0"
| "pending _ = 1"

definition within_budget :: "flow \<Rightarrow> bool" where
  "within_budget f \<longleftrightarrow>
     fl_sends f + pending (fl_phase f) \<le> (if auth_retried (fl_cfg f) then 2 else 1)"

definition flow_ok :: "net \<Rightarrow> flow \<Rightarrow> bool" where
  "flow_ok n f \<longleftrightarrow> within_budget f \<and> (waiting_phase (fl_phase f) \<longrightarrow> inFlight n \<noteq> None)"

definition net_inv :: "net \<Rightarrow> bool" where
  "net_inv n \<longleftrightarrow> auth_wf (store n) \<and>
     calls n = (case inFlight n of Some (Calling c) \<Rightarrow> 1 | _ \<Rightarrow> 0) \<and>
     (\<forall>f \<in> set (flows n). flow_ok n f)"

lemma net_inv_nth: "net_inv n \<Longrightarrow> i < length (flows n) \<Longrightarrow> flow_ok n (flows n ! i)"
  by (simp add: net_inv_def)

lemma set_flow_fields [simp]:
  "store (set_flow i f n) = store n" "inFlight (set_flow i f n) = inFlight n"
  "calls (set_flow i f n) = calls n" "toasts (set_flow i f n) = toasts n"
  "flows (set_flow i f n) = (flows n)[i := f]"
  by (simp_all add: set_flow_def)

lemma refreshAccessToken_fields [simp]:
  "store (refreshAccessToken b c r n) = store n" "flows (refreshAccessToken b c r n) = flows n"
  "toasts (refreshAccessToken b c r n) = toasts n"
  "inFlight (refreshAccessToken b c r n) \<noteq> None"
  by (auto simp: refreshAccessToken_def split: option.splits)

lemma set_flow_inv: "net_inv n \<Longrightarrow> flow_ok n f \<Longrightarrow> net_inv (set_flow i f n)"
  using set_update_subset_insert [of "flows n" i f]
  by (fastforce simp: net_inv_def flow_ok_def)

lemma refresh_flow_ok: "flow_ok n f \<Longrightarrow> flow_ok (refreshAccessToken b c r n) f"
  by (auto simp: flow_ok_def simp del: not_None_eq)

lemma refresh_inv: "net_inv n \<Longrightarrow> net_inv (refreshAccessToken b c r n)"
  by (auto simp: net_inv_def refresh_flow_ok simp del: not_None_eq)
     (auto simp: refreshAccessToken_def split: option.splits)

lemma refresh_set_flow:
  "refreshAccessToken b c r (set_flow i f n) = set_flow i f (refreshAccessToken b c r n)"
  by (auto simp: refreshAccessToken_def set_flow_def split: option.splits)

lemma await_inv:
  "net_inv n \<Longrightarrow> within_budget f \<Longrightarrow> net_inv (refreshAccessToken b c r (set_flow i f n))"
  by (auto simp: refresh_set_flow flow_ok_def simp del: not_None_eq
      intro!: set_flow_inv refresh_inv)

lemma retried_headers [simp]:
  "auth_retried (set_header k v c) = auth_retried c"
  "auth_retried (applyAuthHeader c t) = auth_retried c"
  "auth_retried (request_resume c a r) = auth_retried c"
  by (auto simp: set_header_def applyAuthHeader_def request_resume_def
      split: option.splits list.splits)

lemma request_interceptor_retried:
  "request_interceptor dec now st cfg = SendNow c \<Longrightarrow> auth_retried c = auth_retried cfg"
  "request_interceptor dec now st cfg = AwaitToken c a r \<Longrightarrow> auth_retried c = auth_retried cfg"
  by (auto simp: request_interceptor_def Let_def split: if_splits)

lemma dispatch_inv:
  assumes "net_inv n" "Suc k \<le> (if auth_retried cfg then 2 else 1)"
  shows "net_inv (dispatch dec base now i k cfg n)"
proof (cases "request_interceptor dec now (store n) cfg")
  case (SendNow c)
  then show ?thesis using assms request_interceptor_retried(1) [OF SendNow]
    by (auto simp: dispatch_def flow_ok_def within_budget_def intro!: set_flow_inv)
next
  case (AwaitToken c a r)
  then show ?thesis using assms request_interceptor_retried(2) [OF AwaitToken]
    by (auto simp: dispatch_def within_budget_def intro!: await_inv)
qed

lemma store_inv: "net_inv n \<Longrightarrow> auth_wf st \<Longrightarrow> net_inv (n\<lparr>store := st\<rparr>)"
  by (simp add: net_inv_def flow_ok_def)

lemma settle_inv:
  assumes "net_inv n" "i < length (flows n)" "auth_wf st" "pending ph = 0" "\<not> waiting_phase ph"
  shows "net_inv (settle ph i st ts n)"
proof -
  have "net_inv (set_flow i ((flows n ! i)\<lparr>fl_phase := ph\<rparr>) n)"
    using assms net_inv_nth [OF assms(1,2)]
    by (intro set_flow_inv) (auto simp: flow_ok_def within_budget_def)
  then show ?thesis using assms(3) by (simp add: settle_def net_inv_def flow_ok_def)
qed

lemma wf_forceSignOut: "auth_wf st \<Longrightarrow> forceSignOut m st = (st', ts) \<Longrightarrow> auth_wf st'"
  by (auto simp: forceSignOut_def wf_signOut)

lemma error_interceptor_wf:
  "auth_wf st \<Longrightarrow> error_interceptor c fail st = RejectWith st' ts \<Longrightarrow> auth_wf st'"
  by (auto simp: error_interceptor_def Let_def wf_ops forceSignOut_def
      split: if_splits failure.splits option.splits)

lemma error_interceptor_retry:
  "error_interceptor (Some cfg) fail st = AwaitRetry c r code \<Longrightarrow>
     \<not> auth_retried cfg \<and> c = cfg\<lparr>auth_retried := True\<rparr>"
  by (auto simp: error_interceptor_def Let_def forceSignOut_def
      split: if_splits failure.splits)

lemma response_interceptor_wf:
  assumes "auth_wf st" "random_uuid p \<noteq> Some []"
  shows "response_interceptor p cfg resp st = Deliver st' \<Longrightarrow> auth_wf st'"
    and "response_interceptor p cfg resp st = Resend st' c \<Longrightarrow>
      auth_wf st' \<and> \<not> auth_retried cfg \<and> c = cfg\<lparr>auth_retried := True\<rparr>"
  using assms
  by (auto simp: response_interceptor_def Let_def wf_signIn split: option.splits if_splits)

lemma performRefresh_wf: "auth_wf st \<Longrightarrow> auth_wf (fst (performRefresh dec reply st))"
  by (auto simp: performRefresh_def wf_setAccessToken split: refresh_reply.splits jv.splits)

lemma wake_ok: "flow_ok n f \<Longrightarrow> within_budget (wake r f) \<and> \<not> waiting_phase (fl_phase (wake r f))"
  by (cases "fl_phase f") (auto simp: flow_ok_def within_budget_def wake_def)

lemma on_success_inv:
  assumes "net_inv n" "i < length (flows n)" "fl_phase (flows n ! i) = Sent"
    "random_uuid p \<noteq> Some []"
  shows "net_inv (on_success dec base now p i resp n)"
proof -
  have wf: "auth_wf (store n)" using assms(1) by (simp add: net_inv_def)
  have b: "within_budget (flows n ! i)" using net_inv_nth [OF assms(1,2)] by (simp add: flow_ok_def)
  show ?thesis
  proof (cases "response_interceptor p (fl_cfg (flows n ! i)) resp (store n)")
    case (Deliver st)
    with response_interceptor_wf(1) [OF wf assms(4) Deliver] assms show ?thesis
      by (simp add: on_success_def Let_def settle_inv)
  next
    case (Resend st c)
    with response_interceptor_wf(2) [OF wf assms(4) Resend] assms b show ?thesis
      by (auto simp: on_success_def Let_def within_budget_def intro!: dispatch_inv store_inv)
  qed
qed

lemma on_failure_inv:
  assumes "net_inv n" "i < length (flows n)" "fl_phase (flows n ! i) = Sent"
  shows "net_inv (on_failure base i fail n)"
proof -
  have wf: "auth_wf (store n)" using assms(1) by (simp add: net_inv_def)
  have b: "within_budget (flows n ! i)" using net_inv_nth [OF assms(1,2)] by (simp add: flow_ok_def)
  show ?thesis
  proof (cases "error_interceptor (Some (fl_cfg (flows n ! i))) fail (store n)")
    case (RejectWith st ts)
    with error_interceptor_wf [OF wf RejectWith] assms show ?thesis
      by (simp add: on_failure_def Let_def settle_inv)
  next
    case (AwaitRetry c r code)
    with error_interceptor_retry [OF AwaitRetry] assms b show ?thesis
      by (auto simp: on_failure_def Let_def within_budget_def intro!: await_inv)
  qed
qed

lemma on_retry_inv:
  assumes "net_inv n" "i < length (flows n)" "fl_phase (flows n ! i) = WokenRetry code r"
  shows "net_inv (on_retry dec base now i code r n)"
proof -
  have wf: "auth_wf (store n)" using assms(1) by (simp add: net_inv_def)
  have b: "within_budget (flows n ! i)" using net_inv_nth [OF assms(1,2)] by (simp add: flow_ok_def)
  show ?thesis
  proof (cases "error_resume (fl_cfg (flows n ! i)) code r (store n)")
    case (RetryWith c)
    then have "auth_retried c = auth_retried (fl_cfg (flows n ! i))"
      by (auto simp: error_resume_def forceSignOut_def split: option.splits list.splits)
    with RetryWith assms b show ?thesis
      by (auto simp: on_retry_def Let_def within_budget_def intro!: dispatch_inv)
  next
    case (GiveUp st ts)
    then have "auth_wf st"
      using wf by (auto simp: error_resume_def forceSignOut_def wf_signOut
          split: option.splits list.splits)
    with GiveUp assms show ?thesis by (simp add: on_retry_def Let_def settle_inv)
  qed
qed

lemma net_step_inv: "net_step dec base n n' \<Longrightarrow> net_inv n \<Longrightarrow> net_inv n'"
proof (induction rule: net_step.induct)
  case (issue cfg n now)
  then have "net_inv (n\<lparr>flows := flows n @ [\<lparr>fl_cfg = cfg, fl_phase = Sent, fl_sends = 0\<rparr>]\<rparr>)"
    by (auto simp: net_inv_def flow_ok_def within_budget_def)
  with issue show ?case by (auto intro: dispatch_inv)
next
  case (refresh_replies n c reply)
  then show ?case by (auto simp: net_inv_def flow_ok_def performRefresh_wf)
next
  case (refresh_finally n r)
  then show ?case using wake_ok [of n] by (fastforce simp: net_inv_def flow_ok_def)
next
  case (resume_request i n a r)
  then show ?case using net_inv_nth [of n i]
    by (auto simp: flow_ok_def within_budget_def intro!: set_flow_inv)
next
  case (user_acts e n)
  then show ?case by (auto simp: net_inv_def intro: store_inv auth_apply_wf) (simp add: flow_ok_def)
qed (auto intro: on_success_inv on_failure_inv on_retry_inv)

lemma boot_inv: "net_inv (boot cell)"
  by (simp add: net_inv_def boot_def rehydrate_def merge_persisted_wf)

lemma net_reachable_inv: "net_reachable dec base n \<Longrightarrow> net_inv n"
  by (induction rule: net_reachable.induct) (auto intro: boot_inv net_step_inv)

section \<open>What removes an account\<close>

lemma dispatch_store: "store (dispatch dec base now i k cfg n) = store n"
  by (simp add: dispatch_def split: request_step.split)

lemma performRefresh_ids: "session_ids (fst (performRefresh dec reply st)) = session_ids st"
  by (auto simp: performRefresh_def session_ids_ops split: refresh_reply.split jv.split)

lemma signIn_ids: "set (session_ids st) \<subseteq> set (session_ids (signIn p sid u t tr st))"
  by (auto simp: signIn_def session_ids_def Let_def image_def)

lemma response_ids:
  "response_interceptor p cfg resp st = Deliver st' \<Longrightarrow> set (session_ids st) \<subseteq> set (session_ids st')"
  "response_interceptor p cfg resp st = Resend st' c \<Longrightarrow> set (session_ids st) \<subseteq> set (session_ids st')"
  using signIn_ids by (fastforce simp: response_interceptor_def Let_def split: option.splits if_splits)+

lemma error_resume_gives_up:
  "error_resume cfg code r st = GiveUp st' ts \<Longrightarrow>
   st' = fst (signOut st) \<and> ts = [sign_out_message code] \<and> (r = None \<or> r = Some [])"
  by (auto simp: error_resume_def forceSignOut_def sign_out_message_def
      split: option.splits list.splits if_splits)

lemma error_interceptor_signs_out:
  assumes "error_interceptor (Some c) fail st = RejectWith st' ts" and "sessions st' \<noteq> sessions st"
  shows "\<exists>data. fail = ErrorResponse 401 data \<and> \<not> is_refresh c \<and>
    st' = fst (signOut st) \<and> ts = [sign_out_message (getResponseCode data)] \<and>
    \<not> isAccessDenied (isSignedIn st) 401 (getResponseCode data) \<and>
    (code_in (getResponseCode data) FATAL_AUTH_CODES \<or> \<not> isRefreshable (getResponseCode data) \<or>
     stored_refresh st = [] \<or> auth_retried c)"
  using assms
  by (auto simp: error_interceptor_def Let_def setAccessDenied_def forceSignOut_def
      sign_out_message_def split: if_splits failure.splits option.splits)

section \<open>Properties\<close>

text \<open>A first request on a page without stored accounts, for the witnesses.\<close>

definition demo_cfg :: config where
  "demo_cfg = \<lparr>cfg_method = Some ''get'', cfg_url = ''/users'', cfg_base = None,
     cfg_timeout = None, cfg_headers = [], auth_retried = False, is_refresh = False\<rparr>"

definition stale_decoder :: decoder where
  "stale_decoder t = Some \<lparr>claim_exp = Some 0, claim_iat = None\<rparr>"

definition demo_issued :: "net \<Rightarrow> net" where
  "demo_issued n = dispatch stale_decoder ''/api'' 0 (length (flows n)) 0 demo_cfg
     (n\<lparr>flows := flows n @ [\<lparr>fl_cfg = demo_cfg, fl_phase = Sent, fl_sends = 0\<rparr>]\<rparr>)"

definition signed_in_net :: "string list \<Rightarrow> net" where
  "signed_in_net us =
     (boot None)\<lparr>store := fold auth_apply (map demo_sign_in us) (store (boot None))\<rparr>"

lemma signed_in_reachable: "net_reachable dec base (signed_in_net us)"
proof (induction us rule: rev_induct)
  case Nil
  show ?case using net_reachable.boots [of dec base None] by (simp add: signed_in_net_def)
next
  case (snoc u us)
  then have "net_reachable dec base ((signed_in_net us)\<lparr>store :=
      auth_apply (demo_sign_in u) (store (signed_in_net us))\<rparr>)"
    by (rule net_reachable.steps) (rule net_step.user_acts, simp add: demo_sign_in_def)
  then show ?case by (simp add: signed_in_net_def)
qed

lemma demo_issued_reachable:
  "net_reachable stale_decoder ''/api'' n \<Longrightarrow> net_reachable stale_decoder ''/api'' (demo_issued n)"
  unfolding demo_issued_def
  by (erule net_reachable.steps) (rule net_step.issue, simp add: demo_cfg_def)

lemma demo_store_eval:
  "store (signed_in_net [''B'', ''A'']) =
     \<lparr>current_session = ''A'',
      sessions = [\<lparr>ses_id = ''B'', ses_trusted = False, ses_user = demo_user ''B'',
                   ses_tokens = demo_tokens ''B''\<rparr>,
                  \<lparr>ses_id = ''A'', ses_trusted = False, ses_user = demo_user ''A'',
                   ses_tokens = demo_tokens ''A''\<rparr>],
      redirectUrl = Some [], accessDenied = False\<rparr>"
  by (simp add: signed_in_net_def boot_def rehydrate_def storage_getItem_def
      parsePersistedSnapshot_def merge_persisted_def migratePersistedState_def initial_auth_def
      demo_sign_in_def signIn_def resolveSessionId_def demo_user_def user_id_def oget_def
      obj_spread_def Let_def props_def get_str_def)

lemma demo_stale: "isAccessTokenStale stale_decoder 0 (Some (c # cs)) REFRESH_SKEW_MS"
  by (simp add: isAccessTokenStale_def getTokenExpiryMs_def stale_decoder_def
      isValidJwtFormat_def)

lemma demo_issued_eval:
  "demo_issued (signed_in_net [''B'', ''A'']) =
     (signed_in_net [''B'', ''A''])
       \<lparr>flows := [\<lparr>fl_cfg = set_header ''cra'' ''f'' demo_cfg,
                   fl_phase = WaitingRequest ''a-A'', fl_sends = 0\<rparr>],
        inFlight := Some (Calling (refresh_config ''/api'' (set_header ''cra'' ''f'' demo_cfg) ''r-A'')),
        calls := 1\<rparr>"
proof -
  have flows0: "flows (signed_in_net us) = [] \<and> inFlight (signed_in_net us) = None \<and>
      calls (signed_in_net us) = 0" for us
    by (simp add: signed_in_net_def boot_def)
  have "request_interceptor stale_decoder 0 (store (signed_in_net [''B'', ''A''])) demo_cfg =
      AwaitToken (set_header ''cra'' ''f'' demo_cfg) ''a-A'' ''r-A''"
    by (simp add: request_interceptor_def demo_store_eval stored_access_def stored_refresh_def
        getCurrentTokens_def getCurrentSession_def demo_tokens_def demo_stale Let_def)
       (simp add: demo_cfg_def)
  then show ?thesis
    by (simp add: demo_issued_def dispatch_def flows0 refreshAccessToken_def set_flow_def)
qed

text \<open>C18: no request is put on the network more than twice, whatever the server answers and
  however requests, refreshes and the user interleave; only one the pipeline has marked as
  retried goes out a second time.\<close>

theorem at_most_two_transmissions:
  assumes "net_reachable dec base n" and "f \<in> set (flows n)"
  shows "fl_sends f \<le> (if auth_retried (fl_cfg f) then 2 else 1)"
  using net_reachable_inv [OF assms(1)] assms(2)
  by (auto simp: net_inv_def flow_ok_def within_budget_def)

theorem at_most_two_transmissions_witness:
  "fl_sends (flows (demo_issued (signed_in_net [''B'', ''A''])) ! 0) \<le> 1"
proof -
  have "flows (demo_issued (signed_in_net [''B'', ''A''])) ! 0
      \<in> set (flows (demo_issued (signed_in_net [''B'', ''A''])))"
    by (simp add: demo_issued_eval)
  from at_most_two_transmissions
      [OF demo_issued_reachable [OF signed_in_reachable [of _ _ "[''B'', ''A'']"]] this]
  show ?thesis by (simp add: demo_issued_eval demo_cfg_def)
qed

text \<open>C19: the refresh is single-flight: at no time is more than one refresh round trip open, and
  one is open exactly while the shared promise is unsettled.\<close>

theorem refresh_single_flight:
  assumes "net_reachable dec base n"
  shows "calls n \<le> 1 \<and> (calls n = 1 \<longleftrightarrow> (\<exists>c. inFlight n = Some (Calling c)))"
  using net_reachable_inv [OF assms]
  by (auto simp: net_inv_def split: option.splits flight.splits)

theorem refresh_single_flight_witness:
  "calls (demo_issued (demo_issued (signed_in_net [''B'', ''A'']))) \<le> 1"
  using refresh_single_flight
    [OF demo_issued_reachable [OF demo_issued_reachable [OF signed_in_reachable]]] by blast

text \<open>C20: no waiter is lost. A request that awaits a refresh always has one to wait for, and once
  that refresh answers (or has answered), at most two steps later the request is awake with its
  result and the next refresh may start.\<close>

theorem waiters_are_woken:
  assumes "net_reachable dec base n" and "i < length (flows n)"
    and "waiting_phase (fl_phase (flows n ! i))"
  shows "\<exists>n1 n2. (n1 = n \<or> net_step dec base n n1) \<and> net_step dec base n1 n2 \<and>
    inFlight n2 = None \<and> \<not> waiting_phase (fl_phase (flows n2 ! i))"
proof -
  have ok: "flow_ok n (flows n ! i)"
    using net_reachable_inv [OF assms(1)] assms(2) by (rule net_inv_nth)
  then obtain x where x: "inFlight n = Some x" using assms(3) by (auto simp: flow_ok_def)
  have final: "\<exists>n2. net_step dec base m n2 \<and> inFlight n2 = None \<and>
      \<not> waiting_phase (fl_phase (flows n2 ! i))"
    if "inFlight m = Some (Settled r)" "flows m = flows n" for m r
    using net_step.refresh_finally [OF that(1), of dec base] that(2) assms(2) wake_ok [OF ok]
    by (intro exI [of _ "m\<lparr>inFlight := None, flows := map (wake r) (flows m)\<rparr>"]) simp
  show ?thesis
  proof (cases x)
    case (Calling c)
    have "net_step dec base n (n\<lparr>store := fst (performRefresh dec RefreshFailed (store n)),
         inFlight := Some (Settled (snd (performRefresh dec RefreshFailed (store n)))),
         calls := calls n - 1\<rparr>)" (is "net_step _ _ _ ?m")
      using x Calling by (intro net_step.refresh_replies) simp
    with final [of ?m] show ?thesis by force
  next
    case (Settled r)
    with final [of n] x show ?thesis by blast
  qed
qed

theorem waiters_are_woken_witness:
  "\<exists>n1 n2. (n1 = demo_issued (signed_in_net [''B'', ''A'']) \<or>
      net_step stale_decoder ''/api'' (demo_issued (signed_in_net [''B'', ''A''])) n1) \<and>
    net_step stale_decoder ''/api'' n1 n2 \<and> inFlight n2 = None \<and>
    \<not> waiting_phase (fl_phase (flows n2 ! 0))"
  by (rule waiters_are_woken [OF demo_issued_reachable [OF signed_in_reachable]])
     (simp_all add: demo_issued_eval)



lemma map_of_set_header: "map_of (cfg_headers (set_header k v c)) = (map_of (cfg_headers c))(k \<mapsto> v)"
  by (simp add: set_header_def update_conv')

lemma map_of_auth_header:
  "map_of (cfg_headers (applyAuthHeader c t)) REQUEST_HEADER_AUTH_KEY = Some (TOKEN_TYPE @ t)"
  by (simp add: applyAuthHeader_def map_of_set_header)

text \<open>C36: a signed-in user's request goes out with the stored access token as its bearer token
  unless that token is absent or stale; a stale one is sent only where there is no refresh token,
  and otherwise the request waits and goes out with the refreshed token.\<close>

theorem bearer_token_sent:
  assumes "isSignedIn st" and "\<not> is_refresh cfg"
  shows "case request_interceptor dec now st cfg of
      SendNow c \<Rightarrow>
        map_of (cfg_headers c) REQUEST_HEADER_AUTH_KEY = Some (TOKEN_TYPE @ stored_access st) \<and>
        stored_access st \<noteq> [] \<and>
        (\<not> isAccessTokenStale dec now (Some (stored_access st)) REFRESH_SKEW_MS \<or>
         stored_refresh st = [])
    | AwaitToken c a r \<Rightarrow>
        r = stored_refresh st \<and> r \<noteq> [] \<and>
        (a = [] \<or> isAccessTokenStale dec now (Some a) REFRESH_SKEW_MS) \<and>
        (\<forall>t. t \<noteq> [] \<longrightarrow>
          map_of (cfg_headers (request_resume c a (Some t))) REQUEST_HEADER_AUTH_KEY =
            Some (TOKEN_TYPE @ t))"
proof -
  have "stored_access st \<noteq> [] \<or> stored_refresh st \<noteq> []"
    using assms(1) by (auto simp: isSignedIn_def stored_access_def stored_refresh_def
        split: option.splits)
  then show ?thesis
    using assms(2)
    by (auto simp: request_interceptor_def Let_def map_of_auth_header request_resume_def
        split: list.splits)
qed

theorem bearer_token_sent_witness:
  "request_interceptor stale_decoder 0 demo_store demo_cfg =
     AwaitToken (set_header ''cra'' ''f'' demo_cfg) ''a-u1'' ''r-u1'' \<and>
   map_of (cfg_headers (request_resume (set_header ''cra'' ''f'' demo_cfg) ''a-u1'' (Some ''n'')))
     REQUEST_HEADER_AUTH_KEY = Some (TOKEN_TYPE @ ''n'')"
proof -
  have si: "isSignedIn demo_store" "\<not> is_refresh demo_cfg"
    by (simp_all add: isSignedIn_def getCurrentTokens_def getCurrentSession_def demo_store_def
        demo_tokens_def demo_cfg_def)
  have "request_interceptor stale_decoder 0 demo_store demo_cfg =
      AwaitToken (set_header ''cra'' ''f'' demo_cfg) ''a-u1'' ''r-u1''"
    by (simp add: request_interceptor_def demo_store_def stored_access_def stored_refresh_def
        getCurrentTokens_def getCurrentSession_def demo_tokens_def demo_stale Let_def)
       (simp add: demo_cfg_def)
  with bearer_token_sent [OF si, of stale_decoder 0] show ?thesis by simp
qed

text \<open>C37: A refresh answers the account that is current when it returns, not the one it was
  started for. Whenever a refresh is open and the user switches to another account, the token with
  which the server answers it is stored as the access token of that other account, and every other
  account, among them the one whose refresh token was sent, keeps the tokens it had. In the witness
  the request bears the refresh token of A, and B ends up with the access token minted for A.\<close>

theorem refresh_token_crosses_accounts:
  assumes "net_reachable dec base n" and "inFlight n = Some (Calling c)"
    and "isValidJwtFormat dec (Some t)" and "b \<in> set (session_ids (store n))"
    and "m = n\<lparr>store := setCurrentSession b (store n)\<rparr>"
    and "n' = m\<lparr>store := fst (performRefresh dec (RefreshData (JStr t)) (store m)),
                inFlight := Some (Settled (Some t)), calls := 0\<rparr>"
  shows "net_step dec base n m \<and> inFlight m = Some (Calling c) \<and> net_step dec base m n' \<and>
    current_session (store n') = b \<and> map_option fst (token_pair (store n')) = Some t \<and>
    filter (\<lambda>x. ses_id x \<noteq> b) (sessions (store n')) = filter (\<lambda>x. ses_id x \<noteq> b) (sessions (store n))"
proof -
  have inv: "net_inv n" using assms(1) by (rule net_reachable_inv)
  have step1: "net_step dec base n m"
    using net_step.user_acts [of "SetCurrentSession b" n dec base] by (simp add: assms(5))
  have m: "inFlight m = Some (Calling c)" "calls m = 1"
    using inv assms(2,5) by (simp_all add: net_inv_def)
  have step2: "net_step dec base m n'"
    using net_step.refresh_replies [OF m(1), of dec base "RefreshData (JStr t)"] assms(3) m(2)
    by (simp add: assms(6) performRefresh_def)
  have "[] \<notin> set (session_ids (store n))" using inv by (simp add: net_inv_def auth_wf_def)
  then have b: "b \<noteq> []" "\<exists>x \<in> set (sessions (store n)). ses_id x = b"
    using assms(4) by (metis, auto simp: session_ids_def)
  then have cur: "current_session (store m) = b" "sessions (store m) = sessions (store n)"
    by (auto simp: assms(5) setCurrentSession_def)
  have st: "store n' = setAccessToken t (store m)"
    using assms(3) by (simp add: assms(6) performRefresh_def)
  have "current_session (store n') = b"
    using cur(1) by (simp add: st setAccessToken_def)
  moreover have "map_option fst (token_pair (store n')) = Some t"
  proof -
    obtain x where x: "find (\<lambda>x. ses_id x = b) (sessions (store m)) = Some x"
      using b(2) cur(2) by (cases "find (\<lambda>x. ses_id x = b) (sessions (store m))")
        (auto simp: find_None_iff)
    then have "getCurrentSession (store m) = Some x"
      using b(1) cur(1) by (simp add: getCurrentSession_def)
    then show ?thesis
      by (simp add: st token_pair_def getCurrentTokens_def getCurrentSession_setAccessToken)
  qed
  moreover have "filter (\<lambda>x. ses_id x \<noteq> b) (map f xs) = filter (\<lambda>x. ses_id x \<noteq> b) xs"
    if "\<And>x. ses_id (f x) = ses_id x" "\<And>x. ses_id x \<noteq> b \<Longrightarrow> f x = x" for f and xs :: "auth_session list"
    using that by (induction xs) auto
  then have "filter (\<lambda>x. ses_id x \<noteq> b) (sessions (store n')) =
      filter (\<lambda>x. ses_id x \<noteq> b) (sessions (store n))"
    using cur by (simp add: st setAccessToken_def)
  ultimately show ?thesis using step1 step2 m(1) by blast
qed

theorem refresh_token_crosses_accounts_witness:
  "\<exists>c m n'. inFlight (demo_issued (signed_in_net [''B'', ''A''])) = Some (Calling c) \<and>
     map_of (cfg_headers c) ''Authorization'' = Some (TOKEN_TYPE @ ''r-A'') \<and>
     net_step stale_decoder ''/api'' (demo_issued (signed_in_net [''B'', ''A''])) m \<and>
     net_step stale_decoder ''/api'' m n' \<and> current_session (store n') = ''B'' \<and>
     map_option fst (token_pair (store n')) = Some ''new-A'' \<and>
     [x\<leftarrow>sessions (store n'). ses_id x \<noteq> ''B''] =
       [\<lparr>ses_id = ''A'', ses_trusted = False, ses_user = demo_user ''A'', ses_tokens = demo_tokens ''A''\<rparr>]"
proof -
  let ?n = "demo_issued (signed_in_net [''B'', ''A''])"
  let ?c = "refresh_config ''/api'' (set_header ''cra'' ''f'' demo_cfg) ''r-A''"
  have c: "inFlight ?n = Some (Calling ?c)" by (simp add: demo_issued_eval)
  have st: "store ?n = store (signed_in_net [''B'', ''A''])" by (simp add: demo_issued_eval)
  have "isValidJwtFormat stale_decoder (Some ''new-A'')"
    by (simp add: isValidJwtFormat_def stale_decoder_def)
  moreover have "''B'' \<in> set (session_ids (store ?n))"
    by (simp add: st demo_store_eval session_ids_def)
  moreover have "map_of (cfg_headers ?c) ''Authorization'' = Some (TOKEN_TYPE @ ''r-A'')"
    by (simp add: refresh_config_def)
  moreover have "filter (\<lambda>x. ses_id x \<noteq> ''B'') (sessions (store ?n)) =
      [\<lparr>ses_id = ''A'', ses_trusted = False, ses_user = demo_user ''A'', ses_tokens = demo_tokens ''A''\<rparr>]"
    by (simp add: st demo_store_eval)
  ultimately show ?thesis
    using refresh_token_crosses_accounts [OF demo_issued_reachable [OF signed_in_reachable] c _ _ refl refl]
      c by metis
qed

end
