(* ===== verification/Sse_Stream.thy ===== *)
theory Sse_Stream
  imports Auth_Pipeline
begin

text \<open>
  Progress streams over server-sent events: \<open>modules/softwares/pages/single/api\<close>,
  \<open>modules/vnc-novnc/pages/settings/api\<close>, \<open>modules/vnc-novnc/pages/logs/api\<close>,
  \<open>modules/users/pages/single/vnc/rdp-api.ts\<close> and \<open>modules/vscode/pages/list/api\<close>.

  Each \<open>stream...\<close> function sends one \<open>fetch\<close> and reads the body through the same loop, which
  the source repeats in every module and which is \<open>sse_feed\<close>/\<open>sse_close\<close> here. A body is the
  list of texts that \<open>TextDecoder\<close> returns, one per network chunk. \<open>parse\<close> stands for
  \<open>JSON.parse\<close> followed by the handler: \<open>None\<close> when either throws, which the code ignores.
  \<open>numStr\<close> is \<open>String\<close> on numbers.
\<close>

section \<open>Reading a body\<close>

text \<open>One line of a block.\<close>

definition line_event :: "(string \<Rightarrow> 'e option) \<Rightarrow> string \<Rightarrow> 'e option" where
  "line_event parse raw =
     (let line = trim_end raw in
      if \<not> starts_with line ''data:'' then None
      else (let payload = trim_start (drop 5 line) in
            if payload = [] then None else parse payload))"

definition emitBlock :: "(string \<Rightarrow> 'e option) \<Rightarrow> string \<Rightarrow> 'e list" where
  "emitBlock parse block = List.map_filter (line_event parse) (js_split [CHR 10] block)"

definition frame_sep :: string where "frame_sep = [CHR 10, CHR 10]"

text \<open>The state of the loop: the undelivered text and the events delivered so far.\<close>

type_synonym 'e sse_state = "string \<times> 'e list"

definition sse_feed :: "(string \<Rightarrow> 'e option) \<Rightarrow> string \<Rightarrow> 'e sse_state \<Rightarrow> 'e sse_state" where
  "sse_feed parse value s =
     (let parts = js_split frame_sep (fst s @ value) in
      (last parts, snd s @ concat (map (emitBlock parse) (butlast parts))))"

definition sse_close :: "(string \<Rightarrow> 'e option) \<Rightarrow> 'e sse_state \<Rightarrow> 'e list" where
  "sse_close parse s =
     (if trim (fst s) \<noteq> [] then snd s @ emitBlock parse (fst s) else snd s)"

definition read_body :: "(string \<Rightarrow> 'e option) \<Rightarrow> string list \<Rightarrow> 'e list" where
  "read_body parse chunks = sse_close parse (fold (sse_feed parse) chunks ([], []))"

section \<open>Requests and responses\<close>

record fetch_request =
  fr_url :: string
  fr_method :: string
  fr_headers :: "(string \<times> string) list"
  fr_body :: "jtext option"

text \<open>\<open>res.json()\<close> is \<open>None\<close> when it throws; \<open>res.body\<close> may be absent.\<close>

record fetch_response =
  fs_status :: nat
  fs_json :: "jv option"
  fs_body :: "string list option"

definition fs_ok :: "fetch_response \<Rightarrow> bool" where
  "fs_ok r \<longleftrightarrow> 200 \<le> fs_status r \<and> fs_status r \<le> 299"

record location =
  loc_protocol :: string
  loc_host :: string

definition baseApiURL :: "location \<Rightarrow> string" where
  "baseApiURL l = loc_protocol l @ ''//'' @ loc_host l @ ''/api''"

definition authHeaders :: "auth_state \<Rightarrow> (string \<times> string) list" where
  "authHeaders s = (''Accept'', ''text/event-stream'') #
     (case getCurrentTokens s of
        Some t \<Rightarrow> if access_token t \<noteq> []
                  then [(REQUEST_HEADER_AUTH_KEY, TOKEN_TYPE @ access_token t)] else []
      | None \<Rightarrow> [])"

definition authHeaders_json :: "auth_state \<Rightarrow> (string \<times> string) list" where
  "authHeaders_json s = (''Accept'', ''text/event-stream'') #
     (''Content-Type'', ''application/json'') #
     (case getCurrentTokens s of
        Some t \<Rightarrow> if access_token t \<noteq> []
                  then [(REQUEST_HEADER_AUTH_KEY, TOKEN_TYPE @ access_token t)] else []
      | None \<Rightarrow> [])"

text \<open>The message of a failed response: its \<open>message\<close> when there is one.\<close>

definition failure_message :: "(rat \<Rightarrow> string) \<Rightarrow> string \<Rightarrow> fetch_response \<Rightarrow> string" where
  "failure_message numStr what r =
     (let dflt = what @ '' ('' @ show_nat (fs_status r) @ '')'' in
      case fs_json r of
        Some (JObj b) \<Rightarrow> (if truthy (oget b ''message'') then js_string numStr (oget b ''message'')
                          else dflt)
      | _ \<Rightarrow> dflt)"

text \<open>The outcome of a stream: what was delivered, and the error it ends with.\<close>

type_synonym 'e outcome = "'e list \<times> string option"

definition read_stream ::
  "(string \<Rightarrow> 'e option) \<Rightarrow> (rat \<Rightarrow> string) \<Rightarrow> string \<Rightarrow> string \<Rightarrow> fetch_response \<Rightarrow> 'e outcome" where
  "read_stream parse numStr failed unavailable r =
     (if \<not> fs_ok r then ([], Some (failure_message numStr failed r))
      else case fs_body r of
        None \<Rightarrow> ([], Some unavailable)
      | Some chunks \<Rightarrow> (read_body parse chunks, None))"

record env =
  env_loc :: location
  env_auth :: auth_state

section \<open>Software installation\<close>

definition SOFTWARES_INSTALL_BASE :: string where
  "SOFTWARES_INSTALL_BASE = ''/softwares/install''"

definition streamInstallSoftware_req :: "env \<Rightarrow> string \<Rightarrow> fetch_request" where
  "streamInstallSoftware_req v i =
     \<lparr>fr_url = baseApiURL (env_loc v) @ SOFTWARES_INSTALL_BASE @ ''/'' @ i @ ''/stream'',
      fr_method = ''POST'', fr_headers = authHeaders (env_auth v), fr_body = None\<rparr>"

definition streamInstallSoftware ::
  "(string \<Rightarrow> 'e option) \<Rightarrow> (rat \<Rightarrow> string) \<Rightarrow> fetch_response \<Rightarrow> 'e outcome" where
  "streamInstallSoftware parse numStr =
     read_stream parse numStr ''Install failed'' ''Install stream unavailable''"

definition streamInstallJob_req :: "env \<Rightarrow> string \<Rightarrow> fetch_request" where
  "streamInstallJob_req v j =
     \<lparr>fr_url = baseApiURL (env_loc v) @ SOFTWARES_INSTALL_BASE @ ''/jobs/'' @ j @ ''/stream'',
      fr_method = ''GET'', fr_headers = authHeaders (env_auth v), fr_body = None\<rparr>"

definition streamInstallJob ::
  "(string \<Rightarrow> 'e option) \<Rightarrow> (rat \<Rightarrow> string) \<Rightarrow> fetch_response \<Rightarrow> 'e outcome" where
  "streamInstallJob parse numStr =
     read_stream parse numStr ''Could not resume install'' ''Install stream unavailable''"

definition streamSoftwareServiceLogs_req :: "env \<Rightarrow> string \<Rightarrow> nat option \<Rightarrow> fetch_request" where
  "streamSoftwareServiceLogs_req v i lines =
     (let qs = (case lines of Some n \<Rightarrow> if n \<noteq> 0 then ''lines='' @ show_nat n else []
                | None \<Rightarrow> [])
      in \<lparr>fr_url = baseApiURL (env_loc v) @ ''/softwares/service/'' @ i @ ''/logs/stream'' @
            (if qs \<noteq> [] then ''?'' @ qs else []),
          fr_method = ''GET'', fr_headers = authHeaders (env_auth v), fr_body = None\<rparr>)"

definition streamSoftwareServiceLogs ::
  "(string \<Rightarrow> 'e option) \<Rightarrow> (rat \<Rightarrow> string) \<Rightarrow> fetch_response \<Rightarrow> 'e outcome" where
  "streamSoftwareServiceLogs parse numStr =
     read_stream parse numStr ''Could not stream service logs'' ''Install stream unavailable''"

section \<open>Remote desktop setup and logs\<close>

definition VNC_SETUP_BASE :: string where "VNC_SETUP_BASE = ''/vnc-novnc/install/setup''"

definition VNC_SERVICE_BASE :: string where "VNC_SERVICE_BASE = ''/vnc-novnc/service''"

definition RDP_SETUP_BASE :: string where "RDP_SETUP_BASE = ''/vnc-novnc/rdp/install/setup''"

definition streamVncServiceLogs_req :: "env \<Rightarrow> fetch_request" where
  "streamVncServiceLogs_req v =
     \<lparr>fr_url = baseApiURL (env_loc v) @ VNC_SERVICE_BASE @ ''/logs/stream'',
      fr_method = ''GET'', fr_headers = authHeaders (env_auth v), fr_body = None\<rparr>"

definition streamVncServiceLogs ::
  "(string \<Rightarrow> 'e option) \<Rightarrow> (rat \<Rightarrow> string) \<Rightarrow> fetch_response \<Rightarrow> 'e outcome" where
  "streamVncServiceLogs parse numStr =
     read_stream parse numStr ''Log stream failed'' ''Log stream unavailable''"

text \<open>The log page has its own copy of the reader of the settings page.\<close>

definition logs_streamVncServiceLogs ::
  "(string \<Rightarrow> 'e option) \<Rightarrow> (rat \<Rightarrow> string) \<Rightarrow> fetch_response \<Rightarrow> 'e outcome" where
  "logs_streamVncServiceLogs parse numStr =
     read_stream parse numStr ''Log stream failed'' ''Log stream unavailable''"

definition streamVncSetup_req :: "env \<Rightarrow> fetch_request" where
  "streamVncSetup_req v =
     \<lparr>fr_url = baseApiURL (env_loc v) @ VNC_SETUP_BASE @ ''/stream'',
      fr_method = ''POST'', fr_headers = authHeaders (env_auth v), fr_body = None\<rparr>"

definition streamVncSetup ::
  "(string \<Rightarrow> 'e option) \<Rightarrow> (rat \<Rightarrow> string) \<Rightarrow> fetch_response \<Rightarrow> 'e outcome" where
  "streamVncSetup parse numStr =
     read_stream parse numStr ''Setup failed'' ''Setup stream unavailable''"

definition streamRdpSetup_req :: "env \<Rightarrow> bool \<Rightarrow> fetch_request" where
  "streamRdpSetup_req v reinstall =
     \<lparr>fr_url = baseApiURL (env_loc v) @ RDP_SETUP_BASE @ ''/stream'' @
        (if reinstall then ''?reinstall=1'' else []),
      fr_method = ''POST'', fr_headers = authHeaders (env_auth v), fr_body = None\<rparr>"

definition streamRdpSetup ::
  "(string \<Rightarrow> 'e option) \<Rightarrow> (rat \<Rightarrow> string) \<Rightarrow> fetch_response \<Rightarrow> 'e outcome" where
  "streamRdpSetup parse numStr =
     read_stream parse numStr ''RDP setup failed'' ''RDP setup stream unavailable''"

text \<open>The user page has its own copy, with another message.\<close>

definition user_streamRdpSetup ::
  "(string \<Rightarrow> 'e option) \<Rightarrow> (rat \<Rightarrow> string) \<Rightarrow> fetch_response \<Rightarrow> 'e outcome" where
  "user_streamRdpSetup parse numStr =
     read_stream parse numStr ''RDP setup failed'' ''Setup stream unavailable''"

section \<open>Code server workspaces\<close>

definition VSCODE_SESSIONS_SINGLE_BASE :: string where
  "VSCODE_SESSIONS_SINGLE_BASE = ''/vscode/single''"

definition streamCreateCodeserverSession_req :: "env \<Rightarrow> jv \<Rightarrow> fetch_request" where
  "streamCreateCodeserverSession_req v body =
     \<lparr>fr_url = baseApiURL (env_loc v) @ VSCODE_SESSIONS_SINGLE_BASE @ ''/stream'',
      fr_method = ''POST'', fr_headers = authHeaders_json (env_auth v),
      fr_body = Some (stringify body)\<rparr>"

definition streamCreateCodeserverSession ::
  "(string \<Rightarrow> 'e option) \<Rightarrow> (rat \<Rightarrow> string) \<Rightarrow> fetch_response \<Rightarrow> 'e outcome" where
  "streamCreateCodeserverSession parse numStr =
     read_stream parse numStr ''Create workspace failed'' ''Create workspace stream unavailable''"

definition streamReactivateCodeserverSession_req :: "env \<Rightarrow> string \<Rightarrow> fetch_request" where
  "streamReactivateCodeserverSession_req v i =
     \<lparr>fr_url = baseApiURL (env_loc v) @ VSCODE_SESSIONS_SINGLE_BASE @ ''/'' @ i @
        ''/reactivate/stream'',
      fr_method = ''POST'', fr_headers = authHeaders_json (env_auth v), fr_body = None\<rparr>"

definition streamReactivateCodeserverSession ::
  "(string \<Rightarrow> 'e option) \<Rightarrow> (rat \<Rightarrow> string) \<Rightarrow> fetch_response \<Rightarrow> 'e outcome" where
  "streamReactivateCodeserverSession parse numStr =
     read_stream parse numStr ''Start workspace failed'' ''Start workspace stream unavailable''"

section \<open>The reader against its specification\<close>

text \<open>
  The specification knows neither chunks nor blocks: the events are those of the lines of the
  whole text.
\<close>

definition sse_events :: "(string \<Rightarrow> 'e option) \<Rightarrow> string \<Rightarrow> 'e list" where
  "sse_events parse text = List.map_filter (line_event parse) (js_split [CHR 10] text)"

lemma js_split_char_at:
  "js_split [c] (xs @ c # ys) = js_split [c] xs @ js_split [c] ys"
proof (induction xs)
  case (Cons x xs)
  obtain p ps where "js_split [c] xs = p # ps" by (cases "js_split [c] xs") auto
  with Cons show ?case by (auto simp: starts_with_def)
qed (simp add: starts_with_def)

lemma map_filter_append:
  "List.map_filter f (xs @ ys) = List.map_filter f xs @ List.map_filter f ys"
  by (simp add: List.map_filter_def)

lemma line_event_ws: "\<forall>c \<in> set raw. js_ws c \<Longrightarrow> line_event parse raw = None"
proof -
  assume ws: "\<forall>c \<in> set raw. js_ws c"
  then have "trim_end raw = []" by (simp add: trim_end_def dropWhile_eq_Nil_conv)
  then show ?thesis by (simp add: line_event_def starts_with_def Let_def)
qed

lemma sse_events_Nil [simp]: "sse_events parse [] = []"
  by (simp add: sse_events_def List.map_filter_def line_event_ws)

lemma sse_events_sep:
  "sse_events parse (xs @ frame_sep @ ys) = sse_events parse xs @ sse_events parse ys"
  by (simp add: sse_events_def frame_sep_def js_split_char_at map_filter_append
      List.map_filter_simps line_event_ws starts_with_def)

lemma sse_events_join:
  "sse_events parse (js_join frame_sep ps) = concat (map (sse_events parse) ps)"
  by (induction frame_sep ps rule: js_join.induct) (simp_all add: sse_events_sep)

lemma emitBlock_events: "emitBlock parse = sse_events parse"
  by (simp add: emitBlock_def sse_events_def fun_eq_iff)

lemma set_js_split: "p \<in> set (js_split sep xs) \<Longrightarrow> set p \<subseteq> set xs"
proof (induction sep xs arbitrary: p rule: js_split.induct)
  case (2 sep x xs)
  show ?case
  proof (cases "sep \<noteq> [] \<and> starts_with (x # xs) sep")
    case True
    then have "set p \<subseteq> set (drop (length sep) (x # xs))" using 2 by auto
    then show ?thesis using set_drop_subset by (rule subset_trans)
  next
    case False
    obtain q qs where q: "js_split sep xs = q # qs" by (cases "js_split sep xs") auto
    then have "p = x # q \<or> p \<in> set qs" using False 2(3) by auto
    then show ?thesis using q "2.IH"(2) [OF False, of q] "2.IH"(2) [OF False, of p] by auto
  qed
qed simp

lemma sse_events_ws:
  assumes "\<forall>c \<in> set s. js_ws c"
  shows "sse_events parse s = []"
proof -
  have "line_event parse p = None" if "p \<in> set (js_split [CHR 10] s)" for p
    using set_js_split [OF that] assms by (intro line_event_ws) auto
  then show ?thesis by (simp add: sse_events_def List.map_filter_def filter_empty_conv)
qed

lemma sse_close_events: "sse_close parse s = snd s @ sse_events parse (fst s)"
  by (auto simp: sse_close_def emitBlock_events trim_Nil_iff sse_events_ws)

text \<open>The state after a prefix of the chunks is a function of their concatenation.\<close>

lemma sse_run_state:
  "fold (sse_feed parse) cs ([], []) =
     (last (js_split frame_sep (concat cs)),
      concat (map (emitBlock parse) (butlast (js_split frame_sep (concat cs)))))"
proof (induction cs rule: rev_induct)
  case (snoc c cs)
  have "fold (sse_feed parse) (cs @ [c]) ([], []) =
      sse_feed parse c (fold (sse_feed parse) cs ([], []))"
    by simp
  also have "\<dots> = (last (js_split frame_sep (concat cs @ c)),
      concat (map (emitBlock parse) (butlast (js_split frame_sep (concat cs @ c)))))"
    unfolding snoc sse_feed_def
    by (simp add: Let_def js_split_append [of _ "concat cs" c] butlast_append)
  finally show ?case by simp
qed simp

text \<open>What was delivered and what is kept make up the text.\<close>

lemma sse_events_parts:
  "concat (map (emitBlock parse) (butlast (js_split frame_sep t))) @
     sse_events parse (last (js_split frame_sep t)) = sse_events parse t"
proof -
  let ?ps = "js_split frame_sep t"
  have "sse_events parse t = concat (map (sse_events parse) ?ps)"
    by (simp add: js_join_split flip: sse_events_join)
  also have "?ps = butlast ?ps @ [last ?ps]"
    by (simp del: append_butlast_last_id add: append_butlast_last_id [OF js_split_ne])
  finally show ?thesis by (simp add: emitBlock_events del: append_butlast_last_id)
qed

lemma read_body_events: "read_body parse cs = sse_events parse (concat cs)"
  by (simp add: read_body_def sse_run_state sse_close_events sse_events_parts)

text \<open>No piece of a split contains the separator.\<close>

lemma hd_js_split_prefix: "\<exists>r. xs = hd (js_split sep xs) @ r"
proof (induction sep xs rule: js_split.induct)
  case (2 sep x xs)
  show ?case
  proof (cases "sep \<noteq> [] \<and> starts_with (x # xs) sep")
    case False
    obtain q qs where q: "js_split sep xs = q # qs" by (cases "js_split sep xs") auto
    moreover obtain r where "xs = q @ r" using "2.IH"(2) [OF False] q by auto
    ultimately show ?thesis using False by auto
  qed simp
qed simp

lemma split_piece_free:
  "sep \<noteq> [] \<Longrightarrow> p \<in> set (js_split sep xs) \<Longrightarrow> \<not> str_includes p sep"
proof (induction sep xs arbitrary: p rule: js_split.induct)
  case (2 sep x xs)
  show ?case
  proof (cases "sep \<noteq> [] \<and> starts_with (x # xs) sep")
    case True
    with "2.IH"(1) [OF True, of p] "2.prems" show ?thesis by auto
  next
    case False
    obtain q qs where q: "js_split sep xs = q # qs" by (cases "js_split sep xs") auto
    obtain r where r: "xs = q @ r" using hd_js_split_prefix [of xs sep] q by auto
    have "\<not> starts_with (x # q) sep"
      using False "2.prems"(1) r starts_with_trans [of "x # xs" "x # q" sep]
        starts_with_append [of "x # q" r] by auto
    then show ?thesis
      using "2.IH"(2) [OF False, of q] "2.IH"(2) [OF False, of p] "2.prems" False q by auto
  qed
qed simp

interpretation sse: state_machine "sse_feed parse" "\<lambda>s. \<not> str_includes (fst s) frame_sep"
  for parse :: "string \<Rightarrow> 'e option"
  by unfold_locales
    (simp add: sse_feed_def Let_def, rule split_piece_free [OF _ last_in_set],
      simp_all add: frame_sep_def)

text \<open>What a server writes for one event.\<close>

definition data_prefix :: string where "data_prefix = ''data: ''"

definition sse_frame :: "string \<Rightarrow> string" where
  "sse_frame payload = data_prefix @ payload @ frame_sep"

definition frame_payload :: "string \<Rightarrow> bool" where
  "frame_payload p \<longleftrightarrow> p \<noteq> [] \<and> tight p \<and> CHR 10 \<notin> set p"

lemma split_frame:
  "CHR 10 \<notin> set f \<Longrightarrow> js_split frame_sep (f @ frame_sep @ rest) = f # js_split frame_sep rest"
  by (induction f) (auto simp: frame_sep_def starts_with_def)

lemma line_event_frame:
  assumes "frame_payload p"
  shows "line_event parse (data_prefix @ p) = parse p"
proof -
  have "trim_end (data_prefix @ p) = data_prefix @ p"
    using assms by (intro trim_end_id) (auto simp: frame_payload_def tight_def)
  moreover have "trim_start ('' '' @ p) = p"
    using assms by (cases p) (auto simp: frame_payload_def tight_def trim_start_def js_ws_def)
  ultimately show ?thesis
    using assms by (simp add: line_event_def starts_with_def frame_payload_def data_prefix_def)
qed

lemma emitBlock_frame:
  "frame_payload p \<Longrightarrow> parse p = Some e \<Longrightarrow> emitBlock parse (data_prefix @ p) = [e]"
proof -
  assume p: "frame_payload p" "parse p = Some e"
  then have "CHR 10 \<notin> set (data_prefix @ p)" by (auto simp: frame_payload_def data_prefix_def)
  then show ?thesis using p
    by (simp add: emitBlock_def js_split_char_free List.map_filter_simps line_event_frame)
qed

text \<open>The events whose frames lie completely within the first \<open>n\<close> characters.\<close>

fun complete_frames :: "('e \<Rightarrow> string) \<Rightarrow> nat \<Rightarrow> 'e list \<Rightarrow> 'e list" where
  "complete_frames enc n [] = []"
| "complete_frames enc n (e # es) =
     (let k = length (sse_frame (enc e)) in
      if k \<le> n then e # complete_frames enc (n - k) es else [])"

lemma split_unfinished:
  assumes "CHR 10 \<notin> set q"
  shows "js_split frame_sep q = [q]" "js_split frame_sep (q @ [CHR 10]) = [q @ [CHR 10]]"
  using assms by (induction q) (auto simp: frame_sep_def starts_with_def)

lemma split_partial_frame:
  assumes "CHR 10 \<notin> set f" "t @ r = f @ frame_sep" "r \<noteq> []"
  shows "js_split frame_sep t = [t]"
proof -
  from assms(2) consider us where "t @ us = f" | us where "t = f @ us" "us @ r = frame_sep"
    by (auto simp: append_eq_append_conv2)
  then show ?thesis
  proof cases
    case 1
    then show ?thesis using assms(1) by (intro split_unfinished(1)) auto
  next
    case 2
    then have "us = [] \<or> us = [CHR 10]"
      using assms(3) by (auto simp: frame_sep_def append_eq_Cons_conv)
    then show ?thesis using 2(1) split_unfinished [OF assms(1)] by auto
  qed
qed

lemma emitted_frames:
  assumes "\<forall>e \<in> set es. frame_payload (enc e) \<and> parse (enc e) = Some e"
    and "t @ rest = concat (map (\<lambda>e. sse_frame (enc e)) es)"
  shows "concat (map (emitBlock parse) (butlast (js_split frame_sep t))) =
           complete_frames enc (length t) es"
  using assms
proof (induction es arbitrary: t)
  case (Cons e es)
  let ?f = "data_prefix @ enc e"
  have f: "CHR 10 \<notin> set ?f" "sse_frame (enc e) = ?f @ frame_sep"
    using Cons.prems(1) by (auto simp: frame_payload_def data_prefix_def sse_frame_def)
  show ?case
  proof (cases "length (sse_frame (enc e)) \<le> length t")
    case True
    let ?k = "length (sse_frame (enc e))"
    have "take ?k t = take ?k (t @ rest)" using True by simp
    then have "t = sse_frame (enc e) @ drop ?k t"
      using Cons.prems(2) append_take_drop_id [of ?k t] by simp
    then obtain u where "t = sse_frame (enc e) @ u" ..
    moreover from this have "u @ rest = concat (map (\<lambda>e. sse_frame (enc e)) es)"
      using Cons.prems(2) by simp
    moreover from calculation have "js_split frame_sep t = ?f # js_split frame_sep u"
      using split_frame [OF f(1), of u] f(2) by simp
    ultimately show ?thesis using Cons emitBlock_frame [of "enc e" parse e] by (simp add: Let_def)
  next
    case False
    have "take (length t) (t @ rest) = take (length t) (sse_frame (enc e))"
      using False Cons.prems(2) by simp
    then have "t @ drop (length t) (sse_frame (enc e)) = sse_frame (enc e)"
      using append_take_drop_id [of "length t" "sse_frame (enc e)"] by simp
    moreover have "drop (length t) (sse_frame (enc e)) \<noteq> []" using False by simp
    ultimately obtain r where "t @ r = ?f @ frame_sep" "r \<noteq> []" unfolding f(2) by blast
    then have "js_split frame_sep t = [t]" by (rule split_partial_frame [OF f(1)])
    then show ?thesis using False by simp
  qed
qed simp

lemma frames_end_split:
  assumes "\<forall>e \<in> set es. frame_payload (enc e) \<and> parse (enc e) = Some e"
  shows "last (js_split frame_sep (concat (map (\<lambda>e. sse_frame (enc e)) es))) = []"
  using assms
proof (induction es)
  case (Cons e es)
  have "CHR 10 \<notin> set (data_prefix @ enc e)"
    using Cons.prems by (auto simp: frame_payload_def data_prefix_def)
  from split_frame [OF this] Cons show ?case by (simp add: sse_frame_def)
qed simp

lemma complete_frames_all:
  "complete_frames enc (length (concat (map (\<lambda>e. sse_frame (enc e)) es))) es = es"
  by (induction es) (simp_all add: Let_def)

section \<open>Properties\<close>

text \<open>A parser and a printer for the witnesses: an event is the text of its payload.\<close>

definition demo_parse :: "string \<Rightarrow> string option" where
  "demo_parse p = (if p = ''bad'' then None else Some p)"

text \<open>The events a stream delivers do not depend on how the network cuts the body into
  chunks: they are the events of the lines of the whole text, in order.\<close>

theorem stream_chunking_irrelevant:
  "read_body parse chunks = sse_events parse (concat chunks)"
  by (rule read_body_events)

text \<open>C24: A server that writes its events as frames is read back exactly, each event as soon as
its frame is complete: however the text is cut into chunks, after any of them just the events have
been delivered whose frames have arrived to the last character, and at the end of the body all.\<close>

theorem stream_frames_roundtrip:
  assumes "\<forall>e \<in> set es. frame_payload (enc e) \<and> parse (enc e) = Some e"
    and "concat (chunks @ later) = concat (map (\<lambda>e. sse_frame (enc e)) es)"
  shows "snd (fold (sse_feed parse) chunks ([], [])) =
           complete_frames enc (length (concat chunks)) es \<and>
         read_body parse (chunks @ later) = es"
proof -
  note emitted = emitted_frames [OF assms(1)]
  have "snd (fold (sse_feed parse) chunks ([], [])) = complete_frames enc (length (concat chunks)) es"
    using emitted [of "concat chunks" "concat later"] assms(2) by (simp add: sse_run_state)
  moreover have "fold (sse_feed parse) (chunks @ later) ([], []) =
      (last (js_split frame_sep (concat (chunks @ later))), es)"
    using emitted [of "concat (chunks @ later)" "[]"] assms(2)
    by (simp only: sse_run_state complete_frames_all append_Nil2)
  moreover have "sse_events parse (concat (chunks @ later)) =
      es @ sse_events parse (last (js_split frame_sep (concat (chunks @ later))))"
    using calculation(2) sse_events_parts [of parse "concat (chunks @ later)"]
    by (simp only: sse_run_state prod.inject)
  moreover have "last (js_split frame_sep (concat (chunks @ later))) = []"
    using frames_end_split [OF assms(1)] by (simp only: assms(2))
  ultimately show ?thesis by (simp only: read_body_events sse_events_Nil append_Nil2)
qed

theorem stream_frames_roundtrip_witness:
  "let chunks = [''dat'', ''a: one'' @ [CHR 10], CHR 10 # ''data: two'' @ [CHR 10]];
       later = [[CHR 10]]
   in snd (fold (sse_feed demo_parse) chunks ([], [])) = [''one''] \<and>
      read_body demo_parse (chunks @ later) = [''one'', ''two'']"
proof -
  let ?chunks = "[''dat'', ''a: one'' @ [CHR 10], CHR 10 # ''data: two'' @ [CHR 10]]"
  have "complete_frames id (length (concat ?chunks)) [''one'', ''two''] = [''one'']"
    by (simp add: sse_frame_def data_prefix_def frame_sep_def)
  then show ?thesis
    using stream_frames_roundtrip [of "[''one'', ''two'']" id demo_parse ?chunks "[[CHR 10]]"]
    by (simp add: frame_payload_def tight_def js_ws_def demo_parse_def sse_frame_def
      frame_sep_def data_prefix_def)
qed

text \<open>Whatever arrives, the reader never holds back a complete frame: the kept text
  contains no frame separator.\<close>

theorem stream_buffer_incomplete:
  "\<not> str_includes (fst (fold (sse_feed parse) chunks ([], []))) frame_sep"
  by (rule sse.fold_inv) (simp add: frame_sep_def)

text \<open>Every stream request names its caller: with a session whose access token is not
  empty it carries that token, and without one no authorization header at all.\<close>

definition stream_requests :: "env \<Rightarrow> string \<Rightarrow> jv \<Rightarrow> nat option \<Rightarrow> bool \<Rightarrow> fetch_request list" where
  "stream_requests v i body lines re =
     [streamInstallSoftware_req v i, streamInstallJob_req v i,
      streamSoftwareServiceLogs_req v i lines, streamVncServiceLogs_req v, streamVncSetup_req v,
      streamRdpSetup_req v re, streamCreateCodeserverSession_req v body,
      streamReactivateCodeserverSession_req v i]"

theorem stream_requests_authorized:
  assumes "r \<in> set (stream_requests v i body lines re)"
  shows "map_of (fr_headers r) REQUEST_HEADER_AUTH_KEY =
     (case getCurrentTokens (env_auth v) of
        Some t \<Rightarrow> if access_token t \<noteq> [] then Some (TOKEN_TYPE @ access_token t) else None
      | None \<Rightarrow> None)"
  using assms
  by (auto simp: stream_requests_def authHeaders_def authHeaders_json_def
      streamInstallSoftware_req_def streamInstallJob_req_def streamSoftwareServiceLogs_req_def
      streamVncServiceLogs_req_def streamVncSetup_req_def streamRdpSetup_req_def
      streamCreateCodeserverSession_req_def streamReactivateCodeserverSession_req_def
      REQUEST_HEADER_AUTH_KEY_def Let_def split: option.splits)

theorem stream_requests_authorized_witness:
  "let v = \<lparr>env_loc = \<lparr>loc_protocol = ''https:'', loc_host = ''h''\<rparr>, env_auth = demo_store\<rparr>;
       r = streamInstallJob_req v ''7''
   in map_of (fr_headers r) REQUEST_HEADER_AUTH_KEY =
     (case getCurrentTokens (env_auth v) of
        Some t \<Rightarrow> if access_token t \<noteq> [] then Some (TOKEN_TYPE @ access_token t) else None
      | None \<Rightarrow> None)"
  unfolding Let_def
  by (rule stream_requests_authorized [of _ _ "''7''" JNull None False])
    (simp add: stream_requests_def)

text \<open>A response that is not ok delivers no event and ends with a non-empty message; an ok
  one with a body delivers its events and ends without error.\<close>

theorem stream_outcome:
  "(let out = streamInstallSoftware parse numStr r in
    case fs_body r of
      Some chunks \<Rightarrow> if fs_ok r then out = (sse_events parse (concat chunks), None)
                     else fst out = [] \<and> snd out = Some (failure_message numStr ''Install failed'' r)
    | None \<Rightarrow> fst out = [] \<and> snd out \<noteq> None)"
  by (auto simp: streamInstallSoftware_def read_stream_def read_body_events Let_def
      split: option.splits)

end
