(* ===== verification/Live_Terminal.thy ===== *)
theory Live_Terminal
  imports Sse_Stream
begin

text \<open>
  The terminal's connection to the server, \<open>components/cloudshell/terminal/live-terminal.tsx\<close>, with
  the URL it opens (\<open>buildCliWebSocketURL\<close> of \<open>components/cloudshell/api.ts\<close>). The effect's local
  variables are the fields of a record, each handler is an operation on it, and the browser's
  events drive it. At the end a supervisor with four states is what the connection promises, and
  every event of the terminal is shown to be a step of it. xterm is what is written to the screen;
  the layout of the terminal is not modelled.
\<close>

section \<open>State\<close>

datatype ws_state = WsConnecting | WsOpen | WsClosed

datatype term_status = StConnecting | StConnected | StDisconnected | StError

datatype ws_frame = ResizeFrame nat nat | PingFrame | InputFrame string

text \<open>An URL with its query parameters, before the platform writes it out.\<close>

record ws_url =
  wu_base :: string
  wu_params :: "(string \<times> string) list"

text \<open>The properties of the component and the page it is on.\<close>

record terminal_props =
  tp_title :: "string option"
  tp_as_user :: "string option"
  tp_page_as_user :: "string option"
  tp_location :: location

record ready_info =
  ri_session :: "string option"
  ri_message :: "string option"
  ri_resumed :: bool

record terminal =
  socket :: "ws_state option"
  socket_resume :: "string option"
  socket_auto :: bool
  term_status :: term_status
  ping_timer :: bool
  reconnect_timer :: "nat option"
  fit_frame :: bool
  disposed :: bool
  saw_ready :: bool
  shell_exited :: bool
  attempt :: nat
  live_session :: "string option"
  opened_urls :: "ws_url list"
  sent_frames :: "ws_frame list"
  screen :: "string list"
  ready_calls :: "ready_info list"
  lost_calls :: "string list"

section \<open>The URL\<close>

text \<open>\<open>apiBase.replace(/^http/i, "ws")\<close>\<close>

definition ws_base :: "string \<Rightarrow> string" where
  "ws_base s = (if map js_lower (take 4 s) = ''http'' then ''ws'' @ drop 4 s else s)"

definition CLOUDSHELL_WS_PATH :: string where "CLOUDSHELL_WS_PATH = ''/cloudshell/ws''"

text \<open>\<open>searchParams.set\<close>, if there is something to set.\<close>

definition set_param :: "string \<Rightarrow> string option \<Rightarrow> (string \<times> string) list \<Rightarrow> (string \<times> string) list" where
  "set_param k v ps =
     (case v of Some x \<Rightarrow> if x \<noteq> [] then AList.update k x ps else ps | None \<Rightarrow> ps)"

definition buildCliWebSocketURL ::
  "terminal_props \<Rightarrow> auth_state \<Rightarrow> string option \<Rightarrow> ws_url" where
  "buildCliWebSocketURL p auth sessionId =
     \<lparr>wu_base = ws_base (baseApiURL (tp_location p)) @ CLOUDSHELL_WS_PATH,
      wu_params =
        set_param ''as_user''
          (case tp_as_user p of
             Some u \<Rightarrow> if u \<noteq> [] then Some u else tp_page_as_user p
           | None \<Rightarrow> tp_page_as_user p)
          (set_param ''title'' (tp_title p)
            (set_param ''session_id'' sessionId
              (set_param ''access_token'' (map_option access_token (getCurrentTokens auth)) [])))\<rparr>"

section \<open>Connecting\<close>

definition RECONNECT_BASE_MS :: nat where "RECONNECT_BASE_MS = 800"
definition RECONNECT_MAX_MS :: nat where "RECONNECT_MAX_MS = 12000"
definition RECONNECT_MAX_ATTEMPTS :: nat where "RECONNECT_MAX_ATTEMPTS = 40"

text \<open>\<open>jitter\<close> is \<open>Math.floor(Math.random() * 250)\<close>.\<close>

definition reconnectDelay :: "nat \<Rightarrow> nat \<Rightarrow> nat" where
  "reconnectDelay n jitter =
     min RECONNECT_MAX_MS (RECONNECT_BASE_MS * 2 ^ min n 6) + jitter"

text \<open>A coloured line.\<close>

definition ansi :: "string \<Rightarrow> string \<Rightarrow> string" where
  "ansi colour s =
     [CHR 27] @ ''['' @ colour @ ''m'' @ s @ [CHR 27] @ ''[0m'' @ [CHR 13, CHR 10]"

definition put_line :: "string \<Rightarrow> terminal \<Rightarrow> terminal" where
  "put_line s t = t\<lparr>screen := screen t @ [s]\<rparr>"

definition clearReconnectTimer :: "terminal \<Rightarrow> terminal" where
  "clearReconnectTimer t = t\<lparr>reconnect_timer := None\<rparr>"

definition clearPingTimer :: "terminal \<Rightarrow> terminal" where
  "clearPingTimer t = t\<lparr>ping_timer := False\<rparr>"

definition send :: "ws_frame \<Rightarrow> terminal \<Rightarrow> terminal" where
  "send f t = (if socket t = Some WsOpen then t\<lparr>sent_frames := sent_frames t @ [f]\<rparr> else t)"

definition scheduleFit :: "terminal \<Rightarrow> terminal" where
  "scheduleFit t = t\<lparr>fit_frame := True\<rparr>"

definition connect :: "terminal_props \<Rightarrow> bool \<Rightarrow> auth_state \<Rightarrow> terminal \<Rightarrow> terminal" where
  "connect p auto auth t =
     (if disposed t \<or> shell_exited t then t
      else let
        t = (clearPingTimer (clearReconnectTimer t))\<lparr>term_status := StConnecting\<rparr>;
        resumeId = live_session t;
        t = (if \<not> auto
             then put_line (ansi ''90'' ((if resumeId \<noteq> None then ''Reconnecting'' else ''Connecting'')
                          @ [CHR 0x85])) t
             else t)
      in t\<lparr>socket := Some WsConnecting, socket_resume := resumeId, socket_auto := auto,
           opened_urls := opened_urls t @ [buildCliWebSocketURL p auth resumeId]\<rparr>)"

definition scheduleReconnect :: "string \<Rightarrow> nat \<Rightarrow> terminal \<Rightarrow> terminal" where
  "scheduleReconnect reason jitter t =
     (if disposed t \<or> shell_exited t then t
      else if RECONNECT_MAX_ATTEMPTS \<le> attempt t
      then put_line (ansi ''31'' (''Could not reconnect '' @ [CHR 0x97] @
                    '' use Reconnect in the menu.'')) (t\<lparr>term_status := StDisconnected\<rparr>)
      else let delay = reconnectDelay (attempt t) jitter in
        (put_line (ansi ''90'' (reason @ '' '' @ [CHR 0x97] @ '' retrying in '' @
                  show_nat ((delay + 500) div 1000) @ ''s'' @ [CHR 0x85]))
          ((clearReconnectTimer t)\<lparr>attempt := attempt t + 1, term_status := StConnecting\<rparr>))
        \<lparr>reconnect_timer := Some delay\<rparr>)"

section \<open>Handlers\<close>

definition ws_onopen :: "nat \<Rightarrow> nat \<Rightarrow> terminal \<Rightarrow> terminal" where
  "ws_onopen cols rows t =
     (let t = t\<lparr>socket := Some WsOpen\<rparr> in
      if disposed t then t
      else (send (ResizeFrame cols rows) (t\<lparr>term_status := StConnected\<rparr>))\<lparr>ping_timer := True\<rparr>)"

definition non_empty :: "string option \<Rightarrow> string option" where
  "non_empty s = (case s of Some x \<Rightarrow> if x \<noteq> [] then s else None | None \<Rightarrow> None)"

definition on_ready :: "obj \<Rightarrow> terminal \<Rightarrow> terminal" where
  "on_ready msg t =
     (let sid = get_str msg ''session_id'';
          message = non_empty (get_str msg ''message'');
          resumed = truthy (oget msg ''resumed'');
          t = t\<lparr>saw_ready := True, attempt := 0,
                live_session := (if non_empty sid \<noteq> None then sid else live_session t),
                ready_calls := ready_calls t @
                  [\<lparr>ri_session = sid, ri_message = get_str msg ''message'', ri_resumed = resumed\<rparr>],
                screen := []\<rparr>
      in scheduleFit
           (case message of
              Some m \<Rightarrow>
                if \<not> resumed then put_line (ansi ''36'' m) t
                else if socket_auto t then put_line (ansi ''90'' ''Reconnected.'') t else t
            | None \<Rightarrow>
                if socket_auto t \<and> resumed then put_line (ansi ''90'' ''Reconnected.'') t else t))"

definition on_error :: "obj \<Rightarrow> terminal \<Rightarrow> terminal" where
  "on_error msg t =
     (case (get_str msg ''code'' = Some ''SESSION_NOT_FOUND'', socket_resume t) of
        (True, Some resumeId) \<Rightarrow>
          (put_line (ansi ''33'' (''Session expired '' @ [CHR 0x97] @ '' starting a new shell'' @ [CHR 0x85]))
            ((clearReconnectTimer t)\<lparr>live_session := None, shell_exited := True,
                lost_calls := lost_calls t @ [resumeId]\<rparr>))\<lparr>term_status := StDisconnected\<rparr>
      | _ \<Rightarrow>
          (put_line (ansi ''31'' (case non_empty (get_str msg ''message'') of
                     Some m \<Rightarrow> m | None \<Rightarrow> ''Terminal error'')) t)\<lparr>term_status := StError\<rparr>)"

definition on_exit :: "obj \<Rightarrow> terminal \<Rightarrow> terminal" where
  "on_exit msg t =
     (put_line (ansi ''90'' (case non_empty (get_str msg ''message'') of
                Some m \<Rightarrow> m | None \<Rightarrow> ''Shell closed''))
       ((clearReconnectTimer t)\<lparr>shell_exited := True\<rparr>))\<lparr>term_status := StDisconnected\<rparr>"

text \<open>
  A text frame and what \<open>JSON.parse\<close> makes of it, or bytes. A text that is no JSON, or null, whose
  \<open>type\<close> cannot be read, is written as it is; the strings of a message are taken to be strings, as
  their declared type says.
\<close>

datatype incoming = TextMessage string jtext | BytesMessage string

definition ws_onmessage :: "incoming \<Rightarrow> terminal \<Rightarrow> terminal" where
  "ws_onmessage m t =
     (case m of
        BytesMessage bytes \<Rightarrow> put_line bytes t
      | TextMessage data BadText \<Rightarrow> put_line data t
      | TextMessage data (JText v) \<Rightarrow>
          if v = JNull then put_line data t
          else (let msg = (case as_object v of Some b \<Rightarrow> b | None \<Rightarrow> []);
                    type = get_str msg ''type''
                in if type = Some ''ready'' then on_ready msg t
                   else if type = Some ''error'' then on_error msg t
                   else if type = Some ''exit'' then on_exit msg t
                   else t))"

definition ws_onclose :: "nat \<Rightarrow> terminal \<Rightarrow> terminal" where
  "ws_onclose jitter t =
     (let t = clearPingTimer (t\<lparr>socket := Some WsClosed\<rparr>) in
      if disposed t \<or> shell_exited t
      then (if \<not> disposed t \<and> shell_exited t then t\<lparr>term_status := StDisconnected\<rparr> else t)
      else scheduleReconnect (if saw_ready t then ''Connection lost'' else ''Disconnected'') jitter t)"

definition onOnline :: "terminal_props \<Rightarrow> auth_state \<Rightarrow> terminal \<Rightarrow> terminal" where
  "onOnline p auth t =
     (if disposed t \<or> shell_exited t then t
      else if socket t = Some WsOpen then t
      else connect p True auth ((clearReconnectTimer t)\<lparr>attempt := min (attempt t) 1\<rparr>))"

definition onVisible :: "terminal_props \<Rightarrow> bool \<Rightarrow> auth_state \<Rightarrow> terminal \<Rightarrow> terminal" where
  "onVisible p visible auth t = (if \<not> visible then t else onOnline p auth t)"

text \<open>Keys typed, and bytes injected from elsewhere with the answer whether they were delivered.\<close>

definition onData :: "string \<Rightarrow> terminal \<Rightarrow> terminal" where
  "onData data t = send (InputFrame data) t"

definition onInject :: "string \<Rightarrow> terminal \<Rightarrow> bool \<times> terminal" where
  "onInject data t =
     (if data = [] then (False, t)
      else if socket t \<noteq> Some WsOpen then (False, t)
      else (True, send (InputFrame data) t))"

definition pingTick :: "terminal \<Rightarrow> terminal" where
  "pingTick t = send PingFrame t"

definition timerFires :: "terminal_props \<Rightarrow> auth_state \<Rightarrow> terminal \<Rightarrow> terminal" where
  "timerFires p auth t = connect p True auth (clearReconnectTimer t)"

definition frameFires :: "nat \<Rightarrow> nat \<Rightarrow> terminal \<Rightarrow> terminal" where
  "frameFires cols rows t =
     (let t = t\<lparr>fit_frame := False\<rparr> in
      if disposed t then t else send (ResizeFrame cols rows) t)"

definition dispose :: "terminal \<Rightarrow> terminal" where
  "dispose t =
     (clearPingTimer (clearReconnectTimer t))\<lparr>disposed := True, fit_frame := False, socket := None\<rparr>"

definition initial_terminal :: "string option \<Rightarrow> terminal" where
  "initial_terminal sessionId =
     \<lparr>socket = None, socket_resume = None, socket_auto = False, term_status = StConnecting,
      ping_timer = False, reconnect_timer = None, fit_frame = False, disposed = False,
      saw_ready = False, shell_exited = False, attempt = 0,
      live_session = non_empty (map_option trim sessionId),
      opened_urls = [], sent_frames = [], screen = [], ready_calls = [], lost_calls = []\<rparr>"

definition mount :: "terminal_props \<Rightarrow> string option \<Rightarrow> auth_state \<Rightarrow> terminal" where
  "mount p sessionId auth = connect p False auth (initial_terminal sessionId)"

section \<open>Events\<close>

datatype term_event =
    Opened nat nat
  | Received incoming
  | ConnClosed nat
  | PingTick
  | TimerFires auth_state
  | WentOnline auth_state
  | VisibilityChanged bool auth_state
  | Typed string
  | Injected string
  | Resized
  | FrameFires nat nat
  | Unmount

fun term_apply :: "terminal_props \<Rightarrow> term_event \<Rightarrow> terminal \<Rightarrow> terminal" where
  "term_apply p (Opened cols rows) = ws_onopen cols rows"
| "term_apply p (Received m) = ws_onmessage m"
| "term_apply p (ConnClosed j) = ws_onclose j"
| "term_apply p PingTick = pingTick"
| "term_apply p (TimerFires auth) = timerFires p auth"
| "term_apply p (WentOnline auth) = onOnline p auth"
| "term_apply p (VisibilityChanged v auth) = onVisible p v auth"
| "term_apply p (Typed d) = onData d"
| "term_apply p (Injected d) = (\<lambda>t. snd (onInject d t))"
| "term_apply p Resized = scheduleFit"
| "term_apply p (FrameFires cols rows) = frameFires cols rows"
| "term_apply p Unmount = dispose"

text \<open>
  When the browser can deliver an event: a socket opens once, only an open one receives, only a
  connecting or open one closes, a timer fires only while it is armed, and an unmounted terminal
  has no listeners left.
\<close>

fun term_ok :: "term_event \<Rightarrow> terminal \<Rightarrow> bool" where
  "term_ok (Opened _ _) t = (socket t = Some WsConnecting)"
| "term_ok (Received _) t = (socket t = Some WsOpen)"
| "term_ok (ConnClosed j) t = (socket t \<in> {Some WsConnecting, Some WsOpen} \<and> j < 250)"
| "term_ok PingTick t = ping_timer t"
| "term_ok (TimerFires _) t = (reconnect_timer t \<noteq> None)"
| "term_ok (FrameFires _ _) t = fit_frame t"
| "term_ok Unmount t = True"
| "term_ok _ t = (\<not> disposed t)"

section \<open>Facts about the connection\<close>

definition alive :: "terminal \<Rightarrow> bool" where
  "alive t \<longleftrightarrow> socket t = Some WsConnecting \<or> socket t = Some WsOpen"

definition running :: "terminal \<Rightarrow> bool" where
  "running t \<longleftrightarrow> \<not> disposed t \<and> \<not> shell_exited t"

definition term_inv :: "terminal \<Rightarrow> bool" where
  "term_inv t \<longleftrightarrow>
     (ping_timer t \<longrightarrow> socket t = Some WsOpen) \<and>
     (reconnect_timer t \<noteq> None \<longrightarrow> running t \<and> \<not> alive t) \<and>
     (running t \<longrightarrow> alive t \<or> reconnect_timer t \<noteq> None \<or>
        (term_status t = StDisconnected \<and> attempt t = RECONNECT_MAX_ATTEMPTS)) \<and>
     attempt t \<le> RECONNECT_MAX_ATTEMPTS \<and>
     (disposed t \<longrightarrow> socket t = None) \<and>
     (case reconnect_timer t of Some d \<Rightarrow> RECONNECT_BASE_MS \<le> d \<and> d < RECONNECT_MAX_MS + 250
      | None \<Rightarrow> True)"

lemmas term_ops =
  put_line_def clearReconnectTimer_def clearPingTimer_def send_def scheduleFit_def connect_def
  scheduleReconnect_def ws_onopen_def on_ready_def on_error_def on_exit_def ws_onmessage_def
  ws_onclose_def onOnline_def onVisible_def onData_def onInject_def pingTick_def timerFires_def
  frameFires_def dispose_def Let_def

lemma reconnectDelay_bounds:
  "j < 250 \<Longrightarrow> RECONNECT_BASE_MS \<le> reconnectDelay n j \<and> reconnectDelay n j < RECONNECT_MAX_MS + 250"
proof -
  assume "j < 250"
  moreover have "(800 :: nat) \<le> min 12000 (800 * 2 ^ min n 6)" by (rule min.boundedI) simp_all
  moreover have "min 12000 (800 * 2 ^ min n 6) \<le> (12000 :: nat)" by (rule min.cobounded1)
  ultimately show ?thesis
    unfolding reconnectDelay_def RECONNECT_BASE_MS_def RECONNECT_MAX_MS_def by linarith
qed

text \<open>What each group of operations leaves alone.\<close>

lemma put_line_sel [simp]:
  "socket (put_line s t) = socket t" "term_status (put_line s t) = term_status t"
  "ping_timer (put_line s t) = ping_timer t" "reconnect_timer (put_line s t) = reconnect_timer t"
  "disposed (put_line s t) = disposed t" "shell_exited (put_line s t) = shell_exited t"
  "attempt (put_line s t) = attempt t" "live_session (put_line s t) = live_session t"
  "opened_urls (put_line s t) = opened_urls t" "saw_ready (put_line s t) = saw_ready t"
  "socket_auto (put_line s t) = socket_auto t" "socket_resume (put_line s t) = socket_resume t"
  "screen (put_line s t) = screen t @ [s]"
  by (simp_all add: put_line_def)

lemma send_sel [simp]:
  "socket (send f t) = socket t" "term_status (send f t) = term_status t"
  "ping_timer (send f t) = ping_timer t" "reconnect_timer (send f t) = reconnect_timer t"
  "disposed (send f t) = disposed t" "shell_exited (send f t) = shell_exited t"
  "attempt (send f t) = attempt t" "live_session (send f t) = live_session t"
  "opened_urls (send f t) = opened_urls t" "socket_resume (send f t) = socket_resume t"
  by (simp_all add: send_def)

definition core :: "terminal \<Rightarrow> ws_state option \<times> term_status \<times> bool \<times> nat option \<times> bool \<times> bool \<times> nat" where
  "core t = (socket t, term_status t, ping_timer t, reconnect_timer t, disposed t, shell_exited t, attempt t)"

lemma term_inv_core: "core t = core t' \<Longrightarrow> term_inv t = term_inv t'"
  by (simp add: core_def term_inv_def alive_def running_def)

lemma connect_fields:
  "disposed (connect p auto auth t) = disposed t"
  "shell_exited (connect p auto auth t) = shell_exited t"
  "attempt (connect p auto auth t) = attempt t"
  "live_session (connect p auto auth t) = live_session t"
  "running t \<Longrightarrow> socket (connect p auto auth t) = Some WsConnecting"
  "running t \<Longrightarrow> reconnect_timer (connect p auto auth t) = None"
  "running t \<Longrightarrow> ping_timer (connect p auto auth t) = False"
  "running t \<Longrightarrow> opened_urls (connect p auto auth t) =
     opened_urls t @ [buildCliWebSocketURL p auth (live_session t)]"
  "\<not> running t \<Longrightarrow> connect p auto auth t = t"
  by (simp_all add: connect_def running_def Let_def clearPingTimer_def clearReconnectTimer_def)

lemma connect_inv: "term_inv t \<Longrightarrow> term_inv (connect p auto auth t)"
  by (cases "running t") (auto simp: term_inv_def connect_fields alive_def running_def)

lemma clear_timer_fields [simp]:
  "running (clearReconnectTimer t) = running t"
  "reconnect_timer (clearReconnectTimer t) = None"
  "live_session (clearReconnectTimer t) = live_session t"
  "attempt (clearReconnectTimer t) = attempt t"
  by (simp_all add: clearReconnectTimer_def running_def)

lemma reconnect_inv:
  assumes "\<not> alive t" "\<not> ping_timer t" "running t" "attempt t \<le> RECONNECT_MAX_ATTEMPTS" "j < 250"
    and "reconnect_timer t = None"
  shows "term_inv (scheduleReconnect reason j t)"
  using assms reconnectDelay_bounds [OF assms(5), of "attempt t"]
  by (auto simp: scheduleReconnect_def term_inv_def running_def alive_def Let_def
      clearReconnectTimer_def)

text \<open>Events that leave the connection alone.\<close>

lemma core_same:
  "core (pingTick t) = core t" "core (onData d t) = core t" "core (snd (onInject d t)) = core t"
  "core (scheduleFit t) = core t" "core (frameFires c r t) = core t"
  by (simp_all add: core_def pingTick_def onData_def onInject_def scheduleFit_def frameFires_def Let_def)

lemma message_case_fields:
  "disposed (on_ready msg t) = disposed t" "socket (on_ready msg t) = socket t"
  "ping_timer (on_ready msg t) = ping_timer t"
  "disposed (on_error msg t) = disposed t" "socket (on_error msg t) = socket t"
  "ping_timer (on_error msg t) = ping_timer t"
  "disposed (on_exit msg t) = disposed t" "socket (on_exit msg t) = socket t"
  "ping_timer (on_exit msg t) = ping_timer t"
  by (simp_all add: on_ready_def on_error_def on_exit_def scheduleFit_def put_line_def
      clearReconnectTimer_def Let_def split: option.split bool.split)

lemma message_fields:
  "disposed (ws_onmessage m t) = disposed t" "socket (ws_onmessage m t) = socket t"
  "ping_timer (ws_onmessage m t) = ping_timer t"
  by (simp_all add: ws_onmessage_def message_case_fields put_line_def Let_def
      split: incoming.split jtext.split)

text \<open>A message ends the shell, or resets the failures, or changes neither.\<close>

definition ended :: "terminal \<Rightarrow> terminal \<Rightarrow> bool" where
  "ended t t' \<longleftrightarrow> shell_exited t' \<and> reconnect_timer t' = None \<and> attempt t' = attempt t"

definition kept :: "terminal \<Rightarrow> terminal \<Rightarrow> bool" where
  "kept t t' \<longleftrightarrow> shell_exited t' = shell_exited t \<and> reconnect_timer t' = reconnect_timer t \<and>
     attempt t' \<in> {0, attempt t}"

lemma message_parts:
  "kept t (on_ready b t)" "ended t (on_exit b t)" "ended t (on_error b t) \<or> kept t (on_error b t)"
  "kept t (put_line s t)" "kept t t"
  by (simp_all add: kept_def ended_def on_ready_def on_exit_def on_error_def scheduleFit_def
      clearReconnectTimer_def Let_def split: option.split bool.split)

lemma message_core: "ended t (ws_onmessage m t) \<or> kept t (ws_onmessage m t)"
  unfolding ws_onmessage_def Let_def using message_parts
  by (simp split: incoming.split jtext.split option.split)

lemma message_inv: "term_inv t \<Longrightarrow> socket t = Some WsOpen \<Longrightarrow> term_inv (ws_onmessage m t)"
  using message_core [of t m]
  by (auto simp: term_inv_def alive_def running_def message_fields ended_def kept_def)

lemma online_inv: "term_inv t \<Longrightarrow> term_inv (onOnline p auth t)"
proof (cases "running t \<and> socket t \<noteq> Some WsOpen")
  case True
  then have "onOnline p auth t = connect p True auth ((clearReconnectTimer t)\<lparr>attempt := min (attempt t) 1\<rparr>)"
    by (simp add: onOnline_def running_def)
  then show ?thesis
    using True by (simp add: term_inv_def connect_fields alive_def running_def clearReconnectTimer_def
        RECONNECT_MAX_ATTEMPTS_def)
qed (auto simp: onOnline_def running_def)

lemma close_inv:
  assumes "term_inv t" "alive t" "j < 250"
  shows "term_inv (ws_onclose j t)"
proof (cases "running t")
  case True
  have "term_inv (scheduleReconnect r j (clearPingTimer (t\<lparr>socket := Some WsClosed\<rparr>)))" for r
    using True assms
    by (intro reconnect_inv) (auto simp: alive_def running_def clearPingTimer_def term_inv_def)
  then show ?thesis
    using True by (simp add: ws_onclose_def running_def Let_def clearPingTimer_def)
next
  case False
  then show ?thesis
    using assms
    by (auto simp: ws_onclose_def running_def term_inv_def alive_def Let_def clearPingTimer_def)
qed

lemma term_apply_inv: "term_inv t \<Longrightarrow> term_ok e t \<Longrightarrow> term_inv (term_apply p e t)"
proof (cases e)
  case (Opened cols rows)
  assume "term_inv t" "term_ok e t"
  then show ?thesis
    using Opened by (simp add: ws_onopen_def term_inv_def alive_def running_def Let_def)
next
  case (TimerFires auth)
  assume "term_inv t" "term_ok e t"
  then have "running t" by (simp add: TimerFires term_inv_def)
  then show ?thesis
    using TimerFires \<open>term_inv t\<close>
    by (simp add: timerFires_def term_inv_def connect_fields alive_def)
      (simp add: running_def connect_fields clearReconnectTimer_def)
next
  case Unmount
  assume "term_inv t"
  then show ?thesis
    using Unmount by (simp add: dispose_def term_inv_def running_def clearReconnectTimer_def clearPingTimer_def)
next
  case (ConnClosed j)
  assume "term_inv t" "term_ok e t"
  then show ?thesis using ConnClosed by (auto intro: close_inv simp: alive_def)
qed (simp_all add: message_inv online_inv onVisible_def term_inv_core [OF core_same(1)]
    term_inv_core [OF core_same(2)] term_inv_core [OF core_same(3)] term_inv_core [OF core_same(4)]
    term_inv_core [OF core_same(5)])

lemma mount_inv: "term_inv (mount p sid auth)"
  by (simp add: mount_def connect_def initial_terminal_def term_inv_def alive_def running_def
      put_line_def clearReconnectTimer_def clearPingTimer_def Let_def)

section \<open>The supervisor\<close>

text \<open>
  What the connection promises, as a machine over the same events that knows no socket, timer or
  flag. A connection is dialled or up, and was asked to resume some session; a lost one waits for
  its retry. Each knows the session named last and the failures in a row; the supervisor gives up
  after the last one, and is finished for good once the shell or the page is gone.
\<close>

datatype supervisor =
    Dialling "string option" "string option" nat
  | Connected "string option" "string option" nat
  | Waiting "string option" nat
  | GaveUp "string option"
  | Finished

text \<open>What a message tells: the session that answers, that the one asked for is gone, or the end.\<close>

datatype news = Answered "string option" | NotFound | ShellEnded | NoNews

fun news_of :: "incoming \<Rightarrow> news" where
  "news_of (TextMessage _ (JText v)) =
     (case as_object v of
        None \<Rightarrow> NoNews
      | Some b \<Rightarrow>
          if get_str b ''type'' = Some ''ready'' then Answered (non_empty (get_str b ''session_id''))
          else if get_str b ''type'' = Some ''error''
          then (if get_str b ''code'' = Some ''SESSION_NOT_FOUND'' then NotFound else NoNews)
          else if get_str b ''type'' = Some ''exit'' then ShellEnded
          else NoNews)"
| "news_of _ = NoNews"

fun sup_hears :: "news \<Rightarrow> supervisor \<Rightarrow> supervisor" where
  "sup_hears (Answered (Some sid)) (Connected asked known n) = Connected asked (Some sid) 0"
| "sup_hears (Answered None) (Connected asked known n) = Connected asked known 0"
| "sup_hears NotFound (Connected (Some sid) known n) = Finished"
| "sup_hears ShellEnded (Connected asked known n) = Finished"
| "sup_hears _ c = c"

fun sup_loses :: "supervisor \<Rightarrow> supervisor" where
  "sup_loses (Dialling asked known n) = (if n < 40 then Waiting known (n + 1) else GaveUp known)"
| "sup_loses (Connected asked known n) = (if n < 40 then Waiting known (n + 1) else GaveUp known)"
| "sup_loses c = c"

fun sup_online :: "supervisor \<Rightarrow> supervisor" where
  "sup_online (Dialling asked known n) = Dialling known known (min n 1)"
| "sup_online (Waiting known n) = Dialling known known (min n 1)"
| "sup_online (GaveUp known) = Dialling known known 1"
| "sup_online c = c"

fun sup_step :: "term_event \<Rightarrow> supervisor \<Rightarrow> supervisor" where
  "sup_step (Opened _ _) (Dialling asked known n) = Connected asked known n"
| "sup_step (Received m) c = sup_hears (news_of m) c"
| "sup_step (ConnClosed _) c = sup_loses c"
| "sup_step (TimerFires _) (Waiting known n) = Dialling known known n"
| "sup_step (WentOnline _) c = sup_online c"
| "sup_step (VisibilityChanged visible _) c = (if visible then sup_online c else c)"
| "sup_step Unmount c = Finished"
| "sup_step _ c = c"

definition sup_of :: "terminal \<Rightarrow> supervisor" where
  "sup_of t =
     (if \<not> running t then Finished
      else if socket t = Some WsConnecting then Dialling (socket_resume t) (live_session t) (attempt t)
      else if socket t = Some WsOpen then Connected (socket_resume t) (live_session t) (attempt t)
      else if reconnect_timer t \<noteq> None then Waiting (live_session t) (attempt t)
      else GaveUp (live_session t))"

lemma finished_stays: "sup_step e Finished = Finished"
  by (cases e) (auto split: news.split option.split elim: sup_hears.elims)

lemma sup_of_quiet:
  "core t' = core t \<Longrightarrow> live_session t' = live_session t \<Longrightarrow> socket_resume t' = socket_resume t \<Longrightarrow>
   sup_of t' = sup_of t"
  by (simp add: core_def sup_of_def alive_def running_def)

lemma quiet_resume:
  "socket_resume (pingTick t) = socket_resume t" "socket_resume (onData d t) = socket_resume t"
  "socket_resume (snd (onInject d t)) = socket_resume t"
  "socket_resume (scheduleFit t) = socket_resume t"
  "socket_resume (frameFires c r t) = socket_resume t"
  "live_session (pingTick t) = live_session t" "live_session (onData d t) = live_session t"
  "live_session (snd (onInject d t)) = live_session t"
  "live_session (scheduleFit t) = live_session t" "live_session (frameFires c r t) = live_session t"
  by (simp_all add: pingTick_def onData_def onInject_def scheduleFit_def frameFires_def Let_def)

lemma sup_of_connect:
  "running t \<Longrightarrow> sup_of (connect p True auth t) = Dialling (live_session t) (live_session t) (attempt t)"
  by (simp add: sup_of_def connect_def running_def Let_def clearPingTimer_def clearReconnectTimer_def)

lemma sup_of_online:
  assumes "term_inv t"
  shows "sup_of (onOnline p auth t) = sup_online (sup_of t)"
proof (cases "running t \<and> socket t \<noteq> Some WsOpen")
  case True
  let ?t = "(clearReconnectTimer t)\<lparr>attempt := min (attempt t) 1\<rparr>"
  have "onOnline p auth t = connect p True auth ?t" using True by (simp add: onOnline_def running_def)
  moreover have "running ?t" using True by (simp add: running_def clearReconnectTimer_def)
  ultimately have "sup_of (onOnline p auth t) = Dialling (live_session t) (live_session t) (min (attempt t) 1)"
    by (simp add: sup_of_connect)
  then show ?thesis
    using True assms by (auto simp: sup_of_def term_inv_def alive_def RECONNECT_MAX_ATTEMPTS_def)
next
  case False
  then show ?thesis by (auto simp: onOnline_def running_def sup_of_def)
qed

lemma sup_of_close:
  assumes "term_inv t" "alive t"
  shows "sup_of (ws_onclose j t) = sup_loses (sup_of t)"
  using assms
  by (auto simp: sup_of_def ws_onclose_def scheduleReconnect_def alive_def running_def term_inv_def
      clearPingTimer_def clearReconnectTimer_def Let_def RECONNECT_MAX_ATTEMPTS_def)

lemma sup_hears_NoNews [simp]: "sup_hears NoNews c = c"
  by (cases c) simp_all

lemma ready_fields:
  "running (on_ready b t) = running t" "socket (on_ready b t) = socket t"
  "socket_resume (on_ready b t) = socket_resume t" "attempt (on_ready b t) = 0"
  "live_session (on_ready b t) =
     (case non_empty (get_str b ''session_id'') of Some s \<Rightarrow> Some s | None \<Rightarrow> live_session t)"
  by (simp_all add: on_ready_def running_def scheduleFit_def non_empty_def Let_def
      split: option.split)

lemma sup_of_ready:
  "socket t = Some WsOpen \<Longrightarrow>
   sup_of (on_ready b t) = sup_hears (Answered (non_empty (get_str b ''session_id''))) (sup_of t)"
  by (cases "non_empty (get_str b ''session_id'')") (simp_all add: sup_of_def ready_fields)

lemma sup_of_error:
  "socket t = Some WsOpen \<Longrightarrow>
   sup_of (on_error b t) =
     sup_hears (if get_str b ''code'' = Some ''SESSION_NOT_FOUND'' then NotFound else NoNews) (sup_of t)"
  by (cases "socket_resume t") (auto simp: sup_of_def on_error_def running_def clearReconnectTimer_def)

lemma sup_of_exit: "socket t = Some WsOpen \<Longrightarrow> sup_of (on_exit b t) = sup_hears ShellEnded (sup_of t)"
  by (auto simp: sup_of_def on_exit_def running_def)

lemmas sup_of_handlers = sup_of_ready sup_of_error sup_of_exit

lemma sup_of_message:
  assumes "socket t = Some WsOpen"
  shows "sup_of (ws_onmessage m t) = sup_hears (news_of m) (sup_of t)"
proof (cases m)
  case (TextMessage d v)
  have put: "sup_of (put_line s t) = sup_of t" for s by (simp add: sup_of_def running_def)
  show ?thesis
  proof (cases v)
    case (JText w)
    then show ?thesis
      using TextMessage put sup_of_handlers [OF assms]
      by (auto simp: ws_onmessage_def Let_def get_str_def oget_def split: option.split)
  qed (simp add: ws_onmessage_def TextMessage put)
qed (simp add: ws_onmessage_def sup_of_def running_def)

lemma term_apply_simulates:
  assumes "term_inv t" "term_ok e t"
  shows "sup_of (term_apply p e t) = sup_step e (sup_of t)"
proof (cases e)
  case (TimerFires auth)
  then have r: "running t" "\<not> alive t" "reconnect_timer t \<noteq> None"
    using assms by (auto simp: term_inv_def)
  then have "sup_of t = Waiting (live_session t) (attempt t)" by (auto simp: sup_of_def alive_def)
  moreover have "sup_of (timerFires p auth t) = Dialling (live_session t) (live_session t) (attempt t)"
    using r(1) by (simp add: timerFires_def sup_of_connect)
  ultimately show ?thesis using TimerFires by simp
next
  case (ConnClosed j)
  then show ?thesis using assms sup_of_close [of t j] by (auto simp: alive_def)
next
  case (Received m)
  then show ?thesis using assms sup_of_message by simp
next
  case Unmount
  then show ?thesis by (simp add: sup_of_def dispose_def running_def)
next
  case (Opened cols rows)
  then show ?thesis
    using assms(2) by (auto simp: sup_of_def running_def ws_onopen_def Let_def send_def)
next
  case (WentOnline auth)
  then show ?thesis using assms(1) sup_of_online by simp
next
  case (VisibilityChanged v auth)
  then show ?thesis using assms(1) sup_of_online by (simp add: onVisible_def)
qed (simp_all add: sup_of_quiet [OF core_same(1) quiet_resume(6) quiet_resume(1)]
    sup_of_quiet [OF core_same(2) quiet_resume(7) quiet_resume(2)]
    sup_of_quiet [OF core_same(3) quiet_resume(8) quiet_resume(3)]
    sup_of_quiet [OF core_same(4) quiet_resume(9) quiet_resume(4)]
    sup_of_quiet [OF core_same(5) quiet_resume(10) quiet_resume(5)])

interpretation supervised: refining_machine "term_apply p" term_ok term_inv sup_of sup_step for p
  by unfold_locales (rule term_apply_inv, assumption+, rule term_apply_simulates, assumption+)

section \<open>A server that never answers\<close>

definition failing_round :: "terminal_props \<Rightarrow> auth_state \<Rightarrow> nat \<Rightarrow> terminal \<Rightarrow> terminal" where
  "failing_round p auth j t = timerFires p auth (ws_onclose j t)"

lemma close_running:
  assumes "running t" "attempt t < RECONNECT_MAX_ATTEMPTS"
  shows "running (ws_onclose j t)" "attempt (ws_onclose j t) = attempt t + 1"
    "reconnect_timer (ws_onclose j t) = Some (reconnectDelay (attempt t) j)"
    "opened_urls (ws_onclose j t) = opened_urls t"
  using assms
  by (simp_all add: running_def ws_onclose_def scheduleReconnect_def clearPingTimer_def
      clearReconnectTimer_def Let_def)

lemma failing_round_fields:
  assumes "running t" "attempt t < RECONNECT_MAX_ATTEMPTS"
  shows "running (failing_round p auth j t)" "attempt (failing_round p auth j t) = attempt t + 1"
    "socket (failing_round p auth j t) = Some WsConnecting"
    "length (opened_urls (failing_round p auth j t)) = length (opened_urls t) + 1"
  using close_running [OF assms, of j]
  by (simp_all add: failing_round_def timerFires_def connect_fields)
    (simp_all add: running_def connect_fields clearReconnectTimer_def)

lemma failing_rounds:
  assumes "running t" "attempt t + length js \<le> RECONNECT_MAX_ATTEMPTS"
  shows "running (fold (failing_round p auth) js t) \<and>
    attempt (fold (failing_round p auth) js t) = attempt t + length js \<and>
    length (opened_urls (fold (failing_round p auth) js t)) = length (opened_urls t) + length js \<and>
    (js \<noteq> [] \<longrightarrow> socket (fold (failing_round p auth) js t) = Some WsConnecting)"
  using assms
proof (induction js arbitrary: t)
  case (Cons j js)
  then have "attempt t < RECONNECT_MAX_ATTEMPTS" by simp
  note f = failing_round_fields [OF Cons.prems(1) this, of p auth j]
  show ?case
    using Cons.IH [OF f(1)] Cons.prems(2) f by (cases js) simp_all
qed simp

lemma close_exhausted:
  assumes "running t" "attempt t = RECONNECT_MAX_ATTEMPTS"
  shows "term_status (ws_onclose j t) = StDisconnected" "\<not> alive (ws_onclose j t)"
    "reconnect_timer (ws_onclose j t) = reconnect_timer t"
  using assms
  by (simp_all add: running_def ws_onclose_def scheduleReconnect_def clearPingTimer_def alive_def
      Let_def)

lemma rounds_timer:
  assumes "running t" "attempt t + length js \<le> RECONNECT_MAX_ATTEMPTS" "js \<noteq> []"
  shows "reconnect_timer (fold (failing_round p auth) js t) = None"
proof -
  obtain ks k where js: "js = ks @ [k]" using assms(3) by (cases js rule: rev_cases) auto
  let ?t = "fold (failing_round p auth) ks t"
  have "running ?t" "attempt ?t < RECONNECT_MAX_ATTEMPTS"
    using failing_rounds [OF assms(1), of ks p auth] assms(2) by (simp_all add: js)
  then show ?thesis
    using close_running(1) [of ?t k] by (simp add: js failing_round_def timerFires_def connect_fields)
qed

section \<open>Resuming\<close>

text \<open>Events that do not tell the terminal of another session, or that its own is gone.\<close>

fun keeps_session :: "string \<Rightarrow> term_event \<Rightarrow> bool" where
  "keeps_session sid (Received (TextMessage _ (JText v))) =
     (case as_object v of
        None \<Rightarrow> True
      | Some b \<Rightarrow>
          (if get_str b ''type'' = Some ''ready'' then non_empty (get_str b ''session_id'') \<in> {None, Some sid}
           else get_str b ''type'' = Some ''error'' \<longrightarrow> get_str b ''code'' \<noteq> Some ''SESSION_NOT_FOUND''))"
| "keeps_session sid _ = True"

lemma url_session:
  "sid \<noteq> [] \<Longrightarrow> map_of (wu_params (buildCliWebSocketURL p auth (Some sid))) ''session_id'' = Some sid"
  by (simp add: buildCliWebSocketURL_def set_param_def update_conv' split: option.split)

lemma connect_session:
  assumes "live_session t = Some sid" "sid \<noteq> []"
  shows "live_session (connect p auto auth t) = Some sid \<and>
    (\<exists>us. opened_urls (connect p auto auth t) = opened_urls t @ us \<and>
       list_all (\<lambda>u. map_of (wu_params u) ''session_id'' = Some sid) us)"
  by (cases "running t") (simp_all add: connect_fields assms url_session)

lemma handler_session:
  "live_session (on_ready b t) =
     (case non_empty (get_str b ''session_id'') of None \<Rightarrow> live_session t | Some x \<Rightarrow> Some x)"
  "live_session (on_exit b t) = live_session t"
  "get_str b ''code'' \<noteq> Some ''SESSION_NOT_FOUND'' \<Longrightarrow> live_session (on_error b t) = live_session t"
  by (simp_all add: on_ready_def on_exit_def on_error_def scheduleFit_def clearReconnectTimer_def
      non_empty_def Let_def split: option.split)

lemma non_empty_absent [simp]: "non_empty (get_str [] k) = None" "get_str [] k = None"
  by (simp_all add: get_str_def oget_def non_empty_def)

lemma message_session:
  assumes "live_session t = Some sid" "keeps_session sid (Received m)"
  shows "live_session (ws_onmessage m t) = Some sid"
proof (cases m)
  case (TextMessage d v)
  show ?thesis
  proof (cases v)
    case (JText w)
    show ?thesis
    proof (cases "as_object w")
      case None
      then show ?thesis using assms(1) TextMessage JText by (simp add: ws_onmessage_def)
    next
      case (Some b)
      then have "w \<noteq> JNull" by auto
      then show ?thesis
        using assms TextMessage JText Some handler_session [of b t]
        by (auto simp: ws_onmessage_def Let_def split: if_splits)
    qed
  qed (simp add: ws_onmessage_def TextMessage assms(1))
qed (simp add: ws_onmessage_def assms(1))

lemma message_urls: "opened_urls (ws_onmessage m t) = opened_urls t"
  by (simp add: ws_onmessage_def on_ready_def on_error_def on_exit_def scheduleFit_def
      clearReconnectTimer_def Let_def split: incoming.split jtext.split option.split bool.split)

lemma other_session:
  "live_session (pingTick t) = live_session t" "opened_urls (pingTick t) = opened_urls t"
  "live_session (onData d t) = live_session t" "opened_urls (onData d t) = opened_urls t"
  "live_session (snd (onInject d t)) = live_session t" "opened_urls (snd (onInject d t)) = opened_urls t"
  "live_session (scheduleFit t) = live_session t" "opened_urls (scheduleFit t) = opened_urls t"
  "live_session (frameFires c r t) = live_session t" "opened_urls (frameFires c r t) = opened_urls t"
  "live_session (dispose t) = live_session t" "opened_urls (dispose t) = opened_urls t"
  "live_session (ws_onopen c r t) = live_session t" "opened_urls (ws_onopen c r t) = opened_urls t"
  "live_session (ws_onclose j t) = live_session t" "opened_urls (ws_onclose j t) = opened_urls t"
  by (simp_all add: pingTick_def onData_def onInject_def scheduleFit_def frameFires_def dispose_def
      ws_onopen_def ws_onclose_def scheduleReconnect_def clearPingTimer_def clearReconnectTimer_def Let_def)

lemma apply_session:
  assumes "live_session t = Some sid" "sid \<noteq> []" "keeps_session sid e"
  shows "live_session (term_apply p e t) = Some sid \<and>
    (\<exists>us. opened_urls (term_apply p e t) = opened_urls t @ us \<and>
       list_all (\<lambda>u. map_of (wu_params u) ''session_id'' = Some sid) us)"
proof -
  have "live_session (connect p True auth (t\<lparr>reconnect_timer := None, attempt := n\<rparr>)) = Some sid \<and>
    (\<exists>us. opened_urls (connect p True auth (t\<lparr>reconnect_timer := None, attempt := n\<rparr>)) = opened_urls t @ us \<and>
       list_all (\<lambda>u. map_of (wu_params u) ''session_id'' = Some sid) us)" for auth n
    using connect_session [of "t\<lparr>reconnect_timer := None, attempt := n\<rparr>" sid p True auth] assms by simp
  note c = this
  show ?thesis
    using assms message_session message_urls c [of _ "attempt t"] c
    by (cases e) (simp_all add: other_session timerFires_def onOnline_def onVisible_def
        clearReconnectTimer_def)
qed

lemma run_session:
  assumes "live_session t = Some sid" "sid \<noteq> []" "list_all (keeps_session sid) evs"
  shows "live_session (fold (term_apply p) evs t) = Some sid \<and>
    (\<exists>us. opened_urls (fold (term_apply p) evs t) = opened_urls t @ us \<and>
       list_all (\<lambda>u. map_of (wu_params u) ''session_id'' = Some sid) us)"
  using assms
proof (induction evs arbitrary: t)
  case (Cons e evs)
  obtain us where u: "opened_urls (term_apply p e t) = opened_urls t @ us"
      "list_all (\<lambda>u. map_of (wu_params u) ''session_id'' = Some sid) us"
      "live_session (term_apply p e t) = Some sid"
    using apply_session [of t sid e p] Cons.prems by auto
  with Cons.IH [OF u(3)] Cons.prems obtain vs where
      "opened_urls (fold (term_apply p) evs (term_apply p e t)) = (opened_urls t @ us) @ vs"
      "list_all (\<lambda>u. map_of (wu_params u) ''session_id'' = Some sid) vs"
      "live_session (fold (term_apply p) evs (term_apply p e t)) = Some sid"
    by auto
  with u(2) show ?case by (auto intro!: exI [of _ "us @ vs"])
qed (auto intro: exI [of _ "[]"])

section \<open>Properties\<close>

definition demo_props :: terminal_props where
  "demo_props = \<lparr>tp_title = Some ''main'', tp_as_user = None, tp_page_as_user = None,
     tp_location = \<lparr>loc_protocol = ''https:'', loc_host = ''box''\<rparr>\<rparr>"

definition demo_ready :: obj where
  "demo_ready = [(''type'', JStr ''ready''), (''session_id'', JStr ''pty-7'')]"

definition demo_run :: "term_event list" where
  "demo_run = [Opened 80 24, Received (TextMessage '''' (JText (JObj demo_ready))), PingTick,
     Typed ''ls'', ConnClosed 17]"

lemma demo_run_ok: "admissible term_ok (term_apply demo_props) demo_run (mount demo_props None initial_auth)"
  by code_simp

text \<open>C21: Whatever the network, the server and the user do, the terminal is, event by event, where
its supervisor is: only an answer of the server clears the failures, a lost connection counts one
more and waits, the forty-first in a row gives up, each new connection asks for the session named
last, coming online starts again, and a finished terminal is never revived. The run of the
supervisor is a function of the events alone.\<close>

theorem terminal_refines_supervisor:
  assumes "admissible term_ok (term_apply p) evs (mount p sid auth)"
  shows "sup_of (fold (term_apply p) evs (mount p sid auth)) =
           fold sup_step evs (Dialling (non_empty (map_option trim sid)) (non_empty (map_option trim sid)) 0)"
proof -
  have "sup_of (mount p sid auth) =
      Dialling (non_empty (map_option trim sid)) (non_empty (map_option trim sid)) 0"
    by (simp add: sup_of_def mount_def connect_def initial_terminal_def running_def
        clearReconnectTimer_def clearPingTimer_def Let_def)
  then show ?thesis
    using supervised.run_simulates [OF mount_inv assms] by simp
qed

theorem terminal_refines_supervisor_witness:
  "sup_of (fold (term_apply demo_props) demo_run (mount demo_props None initial_auth)) =
     Waiting (Some ''pty-7'') 1"
proof -
  have "fold sup_step demo_run (Dialling None None 0) = Waiting (Some ''pty-7'') 1"
    by code_simp
  then show ?thesis
    using terminal_refines_supervisor [OF demo_run_ok] by (simp add: non_empty_def)
qed

text \<open>C32: A mounted terminal whose shell runs is never stranded: it has a socket, or a retry is due
within 0.8 and 12.25 seconds, or it has given up after forty failures and says so. No retry is due
beside a socket, pings are sent only over an open one, and an unmounted terminal holds neither
socket nor timer.\<close>

theorem terminal_never_stranded:
  assumes "admissible term_ok (term_apply p) evs (mount p sid auth)"
    and "t = fold (term_apply p) evs (mount p sid auth)"
  shows "(running t \<longrightarrow> alive t \<or>
            (\<exists>d. reconnect_timer t = Some d \<and> 800 \<le> d \<and> d < 12250) \<or>
            (term_status t = StDisconnected \<and> attempt t = 40)) \<and>
         (reconnect_timer t \<noteq> None \<longrightarrow> running t \<and> \<not> alive t) \<and>
         (ping_timer t \<longrightarrow> socket t = Some WsOpen) \<and>
         (disposed t \<longrightarrow> socket t = None \<and> reconnect_timer t = None \<and> \<not> ping_timer t)"
proof -
  have "term_inv t" using supervised.run_inv [OF mount_inv assms(1)] assms(2) by simp
  then show ?thesis
    by (auto simp: term_inv_def running_def alive_def RECONNECT_BASE_MS_def RECONNECT_MAX_MS_def
        RECONNECT_MAX_ATTEMPTS_def split: option.splits)
qed

theorem terminal_never_stranded_witness:
  "reconnect_timer (fold (term_apply demo_props) demo_run (mount demo_props None initial_auth)) = Some 817 \<and>
   \<not> alive (fold (term_apply demo_props) demo_run (mount demo_props None initial_auth))"
proof -
  have r: "reconnect_timer (fold (term_apply demo_props) demo_run (mount demo_props None initial_auth)) = Some 817"
    by code_simp
  then show ?thesis using terminal_never_stranded [OF demo_run_ok refl] by auto
qed

text \<open>C33: Against a server that never answers the terminal retries forty times, the k-th time after
0.8 seconds doubled k times, at most 12 seconds, plus the jitter, and then stops.\<close>

theorem reconnect_gives_up:
  assumes "running t" and "attempt t = 0" and "length js = 40"
  shows "let t' = fold (failing_round p auth) js t; final = ws_onclose j t' in
     map (\<lambda>k. reconnect_timer (ws_onclose (js ! k) (fold (failing_round p auth) (take k js) t))) [0..<40] =
       map (\<lambda>k. Some (min 12000 (800 * 2 ^ min k 6) + js ! k)) [0..<40] \<and>
     length (opened_urls final) = length (opened_urls t) + 40 \<and>
     term_status final = StDisconnected \<and> \<not> alive final \<and> reconnect_timer final = None"
proof -
  have le: "attempt t + length (take k js) \<le> RECONNECT_MAX_ATTEMPTS" for k
    using assms by (simp add: RECONNECT_MAX_ATTEMPTS_def)
  have f: "running (fold (failing_round p auth) (take k js) t)"
      "attempt (fold (failing_round p auth) (take k js) t) = min 40 k" for k
    using failing_rounds [OF assms(1) le, where p = p and auth = auth] assms(2,3) by (simp_all add: min.commute)
  have a: "running (fold (failing_round p auth) js t)"
      "attempt (fold (failing_round p auth) js t) = RECONNECT_MAX_ATTEMPTS"
    using f [of 40] assms(3) by (simp_all add: RECONNECT_MAX_ATTEMPTS_def)
  have "js \<noteq> []" using assms(3) by auto
  then have n: "reconnect_timer (fold (failing_round p auth) js t) = None"
      "length (opened_urls (fold (failing_round p auth) js t)) = length (opened_urls t) + 40"
    using rounds_timer [OF assms(1), of js p auth] failing_rounds [OF assms(1), of js p auth] le [of 40] assms(3)
    by simp_all
  have "reconnect_timer (ws_onclose (js ! k) (fold (failing_round p auth) (take k js) t)) =
      Some (min 12000 (800 * 2 ^ min k 6) + js ! k)" if "k < 40" for k
    using close_running(3) [OF f(1)] f(2) that
    by (simp add: RECONNECT_MAX_ATTEMPTS_def reconnectDelay_def RECONNECT_MAX_MS_def RECONNECT_BASE_MS_def)
  then show ?thesis
    using close_exhausted [OF a] n unfolding Let_def by (simp add: other_session)
qed

theorem reconnect_gives_up_witness:
  "term_status (ws_onclose 0 (fold (failing_round demo_props initial_auth) (replicate 40 0)
     (mount demo_props None initial_auth))) = StDisconnected"
proof -
  have "running (mount demo_props None initial_auth)" "attempt (mount demo_props None initial_auth) = 0"
    by code_simp+
  then show ?thesis
    using reconnect_gives_up [of _ "replicate 40 0" demo_props initial_auth 0] unfolding Let_def by simp
qed

text \<open>Once the server has named the session, every later connection asks to resume exactly that
session, until the server names another one or says that it is gone.\<close>

theorem terminal_resumes_session:
  assumes "get_str msg ''type'' = Some ''ready''" and "get_str msg ''session_id'' = Some sid"
    and "sid \<noteq> []" and "list_all (keeps_session sid) evs"
  shows "let t0 = ws_onmessage (TextMessage d (JText (JObj msg))) t; t' = fold (term_apply p) evs t0 in
     live_session t' = Some sid \<and>
     (\<exists>us. opened_urls t' = opened_urls t0 @ us \<and>
        list_all (\<lambda>u. map_of (wu_params u) ''session_id'' = Some sid) us)"
proof -
  have "live_session (ws_onmessage (TextMessage d (JText (JObj msg))) t) = Some sid"
    using assms(1-3) handler_session(1) [of msg t] by (simp add: ws_onmessage_def non_empty_def)
  from run_session [OF this assms(3,4)] show ?thesis unfolding Let_def .
qed

theorem terminal_resumes_session_witness:
  "live_session (fold (term_apply demo_props) [ConnClosed 3, TimerFires initial_auth]
     (ws_onmessage (TextMessage '''' (JText (JObj demo_ready)))
       ((mount demo_props None initial_auth)\<lparr>socket := Some WsOpen\<rparr>))) = Some ''pty-7''"
proof -
  have "get_str demo_ready ''type'' = Some ''ready''" "get_str demo_ready ''session_id'' = Some ''pty-7''"
      "list_all (keeps_session ''pty-7'') [ConnClosed 3, TimerFires initial_auth]"
    by (simp_all add: demo_ready_def get_str_def oget_def)
  then show ?thesis
    using terminal_resumes_session [of demo_ready "''pty-7''"] unfolding Let_def by blast
qed

end
