(* ===== verification/Net_Errors.thy ===== *)
theory Net_Errors
  imports Js_Prelude
begin

text \<open>
  \<open>lib/network/errors.ts\<close>: from a failed request to the text of a toast, and
  \<open>modules/proxymanager/pages/_shared/apply.ts\<close>, which builds its own text on top of it. An
  error value is what a request can reject with: an axios error, another \<open>Error\<close>, or something
  else. \<open>numStr\<close> is \<open>String\<close> on numbers.
\<close>

section \<open>Error values\<close>

record err_response =
  er_status :: nat
  er_statusText :: "string option"
  er_data :: jv

datatype err = AxiosErr string "err_response option" | PlainErr string | OtherErr

definition err_status :: "err \<Rightarrow> nat option" where
  "err_status e = (case e of AxiosErr _ (Some r) \<Rightarrow> Some (er_status r) | _ \<Rightarrow> None)"

definition err_data :: "err \<Rightarrow> jv" where
  "err_data e = (case e of AxiosErr _ (Some r) \<Rightarrow> er_data r | _ \<Rightarrow> JUndef)"

text \<open>The wrapped error, or one made from an in-band error body; \<open>None\<close> for no error.\<close>

definition withError :: "string option \<Rightarrow> jv \<Rightarrow> jv option" where
  "withError error data =
     (case error of
        Some m \<Rightarrow> Some (JStr m)
      | None \<Rightarrow>
          (case as_object data of
             Some b \<Rightarrow> if truthy (oget b ''error'') then Some (oget b ''message'') else None
           | None \<Rightarrow> None))"

definition isApiErrorBody :: "jv \<Rightarrow> bool" where
  "isApiErrorBody body =
     (case as_object body of
        None \<Rightarrow> False
      | Some b \<Rightarrow> oget b ''error'' \<in> {JBool True, JStr ''true'', JNum 1})"

section \<open>Messages\<close>

text \<open>A trimmed string, unless it is blank.\<close>

definition nonblank :: "string \<Rightarrow> string option" where
  "nonblank s = (if trim s \<noteq> [] then Some (trim s) else None)"

definition getApiErrorMessageFromBody :: "(rat \<Rightarrow> string) \<Rightarrow> jv \<Rightarrow> string \<Rightarrow> string" where
  "getApiErrorMessageFromBody numStr body fallback =
     (case as_object body of
        None \<Rightarrow> fallback
      | Some b \<Rightarrow>
          (let msg = (case oget b ''message'' of
                 JStr s \<Rightarrow> nonblank s
               | JBool x \<Rightarrow> nonblank (js_string numStr (JBool x))
               | JNum n \<Rightarrow> nonblank (js_string numStr (JNum n))
               | _ \<Rightarrow> None)
           in case msg of
                Some t \<Rightarrow> t
              | None \<Rightarrow>
                  (case oget b ''code'' of
                     JStr c \<Rightarrow> (case nonblank c of Some t \<Rightarrow> t | None \<Rightarrow> fallback)
                   | _ \<Rightarrow> fallback)))"

text \<open>\<open>s.replace(/<[^>]+>/g, " ")\<close> and \<open>s.replace(/\s+/g, " ")\<close>.\<close>

function strip_tags :: "string \<Rightarrow> string" where
  "strip_tags [] = []"
| "strip_tags (c # cs) =
     (if c = CHR ''<'' \<and> takeWhile (\<lambda>x. x \<noteq> CHR ''>'') cs \<noteq> []
           \<and> dropWhile (\<lambda>x. x \<noteq> CHR ''>'') cs \<noteq> []
      then CHR '' '' # strip_tags (tl (dropWhile (\<lambda>x. x \<noteq> CHR ''>'') cs))
      else c # strip_tags cs)"
  by pat_completeness auto
termination
proof (relation "measure length")
  show "(tl (dropWhile (\<lambda>x. x \<noteq> CHR ''>'') cs), c # cs) \<in> measure length" for c :: char and cs
    using length_dropWhile_le [of "\<lambda>x. x \<noteq> CHR ''>''" cs] by simp
qed simp_all

function collapse_ws :: "string \<Rightarrow> string" where
  "collapse_ws [] = []"
| "collapse_ws (c # cs) =
     (if js_ws c then CHR '' '' # collapse_ws (dropWhile js_ws cs) else c # collapse_ws cs)"
  by pat_completeness auto
termination
  by (relation "measure length") (auto intro: le_imp_less_Suc length_dropWhile_le)

definition ellipsis :: string where "ellipsis = [CHR 0x85]"

text \<open>\<open>t.length > 4000 ? `${t.slice(0, 4000)}...` : t\<close>\<close>

definition clip :: "string \<Rightarrow> string" where
  "clip t = (if 4000 < length t then take 4000 t @ ellipsis else t)"

definition plain_text :: "string \<Rightarrow> string" where
  "plain_text data = trim (collapse_ws (strip_tags data))"

text \<open>
  The lines inside \<open>if (axios.isAxiosError(error))\<close>: from the status on, and the whole block;
  \<open>None\<close> falls through.
\<close>

definition axios_own_message :: "string \<Rightarrow> err_response option \<Rightarrow> string option" where
  "axios_own_message message resp =
     (case resp of
        Some r \<Rightarrow> if er_status r = 404
                  then Some (or_str (case er_statusText r of Some t \<Rightarrow> trim t | None \<Rightarrow> [])
                                    ''Not found'')
                  else nonblank message
      | None \<Rightarrow> nonblank message)"

definition axios_message :: "(rat \<Rightarrow> string) \<Rightarrow> string \<Rightarrow> err_response option \<Rightarrow> string option" where
  "axios_message numStr message resp =
     (case (case resp of Some r \<Rightarrow> er_data r | None \<Rightarrow> JUndef) of
        JObj b \<Rightarrow> (let msg = getApiErrorMessageFromBody numStr (JObj b) [] in
                   if msg \<noteq> [] then Some msg else axios_own_message message resp)
      | JStr s \<Rightarrow> (if trim s \<noteq> [] \<and> plain_text s \<noteq> [] then Some (clip (plain_text s))
                   else axios_own_message message resp)
      | _ \<Rightarrow> axios_own_message message resp)"

fun getRequestErrorMessage :: "(rat \<Rightarrow> string) \<Rightarrow> err \<Rightarrow> string \<Rightarrow> string" where
  "getRequestErrorMessage numStr (AxiosErr m r) fallback =
     (case axios_message numStr m r of
        Some t \<Rightarrow> t
      | None \<Rightarrow> (case nonblank m of Some t \<Rightarrow> t | None \<Rightarrow> fallback))"
| "getRequestErrorMessage numStr (PlainErr m) fallback =
     (case nonblank m of Some t \<Rightarrow> t | None \<Rightarrow> fallback)"
| "getRequestErrorMessage numStr OtherErr fallback = fallback"

section \<open>Title and description\<close>

record error_info =
  ei_title :: string
  ei_description :: string
  ei_code :: "string option"
  ei_status :: "nat option"

definition plain_object :: "jv \<Rightarrow> obj option" where
  "plain_object v = (case v of JObj b \<Rightarrow> Some b | _ \<Rightarrow> None)"

definition str_field :: "obj \<Rightarrow> string \<Rightarrow> string option" where
  "str_field b k = (case oget b k of JStr s \<Rightarrow> nonblank s | _ \<Rightarrow> None)"

definition blank_line :: string where "blank_line = [CHR 10, CHR 10]"

definition error_code :: "err \<Rightarrow> string option" where
  "error_code e = (case plain_object (err_data e) of
       Some b \<Rightarrow> str_field b ''code'' | None \<Rightarrow> None)"

definition error_details :: "err \<Rightarrow> string option" where
  "error_details e =
     (case plain_object (err_data e) of
        None \<Rightarrow> None
      | Some b \<Rightarrow>
          (case plain_object (oget b ''data'') of
             None \<Rightarrow> None
           | Some n \<Rightarrow>
               (let chunks =
                  (case str_field n ''stderr'' of Some t \<Rightarrow> [t] | None \<Rightarrow> []) @
                  (case str_field n ''stdout'' of Some t \<Rightarrow> [t] | None \<Rightarrow> []) @
                  (case str_field n ''command'' of Some t \<Rightarrow> [''Command: '' @ t] | None \<Rightarrow> [])
                in if chunks \<noteq> [] then Some (js_join blank_line chunks) else None)))"

text \<open>The first part: the message, or the status when there is no message of its own.\<close>

definition error_first :: "(rat \<Rightarrow> string) \<Rightarrow> err \<Rightarrow> string \<Rightarrow> string" where
  "error_first numStr e title =
     (let message = getRequestErrorMessage numStr e [] in
      if message \<noteq> [] \<and> message \<noteq> title then clip message
      else case err_status e of
        Some st \<Rightarrow> if st \<noteq> 0 then ''Request failed (HTTP '' @ show_nat st @ '')''
                   else ''Something went wrong''
      | None \<Rightarrow> ''Something went wrong'')"

definition error_parts :: "(rat \<Rightarrow> string) \<Rightarrow> err \<Rightarrow> string \<Rightarrow> string list" where
  "error_parts numStr e title =
     (let first = error_first numStr e title;
          parts = [first];
          parts = (case error_details e of
                     Some d \<Rightarrow> if \<not> str_includes first (take 80 d) then parts @ [clip d] else parts
                   | None \<Rightarrow> parts)
      in case error_code e of
           Some c \<Rightarrow> if \<not> list_ex (\<lambda>p. str_includes p c) parts then parts @ [c] else parts
         | None \<Rightarrow> parts)"

definition getRequestErrorInfo :: "(rat \<Rightarrow> string) \<Rightarrow> err \<Rightarrow> string \<Rightarrow> error_info" where
  "getRequestErrorInfo numStr e title =
     \<lparr>ei_title = title, ei_description = js_join blank_line (error_parts numStr e title),
      ei_code = error_code e, ei_status = err_status e\<rparr>"

text \<open>A toast: its title, its description and how long it stays.\<close>

definition toastRequestError :: "(rat \<Rightarrow> string) \<Rightarrow> err \<Rightarrow> string \<Rightarrow> string \<times> string \<times> nat" where
  "toastRequestError numStr e title =
     (let info = getRequestErrorInfo numStr e title in
      (ei_title info, ei_description info,
       min 20000 (6000 + length (ei_description info) * 8)))"

section \<open>Field errors\<close>

definition isFieldErrorItem :: "jv \<Rightarrow> bool" where
  "isFieldErrorItem v =
     (case as_object v of
        None \<Rightarrow> False
      | Some b \<Rightarrow> as_string (oget b ''field'') \<noteq> None \<and> as_string (oget b ''message'') \<noteq> None)"

definition getFieldsErrorsFromData :: "err \<Rightarrow> jv list" where
  "getFieldsErrorsFromData e =
     (case plain_object (err_data e) of
        None \<Rightarrow> []
      | Some b \<Rightarrow> (case oget b ''data'' of
            JArr items \<Rightarrow> filter isFieldErrorItem items
          | _ \<Rightarrow> []))"

section \<open>Applying the proxy configuration\<close>

text \<open>
  The toast of a failed \<open>runProxyApply\<close>. The code reads \<open>response.data\<close> of whatever was thrown;
  only an axios error has one.
\<close>

definition proxy_apply_toast :: "(rat \<Rightarrow> string) \<Rightarrow> err \<Rightarrow> string" where
  "proxy_apply_toast numStr e =
     (let b = (case as_object (err_data e) of Some b \<Rightarrow> b | None \<Rightarrow> []);
          log = (case oget b ''log'' of JStr s \<Rightarrow> s | _ \<Rightarrow> []);
          apiErr = (case oget b ''error'' of
                      JStr s \<Rightarrow> s
                    | _ \<Rightarrow> (case oget b ''message'' of JStr s \<Rightarrow> s | _ \<Rightarrow> []));
          msg = or_str apiErr (getRequestErrorMessage numStr e ''Apply failed'');
          detail = (if log \<noteq> [] then msg @ blank_line @ log else msg)
      in take 800 detail)"

section \<open>Facts\<close>

lemma nonblank_Some: "nonblank s = Some t \<Longrightarrow> t \<noteq> [] \<and> tight t"
  by (auto simp: nonblank_def tight_trim split: if_splits)

lemma body_message:
  "getApiErrorMessageFromBody numStr b fallback = fallback \<or>
   (getApiErrorMessageFromBody numStr b fallback \<noteq> [] \<and>
    tight (getApiErrorMessageFromBody numStr b fallback))"
  by (auto simp: getApiErrorMessageFromBody_def Let_def dest!: nonblank_Some
      split: option.splits jv.splits)

lemma tight_clip: "t \<noteq> [] \<Longrightarrow> tight t \<Longrightarrow> clip t \<noteq> [] \<and> tight (clip t)"
  by (cases t) (auto simp: clip_def tight_def ellipsis_def js_ws_def)

lemma length_clip: "length (clip t) \<le> 4001"
  by (simp add: clip_def ellipsis_def)

lemma axios_own_message_Some: "axios_own_message m r = Some t \<Longrightarrow> t \<noteq> [] \<and> tight t"
  by (auto simp: axios_own_message_def or_str_def tight_trim tight_def [of "''Not found''"]
      js_ws_def dest: nonblank_Some split: option.splits if_splits)

lemma axios_message_Some: "axios_message numStr m r = Some t \<Longrightarrow> t \<noteq> [] \<and> tight t"
  using body_message [of numStr "JObj b" "[]" for b]
  by (auto simp: axios_message_def Let_def plain_text_def tight_trim
      dest: axios_own_message_Some tight_clip split: jv.splits if_splits)

lemma request_message:
  "getRequestErrorMessage numStr e fallback = fallback \<or>
   (getRequestErrorMessage numStr e fallback \<noteq> [] \<and>
    tight (getRequestErrorMessage numStr e fallback))"
  by (cases e)
    (auto dest: axios_message_Some nonblank_Some split: option.splits)

text \<open>No markup survives: stripping tags again finds none.\<close>

lemma strip_tags_no_close:
  "CHR ''>'' \<notin> set s \<Longrightarrow> strip_tags s = s"
proof (induction s)
  case (Cons c cs)
  then have "dropWhile (\<lambda>x. x \<noteq> CHR ''>'') cs = []"
    by (auto simp: dropWhile_eq_Nil_conv)
  with Cons show ?case by simp
qed simp

lemma set_strip_tags: "set (strip_tags s) \<subseteq> insert (CHR '' '') (set s)"
proof (induction s rule: strip_tags.induct)
  case (2 c cs)
  have "set (tl (dropWhile (\<lambda>x. x \<noteq> CHR ''>'') cs)) \<subseteq> set cs"
    by (metis dropWhile_eq_drop drop_Suc set_drop_subset tl_drop)
  with 2 show ?case
    by (cases "c = CHR ''<'' \<and> takeWhile (\<lambda>x. x \<noteq> CHR ''>'') cs \<noteq> []
        \<and> dropWhile (\<lambda>x. x \<noteq> CHR ''>'') cs \<noteq> []") auto
qed simp

lemma strip_tags_keeps_head:
  "cs \<noteq> [] \<Longrightarrow> hd cs = CHR ''>'' \<Longrightarrow> \<exists>r. strip_tags cs = CHR ''>'' # r"
  by (cases cs) auto

lemma takeWhile_close_Nil:
  "takeWhile (\<lambda>x. x \<noteq> CHR ''>'') cs = [] \<Longrightarrow> dropWhile (\<lambda>x. x \<noteq> CHR ''>'') cs \<noteq> [] \<Longrightarrow>
   cs \<noteq> [] \<and> hd cs = CHR ''>''"
  by (cases cs) (auto split: if_splits)

lemma strip_tags_idem: "strip_tags (strip_tags s) = strip_tags s"
proof (induction s rule: strip_tags.induct)
  case (2 c cs)
  let ?tw = "takeWhile (\<lambda>x. x \<noteq> CHR ''>'') cs" and ?dw = "dropWhile (\<lambda>x. x \<noteq> CHR ''>'') cs"
  show ?case
  proof (cases "c = CHR ''<'' \<and> ?tw \<noteq> [] \<and> ?dw \<noteq> []")
    case True
    then show ?thesis using "2.IH"(1) by simp
  next
    case False
    have "strip_tags (c # strip_tags cs) = c # strip_tags (strip_tags cs)"
    proof (cases "c = CHR ''<''")
      case True
      show ?thesis
      proof (cases "?dw = []")
        case True
        then have "CHR ''>'' \<notin> set cs" by (auto simp: dropWhile_eq_Nil_conv)
        then have "CHR ''>'' \<notin> set (strip_tags cs)" using set_strip_tags [of cs] by auto
        then have "dropWhile (\<lambda>x. x \<noteq> CHR ''>'') (strip_tags cs) = []"
          by (auto simp: dropWhile_eq_Nil_conv)
        then show ?thesis by simp
      next
        case ne: False
        then have "?tw = []" using False True by simp
        then obtain r where "strip_tags cs = CHR ''>'' # r"
          using ne takeWhile_close_Nil strip_tags_keeps_head by blast
        then show ?thesis by simp
      qed
    qed simp
    moreover have "strip_tags (c # cs) = c # strip_tags cs" using False by simp
    ultimately show ?thesis using "2.IH"(2) [OF False] by simp
  qed
qed simp

lemma error_first_ne: "error_first numStr e title \<noteq> []"
  by (simp add: error_first_def Let_def clip_def split: option.split)

lemma error_parts_hd: "\<exists>r. error_parts numStr e title = error_first numStr e title # r"
  by (simp add: error_parts_def Let_def split: option.split)

lemma js_join_hd: "f \<noteq> [] \<Longrightarrow> js_join sep (f # r) \<noteq> []"
  by (cases r) auto

lemma description_ne: "ei_description (getRequestErrorInfo numStr e title) \<noteq> []"
  using error_parts_hd [of numStr e title] js_join_hd [OF error_first_ne]
  by (metis error_info.select_convs(2) getRequestErrorInfo_def)

lemma collapse_ws_blank: "\<forall>c \<in> set s. js_ws c \<Longrightarrow> set (collapse_ws s) \<subseteq> {CHR '' ''}"
proof (cases s)
  case (Cons c cs)
  assume "\<forall>c \<in> set s. js_ws c"
  then have "js_ws c" "dropWhile js_ws cs = []" using Cons by (auto simp: dropWhile_eq_Nil_conv)
  then show ?thesis unfolding Cons by (simp del: dropWhile_eq_Nil_conv)
qed simp

lemma collapse_ws_id: "\<forall>c \<in> set s. \<not> js_ws c \<Longrightarrow> collapse_ws s = s"
  by (induction s) simp_all

section \<open>Properties\<close>

definition demo_num :: "rat \<Rightarrow> string" where "demo_num n = show_int \<lfloor>n\<rfloor>"

definition demo_html :: err where
  "demo_html = AxiosErr ''Request failed with status code 502'' (Some
     \<lparr>er_status = 502, er_statusText = Some ''Bad Gateway'',
      er_data = JStr ''<h1>502</h1> <p>Bad   Gateway</p>''\<rparr>)"

definition demo_failed :: err where
  "demo_failed = AxiosErr ''Request failed with status code 500'' (Some
     \<lparr>er_status = 500, er_statusText = None,
      er_data = JObj [(''message'', JStr '' pull failed ''), (''code'', JStr ''E_PULL''),
        (''data'', JObj [(''stderr'', JStr ''no space left'')])]\<rparr>)"

text \<open>The message shown for a failed request is the caller's fallback or a non-blank text
  without white space at its ends, whatever the server answered.\<close>

theorem request_message_readable:
  "getRequestErrorMessage numStr e fallback = fallback \<or>
   (getRequestErrorMessage numStr e fallback \<noteq> [] \<and>
    tight (getRequestErrorMessage numStr e fallback))"
  by (rule request_message)

text \<open>An HTML error page is reduced to text: stripping its tags leaves none to strip, and
  what is shown of it has at most 4001 characters.\<close>

theorem html_body_is_reduced:
  assumes "er_data r = JStr body" and "plain_text body \<noteq> []"
  shows "strip_tags (strip_tags body) = strip_tags body \<and>
    getRequestErrorMessage numStr (AxiosErr m (Some r)) fallback = clip (plain_text body) \<and>
    length (getRequestErrorMessage numStr (AxiosErr m (Some r)) fallback) \<le> 4001"
proof -
  have "trim body \<noteq> []"
  proof
    assume "trim body = []"
    then have ws: "\<forall>c \<in> set body. js_ws c" by (simp add: trim_Nil_iff)
    moreover have "\<not> js_ws (CHR ''>'')" by (simp add: js_ws_def)
    ultimately have "CHR ''>'' \<notin> set body" by blast
    then have "strip_tags body = body" by (rule strip_tags_no_close)
    moreover have "\<forall>c \<in> set (collapse_ws body). js_ws c"
      using collapse_ws_blank [OF ws] by (auto simp: js_ws_def)
    ultimately have "plain_text body = []" by (simp add: plain_text_def trim_Nil_iff)
    with assms(2) show False by simp
  qed
  then have "getRequestErrorMessage numStr (AxiosErr m (Some r)) fallback = clip (plain_text body)"
    using assms by (simp add: axios_message_def)
  then show ?thesis by (simp add: strip_tags_idem length_clip)
qed

theorem html_body_is_reduced_witness:
  "getRequestErrorMessage demo_num demo_html ''x'' = ''502 Bad Gateway'' \<and>
   length (getRequestErrorMessage demo_num demo_html ''x'') \<le> 4001"
proof
  have "plain_text ''<h1>502</h1> <p>Bad   Gateway</p>'' = ''502 Bad Gateway''" by code_simp
  then show "length (getRequestErrorMessage demo_num demo_html ''x'') \<le> 4001"
    unfolding demo_html_def using html_body_is_reduced
      [of "\<lparr>er_status = 502, er_statusText = Some ''Bad Gateway'',
            er_data = JStr ''<h1>502</h1> <p>Bad   Gateway</p>''\<rparr>"
          "''<h1>502</h1> <p>Bad   Gateway</p>''" demo_num
          "''Request failed with status code 502''" "''x''"]
    by (simp add: length_clip del: getRequestErrorMessage.simps)
  show "getRequestErrorMessage demo_num demo_html ''x'' = ''502 Bad Gateway''" by code_simp
qed

text \<open>The comment on \<open>getRequestErrorMessage\<close> promises at most 280 characters, but longer
  texts are shown whole: the limit in the code is 4000.\<close>

theorem long_message_is_kept:
  assumes "280 < length t" and "length t \<le> 4000" and "\<forall>c \<in> set t. c = CHR ''a''"
  shows "getRequestErrorMessage numStr (AxiosErr m
           (Some \<lparr>er_status = 500, er_statusText = None, er_data = JStr t\<rparr>)) fallback = t"
proof -
  have t: "t \<noteq> []" "CHR ''>'' \<notin> set t" "\<forall>c \<in> set t. \<not> js_ws c"
  proof -
    have "\<not> js_ws (CHR ''a'')" by (simp add: js_ws_def)
    then show "\<forall>c \<in> set t. \<not> js_ws c" using assms(3) by metis
    show "CHR ''>'' \<notin> set t" using assms(3) by force
    show "t \<noteq> []" using assms(1) by force
  qed
  have "collapse_ws t = t" using t(3) by (rule collapse_ws_id)
  moreover have "tight t" using t by (auto simp: tight_def)
  ultimately have "plain_text t = t"
    by (simp add: plain_text_def strip_tags_no_close t(2) trim_id)
  moreover have "trim t = t" using \<open>tight t\<close> by (rule trim_id)
  ultimately show ?thesis
    using t(1) assms(2) by (simp add: axios_message_def clip_def)
qed

theorem long_message_is_kept_witness:
  "length (getRequestErrorMessage demo_num (AxiosErr []
     (Some \<lparr>er_status = 500, er_statusText = None, er_data = JStr (replicate 300 (CHR ''a''))\<rparr>))
     ''x'') = 300"
  by (subst long_message_is_kept) simp_all

text \<open>Every error toast has the caller's title, a non-empty description that starts with the
  message (or the status) and stays between 6 and 20 seconds.\<close>

theorem error_toast_shape:
  "case toastRequestError numStr e title of (t, d, ms) \<Rightarrow>
     t = title \<and> d = js_join blank_line (error_parts numStr e title) \<and> d \<noteq> [] \<and>
     hd (error_parts numStr e title) = error_first numStr e title \<and>
     6000 < ms \<and> ms \<le> 20000"
proof -
  have "ei_description (getRequestErrorInfo numStr e title) \<noteq> []" by (rule description_ne)
  moreover from this have "0 < length (ei_description (getRequestErrorInfo numStr e title))"
    by simp
  ultimately show ?thesis
    using error_parts_hd [of numStr e title]
    by (auto simp: toastRequestError_def Let_def getRequestErrorInfo_def)
qed

text \<open>The field errors handed to a form are exactly the items of the payload that carry a
  text for both a field and a message, in the order sent.\<close>

theorem field_errors_exact:
  assumes "r = \<lparr>er_status = st, er_statusText = stt,
                er_data = JObj [(''error'', JBool True), (''data'', JArr items)]\<rparr>"
  shows "getFieldsErrorsFromData (AxiosErr m (Some r)) = filter isFieldErrorItem items \<and>
    (\<forall>v \<in> set (getFieldsErrorsFromData (AxiosErr m (Some r))).
       \<exists>b f t. v = JObj b \<and> oget b ''field'' = JStr f \<and> oget b ''message'' = JStr t)"
  using assms
  by (auto simp: getFieldsErrorsFromData_def err_data_def plain_object_def oget_def
      isFieldErrorItem_def elim!: as_object.elims as_string.elims split: option.splits)

theorem field_errors_exact_witness:
  "getFieldsErrorsFromData (AxiosErr ''m'' (Some \<lparr>er_status = 422, er_statusText = None,
     er_data = JObj [(''error'', JBool True), (''data'', JArr
       [JNum 1, JObj [(''field'', JStr ''name''), (''message'', JStr ''taken'')]])]\<rparr>)) =
     filter isFieldErrorItem [JNum 1, JObj [(''field'', JStr ''name''), (''message'', JStr ''taken'')]]"
  by (rule conjunct1 [OF field_errors_exact]) simp

end
