(* ===== verification/Cloud_Shell.thy ===== *)
theory Cloud_Shell
  imports Js_Prelude
begin

text \<open>
  \<open>components/cloudshell/store.ts\<close>, the state of the docked terminal, and
  \<open>special-keys.ts\<close>. The window is a parameter: \<open>Some h\<close> when it exists, with \<open>h\<close> its inner
  height. Heights are \<open>rat\<close>, because a persisted height may be any number. A persisted value of
  another type than the code's \<open>CloudShellPersisted\<close> promises counts as absent.
\<close>

section \<open>State\<close>

record shell_tab =
  tb_id :: string
  tb_title :: string
  tb_session :: "string option"
  tb_token :: nat

record shell_state =
  hasHydrated :: bool
  shell_open :: bool
  height :: rat
  maximized :: bool
  previousHeight :: rat
  tabs :: "shell_tab list"
  activeTabId :: "string option"

definition MIN_HEIGHT :: rat where "MIN_HEIGHT = 160"
definition HEADER_ONLY :: rat where "HEADER_ONLY = 40"
definition DEFAULT_HEIGHT :: rat where "DEFAULT_HEIGHT = 320"

text \<open>\<open>Math.round\<close>: halves go up.\<close>

definition js_round :: "rat \<Rightarrow> rat" where
  "js_round x = of_int \<lfloor>x + 1/2\<rfloor>"

definition clampHeight :: "rat option \<Rightarrow> rat \<Rightarrow> rat" where
  "clampHeight win h =
     (case win of
        None \<Rightarrow> max HEADER_ONLY (js_round h)
      | Some ih \<Rightarrow> min (max MIN_HEIGHT (of_int \<lfloor>ih\<rfloor>)) (max HEADER_ONLY (js_round h)))"

definition fullViewportHeight :: "rat option \<Rightarrow> rat" where
  "fullViewportHeight win =
     (case win of None \<Rightarrow> DEFAULT_HEIGHT | Some ih \<Rightarrow> max MIN_HEIGHT (of_int \<lfloor>ih\<rfloor>))"

definition session_title :: "nat \<Rightarrow> string" where
  "session_title index = ''session-'' @ show_nat index"

definition newTab :: "platform \<Rightarrow> nat \<Rightarrow> shell_tab" where
  "newTab p index =
     \<lparr>tb_id = (case random_uuid p of
                 Some u \<Rightarrow> u
               | None \<Rightarrow> ''tab-'' @ show_int (date_now p) @ ''-'' @ show_nat index),
      tb_title = session_title index, tb_session = None, tb_token = 0\<rparr>"

section \<open>Operations\<close>

definition initial_shell :: "platform \<Rightarrow> shell_state" where
  "initial_shell p =
     \<lparr>hasHydrated = False, shell_open = False, height = DEFAULT_HEIGHT, maximized = False,
      previousHeight = DEFAULT_HEIGHT, tabs = [newTab p 1], activeTabId = None\<rparr>"

definition setHasHydrated :: "bool \<Rightarrow> shell_state \<Rightarrow> shell_state" where
  "setHasHydrated v s = s\<lparr>hasHydrated := v\<rparr>"

definition openShell :: "rat option \<Rightarrow> shell_state \<Rightarrow> shell_state" where
  "openShell win s =
     s\<lparr>shell_open := True,
       height := (if maximized s then fullViewportHeight win else max (height s) DEFAULT_HEIGHT)\<rparr>"

definition closeShell :: "shell_state \<Rightarrow> shell_state" where
  "closeShell s = s\<lparr>shell_open := False, maximized := False\<rparr>"

definition toggleShell :: "rat option \<Rightarrow> shell_state \<Rightarrow> shell_state" where
  "toggleShell win s = (if shell_open s then closeShell s else openShell win s)"

definition setHeight :: "rat option \<Rightarrow> rat \<Rightarrow> shell_state \<Rightarrow> shell_state" where
  "setHeight win h s = s\<lparr>height := clampHeight win h, maximized := False\<rparr>"

definition minimize :: "shell_state \<Rightarrow> shell_state" where
  "minimize s =
     s\<lparr>previousHeight := (if HEADER_ONLY < height s then height s else previousHeight s),
       height := HEADER_ONLY, maximized := False\<rparr>"

definition toggleMaximize :: "rat option \<Rightarrow> shell_state \<Rightarrow> shell_state" where
  "toggleMaximize win s =
     (if maximized s
      then s\<lparr>maximized := False,
             height := clampHeight win (max (previousHeight s) DEFAULT_HEIGHT)\<rparr>
      else (let current = (if HEADER_ONLY < height s then height s
                           else if previousHeight s \<noteq> 0 then previousHeight s
                           else DEFAULT_HEIGHT)
            in s\<lparr>maximized := True, previousHeight := current,
                 height := fullViewportHeight win\<rparr>))"

definition addTab :: "platform \<Rightarrow> shell_state \<Rightarrow> shell_state" where
  "addTab p s =
     (let tab = newTab p (length (tabs s) + 1) in
      s\<lparr>shell_open := True, tabs := tabs s @ [tab], activeTabId := Some (tb_id tab),
        height := max (height s) DEFAULT_HEIGHT\<rparr>)"

definition closeTab :: "platform \<Rightarrow> string \<Rightarrow> shell_state \<Rightarrow> shell_tab option \<times> shell_state" where
  "closeTab p i s =
     (let closing = find (\<lambda>t. tb_id t = i) (tabs s) in
      if length (tabs s) \<le> 1
      then (let replacement = newTab p 1 in
            (closing, s\<lparr>shell_open := False, tabs := [replacement],
                        activeTabId := Some (tb_id replacement)\<rparr>))
      else (let ts = filter (\<lambda>t. tb_id t \<noteq> i) (tabs s);
                active = (if activeTabId s = Some i
                          then (if ts = [] then None else Some (tb_id (last ts)))
                          else activeTabId s)
            in (closing, s\<lparr>tabs := ts, activeTabId := active\<rparr>)))"

definition setActiveTab :: "string \<Rightarrow> shell_state \<Rightarrow> shell_state" where
  "setActiveTab i s = s\<lparr>activeTabId := Some i, shell_open := True\<rparr>"

definition update_tab :: "string \<Rightarrow> (shell_tab \<Rightarrow> shell_tab) \<Rightarrow> shell_state \<Rightarrow> shell_state" where
  "update_tab i f s = s\<lparr>tabs := map (\<lambda>t. if tb_id t = i then f t else t) (tabs s)\<rparr>"

definition reconnectTab :: "string \<Rightarrow> shell_state \<Rightarrow> shell_state" where
  "reconnectTab i = update_tab i (\<lambda>t. t\<lparr>tb_token := tb_token t + 1\<rparr>)"

definition newShellForTab :: "string \<Rightarrow> shell_state \<Rightarrow> string option \<times> shell_state" where
  "newShellForTab i s =
     (Option.bind (find (\<lambda>t. tb_id t = i) (tabs s)) tb_session,
      update_tab i (\<lambda>t. t\<lparr>tb_session := None, tb_token := tb_token t + 1\<rparr>) s)"

definition setTabSessionId :: "string \<Rightarrow> string option \<Rightarrow> shell_state \<Rightarrow> shell_state" where
  "setTabSessionId i sid =
     update_tab i (\<lambda>t. t\<lparr>tb_session := (if sid = None then tb_session t else sid)\<rparr>)"

definition clearTabSession :: "string \<Rightarrow> shell_state \<Rightarrow> shell_state" where
  "clearTabSession i = update_tab i (\<lambda>t. t\<lparr>tb_session := None, tb_token := tb_token t + 1\<rparr>)"

text \<open>A session of the server's list: \<open>alive\<close> may be absent.\<close>

record server_session =
  ss_id :: string
  ss_title :: "string option"
  ss_alive :: "bool option"

definition server_tabs :: "server_session list \<Rightarrow> shell_tab list" where
  "server_tabs alive =
     map (\<lambda>(i, x). \<lparr>tb_id = ss_id x,
            tb_title = or_str (case ss_title x of Some t \<Rightarrow> trim t | None \<Rightarrow> [])
                         (session_title (i + 1)),
            tb_session = Some (ss_id x), tb_token = 0\<rparr>) (List.enumerate 0 alive)"

definition hydrateFromServer :: "server_session list \<Rightarrow> shell_state \<Rightarrow> shell_state" where
  "hydrateFromServer sessions s =
     (let alive = filter (\<lambda>x. ss_id x \<noteq> [] \<and> ss_alive x \<noteq> Some False) sessions in
      if alive = []
      then s\<lparr>tabs := map (\<lambda>t. t\<lparr>tb_session := None\<rparr>) (tabs s), hasHydrated := True\<rparr>
      else (let ts = server_tabs alive
            in s\<lparr>tabs := ts,
                 activeTabId := (case activeTabId s of
                     Some a \<Rightarrow> if a \<noteq> [] \<and> list_ex (\<lambda>t. tb_id t = a) ts then Some a
                               else Some (tb_id (hd ts))
                   | None \<Rightarrow> Some (tb_id (hd ts))),
                 hasHydrated := True\<rparr>))"

definition resetShellCache :: "platform \<Rightarrow> shell_state \<Rightarrow> shell_state" where
  "resetShellCache p s =
     (let tab = newTab p 1 in
      \<lparr>hasHydrated = True, shell_open = False, height = DEFAULT_HEIGHT, maximized = False,
       previousHeight = DEFAULT_HEIGHT, tabs = [tab], activeTabId = Some (tb_id tab)\<rparr>)"

section \<open>Persistence\<close>

definition shell_tab_jv :: "shell_tab \<Rightarrow> jv" where
  "shell_tab_jv t = JObj [(''id'', JStr (tb_id t)), (''title'', JStr (tb_title t)),
     (''sessionId'', case tb_session t of Some x \<Rightarrow> JStr x | None \<Rightarrow> JNull)]"

definition shell_partialize :: "shell_state \<Rightarrow> jv" where
  "shell_partialize s =
     JObj [(''height'', JNum (height s)), (''previousHeight'', JNum (previousHeight s)),
       (''open'', JBool (shell_open s)),
       (''activeTabId'', case activeTabId s of Some a \<Rightarrow> JStr a | None \<Rightarrow> JNull),
       (''tabs'', JArr (map shell_tab_jv (tabs s)))]"

definition str_or_empty :: "string option \<Rightarrow> string" where
  "str_or_empty v = (case v of Some s \<Rightarrow> s | None \<Rightarrow> [])"

text \<open>\<open>None\<close> when reading a property of null or undefined throws.\<close>

fun normalize_items :: "nat \<Rightarrow> jv list \<Rightarrow> shell_tab list option" where
  "normalize_items i [] = Some []"
| "normalize_items i (v # vs) =
     (if v = JNull \<or> v = JUndef then None
      else (let t = (case as_object v of Some b \<Rightarrow> b | None \<Rightarrow> []) in
            map_option (Cons
              \<lparr>tb_id = or_str (str_or_empty (get_str t ''id'')) (''tab-'' @ show_nat (i + 1)),
               tb_title = or_str (str_or_empty (get_str t ''title'')) (session_title (i + 1)),
               tb_session = get_str t ''sessionId'', tb_token = 0\<rparr>)
              (normalize_items (i + 1) vs)))"

definition normalizeTabs :: "platform \<Rightarrow> jv \<Rightarrow> shell_tab list option" where
  "normalizeTabs p v =
     (case v of
        JArr (x # xs) \<Rightarrow> normalize_items 0 (x # xs)
      | _ \<Rightarrow> Some [newTab p 1])"

definition shell_merge :: "platform \<Rightarrow> jv \<Rightarrow> shell_state \<Rightarrow> shell_state" where
  "shell_merge p persisted current =
     (let b = (case as_object persisted of Some b \<Rightarrow> b | None \<Rightarrow> []) in
      case normalizeTabs p (oget b ''tabs'') of
        None \<Rightarrow> current\<lparr>hasHydrated := False\<rparr>
      | Some ts \<Rightarrow>
          (let a = (case get_str b ''activeTabId'' of Some x \<Rightarrow> x | None \<Rightarrow> tb_id (hd ts));
               active = (if a \<noteq> [] \<and> \<not> list_ex (\<lambda>t. tb_id t = a) ts then tb_id (hd ts) else a)
           in current
                \<lparr>height := (case oget b ''height'' of JNum n \<Rightarrow> n | _ \<Rightarrow> height current),
                 previousHeight := (case oget b ''previousHeight'' of JNum n \<Rightarrow> n
                                    | _ \<Rightarrow> previousHeight current),
                 shell_open := truthy (oget b ''open''),
                 tabs := ts, activeTabId := Some active,
                 maximized := False, hasHydrated := False\<rparr>))"

text \<open>Rehydration: the merged state, marked hydrated.\<close>

definition shell_rehydrate :: "platform \<Rightarrow> jv \<Rightarrow> shell_state \<Rightarrow> shell_state" where
  "shell_rehydrate p persisted current = setHasHydrated True (shell_merge p persisted current)"

section \<open>Events\<close>

datatype shell_event =
    OpenShell "rat option"
  | CloseShell
  | ToggleShell "rat option"
  | SetHeight "rat option" rat
  | Minimize
  | ToggleMaximize "rat option"
  | AddTab platform
  | CloseTab platform string
  | SetActiveTab string
  | ReconnectTab string
  | NewShellForTab string
  | SetTabSessionId string "string option"
  | ClearTabSession string
  | HydrateFromServer "server_session list"
  | ResetShellCache platform
  | Rehydrate platform shell_state

fun shell_apply :: "shell_event \<Rightarrow> shell_state \<Rightarrow> shell_state" where
  "shell_apply (OpenShell w) = openShell w"
| "shell_apply CloseShell = closeShell"
| "shell_apply (ToggleShell w) = toggleShell w"
| "shell_apply (SetHeight w h) = setHeight w h"
| "shell_apply Minimize = minimize"
| "shell_apply (ToggleMaximize w) = toggleMaximize w"
| "shell_apply (AddTab p) = addTab p"
| "shell_apply (CloseTab p i) = (\<lambda>s. snd (closeTab p i s))"
| "shell_apply (SetActiveTab i) = setActiveTab i"
| "shell_apply (ReconnectTab i) = reconnectTab i"
| "shell_apply (NewShellForTab i) = (\<lambda>s. snd (newShellForTab i s))"
| "shell_apply (SetTabSessionId i x) = setTabSessionId i x"
| "shell_apply (ClearTabSession i) = clearTabSession i"
| "shell_apply (HydrateFromServer xs) = hydrateFromServer xs"
| "shell_apply (ResetShellCache p) = resetShellCache p"
| "shell_apply (Rehydrate p v) = shell_rehydrate p (shell_partialize v)"

text \<open>
  What the callers guarantee: a new tab gets an id that is neither empty nor in use, a tab is
  activated from the list shown, the server's session ids are distinct, and what is read back
  is what some earlier state of the store wrote.
\<close>

definition tab_ids :: "shell_state \<Rightarrow> string list" where
  "tab_ids s = map tb_id (tabs s)"

definition shell_inv :: "shell_state \<Rightarrow> bool" where
  "shell_inv s \<longleftrightarrow> tabs s \<noteq> [] \<and> distinct (tab_ids s) \<and> [] \<notin> set (tab_ids s) \<and>
     [] \<notin> set (map tb_title (tabs s)) \<and>
     (case activeTabId s of None \<Rightarrow> True | Some a \<Rightarrow> a \<in> set (tab_ids s))"

fun shell_ok :: "shell_event \<Rightarrow> shell_state \<Rightarrow> bool" where
  "shell_ok (AddTab p) s =
     (tb_id (newTab p (length (tabs s) + 1)) \<notin> insert [] (set (tab_ids s)))"
| "shell_ok (CloseTab p i) s = (tb_id (newTab p 1) \<noteq> [])"
| "shell_ok (ResetShellCache p) s = (tb_id (newTab p 1) \<noteq> [])"
| "shell_ok (SetActiveTab i) s = (i \<in> set (tab_ids s))"
| "shell_ok (HydrateFromServer xs) s = distinct (map ss_id xs)"
| "shell_ok (Rehydrate p saved) s = shell_inv saved"
| "shell_ok _ s = True"

section \<open>Special keys\<close>

definition ctrlKey :: "string \<Rightarrow> string" where
  "ctrlKey letter =
     (case map js_lower (trim letter) of
        [c] \<Rightarrow> if char_code c < 97 \<or> 122 < char_code c then [] else [char_of (char_code c - 96)]
      | _ \<Rightarrow> [])"

definition QUICK_COMBOS :: "(string \<times> string \<times> string) list" where
  "QUICK_COMBOS =
     [(''Ctrl+C'', ''Interrupt (SIGINT)'', ctrlKey ''c''),
      (''Ctrl+D'', ''EOF / logout'', ctrlKey ''d''),
      (''Ctrl+Z'', ''Suspend (SIGTSTP)'', ctrlKey ''z''),
      (''Ctrl+L'', ''Clear screen'', ctrlKey ''l''),
      (''Ctrl+A'', ''Line start'', ctrlKey ''a''),
      (''Ctrl+E'', ''Line end'', ctrlKey ''e''),
      (''Ctrl+U'', ''Kill line'', ctrlKey ''u''),
      (''Ctrl+W'', ''Delete word'', ctrlKey ''w''),
      (''Ctrl+R'', ''Reverse search'', ctrlKey ''r'')]"

section \<open>The store keeps its invariant\<close>

lemma tabs_update [simp]:
  "tab_ids (s\<lparr>hasHydrated := a\<rparr>) = tab_ids s"
  "tab_ids (s\<lparr>shell_open := b\<rparr>) = tab_ids s"
  "tab_ids (s\<lparr>height := h\<rparr>) = tab_ids s"
  "tab_ids (s\<lparr>maximized := b\<rparr>) = tab_ids s"
  "tab_ids (s\<lparr>previousHeight := h\<rparr>) = tab_ids s"
  "tab_ids (s\<lparr>activeTabId := x\<rparr>) = tab_ids s"
  "tab_ids (s\<lparr>tabs := ts\<rparr>) = map tb_id ts"
  by (simp_all add: tab_ids_def)

lemma tab_ids_update_tab:
  "(\<And>t. tb_id (f t) = tb_id t) \<Longrightarrow> tab_ids (update_tab i f s) = tab_ids s"
  by (simp add: update_tab_def tab_ids_def comp_def if_distrib cong: if_cong)

lemma tab_titles_update_tab:
  "(\<And>t. tb_title (f t) = tb_title t) \<Longrightarrow>
   map tb_title (tabs (update_tab i f s)) = map tb_title (tabs s)"
  by (simp add: update_tab_def comp_def if_distrib cong: if_cong)

lemma shell_inv_cong:
  "tab_ids s' = tab_ids s \<Longrightarrow> map tb_title (tabs s') = map tb_title (tabs s) \<Longrightarrow>
   activeTabId s' = activeTabId s \<Longrightarrow> shell_inv s' = shell_inv s"
  unfolding shell_inv_def by (metis map_is_Nil_conv)

lemma update_tab_inv:
  "(\<And>t. tb_id (f t) = tb_id t) \<Longrightarrow> (\<And>t. tb_title (f t) = tb_title t) \<Longrightarrow>
   shell_inv (update_tab i f s) = shell_inv s"
  by (rule shell_inv_cong [OF tab_ids_update_tab tab_titles_update_tab])
    (simp_all add: update_tab_def)

lemma session_title_ne [simp]: "session_title n \<noteq> []" "[] \<noteq> session_title n"
  by (simp_all add: session_title_def)

lemma title_newTab [simp]: "tb_title (newTab p n) = session_title n"
  by (simp add: newTab_def)

lemma list_ex_tab: "list_ex (\<lambda>t. tb_id t = a) ts \<longleftrightarrow> a \<in> set (map tb_id ts)"
  by (auto simp: list_ex_iff)

lemma closeTab_inv:
  assumes "shell_inv s" "tb_id (newTab p 1) \<noteq> []"
  shows "shell_inv (snd (closeTab p i s))"
proof (cases "length (tabs s) \<le> 1")
  case False
  let ?ts = "filter (\<lambda>t. tb_id t \<noteq> i) (tabs s)"
  have ids: "map tb_id ?ts = filter (\<lambda>k. k \<noteq> i) (tab_ids s)"
    by (simp add: tab_ids_def filter_map comp_def)
  have "?ts \<noteq> []"
  proof
    assume "?ts = []"
    then have "set (tab_ids s) \<subseteq> {i}" by (auto simp: tab_ids_def filter_empty_conv)
    then have "card (set (tab_ids s)) \<le> 1" using card_mono [of "{i}"] by simp
    moreover have "card (set (tab_ids s)) = length (tabs s)"
      using assms(1) by (metis distinct_card length_map shell_inv_def tab_ids_def)
    ultimately show False using False by simp
  qed
  then have "last ?ts \<in> set ?ts" by (rule last_in_set)
  then have "tb_id (last ?ts) \<in> set (tab_ids s) \<and> tb_id (last ?ts) \<noteq> i"
    by (auto simp: tab_ids_def)
  then show ?thesis
    using assms False \<open>?ts \<noteq> []\<close>
    by (auto simp: closeTab_def Let_def shell_inv_def ids last_map
        split: option.splits)
qed (use assms in \<open>simp add: closeTab_def Let_def shell_inv_def\<close>)

lemma server_tabs_ids: "map tb_id (server_tabs xs) = map ss_id xs"
proof -
  have "map tb_id (server_tabs xs) = map ss_id (map snd (List.enumerate 0 xs))"
    by (simp only: server_tabs_def map_map) (simp add: comp_def case_prod_beta)
  then show ?thesis by (simp only: map_snd_enumerate)
qed

lemma server_tabs_titles: "[] \<notin> set (map tb_title (server_tabs xs))"
  by (auto simp: server_tabs_def or_str_def split: if_splits)

lemma hd_tab_id: "ts \<noteq> [] \<Longrightarrow> tb_id (hd ts) \<in> set (map tb_id ts)"
  by simp

lemma hydrate_inv:
  assumes "shell_inv s" "distinct (map ss_id xs)"
  shows "shell_inv (hydrateFromServer xs s)"
proof -
  let ?alive = "filter (\<lambda>x. ss_id x \<noteq> [] \<and> ss_alive x \<noteq> Some False) xs"
  show ?thesis
  proof (cases "?alive = []")
    case True
    then show ?thesis using assms(1)
      by (simp add: hydrateFromServer_def shell_inv_def tab_ids_def comp_def split: option.splits)
  next
    case False
    have d: "distinct (map tb_id (server_tabs ?alive))" "[] \<notin> set (map tb_id (server_tabs ?alive))"
      using assms(2) by (auto simp: distinct_map_filter server_tabs_ids)
    have ne: "server_tabs ?alive \<noteq> []"
      using False server_tabs_ids [of ?alive] by (metis map_is_Nil_conv)
    show ?thesis using False d ne hd_tab_id [OF ne] server_tabs_titles [of ?alive]
      by (simp add: hydrateFromServer_def Let_def shell_inv_def list_ex_tab del: set_map
          split: option.splits)
  qed
qed

lemma str_jv_simps [simp]:
  "get_str ((k, v) # b) k' = (if k = k' then as_string v else get_str b k')"
  "oget ((k, v) # b) k' = (if k = k' then v else oget b k')"
  by (simp_all add: get_str_def oget_def)

text \<open>Reading back what was written gives the same tabs, not yet connected.\<close>

lemma normalize_saved:
  assumes "[] \<notin> set (map tb_id ts)" "[] \<notin> set (map tb_title ts)"
  shows "normalize_items i (map shell_tab_jv ts) = Some (map (\<lambda>t. t\<lparr>tb_token := 0\<rparr>) ts)"
  using assms
  by (induction ts arbitrary: i)
    (auto simp: shell_tab_jv_def Let_def str_or_empty_def or_str_def get_str_def oget_def
      split: option.splits)

definition restored :: "shell_state \<Rightarrow> shell_state" where
  "restored s = s\<lparr>hasHydrated := True, maximized := False,
     tabs := map (\<lambda>t. t\<lparr>tb_token := 0\<rparr>) (tabs s),
     activeTabId := (case activeTabId s of Some a \<Rightarrow> Some a
                     | None \<Rightarrow> Some (tb_id (hd (tabs s))))\<rparr>"

lemma rehydrate_saved:
  assumes "shell_inv s"
  shows "shell_rehydrate p (shell_partialize s) cur = restored s"
proof -
  obtain t ts where t: "tabs s = t # ts" using assms by (cases "tabs s") (auto simp: shell_inv_def)
  have "normalize_items 0 (map shell_tab_jv (t # ts)) =
      Some (map (\<lambda>t. t\<lparr>tb_token := 0\<rparr>) (t # ts))"
    using assms t by (intro normalize_saved) (auto simp: shell_inv_def tab_ids_def)
  then have n: "normalizeTabs p (JArr (map shell_tab_jv (tabs s))) =
      Some (map (\<lambda>t. t\<lparr>tb_token := 0\<rparr>) (tabs s))"
    by (simp add: normalizeTabs_def t)
  have m: "list_ex (\<lambda>x. tb_id x = a) (map (\<lambda>t. t\<lparr>tb_token := 0\<rparr>) (tabs s)) \<longleftrightarrow> a \<in> set (tab_ids s)"
    for a by (auto simp: list_ex_iff tab_ids_def)
  have h: "tb_id (hd (tabs s)) \<in> set (tab_ids s)" by (simp add: t tab_ids_def)
  define b where "b = [(''height'', JNum (height s)), (''previousHeight'', JNum (previousHeight s)),
       (''open'', JBool (shell_open s)),
       (''activeTabId'', case activeTabId s of Some a \<Rightarrow> JStr a | None \<Rightarrow> JNull),
       (''tabs'', JArr (map shell_tab_jv (tabs s)))]"
  have o: "oget b ''height'' = JNum (height s)" "oget b ''open'' = JBool (shell_open s)"
    "oget b ''previousHeight'' = JNum (previousHeight s)"
    "oget b ''tabs'' = JArr (map shell_tab_jv (tabs s))"
    "get_str b ''activeTabId'' = activeTabId s"
    by (simp_all add: b_def oget_def get_str_def split: option.splits)
  have hd: "tb_id (hd (map (\<lambda>t. t\<lparr>tb_token := 0\<rparr>) (tabs s))) = tb_id (hd (tabs s))"
    by (simp add: t)
  have p: "as_object (shell_partialize s) = Some b" by (simp add: shell_partialize_def b_def)
  show ?thesis
  proof (cases "activeTabId s")
    case None
    then show ?thesis using h
      by (intro shell_state.equality)
        (simp_all only: shell_rehydrate_def shell_merge_def setHasHydrated_def p o n m hd
          restored_def Let_def option.case jv.case truthy.simps if_False simp_thms,
          simp_all add: m hd)
  next
    case (Some a)
    then have "a \<in> set (tab_ids s)" using assms by (simp add: shell_inv_def)
    then show ?thesis using Some
      by (intro shell_state.equality)
        (simp_all only: shell_rehydrate_def shell_merge_def setHasHydrated_def p o n m hd
          restored_def Let_def option.case jv.case truthy.simps if_False simp_thms,
          simp_all add: m hd)
  qed
qed

lemma restored_inv: "shell_inv s \<Longrightarrow> shell_inv (restored s)"
  by (cases "tabs s")
    (auto simp: shell_inv_def restored_def tab_ids_def comp_def split: option.splits)

lemma shell_apply_inv:
  assumes "shell_inv s" "shell_ok e s"
  shows "shell_inv (shell_apply e s)"
proof (cases e)
  case (CloseTab p i)
  then show ?thesis using assms by (simp add: closeTab_inv)
next
  case (HydrateFromServer xs)
  then show ?thesis using assms by (simp add: hydrate_inv)
next
  case (Rehydrate p saved)
  then show ?thesis using assms by (simp add: rehydrate_saved restored_inv)
next
  case (ReconnectTab i)
  then show ?thesis using assms by (simp add: reconnectTab_def update_tab_inv)
next
  case (NewShellForTab i)
  then show ?thesis using assms by (simp add: newShellForTab_def update_tab_inv)
next
  case (SetTabSessionId i x)
  then show ?thesis using assms by (simp add: setTabSessionId_def update_tab_inv)
next
  case (ClearTabSession i)
  then show ?thesis using assms by (simp add: clearTabSession_def update_tab_inv)
qed (use assms in \<open>auto simp: openShell_def closeShell_def toggleShell_def setHeight_def minimize_def
    toggleMaximize_def addTab_def setActiveTab_def resetShellCache_def Let_def
    shell_inv_def tab_ids_def split: option.splits\<close>)

interpretation shell: guarded_machine shell_apply shell_ok shell_inv
  by unfold_locales (rule shell_apply_inv)

interpretation shell_tabs: keyed_tabs tab_ids activeTabId
    "\<lambda>k s. snd (closeTab p k s)" "\<lambda>s. shell_inv s \<and> tb_id (newTab p 1) \<noteq> []"
  for p
proof
  show "shell_inv s \<and> tb_id (newTab p 1) \<noteq> [] \<Longrightarrow> distinct (tab_ids s)" for s
    by (simp add: shell_inv_def)
  show "shell_inv s \<and> tb_id (newTab p 1) \<noteq> [] \<Longrightarrow> activeTabId s = Some k \<Longrightarrow> k \<in> set (tab_ids s)"
    for s k by (simp add: shell_inv_def)
  show "shell_inv s \<and> tb_id (newTab p 1) \<noteq> [] \<Longrightarrow>
      shell_inv (snd (closeTab p k s)) \<and> tb_id (newTab p 1) \<noteq> []" for s k
    by (simp add: closeTab_inv)
  show "1 < length (tab_ids s) \<Longrightarrow>
      tab_ids (snd (closeTab p k s)) = filter (\<lambda>x. x \<noteq> k) (tab_ids s)" for s k
    by (simp add: closeTab_def Let_def tab_ids_def filter_map comp_def)
  show "1 < length (tab_ids s) \<Longrightarrow> activeTabId s \<noteq> Some k \<Longrightarrow>
      activeTabId (snd (closeTab p k s)) = activeTabId s" for s k
    by (simp add: closeTab_def Let_def tab_ids_def)
qed

lemma filter_eq_single: "a \<in> set xs \<Longrightarrow> distinct xs \<Longrightarrow> filter (\<lambda>x. x = a) xs = [a]"
  by (induction xs) (auto simp: filter_empty_conv)

lemma clampHeight_bounds:
  "HEADER_ONLY \<le> clampHeight win h"
  "win = Some ih \<Longrightarrow> clampHeight win h \<le> max MIN_HEIGHT ih"
  by (auto simp: clampHeight_def HEADER_ONLY_def MIN_HEIGHT_def max_def min_def
      split: option.splits) (use of_int_floor_le [of ih] in linarith)+

lemma initial_shell_inv: "tb_id (newTab p 1) \<noteq> [] \<Longrightarrow> shell_inv (initial_shell p)"
  by (simp add: initial_shell_def shell_inv_def tab_ids_def)

section \<open>Properties\<close>

definition demo_platform :: "string \<Rightarrow> platform" where
  "demo_platform u = \<lparr>random_uuid = Some u, date_now = 0\<rparr>"

definition demo_shell :: shell_state where
  "demo_shell = fold shell_apply
     [OpenShell (Some 900), AddTab (demo_platform ''b''), AddTab (demo_platform ''c''),
      SetTabSessionId ''b'' (Some ''pty-1'')] (initial_shell (demo_platform ''a''))"

text \<open>C27: However the terminal dock is used, reloaded and synchronised with the server, it has
  at least one tab, tab ids are distinct and not empty, every tab has a title, and the active
  tab is one of them.\<close>

theorem shell_reachable_wf:
  assumes "tb_id (newTab p 1) \<noteq> []"
    and "admissible shell_ok shell_apply evs (initial_shell p)"
  shows "let s = fold shell_apply evs (initial_shell p) in
    tabs s \<noteq> [] \<and> distinct (tab_ids s) \<and> [] \<notin> set (tab_ids s) \<and>
    [] \<notin> set (map tb_title (tabs s)) \<and>
    (case activeTabId s of None \<Rightarrow> True | Some a \<Rightarrow> a \<in> set (tab_ids s))"
  using shell.run_inv [OF initial_shell_inv [OF assms(1)] assms(2)]
  unfolding shell_inv_def Let_def by assumption

theorem shell_reachable_wf_witness:
  "let s = fold shell_apply
       [OpenShell (Some 900), AddTab (demo_platform ''b''), CloseTab (demo_platform ''z'') ''a'',
        SetHeight (Some 900) 1000] (initial_shell (demo_platform ''a''))
   in tab_ids s = [''b''] \<and> height s = 900 \<and> distinct (tab_ids s)"
proof -
  let ?evs = "[OpenShell (Some 900), AddTab (demo_platform ''b''),
    CloseTab (demo_platform ''z'') ''a'', SetHeight (Some 900) 1000]"
  have "tb_id (newTab (demo_platform ''a'') 1) \<noteq> []" by code_simp
  moreover have "admissible shell_ok shell_apply ?evs (initial_shell (demo_platform ''a''))"
    by code_simp
  ultimately have "distinct (tab_ids (fold shell_apply ?evs (initial_shell (demo_platform ''a''))))"
    using shell_reachable_wf [of "demo_platform ''a''" ?evs] unfolding Let_def by blast
  moreover have "tab_ids (fold shell_apply ?evs (initial_shell (demo_platform ''a''))) = [''b'']"
    "height (fold shell_apply ?evs (initial_shell (demo_platform ''a''))) = 900"
    by code_simp+
  ultimately show ?thesis unfolding Let_def by blast
qed

text \<open>Closing all tabs but the active one, in any order, leaves exactly that tab, still
  active.\<close>

theorem close_other_tabs:
  assumes "shell_inv s" and "activeTabId s = Some a" and "tb_id (newTab p 1) \<noteq> []"
    and "distinct ks" and "set ks = set (tab_ids s) - {a}"
  shows "tab_ids (fold (\<lambda>k s. snd (closeTab p k s)) ks s) = [a] \<and>
    activeTabId (fold (\<lambda>k s. snd (closeTab p k s)) ks s) = Some a"
proof -
  have a: "a \<in> set (tab_ids s)" "distinct (tab_ids s)"
    using assms(1,2) by (simp_all add: shell_inv_def)
  have "tab_ids (fold (\<lambda>k s. snd (closeTab p k s)) ks s) = filter (\<lambda>x. x \<notin> set ks) (tab_ids s)"
    using assms a by (intro shell_tabs.close_others) auto
  also have "\<dots> = filter (\<lambda>x. x = a) (tab_ids s)"
    using assms(5) by (intro filter_cong) auto
  also have "\<dots> = [a]"
    using a by (intro filter_eq_single)
  finally have "tab_ids (fold (\<lambda>k s. snd (closeTab p k s)) ks s) = [a]" .
  moreover have "activeTabId (fold (\<lambda>k s. snd (closeTab p k s)) ks s) = Some a"
    by (rule shell_tabs.close_others_selected) (use assms in auto)
  ultimately show ?thesis by blast
qed

theorem close_other_tabs_witness:
  "tab_ids (fold (\<lambda>k s. snd (closeTab (demo_platform ''z'') k s)) [''b'', ''a''] demo_shell) = [''c'']"
  by (rule conjunct1 [OF close_other_tabs]; code_simp)

text \<open>A reload restores the docked terminal: the same tabs in the same order with their
  backend sessions, the same heights and the same active tab, none of it maximized.\<close>

theorem shell_persist_roundtrip:
  assumes "shell_inv s"
  shows "shell_rehydrate p (shell_partialize s) cur =
    s\<lparr>hasHydrated := True, maximized := False,
      tabs := map (\<lambda>t. t\<lparr>tb_token := 0\<rparr>) (tabs s),
      activeTabId := (case activeTabId s of Some a \<Rightarrow> Some a
                      | None \<Rightarrow> Some (tb_id (hd (tabs s))))\<rparr>"
  using assms rehydrate_saved by (simp add: restored_def)

theorem shell_persist_roundtrip_witness:
  "map tb_session (tabs (shell_rehydrate (demo_platform ''z'') (shell_partialize demo_shell)
     (initial_shell (demo_platform ''y'')))) = [None, Some ''pty-1'', None]"
  by (subst shell_persist_roundtrip; code_simp)

text \<open>A height the user drags to never hides the header and never exceeds the window (or
  the minimum, in a smaller window); leaving the maximized state obeys the same bounds.\<close>

theorem dock_height_bounds:
  assumes "h = height (setHeight (Some ih) x s) \<or>
           (maximized s \<and> h = height (toggleMaximize (Some ih) s))"
  shows "HEADER_ONLY \<le> h \<and> h \<le> max MIN_HEIGHT ih"
  using assms clampHeight_bounds by (auto simp: setHeight_def toggleMaximize_def)

theorem dock_height_bounds_witness:
  "HEADER_ONLY \<le> (100 :: rat) \<and> (100 :: rat) \<le> max MIN_HEIGHT 900"
  by (rule dock_height_bounds [of _ 900 "201/2 - 1" demo_shell]) code_simp

text \<open>Ctrl and a letter, of either case, is the control byte of the letter's position in the
  alphabet, and nothing for any other key; every one-tap combination sends one byte.\<close>

theorem ctrl_key_bytes:
  "map (\<lambda>c. ctrlKey [c]) ''abcdefghijklmnopqrstuvwxyz'' = map (\<lambda>n. [char_of n]) [1::nat..<27] \<and>
   map (\<lambda>c. ctrlKey [c]) ''ABCDEFGHIJKLMNOPQRSTUVWXYZ'' = map (\<lambda>n. [char_of n]) [1::nat..<27] \<and>
   list_all (\<lambda>c. ctrlKey [c] = []) ''0123456789+-*/@[`{~'' \<and>
   list_all (\<lambda>(_, _, d). length d = 1) QUICK_COMBOS"
  by code_simp

end
