(* ===== verification/Url_Coding.thy ===== *)
theory Url_Coding
  imports Js_Prelude
begin

text \<open>
  \<open>encodeURIComponent\<close> and the request descriptions that the API modules hand to
  \<open>ApiService.fetchData\<close>. A \<open>char\<close> is a Windows-1252 character (see the prelude), so its code
  point is below 65536 and its UTF-8 form has one to three bytes. What the components rely on
  is that the encoding is injective and yields no path separator; it is proved here once.
\<close>

section \<open>Characters as bytes\<close>

text \<open>The code points of the characters 128 to 159.\<close>

definition cp1252 :: "nat list" where
  "cp1252 = [8364, 129, 8218, 402, 8222, 8230, 8224, 8225, 710, 8240, 352, 8249, 338, 141, 381,
     143, 144, 8216, 8217, 8220, 8221, 8226, 8211, 8212, 732, 8482, 353, 8250, 339, 157, 382, 376]"

definition code_point :: "char \<Rightarrow> nat" where
  "code_point c = (let n = of_char c :: nat in
     if 128 \<le> n \<and> n < 160 then cp1252 ! (n - 128) else n)"

definition utf8 :: "nat \<Rightarrow> nat list" where
  "utf8 n = (if n < 128 then [n]
     else if n < 2048 then [192 + n div 64, 128 + n mod 64]
     else [224 + n div 4096, 128 + n div 64 mod 64, 128 + n mod 64])"

definition hex_digit :: "nat \<Rightarrow> char" where
  "hex_digit d = char_of (if d < 10 then 48 + d else 55 + d)"

definition percent :: "nat \<Rightarrow> string" where
  "percent b = [CHR ''%'', hex_digit (b div 16), hex_digit (b mod 16)]"

section \<open>Encoding a URI component\<close>

definition unreserved :: "char \<Rightarrow> bool" where
  "unreserved c \<longleftrightarrow> (let n = of_char c :: nat in
     (48 \<le> n \<and> n \<le> 57) \<or> (65 \<le> n \<and> n \<le> 90) \<or> (97 \<le> n \<and> n \<le> 122) \<or>
     n \<in> {33, 39, 40, 41, 42, 45, 46, 95, 126})"

definition encode_char :: "char \<Rightarrow> string" where
  "encode_char c = (if unreserved c then [c] else concat (map percent (utf8 (code_point c))))"

definition encodeURIComponent :: "string \<Rightarrow> string" where
  "encodeURIComponent s = concat (map encode_char s)"

section \<open>The encoding is injective\<close>

lemma cp1252_facts: "distinct cp1252" "length cp1252 = 32"
  "\<forall>x \<in> set cp1252. 128 \<le> x \<and> (x < 160 \<or> 256 \<le> x) \<and> x < 65536"
  by (simp_all add: cp1252_def)

lemma cp1252_nth:
  "i < 32 \<Longrightarrow> 128 \<le> cp1252 ! i \<and> (cp1252 ! i < 160 \<or> 256 \<le> cp1252 ! i) \<and> cp1252 ! i < 65536"
  using cp1252_facts(2,3) by simp

text \<open>The table as a function on character codes.\<close>

definition code_of :: "nat \<Rightarrow> nat" where
  "code_of n = (if 128 \<le> n \<and> n < 160 then cp1252 ! (n - 128) else n)"

lemma code_of_char: "code_point c = code_of (of_char c)"
  by (simp add: code_point_def code_of_def Let_def)

lemma code_of_inj:
  assumes "n < 256" "m < 256" "code_of n = code_of m"
  shows "n = m"
proof (cases "128 \<le> n \<and> n < 160"; cases "128 \<le> m \<and> m < 160")
  assume a: "128 \<le> n \<and> n < 160" and b: "128 \<le> m \<and> m < 160"
  then have "n - 128 < 32" "m - 128 < 32" by linarith+
  then have "n - 128 = m - 128"
    using assms(3) a b nth_eq_iff_index_eq [OF cp1252_facts(1), of "n - 128" "m - 128"]
    by (simp add: code_of_def cp1252_facts(2))
  then show "n = m" using a b by linarith
next
  assume a: "128 \<le> n \<and> n < 160" and b: "\<not> (128 \<le> m \<and> m < 160)"
  then have "n - 128 < 32" by linarith
  then show "n = m" using assms a b cp1252_nth [of "n - 128"] by (auto simp: code_of_def)
next
  assume a: "\<not> (128 \<le> n \<and> n < 160)" and b: "128 \<le> m \<and> m < 160"
  then have "m - 128 < 32" by linarith
  then show "n = m" using assms a b cp1252_nth [of "m - 128"] by (auto simp: code_of_def)
next
  assume "\<not> (128 \<le> n \<and> n < 160)" "\<not> (128 \<le> m \<and> m < 160)"
  then show "n = m" using assms(3) unfolding code_of_def by metis
qed

lemma code_of_bound: "n < 256 \<Longrightarrow> code_of n < 65536"
  using cp1252_nth [of "n - 128"] by (auto simp: code_of_def)

lemma code_of_high: "n < 256 \<Longrightarrow> 128 \<le> n \<longleftrightarrow> 128 \<le> code_of n"
  using cp1252_nth [of "n - 128"] by (auto simp: code_of_def)

lemma of_char_less: "(of_char c :: nat) < 256"
  by (rule nat_of_char_less_256)

lemma code_point_inj: "code_point c = code_point d \<Longrightarrow> c = d"
  using code_of_inj [OF of_char_less of_char_less] by (simp add: code_of_char)

lemma code_point_bound: "code_point c < 65536"
  by (simp add: code_of_char code_of_bound of_char_less)

lemma hex_digit_code: "d < 16 \<Longrightarrow> (of_char (hex_digit d) :: nat) = (if d < 10 then 48 + d else 55 + d)"
  by (simp add: hex_digit_def)

lemma hex_digit_inj:
  assumes "d < 16" "e < 16" "hex_digit d = hex_digit e"
  shows "d = e"
proof -
  have "(if d < 10 then 48 + d else 55 + d) = (if e < 10 then 48 + e else 55 + e)"
    using assms by (metis hex_digit_code)
  then show ?thesis by (simp split: if_splits)
qed

lemma percent_inj:
  assumes "b < 256" "b' < 256" "percent b @ r = percent b' @ r'"
  shows "b = b' \<and> r = r'"
proof -
  have "b div 16 = b' div 16" "b mod 16 = b' mod 16" "r = r'"
    using assms by (auto simp: percent_def intro!: hex_digit_inj)
  then show ?thesis by (metis div_mult_mod_eq)
qed

lemma utf8_bytes: "n < 65536 \<Longrightarrow> b \<in> set (utf8 n) \<Longrightarrow> b < 256"
  by (auto simp: utf8_def split: if_splits)

text \<open>The first byte tells the length, so UTF-8 is a prefix code.\<close>

lemma utf8_prefix:
  assumes "n < 65536" "m < 65536" "utf8 n @ r = utf8 m @ r'"
  shows "n = m \<and> r = r'"
proof -
  have two: "x = y" if "x div 64 = y div 64" "x mod 64 = y mod 64" for x y :: nat
    using that by (metis div_mult_mod_eq)
  have three: "x = y"
    if "x div 4096 = y div 4096" "x div 64 mod 64 = y div 64 mod 64" "x mod 64 = y mod 64"
    for x y :: nat
  proof (rule two)
    have "x div 64 div 64 = y div 64 div 64" using that(1) by (simp add: div_mult2_eq [symmetric])
    then show "x div 64 = y div 64" using that(2) two by blast
  qed (rule that(3))
  consider "n < 128" | "128 \<le> n" "n < 2048" | "2048 \<le> n" by linarith
  then show ?thesis
  proof cases
    case 1
    consider "m < 128" | "128 \<le> m" by linarith
    then show ?thesis using 1 assms(3) by cases (auto simp: utf8_def split: if_splits)
  next
    case 2
    have "n div 64 < 32" using 2 by (simp add: less_mult_imp_div_less)
    then show ?thesis using 2 assms(3)
      by (auto simp: utf8_def split: if_splits dest: two)
  next
    case 3
    have "m div 64 < 32" if "m < 2048" using that by (simp add: less_mult_imp_div_less)
    then show ?thesis using 3 assms(3)
      by (auto simp: utf8_def split: if_splits dest: three)
  qed
qed

lemma percent_list:
  assumes "\<forall>b \<in> set bs. b < 256" "\<forall>b \<in> set bs'. b < 256"
    and "concat (map percent bs) @ r = concat (map percent bs') @ r'"
  shows "\<exists>t. (bs = bs' @ t \<and> r' = concat (map percent t) @ r) \<or>
             (bs' = bs @ t \<and> r = concat (map percent t) @ r')"
  using assms
proof (induction bs arbitrary: bs')
  case (Cons b bs)
  show ?case
  proof (cases bs')
    case Nil
    then show ?thesis using Cons.prems(3) by auto
  next
    case (Cons b' cs)
    then have "b = b'" "concat (map percent bs) @ r = concat (map percent cs) @ r'"
      using Cons.prems percent_inj [of b b' "concat (map percent bs) @ r"] by auto
    then show ?thesis using Cons.IH [of cs] Cons.prems(1,2) Cons by auto
  qed
qed auto

lemma encode_char_prefix:
  assumes "encode_char c @ r = encode_char d @ r'"
  shows "c = d \<and> r = r'"
proof -
  have nu: "\<not> unreserved (CHR ''%'')" by (simp add: unreserved_def)
  have ne: "\<exists>b bs. utf8 n = b # bs" for n by (simp add: utf8_def)
  have pct: "\<exists>t. concat (map percent (utf8 n)) @ t' = CHR ''%'' # t" for n t'
    using ne [of n] by (auto simp: percent_def)
  consider "unreserved c" "unreserved d" | "unreserved c" "\<not> unreserved d"
    | "\<not> unreserved c" "unreserved d" | "\<not> unreserved c" "\<not> unreserved d" by blast
  then show ?thesis
  proof cases
    case 1
    then show ?thesis using assms by (simp add: encode_char_def)
  next
    case 2
    then show ?thesis using assms nu pct [of "code_point d" r'] by (auto simp: encode_char_def)
  next
    case 3
    then show ?thesis using assms nu pct [of "code_point c" r] by (auto simp: encode_char_def)
  next
    case 4
    have b: "\<forall>b \<in> set (utf8 (code_point x)). b < 256" for x
      using utf8_bytes code_point_bound by blast
    have eq: "concat (map percent (utf8 (code_point c))) @ r =
        concat (map percent (utf8 (code_point d))) @ r'"
      using assms 4 by (simp add: encode_char_def)
    obtain t where "(utf8 (code_point c) = utf8 (code_point d) @ t \<and> r' = concat (map percent t) @ r) \<or>
        (utf8 (code_point d) = utf8 (code_point c) @ t \<and> r = concat (map percent t) @ r')"
      using percent_list [OF b b eq] by blast
    then have "code_point c = code_point d"
    proof
      assume "utf8 (code_point c) = utf8 (code_point d) @ t \<and> r' = concat (map percent t) @ r"
      then have "utf8 (code_point c) @ [] = utf8 (code_point d) @ t" by simp
      then show ?thesis by (rule utf8_prefix [OF code_point_bound code_point_bound, THEN conjunct1])
    next
      assume "utf8 (code_point d) = utf8 (code_point c) @ t \<and> r = concat (map percent t) @ r'"
      then have "utf8 (code_point d) @ [] = utf8 (code_point c) @ t" by simp
      then show ?thesis
        by (rule utf8_prefix [OF code_point_bound code_point_bound, THEN conjunct1, symmetric])
    qed
    then have "c = d" by (rule code_point_inj)
    then show ?thesis using eq by simp
  qed
qed

lemma encode_char_ne [simp]: "encode_char c \<noteq> []"
  by (auto simp: encode_char_def utf8_def percent_def)

lemma encodeURIComponent_simps [simp]:
  "encodeURIComponent [] = []"
  "encodeURIComponent (c # s) = encode_char c @ encodeURIComponent s"
  "encodeURIComponent s = [] \<longleftrightarrow> s = []"
  by (cases s) (simp_all add: encodeURIComponent_def)

lemma encodeURIComponent_inj: "encodeURIComponent a = encodeURIComponent b \<longleftrightarrow> a = b"
proof
  show "encodeURIComponent a = encodeURIComponent b \<Longrightarrow> a = b"
  proof (induction a arbitrary: b)
    case (Cons c a)
    then obtain d b' where b: "b = d # b'" by (cases b) auto
    then have "c = d \<and> encodeURIComponent a = encodeURIComponent b'"
      using Cons.prems by (intro encode_char_prefix) simp
    then show ?case using Cons.IH b by simp
  qed (metis encodeURIComponent_simps(1,3))
qed simp

text \<open>No character of the output has a meaning in a URL path or query.\<close>

definition url_safe :: "char \<Rightarrow> bool" where
  "url_safe c \<longleftrightarrow> unreserved c \<or> c = CHR ''%''"

lemma hex_digit_safe: "d < 16 \<Longrightarrow> unreserved (hex_digit d)"
  by (auto simp: unreserved_def Let_def hex_digit_code)

lemma encode_safe: "c \<in> set (encodeURIComponent s) \<Longrightarrow> url_safe c"
proof (induction s)
  case (Cons d s)
  have "url_safe x" if "x \<in> set (percent b)" "b < 256" for x b
    using that hex_digit_safe [of "b div 16"] hex_digit_safe [of "b mod 16"]
    by (auto simp: percent_def url_safe_def)
  then have "c \<in> set (encode_char d) \<Longrightarrow> url_safe c"
    using utf8_bytes [OF code_point_bound] by (auto simp: encode_char_def url_safe_def split: if_splits)
  then show ?case using Cons by auto
qed simp

lemma encode_no_special:
  "CHR ''/'' \<notin> set (encodeURIComponent s)" "CHR ''?'' \<notin> set (encodeURIComponent s)"
  "CHR ''#'' \<notin> set (encodeURIComponent s)" "CHR ''&'' \<notin> set (encodeURIComponent s)"
  by (auto dest!: encode_safe simp: url_safe_def unreserved_def)

lemma split_at_sep:
  "c \<notin> set xs \<Longrightarrow> c \<notin> set xs' \<Longrightarrow> xs @ c # ys = xs' @ c # ys' \<longleftrightarrow> xs = xs' \<and> ys = ys'"
proof (induction xs arbitrary: xs')
  case Nil
  then show ?case by (cases xs') auto
next
  case (Cons x xs)
  then show ?case by (cases xs') auto
qed

text \<open>An encoded segment of a path is recovered from the path.\<close>

lemma encoded_segment [simp]:
  "encodeURIComponent a @ CHR ''/'' # r = encodeURIComponent b @ CHR ''/'' # r' \<longleftrightarrow> a = b \<and> r = r'"
  by (simp add: split_at_sep encode_no_special encodeURIComponent_inj)

section \<open>Requests\<close>

text \<open>An axios request configuration, as far as the API modules set it.\<close>

record api_request =
  rq_url :: string
  rq_method :: string
  rq_params :: "(string \<times> jv) list option"
  rq_data :: "jv option"

definition request :: "string \<Rightarrow> string \<Rightarrow> api_request" where
  "request mth url = \<lparr>rq_url = url, rq_method = mth, rq_params = None, rq_data = None\<rparr>"

definition with_params :: "(string \<times> jv) list option \<Rightarrow> api_request \<Rightarrow> api_request" where
  "with_params ps r = r\<lparr>rq_params := ps\<rparr>"

definition with_data :: "jv \<Rightarrow> api_request \<Rightarrow> api_request" where
  "with_data d r = r\<lparr>rq_data := Some d\<rparr>"

lemma request_sel [simp]:
  "rq_url (request mth url) = url" "rq_method (request mth url) = mth"
  "rq_url (with_params ps r) = rq_url r" "rq_method (with_params ps r) = rq_method r"
  "rq_url (with_data d r) = rq_url r" "rq_method (with_data d r) = rq_method r"
  by (simp_all add: request_def with_params_def with_data_def)

end
