(* ===== verification/K8s_Api.thy ===== *)
theory K8s_Api
  imports Url_Coding
begin

text \<open>
  \<open>modules/kubernetes/pages/_shared\<close>: the requests of \<open>api.ts\<close> (one definition per function,
  in the order of the source, its arguments first and the request it sends as the result), the
  links of \<open>resource-href.ts\<close> and the system-resource filter of \<open>system-resources.ts\<close>. A request
  body is a value; an optional argument that is left out is \<open>None\<close>, or \<open>JUndef\<close> inside a body.
  \<open>stored\<close> is the namespace in localStorage, empty when there is none or reading it throws.
\<close>

section \<open>Paths and the stored namespace\<close>

definition K8S_CONFIG_BASE :: string where
  "K8S_CONFIG_BASE = ''/kubernetes/config''"

definition K8S_CLUSTER_BASE :: string where
  "K8S_CLUSTER_BASE = ''/kubernetes/cluster''"

definition K8S_NODES_BASE :: string where
  "K8S_NODES_BASE = ''/kubernetes/nodes''"

definition K8S_NODES_LIST :: string where
  "K8S_NODES_LIST = ''/kubernetes/nodes/list''"

definition K8S_NODES_SINGLE :: string where
  "K8S_NODES_SINGLE = ''/kubernetes/nodes/single''"

definition K8S_NAMESPACES_LIST :: string where
  "K8S_NAMESPACES_LIST = ''/kubernetes/namespaces/list''"

definition K8S_NAMESPACES_SINGLE :: string where
  "K8S_NAMESPACES_SINGLE = ''/kubernetes/namespaces/single''"

definition K8S_WORKLOADS_BASE :: string where
  "K8S_WORKLOADS_BASE = ''/kubernetes/workloads''"

definition K8S_SERVICES_LIST :: string where
  "K8S_SERVICES_LIST = ''/kubernetes/services/list''"

definition K8S_SERVICES_SINGLE :: string where
  "K8S_SERVICES_SINGLE = ''/kubernetes/services/single''"

definition K8S_INGRESSES_LIST :: string where
  "K8S_INGRESSES_LIST = ''/kubernetes/ingresses/list''"

definition K8S_INGRESSES_SINGLE :: string where
  "K8S_INGRESSES_SINGLE = ''/kubernetes/ingresses/single''"

definition K8S_INGRESSES_OPTIONS :: string where
  "K8S_INGRESSES_OPTIONS = ''/kubernetes/ingresses/options''"

definition K8S_NETWORK_POLICIES_LIST :: string where
  "K8S_NETWORK_POLICIES_LIST = ''/kubernetes/network-policies/list''"

definition K8S_NETWORK_POLICIES_SINGLE :: string where
  "K8S_NETWORK_POLICIES_SINGLE = ''/kubernetes/network-policies/single''"

definition K8S_CONFIGS_BASE :: string where
  "K8S_CONFIGS_BASE = ''/kubernetes/configs''"

definition K8S_STORAGE_BASE :: string where
  "K8S_STORAGE_BASE = ''/kubernetes/storage''"

definition K8S_PVCS_LIST :: string where
  "K8S_PVCS_LIST = ''/kubernetes/storage/persistentvolumeclaims/list''"

definition K8S_PVCS_SINGLE :: string where
  "K8S_PVCS_SINGLE = ''/kubernetes/storage/persistentvolumeclaims/single''"

definition K8S_APPLICATIONS_BASE :: string where
  "K8S_APPLICATIONS_BASE = ''/kubernetes/applications''"

definition K8S_STORAGE_CLASSES_LIST :: string where
  "K8S_STORAGE_CLASSES_LIST = ''/kubernetes/storage/storageclasses/list''"

definition K8S_APPLICATIONS_LIST :: string where
  "K8S_APPLICATIONS_LIST = K8S_APPLICATIONS_BASE @ ''/list''"

definition K8S_APPLICATIONS_SINGLE :: string where
  "K8S_APPLICATIONS_SINGLE = K8S_APPLICATIONS_BASE @ ''/single''"

text \<open>The path of one object of a namespaced resource, as every URL below spells it.\<close>

definition item_path :: "string \<Rightarrow> string \<Rightarrow> string \<Rightarrow> string" where
  "item_path base ns name =
     base @ ''/'' @ encodeURIComponent ns @ ''/'' @ encodeURIComponent name"

text \<open>The localStorage entry: \<open>None\<close> when it is absent or reading throws.\<close>

definition getStoredNamespace :: "string option \<Rightarrow> string" where
  "getStoredNamespace entry = (case entry of Some s \<Rightarrow> s | None \<Rightarrow> [])"

text \<open>\<open>writable\<close> tells whether localStorage can be written.\<close>

definition setStoredNamespace :: "bool \<Rightarrow> string \<Rightarrow> string option \<Rightarrow> string option" where
  "setStoredNamespace writable ns entry =
     (if \<not> writable then entry else if ns \<noteq> [] then Some ns else None)"

definition nsQueryParams :: "string \<Rightarrow> string option \<Rightarrow> (string \<times> jv) list option" where
  "nsQueryParams stored namespace =
     (let ns = (case namespace of Some n \<Rightarrow> n | None \<Rightarrow> stored) in
      if ns \<noteq> [] then Some [(''namespace'', JStr ns)] else None)"

section \<open>Requests\<close>

definition listEvents :: "string \<Rightarrow> string option \<Rightarrow> string option \<Rightarrow> string option \<Rightarrow> api_request" where
  "listEvents stored ns kind name =
     with_params (Some
       ((case nsQueryParams stored ns of Some ps \<Rightarrow> ps | None \<Rightarrow> []) @
        (case kind of Some k \<Rightarrow> if k \<noteq> [] then [(''kind'', JStr k)] else [] | None \<Rightarrow> []) @
        (case name of Some n \<Rightarrow> if n \<noteq> [] then [(''name'', JStr n)] else [] | None \<Rightarrow> [])))
       (request ''get'' (K8S_CLUSTER_BASE @ ''/events''))"

definition getPodLogs :: "string \<Rightarrow> string \<Rightarrow> string option \<Rightarrow> nat option \<Rightarrow> api_request" where
  "getPodLogs ns name container tail =
     with_params (Some
       [(''container'', case container of Some c \<Rightarrow> if c \<noteq> [] then JStr c else JUndef
                        | None \<Rightarrow> JUndef),
        (''tail'', JNum (of_nat (case tail of Some n \<Rightarrow> n | None \<Rightarrow> 300)))])
       (request ''get'' (item_path (K8S_WORKLOADS_BASE @ ''/pods'') ns name @ ''/logs''))"

definition getKubeConfig :: api_request where
  "getKubeConfig =
     request ''get'' K8S_CONFIG_BASE"

definition updateKubeConfig :: "jv \<Rightarrow> api_request" where
  "updateKubeConfig body =
     with_data body (request ''put'' K8S_CONFIG_BASE)"

definition testKubeConfig :: "jv option \<Rightarrow> api_request" where
  "testKubeConfig body =
     with_data (case body of Some b \<Rightarrow> b | None \<Rightarrow> JObj [])
       (request ''post'' (K8S_CONFIG_BASE @ ''/test''))"

definition listKubeConfigFiles :: api_request where
  "listKubeConfigFiles =
     request ''get'' (K8S_CONFIG_BASE @ ''/files/list'')"

definition getKubeConfigFile :: "string \<Rightarrow> api_request" where
  "getKubeConfigFile i =
     request ''get'' (K8S_CONFIG_BASE @ ''/files/single/'' @ encodeURIComponent i)"

definition createKubeConfigFile :: "jv \<Rightarrow> api_request" where
  "createKubeConfigFile body =
     with_data body (request ''post'' (K8S_CONFIG_BASE @ ''/files/single''))"

definition updateKubeConfigFile :: "string \<Rightarrow> jv \<Rightarrow> api_request" where
  "updateKubeConfigFile i body =
     with_data body (request ''put'' (K8S_CONFIG_BASE @ ''/files/single/''
       @ encodeURIComponent i))"

definition deleteKubeConfigFile :: "string \<Rightarrow> api_request" where
  "deleteKubeConfigFile i =
     request ''delete'' (K8S_CONFIG_BASE @ ''/files/single/'' @ encodeURIComponent i)"

definition activateKubeConfigFile :: "string \<Rightarrow> jv option \<Rightarrow> api_request"
  where
  "activateKubeConfigFile i body =
     with_data (case body of Some b \<Rightarrow> b | None \<Rightarrow> JObj [])
       (request ''post'' (K8S_CONFIG_BASE @ ''/files/single/'' @ encodeURIComponent i
       @ ''/activate''))"

definition getClusterStatus :: api_request where
  "getClusterStatus =
     request ''get'' (K8S_CLUSTER_BASE @ ''/status'')"

definition listNodes :: api_request where
  "listNodes =
     request ''get'' K8S_NODES_LIST"

definition getNode :: "string \<Rightarrow> api_request" where
  "getNode name =
     request ''get'' (K8S_NODES_SINGLE @ ''/'' @ encodeURIComponent name)"

definition listNodePods :: "string \<Rightarrow> api_request" where
  "listNodePods name =
     request ''get'' (K8S_NODES_SINGLE @ ''/'' @ encodeURIComponent name @ ''/pods'')"

definition cordonNode :: "string \<Rightarrow> api_request" where
  "cordonNode name =
     request ''post'' (K8S_NODES_SINGLE @ ''/'' @ encodeURIComponent name @ ''/cordon'')"

definition uncordonNode :: "string \<Rightarrow> api_request" where
  "uncordonNode name =
     request ''post'' (K8S_NODES_SINGLE @ ''/'' @ encodeURIComponent name @ ''/uncordon'')"

definition getHostMetrics :: api_request where
  "getHostMetrics =
     request ''get'' (K8S_NODES_BASE @ ''/host-metrics'')"

definition listNamespaces :: api_request where
  "listNamespaces =
     request ''get'' K8S_NAMESPACES_LIST"

definition getNamespace :: "string \<Rightarrow> api_request" where
  "getNamespace name =
     request ''get'' (K8S_NAMESPACES_SINGLE @ ''/'' @ encodeURIComponent name)"

definition getNamespaceYaml :: "string \<Rightarrow> api_request" where
  "getNamespaceYaml name =
     request ''get'' (K8S_NAMESPACES_SINGLE @ ''/'' @ encodeURIComponent name @ ''/yaml'')"

definition applyNamespaceYaml :: "string \<Rightarrow> string \<Rightarrow> api_request" where
  "applyNamespaceYaml name yaml =
     with_data (JObj [(''yaml'', JStr yaml)])
       (request ''put'' (K8S_NAMESPACES_SINGLE @ ''/'' @ encodeURIComponent name @ ''/yaml''))"

definition createNamespace :: "string \<Rightarrow> jv \<Rightarrow> api_request" where
  "createNamespace name labels =
     with_data (JObj [(''name'', JStr name), (''labels'', labels)])
       (request ''post'' (K8S_NAMESPACES_SINGLE @ ''/''))"

definition deleteNamespace :: "string \<Rightarrow> api_request" where
  "deleteNamespace name =
     request ''delete'' (K8S_NAMESPACES_SINGLE @ ''/'' @ encodeURIComponent name)"

definition listPods :: "string \<Rightarrow> string option \<Rightarrow> api_request" where
  "listPods stored ns =
     with_params (nsQueryParams stored ns) (request ''get'' (K8S_WORKLOADS_BASE @ ''/pods''))"

definition getPod :: "string \<Rightarrow> string \<Rightarrow> api_request" where
  "getPod ns name =
     request ''get'' (item_path (K8S_WORKLOADS_BASE @ ''/pods'') ns name)"

definition getPodYaml :: "string \<Rightarrow> string \<Rightarrow> api_request" where
  "getPodYaml ns name =
     request ''get'' (item_path (K8S_WORKLOADS_BASE @ ''/pods'') ns name @ ''/yaml'')"

definition applyPodYaml :: "string \<Rightarrow> string \<Rightarrow> string \<Rightarrow>
  api_request" where
  "applyPodYaml ns name yaml =
     with_data (JObj [(''yaml'', JStr yaml)])
       (request ''put'' (item_path (K8S_WORKLOADS_BASE @ ''/pods'') ns name @ ''/yaml''))"

definition deletePod :: "string \<Rightarrow> string \<Rightarrow> api_request" where
  "deletePod ns name =
     request ''delete'' (item_path (K8S_WORKLOADS_BASE @ ''/pods'') ns name)"

definition listDeployments :: "string \<Rightarrow> string option \<Rightarrow> api_request" where
  "listDeployments stored ns =
     with_params (nsQueryParams stored ns)
       (request ''get'' (K8S_WORKLOADS_BASE @ ''/deployments''))"

definition createDeployment :: "jv \<Rightarrow> api_request" where
  "createDeployment body =
     with_data body (request ''post'' (K8S_WORKLOADS_BASE @ ''/deployments''))"

definition getDeployment :: "string \<Rightarrow> string \<Rightarrow> api_request" where
  "getDeployment ns name =
     request ''get'' (item_path (K8S_WORKLOADS_BASE @ ''/deployments'') ns name)"

definition listDeploymentPods :: "string \<Rightarrow> string \<Rightarrow> api_request" where
  "listDeploymentPods ns name =
     request ''get'' (item_path (K8S_WORKLOADS_BASE @ ''/deployments'') ns name @ ''/pods'')"

definition getDeploymentYaml :: "string \<Rightarrow> string \<Rightarrow> api_request" where
  "getDeploymentYaml ns name =
     request ''get'' (item_path (K8S_WORKLOADS_BASE @ ''/deployments'') ns name @ ''/yaml'')"

definition applyDeploymentYaml :: "string \<Rightarrow> string \<Rightarrow> string \<Rightarrow>
  api_request" where
  "applyDeploymentYaml ns name yaml =
     with_data (JObj [(''yaml'', JStr yaml)])
       (request ''put'' (item_path (K8S_WORKLOADS_BASE @ ''/deployments'') ns name @ ''/yaml''))"

definition deleteDeployment :: "string \<Rightarrow> string \<Rightarrow> api_request" where
  "deleteDeployment ns name =
     request ''delete'' (item_path (K8S_WORKLOADS_BASE @ ''/deployments'') ns name)"

definition scaleDeployment :: "string \<Rightarrow> string \<Rightarrow> nat \<Rightarrow>
  api_request" where
  "scaleDeployment ns name replicas =
     with_data (JObj [(''replicas'', JNum (of_nat replicas))])
       (request ''post'' (item_path (K8S_WORKLOADS_BASE @ ''/deployments'') ns name
       @ ''/scale''))"

definition restartDeployment :: "string \<Rightarrow> string \<Rightarrow> api_request" where
  "restartDeployment ns name =
     request ''post'' (item_path (K8S_WORKLOADS_BASE @ ''/deployments'') ns name @ ''/restart'')"

definition pullRestartDeployment :: "string \<Rightarrow> string \<Rightarrow> api_request" where
  "pullRestartDeployment ns name =
     request ''post'' (item_path (K8S_WORKLOADS_BASE @ ''/deployments'') ns name
       @ ''/pull-restart'')"

definition listServices :: "string \<Rightarrow> string option \<Rightarrow> api_request" where
  "listServices stored ns =
     with_params (nsQueryParams stored ns) (request ''get'' K8S_SERVICES_LIST)"

definition getService :: "string \<Rightarrow> string \<Rightarrow> api_request" where
  "getService ns name =
     request ''get'' (item_path K8S_SERVICES_SINGLE ns name)"

definition getServiceYaml :: "string \<Rightarrow> string \<Rightarrow> api_request" where
  "getServiceYaml ns name =
     request ''get'' (item_path K8S_SERVICES_SINGLE ns name @ ''/yaml'')"

definition applyServiceYaml :: "string \<Rightarrow> string \<Rightarrow> string \<Rightarrow>
  api_request" where
  "applyServiceYaml ns name yaml =
     with_data (JObj [(''yaml'', JStr yaml)])
       (request ''put'' (item_path K8S_SERVICES_SINGLE ns name @ ''/yaml''))"

definition createService :: "jv \<Rightarrow> api_request" where
  "createService body =
     with_data body (request ''post'' K8S_SERVICES_SINGLE)"

definition deleteService :: "string \<Rightarrow> string \<Rightarrow> api_request" where
  "deleteService ns name =
     request ''delete'' (item_path K8S_SERVICES_SINGLE ns name)"

definition getIngressFormOptions :: "string \<Rightarrow> api_request" where
  "getIngressFormOptions ns =
     with_params (Some [(''namespace'', JStr ns)]) (request ''get'' K8S_INGRESSES_OPTIONS)"

definition listIngresses :: "string \<Rightarrow> string option \<Rightarrow> api_request" where
  "listIngresses stored ns =
     with_params (nsQueryParams stored ns) (request ''get'' K8S_INGRESSES_LIST)"

definition getIngress :: "string \<Rightarrow> string \<Rightarrow> api_request" where
  "getIngress ns name =
     request ''get'' (item_path K8S_INGRESSES_SINGLE ns name)"

definition getIngressYaml :: "string \<Rightarrow> string \<Rightarrow> api_request" where
  "getIngressYaml ns name =
     request ''get'' (item_path K8S_INGRESSES_SINGLE ns name @ ''/yaml'')"

definition applyIngressYaml :: "string \<Rightarrow> string \<Rightarrow> string \<Rightarrow>
  api_request" where
  "applyIngressYaml ns name yaml =
     with_data (JObj [(''yaml'', JStr yaml)])
       (request ''put'' (item_path K8S_INGRESSES_SINGLE ns name @ ''/yaml''))"

definition createIngress :: "jv \<Rightarrow> api_request" where
  "createIngress body =
     with_data body (request ''post'' K8S_INGRESSES_SINGLE)"

definition updateIngress :: "string \<Rightarrow> string \<Rightarrow> jv \<Rightarrow>
  api_request" where
  "updateIngress ns name body =
     with_data body (request ''put'' (item_path K8S_INGRESSES_SINGLE ns name))"

definition deleteIngress :: "string \<Rightarrow> string \<Rightarrow> api_request" where
  "deleteIngress ns name =
     request ''delete'' (item_path K8S_INGRESSES_SINGLE ns name)"

definition listConfigMaps :: "string \<Rightarrow> string option \<Rightarrow> api_request" where
  "listConfigMaps stored ns =
     with_params (nsQueryParams stored ns) (request ''get'' (K8S_CONFIGS_BASE @ ''/configmaps''))"

definition getConfigMap :: "string \<Rightarrow> string \<Rightarrow> api_request" where
  "getConfigMap ns name =
     request ''get'' (item_path (K8S_CONFIGS_BASE @ ''/configmaps'') ns name)"

definition updateConfigMap :: "string \<Rightarrow> string \<Rightarrow> jv \<Rightarrow>
  api_request" where
  "updateConfigMap ns name data =
     with_data (JObj [(''data'', data)])
       (request ''put'' (item_path (K8S_CONFIGS_BASE @ ''/configmaps'') ns name))"

definition getConfigMapYaml :: "string \<Rightarrow> string \<Rightarrow> api_request" where
  "getConfigMapYaml ns name =
     request ''get'' (item_path (K8S_CONFIGS_BASE @ ''/configmaps'') ns name @ ''/yaml'')"

definition applyConfigMapYaml :: "string \<Rightarrow> string \<Rightarrow> string \<Rightarrow>
  api_request" where
  "applyConfigMapYaml ns name yaml =
     with_data (JObj [(''yaml'', JStr yaml)])
       (request ''put'' (item_path (K8S_CONFIGS_BASE @ ''/configmaps'') ns name @ ''/yaml''))"

definition createConfigMap :: "jv \<Rightarrow> api_request" where
  "createConfigMap body =
     with_data body (request ''post'' (K8S_CONFIGS_BASE @ ''/configmaps''))"

definition deleteConfigMap :: "string \<Rightarrow> string \<Rightarrow> api_request" where
  "deleteConfigMap ns name =
     request ''delete'' (item_path (K8S_CONFIGS_BASE @ ''/configmaps'') ns name)"

definition listSecrets :: "string \<Rightarrow> string option \<Rightarrow> api_request" where
  "listSecrets stored ns =
     with_params (nsQueryParams stored ns) (request ''get'' (K8S_CONFIGS_BASE @ ''/secrets''))"

definition getSecret :: "string \<Rightarrow> string \<Rightarrow> api_request" where
  "getSecret ns name =
     request ''get'' (item_path (K8S_CONFIGS_BASE @ ''/secrets'') ns name)"

definition updateSecret :: "string \<Rightarrow> string \<Rightarrow> jv \<Rightarrow>
  api_request" where
  "updateSecret ns name data =
     with_data (JObj [(''data'', data)])
       (request ''put'' (item_path (K8S_CONFIGS_BASE @ ''/secrets'') ns name))"

definition createSecret :: "jv \<Rightarrow> api_request" where
  "createSecret body =
     with_data body (request ''post'' (K8S_CONFIGS_BASE @ ''/secrets''))"

definition getSecretYaml :: "string \<Rightarrow> string \<Rightarrow> api_request" where
  "getSecretYaml ns name =
     request ''get'' (item_path (K8S_CONFIGS_BASE @ ''/secrets'') ns name @ ''/yaml'')"

definition applySecretYaml :: "string \<Rightarrow> string \<Rightarrow> string \<Rightarrow>
  api_request" where
  "applySecretYaml ns name yaml =
     with_data (JObj [(''yaml'', JStr yaml)])
       (request ''put'' (item_path (K8S_CONFIGS_BASE @ ''/secrets'') ns name @ ''/yaml''))"

definition deleteSecret :: "string \<Rightarrow> string \<Rightarrow> api_request" where
  "deleteSecret ns name =
     request ''delete'' (item_path (K8S_CONFIGS_BASE @ ''/secrets'') ns name)"

definition listStatefulSets :: "string \<Rightarrow> string option \<Rightarrow> api_request"
  where
  "listStatefulSets stored ns =
     with_params (nsQueryParams stored ns)
       (request ''get'' (K8S_WORKLOADS_BASE @ ''/statefulsets''))"

definition getStatefulSet :: "string \<Rightarrow> string \<Rightarrow> api_request" where
  "getStatefulSet ns name =
     request ''get'' (item_path (K8S_WORKLOADS_BASE @ ''/statefulsets'') ns name)"

definition createStatefulSet :: "jv \<Rightarrow> api_request" where
  "createStatefulSet body =
     with_data body (request ''post'' (K8S_WORKLOADS_BASE @ ''/statefulsets''))"

definition listStatefulSetPods :: "string \<Rightarrow> string \<Rightarrow> api_request" where
  "listStatefulSetPods ns name =
     request ''get'' (item_path (K8S_WORKLOADS_BASE @ ''/statefulsets'') ns name @ ''/pods'')"

definition getStatefulSetYaml :: "string \<Rightarrow> string \<Rightarrow> api_request" where
  "getStatefulSetYaml ns name =
     request ''get'' (item_path (K8S_WORKLOADS_BASE @ ''/statefulsets'') ns name @ ''/yaml'')"

definition applyStatefulSetYaml :: "string \<Rightarrow> string \<Rightarrow> string
  \<Rightarrow> api_request" where
  "applyStatefulSetYaml ns name yaml =
     with_data (JObj [(''yaml'', JStr yaml)])
       (request ''put'' (item_path (K8S_WORKLOADS_BASE @ ''/statefulsets'') ns name @ ''/yaml''))"

definition deleteStatefulSet :: "string \<Rightarrow> string \<Rightarrow> api_request" where
  "deleteStatefulSet ns name =
     request ''delete'' (item_path (K8S_WORKLOADS_BASE @ ''/statefulsets'') ns name)"

definition scaleStatefulSet :: "string \<Rightarrow> string \<Rightarrow> nat \<Rightarrow>
  api_request" where
  "scaleStatefulSet ns name replicas =
     with_data (JObj [(''replicas'', JNum (of_nat replicas))])
       (request ''post'' (item_path (K8S_WORKLOADS_BASE @ ''/statefulsets'') ns name
       @ ''/scale''))"

definition restartStatefulSet :: "string \<Rightarrow> string \<Rightarrow> api_request" where
  "restartStatefulSet ns name =
     request ''post'' (item_path (K8S_WORKLOADS_BASE @ ''/statefulsets'') ns name @ ''/restart'')"

definition listDaemonSets :: "string \<Rightarrow> string option \<Rightarrow> api_request" where
  "listDaemonSets stored ns =
     with_params (nsQueryParams stored ns)
       (request ''get'' (K8S_WORKLOADS_BASE @ ''/daemonsets''))"

definition getDaemonSet :: "string \<Rightarrow> string \<Rightarrow> api_request" where
  "getDaemonSet ns name =
     request ''get'' (item_path (K8S_WORKLOADS_BASE @ ''/daemonsets'') ns name)"

definition createDaemonSet :: "jv \<Rightarrow> api_request" where
  "createDaemonSet body =
     with_data body (request ''post'' (K8S_WORKLOADS_BASE @ ''/daemonsets''))"

definition listDaemonSetPods :: "string \<Rightarrow> string \<Rightarrow> api_request" where
  "listDaemonSetPods ns name =
     request ''get'' (item_path (K8S_WORKLOADS_BASE @ ''/daemonsets'') ns name @ ''/pods'')"

definition getDaemonSetYaml :: "string \<Rightarrow> string \<Rightarrow> api_request" where
  "getDaemonSetYaml ns name =
     request ''get'' (item_path (K8S_WORKLOADS_BASE @ ''/daemonsets'') ns name @ ''/yaml'')"

definition applyDaemonSetYaml :: "string \<Rightarrow> string \<Rightarrow> string \<Rightarrow>
  api_request" where
  "applyDaemonSetYaml ns name yaml =
     with_data (JObj [(''yaml'', JStr yaml)])
       (request ''put'' (item_path (K8S_WORKLOADS_BASE @ ''/daemonsets'') ns name @ ''/yaml''))"

definition deleteDaemonSet :: "string \<Rightarrow> string \<Rightarrow> api_request" where
  "deleteDaemonSet ns name =
     request ''delete'' (item_path (K8S_WORKLOADS_BASE @ ''/daemonsets'') ns name)"

definition restartDaemonSet :: "string \<Rightarrow> string \<Rightarrow> api_request" where
  "restartDaemonSet ns name =
     request ''post'' (item_path (K8S_WORKLOADS_BASE @ ''/daemonsets'') ns name @ ''/restart'')"

definition listJobs :: "string \<Rightarrow> string option \<Rightarrow> api_request" where
  "listJobs stored ns =
     with_params (nsQueryParams stored ns) (request ''get'' (K8S_WORKLOADS_BASE @ ''/jobs''))"

definition getJob :: "string \<Rightarrow> string \<Rightarrow> api_request" where
  "getJob ns name =
     request ''get'' (item_path (K8S_WORKLOADS_BASE @ ''/jobs'') ns name)"

definition createJob :: "jv \<Rightarrow> api_request" where
  "createJob body =
     with_data body (request ''post'' (K8S_WORKLOADS_BASE @ ''/jobs''))"

definition getJobYaml :: "string \<Rightarrow> string \<Rightarrow> api_request" where
  "getJobYaml ns name =
     request ''get'' (item_path (K8S_WORKLOADS_BASE @ ''/jobs'') ns name @ ''/yaml'')"

definition applyJobYaml :: "string \<Rightarrow> string \<Rightarrow> string \<Rightarrow>
  api_request" where
  "applyJobYaml ns name yaml =
     with_data (JObj [(''yaml'', JStr yaml)])
       (request ''put'' (item_path (K8S_WORKLOADS_BASE @ ''/jobs'') ns name @ ''/yaml''))"

definition deleteJob :: "string \<Rightarrow> string \<Rightarrow> api_request" where
  "deleteJob ns name =
     request ''delete'' (item_path (K8S_WORKLOADS_BASE @ ''/jobs'') ns name)"

definition listCronJobs :: "string \<Rightarrow> string option \<Rightarrow> api_request" where
  "listCronJobs stored ns =
     with_params (nsQueryParams stored ns) (request ''get'' (K8S_WORKLOADS_BASE @ ''/cronjobs''))"

definition getCronJob :: "string \<Rightarrow> string \<Rightarrow> api_request" where
  "getCronJob ns name =
     request ''get'' (item_path (K8S_WORKLOADS_BASE @ ''/cronjobs'') ns name)"

definition getCronJobYaml :: "string \<Rightarrow> string \<Rightarrow> api_request" where
  "getCronJobYaml ns name =
     request ''get'' (item_path (K8S_WORKLOADS_BASE @ ''/cronjobs'') ns name @ ''/yaml'')"

definition applyCronJobYaml :: "string \<Rightarrow> string \<Rightarrow> string \<Rightarrow>
  api_request" where
  "applyCronJobYaml ns name yaml =
     with_data (JObj [(''yaml'', JStr yaml)])
       (request ''put'' (item_path (K8S_WORKLOADS_BASE @ ''/cronjobs'') ns name @ ''/yaml''))"

definition deleteCronJob :: "string \<Rightarrow> string \<Rightarrow> api_request" where
  "deleteCronJob ns name =
     request ''delete'' (item_path (K8S_WORKLOADS_BASE @ ''/cronjobs'') ns name)"

definition createCronJob :: "jv \<Rightarrow> api_request" where
  "createCronJob body =
     with_data body (request ''post'' (K8S_WORKLOADS_BASE @ ''/cronjobs''))"

definition suspendCronJob :: "string \<Rightarrow> string \<Rightarrow> api_request" where
  "suspendCronJob ns name =
     with_data (JObj [])
       (request ''post'' (item_path (K8S_WORKLOADS_BASE @ ''/cronjobs'') ns name @ ''/suspend''))"

definition resumeCronJob :: "string \<Rightarrow> string \<Rightarrow> api_request" where
  "resumeCronJob ns name =
     with_data (JObj [])
       (request ''post'' (item_path (K8S_WORKLOADS_BASE @ ''/cronjobs'') ns name @ ''/resume''))"

definition triggerCronJob :: "string \<Rightarrow> string \<Rightarrow> api_request" where
  "triggerCronJob ns name =
     with_data (JObj [])
       (request ''post'' (item_path (K8S_WORKLOADS_BASE @ ''/cronjobs'') ns name @ ''/trigger''))"

definition listNetworkPolicies :: "string \<Rightarrow> string option \<Rightarrow> api_request"
  where
  "listNetworkPolicies stored ns =
     with_params (nsQueryParams stored ns) (request ''get'' (K8S_NETWORK_POLICIES_LIST @ ''/''))"

definition getNetworkPolicy :: "string \<Rightarrow> string \<Rightarrow> api_request" where
  "getNetworkPolicy ns name =
     request ''get'' (item_path K8S_NETWORK_POLICIES_SINGLE ns name)"

definition createNetworkPolicy :: "jv \<Rightarrow> api_request" where
  "createNetworkPolicy body =
     with_data body (request ''post'' (K8S_NETWORK_POLICIES_SINGLE @ ''/''))"

definition getNetworkPolicyYaml :: "string \<Rightarrow> string \<Rightarrow> api_request" where
  "getNetworkPolicyYaml ns name =
     request ''get'' (item_path K8S_NETWORK_POLICIES_SINGLE ns name @ ''/yaml'')"

definition applyNetworkPolicyYaml :: "string \<Rightarrow> string \<Rightarrow> string
  \<Rightarrow> api_request" where
  "applyNetworkPolicyYaml ns name yaml =
     with_data (JObj [(''yaml'', JStr yaml)])
       (request ''put'' (item_path K8S_NETWORK_POLICIES_SINGLE ns name @ ''/yaml''))"

definition deleteNetworkPolicy :: "string \<Rightarrow> string \<Rightarrow> api_request" where
  "deleteNetworkPolicy ns name =
     request ''delete'' (item_path K8S_NETWORK_POLICIES_SINGLE ns name)"

definition listPvcs :: "string \<Rightarrow> string option \<Rightarrow> api_request" where
  "listPvcs stored ns =
     with_params (nsQueryParams stored ns) (request ''get'' (K8S_PVCS_LIST @ ''/''))"

definition getPvc :: "string \<Rightarrow> string \<Rightarrow> api_request" where
  "getPvc ns name =
     request ''get'' (item_path K8S_PVCS_SINGLE ns name)"

definition listStorageClasses :: api_request where
  "listStorageClasses =
     request ''get'' (K8S_STORAGE_CLASSES_LIST @ ''/'')"

definition createPvc :: "jv \<Rightarrow> api_request" where
  "createPvc body =
     with_data body (request ''post'' (K8S_PVCS_SINGLE @ ''/''))"

definition getPvcYaml :: "string \<Rightarrow> string \<Rightarrow> api_request" where
  "getPvcYaml ns name =
     request ''get'' (item_path K8S_PVCS_SINGLE ns name @ ''/yaml'')"

definition applyPvcYaml :: "string \<Rightarrow> string \<Rightarrow> string \<Rightarrow>
  api_request" where
  "applyPvcYaml ns name yaml =
     with_data (JObj [(''yaml'', JStr yaml)])
       (request ''put'' (item_path K8S_PVCS_SINGLE ns name @ ''/yaml''))"

definition deletePvc :: "string \<Rightarrow> string \<Rightarrow> api_request" where
  "deletePvc ns name =
     request ''delete'' (item_path K8S_PVCS_SINGLE ns name)"

definition listApplications :: api_request where
  "listApplications =
     request ''get'' (K8S_APPLICATIONS_LIST @ ''/'')"

definition getApplication :: "string \<Rightarrow> api_request" where
  "getApplication i =
     request ''get'' (K8S_APPLICATIONS_SINGLE @ ''/'' @ encodeURIComponent i)"

definition createApplication :: "jv \<Rightarrow> api_request" where
  "createApplication body =
     with_data body (request ''post'' (K8S_APPLICATIONS_SINGLE @ ''/''))"

definition updateApplication :: "string \<Rightarrow> jv \<Rightarrow> api_request" where
  "updateApplication i body =
     with_data body (request ''put'' (K8S_APPLICATIONS_SINGLE @ ''/'' @ encodeURIComponent i))"

definition deleteApplication :: "string \<Rightarrow> api_request" where
  "deleteApplication i =
     request ''delete'' (K8S_APPLICATIONS_SINGLE @ ''/'' @ encodeURIComponent i)"

definition getApplicationResources :: "string \<Rightarrow> api_request" where
  "getApplicationResources i =
     request ''get'' (K8S_APPLICATIONS_SINGLE @ ''/'' @ encodeURIComponent i @ ''/resources'')"

definition validateApplicationManifests :: "jv \<Rightarrow> api_request" where
  "validateApplicationManifests body =
     with_data body (request ''post'' (K8S_APPLICATIONS_BASE @ ''/validate''))"

definition applyApplicationManifests :: "jv \<Rightarrow> api_request" where
  "applyApplicationManifests body =
     with_data body (request ''post'' (K8S_APPLICATIONS_BASE @ ''/apply''))"

definition applySavedApplication :: "string \<Rightarrow> jv option \<Rightarrow> api_request"
  where
  "applySavedApplication i body =
     with_data (case body of Some b \<Rightarrow> b | None \<Rightarrow> JObj [])
       (request ''post'' (K8S_APPLICATIONS_SINGLE @ ''/'' @ encodeURIComponent i @ ''/apply''))"

definition removeApplicationFromCluster :: "string \<Rightarrow> jv option \<Rightarrow>
  api_request" where
  "removeApplicationFromCluster i body =
     with_data (case body of Some b \<Rightarrow> b | None \<Rightarrow> JObj [])
       (request ''post'' (K8S_APPLICATIONS_SINGLE @ ''/'' @ encodeURIComponent i @ ''/remove''))"

definition duplicateApplication :: "string \<Rightarrow> jv option \<Rightarrow> api_request"
  where
  "duplicateApplication i body =
     with_data (case body of Some b \<Rightarrow> b | None \<Rightarrow> JObj [])
       (request ''post'' (K8S_APPLICATIONS_SINGLE @ ''/'' @ encodeURIComponent i
       @ ''/duplicate''))"

definition listApplicationRevisions :: "string \<Rightarrow> api_request" where
  "listApplicationRevisions i =
     request ''get'' (K8S_APPLICATIONS_SINGLE @ ''/'' @ encodeURIComponent i @ ''/revisions'')"

definition getApplicationRevision :: "string \<Rightarrow> nat \<Rightarrow> api_request" where
  "getApplicationRevision i version =
     request ''get'' (K8S_APPLICATIONS_SINGLE @ ''/'' @ encodeURIComponent i @ ''/revisions/''
       @ show_nat version)"

definition restoreApplicationRevision :: "string \<Rightarrow> nat \<Rightarrow> api_request"
  where
  "restoreApplicationRevision i version =
     with_data (JObj [])
       (request ''post'' (K8S_APPLICATIONS_SINGLE @ ''/'' @ encodeURIComponent i
       @ ''/revisions/'' @ show_nat version @ ''/restore''))"

section \<open>Age of an object\<close>

text \<open>
  \<open>parsed\<close> is the time \<open>new Date(stamp)\<close> denotes in milliseconds, \<open>None\<close> when it is invalid.
\<close>

definition formatAge :: "string \<Rightarrow> int option \<Rightarrow> int \<Rightarrow> string" where
  "formatAge stamp parsed now =
     (if stamp = [] then [CHR 0x97]
      else case parsed of
        None \<Rightarrow> stamp
      | Some t \<Rightarrow>
          (let sec = max 0 ((now - t) div 1000) in
           if sec < 60 then show_int sec @ ''s''
           else if sec < 3600 then show_int (sec div 60) @ ''m''
           else if sec < 86400 then show_int (sec div 3600) @ ''h''
           else show_int (sec div 86400) @ ''d''))"

section \<open>Links to the pages of a resource\<close>

definition k8sResourceHref :: "string \<Rightarrow> string \<Rightarrow> string \<Rightarrow> string option" where
  "k8sResourceHref kind0 name0 ns0 =
     (let kind = trim kind0; name = trim name0; ns = trim ns0;
          item = (\<lambda>base. if ns \<noteq> [] then Some (item_path base ns name) else None)
      in if kind = [] \<or> name = [] then None
         else if kind = ''Namespace'' then Some (''/kubernetes/namespaces/'' @ encodeURIComponent name)
         else if kind = ''Node'' then Some (''/kubernetes/nodes/'' @ encodeURIComponent name)
         else if kind = ''Pod'' then item ''/kubernetes/pods''
         else if kind = ''Deployment'' then item ''/kubernetes/deployments''
         else if kind = ''StatefulSet'' then item ''/kubernetes/statefulsets''
         else if kind = ''DaemonSet'' then item ''/kubernetes/daemonsets''
         else if kind = ''Job'' then item ''/kubernetes/jobs''
         else if kind = ''CronJob'' then item ''/kubernetes/jobs/cron''
         else if kind = ''Service'' then item ''/kubernetes/services''
         else if kind = ''Ingress'' then item ''/kubernetes/ingresses''
         else if kind = ''NetworkPolicy'' then item ''/kubernetes/network-policies''
         else if kind = ''ConfigMap'' then item ''/kubernetes/configmaps''
         else if kind = ''Secret'' then item ''/kubernetes/secrets''
         else if kind = ''PersistentVolumeClaim'' then item ''/kubernetes/persistentvolumeclaims''
         else if kind = ''StorageClass'' then Some ''/kubernetes/storageclasses''
         else None)"

section \<open>System resources\<close>

definition SYSTEM_NAMESPACES :: "string list" where
  "SYSTEM_NAMESPACES =
     [''kube-system'', ''kube-public'', ''kube-node-lease'', ''local-path-storage'',
      ''cattle-system'', ''cattle-fleet-system'', ''cattle-impersonation-system'',
      ''fleet-system'', ''ingress-nginx'', ''cert-manager'']"

definition SYSTEM_PREFIXES :: "string list" where
  "SYSTEM_PREFIXES = [''openshift-'', ''kubesphere-'', ''tigera-'']"

definition isSystemNamespace :: "string option \<Rightarrow> bool" where
  "isSystemNamespace namespace =
     (let ns = map js_lower (trim (case namespace of Some n \<Rightarrow> n | None \<Rightarrow> [])) in
      if ns = [] then False
      else if ns \<in> set SYSTEM_NAMESPACES then True
      else list_ex (starts_with ns) SYSTEM_PREFIXES)"

definition filterSystemNamespacedRows :: "('a \<Rightarrow> string option) \<Rightarrow> 'a list \<Rightarrow> bool \<Rightarrow> 'a list" where
  "filterSystemNamespacedRows namespace_of rows showSystem =
     (if showSystem then rows else filter (\<lambda>r. \<not> isSystemNamespace (namespace_of r)) rows)"

definition filterSystemNamespaceRows :: "('a \<Rightarrow> string) \<Rightarrow> 'a list \<Rightarrow> bool \<Rightarrow> 'a list" where
  "filterSystemNamespaceRows name_of rows showSystem =
     (if showSystem then rows else filter (\<lambda>r. \<not> isSystemNamespace (Some (name_of r))) rows)"

text \<open>
  The toggle: the value cached in the module, the localStorage entry, and whether localStorage
  accepts writes. \<open>writeShowSystem\<close> announces the change, and the listener that every use of the
  hook installs reads the entry back.
\<close>

record show_system =
  sh_cached :: bool
  sh_entry :: "string option"
  sh_writable :: bool

definition readShowSystem :: "show_system \<Rightarrow> bool" where
  "readShowSystem s =
     (case sh_entry s of None \<Rightarrow> False | Some raw \<Rightarrow> raw = ''1'' \<or> raw = ''true'')"

definition show_system_changed :: "show_system \<Rightarrow> show_system" where
  "show_system_changed s = s\<lparr>sh_cached := readShowSystem s\<rparr>"

definition writeShowSystem :: "bool \<Rightarrow> show_system \<Rightarrow> show_system" where
  "writeShowSystem value s =
     show_system_changed
       (if sh_writable s then s\<lparr>sh_entry := Some (if value then ''1'' else ''0'')\<rparr> else s)"

definition setShowSystem :: "bool \<Rightarrow> show_system \<Rightarrow> show_system" where
  "setShowSystem value s = writeShowSystem value (s\<lparr>sh_cached := value\<rparr>)"

section \<open>Namespaced resources share one addressing scheme\<close>

text \<open>
  What the pages of a resource rely on: one object has one address, its manifest is read and
  written below it, and names cannot reach outside their segment.
\<close>

locale k8s_resource =
  fixes base :: string
    and get yaml delete :: "string \<Rightarrow> string \<Rightarrow> api_request"
    and apply_yaml :: "string \<Rightarrow> string \<Rightarrow> string \<Rightarrow> api_request"
  assumes get: "rq_method (get ns n) = ''get'' \<and> rq_url (get ns n) = item_path base ns n"
    and delete: "rq_method (delete ns n) = ''delete'' \<and> rq_url (delete ns n) = item_path base ns n"
    and yaml: "rq_method (yaml ns n) = ''get'' \<and> rq_url (yaml ns n) = item_path base ns n @ ''/yaml''"
    and apply_yaml: "apply_yaml ns n y =
      with_data (JObj [(''yaml'', JStr y)]) (request ''put'' (item_path base ns n @ ''/yaml''))"
begin

lemma address_inj: "rq_url (get ns n) = rq_url (get ns' n') \<longleftrightarrow> ns = ns' \<and> n = n'"
  by (simp add: get item_path_def encodeURIComponent_inj)

lemma delete_address: "rq_url (delete ns n) = rq_url (get ns' n') \<longleftrightarrow> ns = ns' \<and> n = n'"
  by (simp add: get delete item_path_def encodeURIComponent_inj)

lemma apply_address: "rq_url (apply_yaml ns n y) = rq_url (yaml ns' n') \<longleftrightarrow> ns = ns' \<and> n = n'"
  by (simp add: yaml apply_yaml item_path_def encodeURIComponent_inj)

text \<open>A manifest is never written to the address of an object itself, whatever its name.\<close>

lemma apply_not_item: "rq_url (apply_yaml ns n y) \<noteq> rq_url (get ns' n')"
proof
  assume "rq_url (apply_yaml ns n y) = rq_url (get ns' n')"
  then have "encodeURIComponent n @ ''/yaml'' = encodeURIComponent n'"
    by (simp add: get apply_yaml item_path_def)
  then have "CHR ''/'' \<in> set (encodeURIComponent n')" by (metis in_set_conv_decomp)
  then show False by (simp add: encode_no_special)
qed

end

lemmas k8s_bases = K8S_WORKLOADS_BASE_def K8S_SERVICES_SINGLE_def K8S_INGRESSES_SINGLE_def
  K8S_NETWORK_POLICIES_SINGLE_def K8S_CONFIGS_BASE_def K8S_PVCS_SINGLE_def

interpretation pods: k8s_resource "K8S_WORKLOADS_BASE @ ''/pods''"
    getPod getPodYaml deletePod applyPodYaml
  by unfold_locales (simp_all add: getPod_def getPodYaml_def deletePod_def applyPodYaml_def)

interpretation deployments: k8s_resource "K8S_WORKLOADS_BASE @ ''/deployments''"
    getDeployment getDeploymentYaml deleteDeployment applyDeploymentYaml
  by unfold_locales
    (simp_all add: getDeployment_def getDeploymentYaml_def deleteDeployment_def
      applyDeploymentYaml_def)

interpretation statefulsets: k8s_resource "K8S_WORKLOADS_BASE @ ''/statefulsets''"
    getStatefulSet getStatefulSetYaml deleteStatefulSet applyStatefulSetYaml
  by unfold_locales
    (simp_all add: getStatefulSet_def getStatefulSetYaml_def deleteStatefulSet_def
      applyStatefulSetYaml_def)

interpretation daemonsets: k8s_resource "K8S_WORKLOADS_BASE @ ''/daemonsets''"
    getDaemonSet getDaemonSetYaml deleteDaemonSet applyDaemonSetYaml
  by unfold_locales
    (simp_all add: getDaemonSet_def getDaemonSetYaml_def deleteDaemonSet_def
      applyDaemonSetYaml_def)

interpretation jobs: k8s_resource "K8S_WORKLOADS_BASE @ ''/jobs''"
    getJob getJobYaml deleteJob applyJobYaml
  by unfold_locales (simp_all add: getJob_def getJobYaml_def deleteJob_def applyJobYaml_def)

interpretation cronjobs: k8s_resource "K8S_WORKLOADS_BASE @ ''/cronjobs''"
    getCronJob getCronJobYaml deleteCronJob applyCronJobYaml
  by unfold_locales
    (simp_all add: getCronJob_def getCronJobYaml_def deleteCronJob_def applyCronJobYaml_def)

interpretation services: k8s_resource K8S_SERVICES_SINGLE
    getService getServiceYaml deleteService applyServiceYaml
  by unfold_locales
    (simp_all add: getService_def getServiceYaml_def deleteService_def applyServiceYaml_def)

interpretation ingresses: k8s_resource K8S_INGRESSES_SINGLE
    getIngress getIngressYaml deleteIngress applyIngressYaml
  by unfold_locales
    (simp_all add: getIngress_def getIngressYaml_def deleteIngress_def applyIngressYaml_def)

interpretation network_policies: k8s_resource K8S_NETWORK_POLICIES_SINGLE
    getNetworkPolicy getNetworkPolicyYaml deleteNetworkPolicy applyNetworkPolicyYaml
  by unfold_locales
    (simp_all add: getNetworkPolicy_def getNetworkPolicyYaml_def deleteNetworkPolicy_def
      applyNetworkPolicyYaml_def)

interpretation configmaps: k8s_resource "K8S_CONFIGS_BASE @ ''/configmaps''"
    getConfigMap getConfigMapYaml deleteConfigMap applyConfigMapYaml
  by unfold_locales
    (simp_all add: getConfigMap_def getConfigMapYaml_def deleteConfigMap_def
      applyConfigMapYaml_def)

interpretation secrets: k8s_resource "K8S_CONFIGS_BASE @ ''/secrets''"
    getSecret getSecretYaml deleteSecret applySecretYaml
  by unfold_locales
    (simp_all add: getSecret_def getSecretYaml_def deleteSecret_def applySecretYaml_def)

interpretation pvcs: k8s_resource K8S_PVCS_SINGLE
    getPvc getPvcYaml deletePvc applyPvcYaml
  by unfold_locales (simp_all add: getPvc_def getPvcYaml_def deletePvc_def applyPvcYaml_def)

text \<open>The twelve resources in one table: the operations of each.\<close>

datatype k8s_kind = KPod | KDeployment | KStatefulSet | KDaemonSet | KJob | KCronJob | KService
  | KIngress | KNetworkPolicy | KConfigMap | KSecret | KPvc

fun kind_get :: "k8s_kind \<Rightarrow> string \<Rightarrow> string \<Rightarrow> api_request" where
  "kind_get KPod = getPod" | "kind_get KDeployment = getDeployment"
| "kind_get KStatefulSet = getStatefulSet" | "kind_get KDaemonSet = getDaemonSet"
| "kind_get KJob = getJob" | "kind_get KCronJob = getCronJob"
| "kind_get KService = getService" | "kind_get KIngress = getIngress"
| "kind_get KNetworkPolicy = getNetworkPolicy" | "kind_get KConfigMap = getConfigMap"
| "kind_get KSecret = getSecret" | "kind_get KPvc = getPvc"

fun kind_delete :: "k8s_kind \<Rightarrow> string \<Rightarrow> string \<Rightarrow> api_request" where
  "kind_delete KPod = deletePod" | "kind_delete KDeployment = deleteDeployment"
| "kind_delete KStatefulSet = deleteStatefulSet" | "kind_delete KDaemonSet = deleteDaemonSet"
| "kind_delete KJob = deleteJob" | "kind_delete KCronJob = deleteCronJob"
| "kind_delete KService = deleteService" | "kind_delete KIngress = deleteIngress"
| "kind_delete KNetworkPolicy = deleteNetworkPolicy" | "kind_delete KConfigMap = deleteConfigMap"
| "kind_delete KSecret = deleteSecret" | "kind_delete KPvc = deletePvc"

fun kind_yaml :: "k8s_kind \<Rightarrow> string \<Rightarrow> string \<Rightarrow> api_request" where
  "kind_yaml KPod = getPodYaml" | "kind_yaml KDeployment = getDeploymentYaml"
| "kind_yaml KStatefulSet = getStatefulSetYaml" | "kind_yaml KDaemonSet = getDaemonSetYaml"
| "kind_yaml KJob = getJobYaml" | "kind_yaml KCronJob = getCronJobYaml"
| "kind_yaml KService = getServiceYaml" | "kind_yaml KIngress = getIngressYaml"
| "kind_yaml KNetworkPolicy = getNetworkPolicyYaml" | "kind_yaml KConfigMap = getConfigMapYaml"
| "kind_yaml KSecret = getSecretYaml" | "kind_yaml KPvc = getPvcYaml"

fun kind_apply :: "k8s_kind \<Rightarrow> string \<Rightarrow> string \<Rightarrow> string \<Rightarrow> api_request" where
  "kind_apply KPod = applyPodYaml" | "kind_apply KDeployment = applyDeploymentYaml"
| "kind_apply KStatefulSet = applyStatefulSetYaml" | "kind_apply KDaemonSet = applyDaemonSetYaml"
| "kind_apply KJob = applyJobYaml" | "kind_apply KCronJob = applyCronJobYaml"
| "kind_apply KService = applyServiceYaml" | "kind_apply KIngress = applyIngressYaml"
| "kind_apply KNetworkPolicy = applyNetworkPolicyYaml"
| "kind_apply KConfigMap = applyConfigMapYaml"
| "kind_apply KSecret = applySecretYaml" | "kind_apply KPvc = applyPvcYaml"

fun kind_base :: "k8s_kind \<Rightarrow> string" where
  "kind_base KPod = K8S_WORKLOADS_BASE @ ''/pods''"
| "kind_base KDeployment = K8S_WORKLOADS_BASE @ ''/deployments''"
| "kind_base KStatefulSet = K8S_WORKLOADS_BASE @ ''/statefulsets''"
| "kind_base KDaemonSet = K8S_WORKLOADS_BASE @ ''/daemonsets''"
| "kind_base KJob = K8S_WORKLOADS_BASE @ ''/jobs''"
| "kind_base KCronJob = K8S_WORKLOADS_BASE @ ''/cronjobs''"
| "kind_base KService = K8S_SERVICES_SINGLE"
| "kind_base KIngress = K8S_INGRESSES_SINGLE"
| "kind_base KNetworkPolicy = K8S_NETWORK_POLICIES_SINGLE"
| "kind_base KConfigMap = K8S_CONFIGS_BASE @ ''/configmaps''"
| "kind_base KSecret = K8S_CONFIGS_BASE @ ''/secrets''"
| "kind_base KPvc = K8S_PVCS_SINGLE"

lemma kind_get_url: "rq_url (kind_get k ns n) = item_path (kind_base k) ns n"
  by (cases k) (simp_all add: pods.get deployments.get statefulsets.get daemonsets.get jobs.get
      cronjobs.get services.get ingresses.get network_policies.get configmaps.get secrets.get
      pvcs.get)

lemma item_path_kind_inj:
  "item_path (kind_base k) ns n = item_path (kind_base k') ns' n' \<Longrightarrow> k = k'"
  by (cases k; cases k') (simp_all add: item_path_def k8s_bases)

lemmas kind_laws =
  pods.address_inj deployments.address_inj statefulsets.address_inj daemonsets.address_inj
  jobs.address_inj cronjobs.address_inj services.address_inj ingresses.address_inj
  network_policies.address_inj configmaps.address_inj secrets.address_inj pvcs.address_inj

lemmas kind_delete_laws =
  pods.delete_address deployments.delete_address statefulsets.delete_address
  daemonsets.delete_address jobs.delete_address cronjobs.delete_address services.delete_address
  ingresses.delete_address network_policies.delete_address configmaps.delete_address
  secrets.delete_address pvcs.delete_address

lemmas kind_apply_laws =
  pods.apply_address deployments.apply_address statefulsets.apply_address
  daemonsets.apply_address jobs.apply_address cronjobs.apply_address services.apply_address
  ingresses.apply_address network_policies.apply_address configmaps.apply_address
  secrets.apply_address pvcs.apply_address

lemmas kind_apply_not_item =
  pods.apply_not_item deployments.apply_not_item statefulsets.apply_not_item
  daemonsets.apply_not_item jobs.apply_not_item cronjobs.apply_not_item services.apply_not_item
  ingresses.apply_not_item network_policies.apply_not_item configmaps.apply_not_item
  secrets.apply_not_item pvcs.apply_not_item

lemmas kind_delete_method =
  pods.delete deployments.delete statefulsets.delete daemonsets.delete jobs.delete cronjobs.delete
  services.delete ingresses.delete network_policies.delete configmaps.delete secrets.delete
  pvcs.delete

lemmas kind_apply_defs =
  pods.apply_yaml deployments.apply_yaml statefulsets.apply_yaml daemonsets.apply_yaml
  jobs.apply_yaml cronjobs.apply_yaml services.apply_yaml ingresses.apply_yaml
  network_policies.apply_yaml configmaps.apply_yaml secrets.apply_yaml pvcs.apply_yaml

text \<open>The pages that show one object of a namespaced kind.\<close>

definition page_base :: "string \<Rightarrow> string option" where
  "page_base kind = map_of
     [(''Pod'', ''/kubernetes/pods''), (''Deployment'', ''/kubernetes/deployments''),
      (''StatefulSet'', ''/kubernetes/statefulsets''), (''DaemonSet'', ''/kubernetes/daemonsets''),
      (''Job'', ''/kubernetes/jobs''), (''CronJob'', ''/kubernetes/jobs/cron''),
      (''Service'', ''/kubernetes/services''), (''Ingress'', ''/kubernetes/ingresses''),
      (''NetworkPolicy'', ''/kubernetes/network-policies''),
      (''ConfigMap'', ''/kubernetes/configmaps''), (''Secret'', ''/kubernetes/secrets''),
      (''PersistentVolumeClaim'', ''/kubernetes/persistentvolumeclaims'')] kind"

lemma href_page:
  "page_base (trim k) = Some b \<Longrightarrow> k8sResourceHref k n ns = Some u \<Longrightarrow>
   u = item_path b (trim ns) (trim n)"
  by (simp add: page_base_def k8sResourceHref_def Let_def split: if_splits)

lemma encode_slash_free:
  "encodeURIComponent a \<noteq> x @ CHR ''/'' # y" "x @ CHR ''/'' # y \<noteq> encodeURIComponent a"
  using encode_no_special(1) [of a] by auto (metis in_set_conv_decomp)+

text \<open>The cron job page lies below the job pages, at a depth no job page has.\<close>

lemma cron_depth:
  "encodeURIComponent a @ CHR ''/'' # encodeURIComponent b \<noteq> ''cron/'' @ x @ CHR ''/'' # y"
proof
  assume "encodeURIComponent a @ CHR ''/'' # encodeURIComponent b = ''cron/'' @ x @ CHR ''/'' # y"
  then have "encodeURIComponent a @ CHR ''/'' # encodeURIComponent b =
      ''cron'' @ CHR ''/'' # (x @ CHR ''/'' # y)" by simp
  then have "encodeURIComponent b = x @ CHR ''/'' # y"
    by (subst (asm) split_at_sep) (simp_all add: encode_no_special)
  then show False by (simp add: encode_slash_free)
qed

lemma page_path_inj:
  assumes "page_base k = Some b" "page_base k' = Some b'"
    and "item_path b ns n = item_path b' ns' n'"
  shows "k = k' \<and> ns = ns' \<and> n = n'"
proof -
  have "k = k' \<and> b = b'"
    using assms
    by (auto simp: page_base_def item_path_def encode_slash_free
        cron_depth [simplified] cron_depth [simplified, symmetric] split: if_splits)
  then show ?thesis using assms(3)
    by (simp add: item_path_def encodeURIComponent_inj)
qed

section \<open>Properties\<close>

text \<open>Two requests to read an object have the same address only if they name the same object
  of the same kind, whatever characters the names contain; deleting uses that address too.\<close>

theorem k8s_object_address:
  "(rq_url (kind_get k ns n) = rq_url (kind_get k' ns' n') \<longleftrightarrow> k = k' \<and> ns = ns' \<and> n = n') \<and>
   (rq_url (kind_delete k ns n) = rq_url (kind_get k ns' n') \<longleftrightarrow> ns = ns' \<and> n = n') \<and>
   rq_method (kind_delete k ns n) = ''delete''"
proof -
  have "rq_url (kind_get k ns n) = rq_url (kind_get k' ns' n') \<longleftrightarrow> k = k' \<and> ns = ns' \<and> n = n'"
  proof
    assume eq: "rq_url (kind_get k ns n) = rq_url (kind_get k' ns' n')"
    then have "k = k'" by (auto simp: kind_get_url intro: item_path_kind_inj)
    then show "k = k' \<and> ns = ns' \<and> n = n'" using eq kind_laws by (cases k) simp_all
  qed auto
  moreover have "rq_url (kind_delete k ns n) = rq_url (kind_get k ns' n') \<longleftrightarrow> ns = ns' \<and> n = n'"
    using kind_delete_laws by (cases k) simp_all
  moreover have "rq_method (kind_delete k ns n) = ''delete''"
    using kind_delete_method by (cases k) simp_all
  ultimately show ?thesis by blast
qed

text \<open>An edited manifest is written, as it is, to the address its own object's manifest is
  read from, and never to the address of an object.\<close>

theorem k8s_manifest_address:
  "(rq_url (kind_apply k ns n y) = rq_url (kind_yaml k ns' n') \<longleftrightarrow> ns = ns' \<and> n = n') \<and>
   rq_url (kind_apply k ns n y) \<noteq> rq_url (kind_get k ns' n') \<and>
   rq_method (kind_apply k ns n y) = ''put'' \<and>
   rq_data (kind_apply k ns n y) = Some (JObj [(''yaml'', JStr y)])"
proof -
  have "rq_url (kind_apply k ns n y) = rq_url (kind_yaml k ns' n') \<longleftrightarrow> ns = ns' \<and> n = n'"
    using kind_apply_laws by (cases k) simp_all
  moreover have "rq_url (kind_apply k ns n y) \<noteq> rq_url (kind_get k ns' n')"
    using kind_apply_not_item by (cases k) simp_all
  moreover have "rq_method (kind_apply k ns n y) = ''put'' \<and>
      rq_data (kind_apply k ns n y) = Some (JObj [(''yaml'', JStr y)])"
    by (cases k) (simp_all add: kind_apply_defs with_data_def)
  ultimately show ?thesis by blast
qed

text \<open>Two links to pages of namespaced objects are equal only if they show the same object;
  in particular the page of a cron job is never that of a job in a namespace \<open>cron\<close>.\<close>

theorem k8s_link_unique:
  assumes "page_base (trim k) \<noteq> None" and "page_base (trim k') \<noteq> None"
    and "k8sResourceHref k n ns = Some u" and "k8sResourceHref k' n' ns' = Some u"
  shows "trim k = trim k' \<and> trim n = trim n' \<and> trim ns = trim ns'"
proof -
  obtain b b' where b: "page_base (trim k) = Some b" "page_base (trim k') = Some b'"
    using assms(1,2) by blast
  have "u = item_path b (trim ns) (trim n)" using b(1) assms(3) by (rule href_page)
  moreover have "u = item_path b' (trim ns') (trim n')" using b(2) assms(4) by (rule href_page)
  ultimately show ?thesis using page_path_inj [OF b, of "trim ns" "trim n"] by metis
qed

theorem k8s_link_unique_witness:
  "k8sResourceHref '' CronJob'' ''nightly'' ''a/b'' = Some ''/kubernetes/jobs/cron/a%2Fb/nightly'' \<and>
   trim '' CronJob'' = trim ''CronJob '' \<and> trim ''nightly'' = trim ''nightly '' \<and>
   trim ''a/b'' = trim '' a/b''"
proof
  show u: "k8sResourceHref '' CronJob'' ''nightly'' ''a/b'' =
      Some ''/kubernetes/jobs/cron/a%2Fb/nightly''"
    by code_simp
  show "trim '' CronJob'' = trim ''CronJob '' \<and> trim ''nightly'' = trim ''nightly '' \<and>
      trim ''a/b'' = trim '' a/b''"
    by (rule k8s_link_unique [OF _ _ u]; code_simp)
qed

text \<open>Where localStorage refuses writes, switching the system resources on has no effect: the
  announcement of the change reads the old entry back over the new value.\<close>

theorem show_system_lost_without_storage:
  "sh_cached (setShowSystem v s) = (if sh_writable s then v else readShowSystem s)"
  by (simp add: setShowSystem_def writeShowSystem_def show_system_changed_def readShowSystem_def)

end
