(* ===== verification/File_Manager.thy ===== *)
theory File_Manager
  imports Url_Coding
begin

text \<open>
  The file manager, \<open>modules/filemanager/pages/browser\<close>: its tabs (\<open>sessions.ts\<close>), its clipboard
  (\<open>clipboard.ts\<close>), opening a folder in the terminal (\<open>open-helpers.ts\<close>) and the requests of
  \<open>api/index.ts\<close>. React state updates are read as state transitions, each seeing the state of
  the last render.
\<close>

section \<open>Tabs\<close>

record file_session =
  fs_id :: string
  fs_path :: string
  fs_label :: string
  fs_seen :: nat

record file_tabs =
  ft_sessions :: "file_session list"
  ft_active :: string
  ft_revision :: nat

text \<open>\<open>path.split("/").filter(Boolean)\<close>\<close>

definition path_parts :: "string \<Rightarrow> string list" where
  "path_parts path = filter (\<lambda>p. p \<noteq> []) (js_split ''/'' path)"

text \<open>\<open>path.replace(/\/+$/, "")\<close>\<close>

definition strip_slashes :: "string \<Rightarrow> string" where
  "strip_slashes path = rev (dropWhile (\<lambda>c. c = CHR ''/'') (rev path))"

definition tabLabel :: "string \<Rightarrow> string" where
  "tabLabel path =
     (if path = [] \<or> path = ''/'' then ''/''
      else (let parts = path_parts (strip_slashes path) in
            if parts = [] then ''/'' else last parts))"

definition home_session :: "string \<Rightarrow> file_session" where
  "home_session newId = \<lparr>fs_id = newId, fs_path = [], fs_label = ''Home'', fs_seen = 0\<rparr>"

text \<open>What \<open>JSON.parse\<close> makes of the stored text; the list is trusted to hold sessions.\<close>

datatype stored_sessions = NoText | BadJson | NotArray | SessionList "file_session list"

definition loadSessions ::
  "string \<Rightarrow> stored_sessions \<Rightarrow> string option \<Rightarrow> file_session list \<times> string" where
  "loadSessions newId stored active =
     (case stored of
        SessionList (x # xs) \<Rightarrow>
          (let activeId = (case active of Some a \<Rightarrow> a | None \<Rightarrow> []) in
           (x # xs, case find (\<lambda>s. fs_id s = activeId) (x # xs) of
              Some s \<Rightarrow> fs_id s | None \<Rightarrow> fs_id x))
      | _ \<Rightarrow> ([home_session newId], newId))"

definition active_session :: "file_tabs \<Rightarrow> file_session" where
  "active_session t =
     (case find (\<lambda>s. fs_id s = ft_active t) (ft_sessions t) of
        Some s \<Rightarrow> s | None \<Rightarrow> hd (ft_sessions t))"

definition needsRefresh :: "file_tabs \<Rightarrow> bool" where
  "needsRefresh t \<longleftrightarrow> fs_seen (active_session t) < ft_revision t"

definition map_session :: "string \<Rightarrow> (file_session \<Rightarrow> file_session) \<Rightarrow> file_tabs \<Rightarrow> file_tabs" where
  "map_session i f t =
     t\<lparr>ft_sessions := map (\<lambda>s. if fs_id s = i then f s else s) (ft_sessions t)\<rparr>"

definition bumpRevision :: "file_tabs \<Rightarrow> file_tabs" where
  "bumpRevision t = t\<lparr>ft_revision := ft_revision t + 1\<rparr>"

definition setActivePath :: "string \<Rightarrow> file_tabs \<Rightarrow> file_tabs" where
  "setActivePath path t =
     map_session (ft_active t)
       (\<lambda>s. s\<lparr>fs_path := path, fs_label := or_str (tabLabel path) ''Home'',
               fs_seen := ft_revision t\<rparr>) t"

definition switchSession :: "string \<Rightarrow> file_tabs \<Rightarrow> file_tabs" where
  "switchSession i t =
     (map_session i (\<lambda>s. s\<lparr>fs_seen := ft_revision t\<rparr>) t)\<lparr>ft_active := i\<rparr>"

definition addSession :: "string \<Rightarrow> string \<Rightarrow> file_tabs \<Rightarrow> file_tabs" where
  "addSession newId path t =
     t\<lparr>ft_sessions := ft_sessions t @
         [\<lparr>fs_id = newId, fs_path = path, fs_label = or_str (tabLabel path) ''Home'',
           fs_seen = ft_revision t\<rparr>],
       ft_active := newId\<rparr>"

fun find_index :: "('a \<Rightarrow> bool) \<Rightarrow> 'a list \<Rightarrow> nat option" where
  "find_index P [] = None"
| "find_index P (x # xs) = (if P x then Some 0 else map_option Suc (find_index P xs))"

definition closeSession :: "string \<Rightarrow> file_tabs \<Rightarrow> file_tabs" where
  "closeSession i t =
     (let prev = ft_sessions t in
      if length prev \<le> 1 then t
      else (let next = filter (\<lambda>s. fs_id s \<noteq> i) prev;
                idx = (case find_index (\<lambda>s. fs_id s = i) prev of Some n \<Rightarrow> n - 1 | None \<Rightarrow> 0);
                nextActive = (if i = ft_active t
                              then (if idx < length next then fs_id (next ! idx)
                                    else fs_id (hd next))
                              else ft_active t)
            in t\<lparr>ft_sessions := next, ft_active := nextActive\<rparr>))"

definition markSeen :: "file_tabs \<Rightarrow> file_tabs" where
  "markSeen t = map_session (ft_active t) (\<lambda>s. s\<lparr>fs_seen := ft_revision t\<rparr>) t"

text \<open>Storage events of other windows: a new revision, or new sessions.\<close>

definition storageRevision :: "nat \<Rightarrow> file_tabs \<Rightarrow> file_tabs" where
  "storageRevision n t = t\<lparr>ft_revision := n\<rparr>"

definition storageSessions ::
  "string \<Rightarrow> stored_sessions \<Rightarrow> string option \<Rightarrow> file_tabs \<Rightarrow> file_tabs" where
  "storageSessions newId stored active t =
     (let loaded = loadSessions newId stored active in
      t\<lparr>ft_sessions := fst loaded, ft_active := snd loaded\<rparr>)"

datatype tabs_event =
    SetActivePath string | SwitchSession string | AddSession string string
  | CloseSession string | BumpRevision | MarkSeen | StorageRevision nat
  | StorageSessions string stored_sessions "string option"

fun tabs_apply :: "tabs_event \<Rightarrow> file_tabs \<Rightarrow> file_tabs" where
  "tabs_apply (SetActivePath p) = setActivePath p"
| "tabs_apply (SwitchSession i) = switchSession i"
| "tabs_apply (AddSession i p) = addSession i p"
| "tabs_apply (CloseSession i) = closeSession i"
| "tabs_apply BumpRevision = bumpRevision"
| "tabs_apply MarkSeen = markSeen"
| "tabs_apply (StorageRevision n) = storageRevision n"
| "tabs_apply (StorageSessions i st a) = storageSessions i st a"

definition session_keys :: "file_tabs \<Rightarrow> string list" where
  "session_keys t = map fs_id (ft_sessions t)"

definition tabs_inv :: "file_tabs \<Rightarrow> bool" where
  "tabs_inv t \<longleftrightarrow> distinct (session_keys t) \<and> ft_active t \<in> set (session_keys t)"

text \<open>
  A tab is switched to from the list shown, a new one has an id of its own, and what another
  window stored has distinct ids.
\<close>

fun tabs_ok :: "tabs_event \<Rightarrow> file_tabs \<Rightarrow> bool" where
  "tabs_ok (SwitchSession i) t = (i \<in> set (session_keys t))"
| "tabs_ok (AddSession i p) t = (i \<notin> set (session_keys t))"
| "tabs_ok (StorageSessions i (SessionList xs) a) t = distinct (map fs_id xs)"
| "tabs_ok _ t = True"

section \<open>Clipboard\<close>

datatype clipboard_mode = CopyMode | CutMode

record file_clipboard =
  cb_mode :: clipboard_mode
  cb_paths :: "string list"

definition mode_name :: "clipboard_mode \<Rightarrow> string" where
  "mode_name m = (case m of CopyMode \<Rightarrow> ''copy'' | CutMode \<Rightarrow> ''cut'')"

definition clipboard_jv :: "file_clipboard \<Rightarrow> jv" where
  "clipboard_jv c =
     JObj [(''mode'', JStr (mode_name (cb_mode c))), (''paths'', JArr (map JStr (cb_paths c)))]"

text \<open>The element type of \<open>paths\<close> is not checked by the code; other elements have no string.\<close>

definition readClipboard :: "jtext option \<Rightarrow> file_clipboard option" where
  "readClipboard raw =
     (case raw of
        Some (JText v) \<Rightarrow>
          (case as_object v of
             None \<Rightarrow> None
           | Some b \<Rightarrow>
               (case (oget b ''mode'', oget b ''paths'') of
                  (JStr m, JArr ps) \<Rightarrow>
                    if (m = ''copy'' \<or> m = ''cut'') \<and> ps \<noteq> []
                    then Some \<lparr>cb_mode = (if m = ''copy'' then CopyMode else CutMode),
                               cb_paths = List.map_filter as_string ps\<rparr>
                    else None
                | _ \<Rightarrow> None))
      | _ \<Rightarrow> None)"

text \<open>The state of the hook and the sessionStorage entry.\<close>

type_synonym clipboard_state = "file_clipboard option \<times> jtext option"

definition setClipboard :: "file_clipboard option \<Rightarrow> clipboard_state \<Rightarrow> clipboard_state" where
  "setClipboard v s = (v, map_option (\<lambda>c. stringify (clipboard_jv c)) v)"

text \<open>\<open>Array.from(new Set(xs))\<close>: the first occurrence of each.\<close>

definition js_unique :: "'a list \<Rightarrow> 'a list" where
  "js_unique xs = rev (remdups (rev xs))"

definition copyPaths :: "string list \<Rightarrow> clipboard_state \<Rightarrow> clipboard_state" where
  "copyPaths paths s =
     (let unique = js_unique (filter (\<lambda>p. p \<noteq> []) paths) in
      if unique = [] then s else setClipboard (Some \<lparr>cb_mode = CopyMode, cb_paths = unique\<rparr>) s)"

definition cutPaths :: "string list \<Rightarrow> clipboard_state \<Rightarrow> clipboard_state" where
  "cutPaths paths s =
     (let unique = js_unique (filter (\<lambda>p. p \<noteq> []) paths) in
      if unique = [] then s else setClipboard (Some \<lparr>cb_mode = CutMode, cb_paths = unique\<rparr>) s)"

definition clearClipboard :: "clipboard_state \<Rightarrow> clipboard_state" where
  "clearClipboard s = setClipboard None s"

section \<open>Opening a folder in the terminal\<close>

definition shellSingleQuote :: "string \<Rightarrow> string" where
  "shellSingleQuote value =
     [CHR 39] @ replace_char (CHR 39) [CHR 39, CHR 92, CHR 39, CHR 39] value @ [CHR 39]"

text \<open>
  \<open>delivered k\<close> tells whether the terminal takes the bytes at attempt \<open>k\<close>. The result is what was
  sent and whether the user is told that the terminal is not ready.
\<close>

record inject_result =
  in_sent :: "string list"
  in_error :: bool

definition maxAttempts :: nat where "maxAttempts = 40"

function tryInject :: "(nat \<Rightarrow> bool) \<Rightarrow> string \<Rightarrow> nat \<Rightarrow> inject_result" where
  "tryInject delivered payload attempts0 =
     (let attempts = attempts0 + 1 in
      if delivered attempts then \<lparr>in_sent = [payload], in_error = False\<rparr>
      else if maxAttempts \<le> attempts then \<lparr>in_sent = [], in_error = True\<rparr>
      else tryInject delivered payload attempts)"
  by pat_completeness auto
termination
  by (relation "measure (\<lambda>(d, p, n). maxAttempts - n)") (auto simp: maxAttempts_def)

declare tryInject.simps [simp del]

definition openFolderInTerminal :: "(nat \<Rightarrow> bool) \<Rightarrow> string \<Rightarrow> inject_result" where
  "openFolderInTerminal delivered path =
     (let target = trim path in
      if target = [] then \<lparr>in_sent = [], in_error = False\<rparr>
      else tryInject delivered (''cd -- '' @ shellSingleQuote target @ [CHR 13]) 0)"

section \<open>Requests\<close>

definition FILEMANAGER_LIST_BASE :: string where "FILEMANAGER_LIST_BASE = ''/filemanager/list''"

definition FILEMANAGER_OPS_BASE :: string where "FILEMANAGER_OPS_BASE = ''/filemanager/ops''"

text \<open>An optional argument inside a body, and \<open>x || undefined\<close>.\<close>

definition opt_str :: "string option \<Rightarrow> jv" where
  "opt_str x = (case x of Some s \<Rightarrow> JStr s | None \<Rightarrow> JUndef)"

definition or_undefined :: "string option \<Rightarrow> jv" where
  "or_undefined x = (case x of Some s \<Rightarrow> if s \<noteq> [] then JStr s else JUndef | None \<Rightarrow> JUndef)"

definition listDirectory :: "string \<Rightarrow> bool \<Rightarrow> api_request" where
  "listDirectory path showHidden =
     with_params (Some ((if path \<noteq> [] then [(''path'', JStr path)] else []) @
         [(''show_hidden'', JStr (if showHidden then ''1'' else ''0''))]))
       (request ''get'' FILEMANAGER_LIST_BASE)"

definition statPath :: "string \<Rightarrow> api_request" where
  "statPath path =
     with_params (Some [(''path'', JStr path)])
       (request ''get'' (FILEMANAGER_LIST_BASE @ ''/stat''))"

definition mkdir :: "string \<Rightarrow> string option \<Rightarrow> api_request" where
  "mkdir path mode =
     with_data (JObj [(''path'', JStr path), (''mode'', opt_str mode)])
       (request ''post'' (FILEMANAGER_OPS_BASE @ ''/mkdir''))"

definition createFile :: "string \<Rightarrow> string \<Rightarrow> string option \<Rightarrow> api_request" where
  "createFile path content mode =
     with_data (JObj [(''path'', JStr path), (''content'', JStr content), (''mode'', opt_str mode)])
       (request ''post'' (FILEMANAGER_OPS_BASE @ ''/create''))"

definition renamePath :: "string \<Rightarrow> string \<Rightarrow> api_request" where
  "renamePath source destination =
     with_data (JObj [(''source'', JStr source), (''destination'', JStr destination)])
       (request ''post'' (FILEMANAGER_OPS_BASE @ ''/rename''))"

definition movePath :: "string \<Rightarrow> string \<Rightarrow> api_request" where
  "movePath source destination =
     with_data (JObj [(''source'', JStr source), (''destination'', JStr destination)])
       (request ''post'' (FILEMANAGER_OPS_BASE @ ''/move''))"

definition copyPath :: "string \<Rightarrow> string \<Rightarrow> api_request" where
  "copyPath source destination =
     with_data (JObj [(''source'', JStr source), (''destination'', JStr destination)])
       (request ''post'' (FILEMANAGER_OPS_BASE @ ''/copy''))"

definition duplicatePath :: "string \<Rightarrow> api_request" where
  "duplicatePath path =
     with_data (JObj [(''path'', JStr path)])
       (request ''post'' (FILEMANAGER_OPS_BASE @ ''/duplicate''))"

definition deletePath :: "string \<Rightarrow> bool \<Rightarrow> api_request" where
  "deletePath path recursive =
     with_data (JObj [(''path'', JStr path), (''recursive'', JBool recursive)])
       (request ''post'' (FILEMANAGER_OPS_BASE @ ''/delete''))"

definition moveToTrash :: "string \<Rightarrow> api_request" where
  "moveToTrash path =
     with_data (JObj [(''path'', JStr path)])
       (request ''post'' (FILEMANAGER_OPS_BASE @ ''/trash''))"

definition listTrash :: api_request where
  "listTrash =
     request ''get'' (FILEMANAGER_OPS_BASE @ ''/trash'')"

definition restoreTrashItem :: "string \<Rightarrow> api_request" where
  "restoreTrashItem i =
     with_data (JObj [(''id'', JStr i)])
       (request ''post'' (FILEMANAGER_OPS_BASE @ ''/trash/restore''))"

definition permanentlyDeleteTrashItem :: "string \<Rightarrow> api_request" where
  "permanentlyDeleteTrashItem i =
     with_data (JObj [(''id'', JStr i)])
       (request ''post'' (FILEMANAGER_OPS_BASE @ ''/trash/delete''))"

definition emptyTrash :: api_request where
  "emptyTrash =
     with_data (JObj [])
       (request ''post'' (FILEMANAGER_OPS_BASE @ ''/trash/empty''))"

definition chmodPath :: "string \<Rightarrow> string \<Rightarrow> api_request" where
  "chmodPath path mode =
     with_data (JObj [(''path'', JStr path), (''mode'', JStr mode)])
       (request ''post'' (FILEMANAGER_OPS_BASE @ ''/chmod''))"

definition readFile :: "string \<Rightarrow> api_request" where
  "readFile path =
     with_params (Some [(''path'', JStr path)])
       (request ''get'' (FILEMANAGER_OPS_BASE @ ''/read''))"

definition writeFile :: "string \<Rightarrow> string \<Rightarrow> api_request" where
  "writeFile path content =
     with_data (JObj [(''path'', JStr path), (''content'', JStr content)])
       (request ''post'' (FILEMANAGER_OPS_BASE @ ''/write''))"

definition zipPaths :: "string list \<Rightarrow> string option \<Rightarrow> api_request" where
  "zipPaths paths destination =
     with_data (JObj [(''paths'', JArr (map JStr paths)), (''destination'', or_undefined destination)])
       (request ''post'' (FILEMANAGER_OPS_BASE @ ''/zip''))"

definition unzipPath :: "string \<Rightarrow> string option \<Rightarrow> api_request" where
  "unzipPath path destination =
     with_data (JObj [(''path'', JStr path), (''destination'', or_undefined destination)])
       (request ''post'' (FILEMANAGER_OPS_BASE @ ''/unzip''))"

text \<open>An entry of a listing, as far as the helpers read it.\<close>

record file_entry =
  fe_path :: string
  fe_name :: "string option"
  fe_type :: "string option"
  fe_hint :: "string option"

definition trashIdFromEntry :: "file_entry \<Rightarrow> string option" where
  "trashIdFromEntry e =
     (let hint = (case fe_hint e of Some h \<Rightarrow> h | None \<Rightarrow> []) in
      if starts_with hint ''trash:'' then Some (drop 6 hint) else None)"

definition trash_suffix :: string where "trash_suffix = ''.containerws/trash''"

definition isTrashPath :: "string \<Rightarrow> string option \<Rightarrow> bool" where
  "isTrashPath path homeDir =
     (if path = [] then False
      else if ends_with path (''/'' @ trash_suffix) \<or> path = ''/'' @ trash_suffix then True
      else case homeDir of
        Some h \<Rightarrow> if h \<noteq> [] then path = strip_slashes h @ ''/'' @ trash_suffix
                  else ends_with path trash_suffix
      | None \<Rightarrow> ends_with path trash_suffix)"

text \<open>A download: the request and the file name suggested to the browser.\<close>

definition last_part :: "string \<Rightarrow> string \<Rightarrow> string" where
  "last_part path dflt = (let parts = path_parts path in if parts = [] then dflt else last parts)"

definition downloadFile :: "string \<Rightarrow> api_request \<times> string" where
  "downloadFile path =
     (with_params (Some [(''path'', JStr path)]) (request ''get'' (FILEMANAGER_OPS_BASE @ ''/download'')),
      last_part path ''download'')"

text \<open>\<open>s.replace(/\.zip$/i, "")\<close>\<close>

definition strip_zip :: "string \<Rightarrow> string" where
  "strip_zip s = (if ends_with (map js_lower s) ''.zip'' then take (length s - 4) s else s)"

definition downloadEntries :: "file_entry list \<Rightarrow> (api_request \<times> string) option" where
  "downloadEntries entries =
     (let clean = filter (\<lambda>e. trim (fe_path e) \<noteq> []) entries in
      case clean of
        [] \<Rightarrow> None
      | e # rest \<Rightarrow>
          if rest = [] \<and> fe_type e \<noteq> Some ''directory'' then Some (downloadFile (fe_path e))
          else Some
            (with_data (JObj [(''paths'', JArr (map (\<lambda>e. JStr (fe_path e)) clean))])
               (request ''post'' (FILEMANAGER_OPS_BASE @ ''/download-archive'')),
             if rest = []
             then strip_zip (or_str (case fe_name e of Some n \<Rightarrow> n | None \<Rightarrow> [])
                    (last_part (fe_path e) ''folder'')) @ ''.zip''
             else ''download.zip''))"

section \<open>Facts about tabs\<close>

lemma session_keys_simps [simp]:
  "session_keys (t\<lparr>ft_active := a\<rparr>) = session_keys t"
  "session_keys (t\<lparr>ft_revision := r\<rparr>) = session_keys t"
  "session_keys (t\<lparr>ft_sessions := xs\<rparr>) = map fs_id xs"
  by (simp_all add: session_keys_def)

lemma session_keys_map [simp]:
  "(\<And>s. fs_id (f s) = fs_id s) \<Longrightarrow> session_keys (map_session i f t) = session_keys t"
  by (simp add: map_session_def session_keys_def comp_def if_distrib cong: if_cong)

lemma map_session_sel [simp]:
  "ft_active (map_session i f t) = ft_active t" "ft_revision (map_session i f t) = ft_revision t"
  by (simp_all add: map_session_def)

lemma map_session_inv:
  "(\<And>s. fs_id (f s) = fs_id s) \<Longrightarrow> tabs_inv (map_session i f t) \<longleftrightarrow> tabs_inv t"
  by (simp add: tabs_inv_def)

lemma find_index_bound: "find_index P xs = Some n \<Longrightarrow> n < length xs \<and> P (xs ! n)"
  by (induction xs arbitrary: n) (auto split: if_splits)

lemma closeSession_keys:
  assumes "1 < length (session_keys t)"
  shows "session_keys (closeSession i t) = filter (\<lambda>k. k \<noteq> i) (session_keys t)"
  using assms by (simp add: closeSession_def Let_def session_keys_def filter_map comp_def)

lemma remaining_nonempty:
  assumes "distinct ks" "1 < length ks"
  shows "filter (\<lambda>k. k \<noteq> i) ks \<noteq> []"
proof
  assume "filter (\<lambda>k. k \<noteq> i) ks = []"
  then have "set ks \<subseteq> {i}" by (auto simp: filter_empty_conv)
  then have "length ks \<le> 1" using assms(1) by (metis card_mono card_1_singleton_iff
        distinct_card finite.intros One_nat_def)
  then show False using assms(2) by simp
qed

lemma closeSession_inv:
  assumes "tabs_inv t"
  shows "tabs_inv (closeSession i t)"
proof (cases "length (ft_sessions t) \<le> 1")
  case False
  let ?next = "filter (\<lambda>s. fs_id s \<noteq> i) (ft_sessions t)"
  have len: "1 < length (session_keys t)" using False by (simp add: session_keys_def)
  have ne: "?next \<noteq> []"
    using remaining_nonempty [of "session_keys t" i] assms len
    by (auto simp: tabs_inv_def session_keys_def filter_map comp_def)
  have "fs_id (hd ?next) \<in> set (map fs_id ?next)"
    using hd_in_set [OF ne] by (simp del: set_filter)
  moreover have "fs_id (?next ! n) \<in> set (map fs_id ?next)" if "n < length ?next" for n
    using nth_mem [OF that] by (simp del: set_filter)
  moreover have "ft_active t \<in> set (map fs_id ?next)" if "i \<noteq> ft_active t"
    using that assms by (auto simp: tabs_inv_def session_keys_def)
  moreover have "distinct (map fs_id ?next)"
    using assms by (simp add: tabs_inv_def session_keys_def distinct_map_filter)
  ultimately show ?thesis
    using False unfolding closeSession_def tabs_inv_def Let_def
    by (cases "i = ft_active t") (simp_all del: set_map set_filter)
qed (simp add: closeSession_def assms)

lemma load_inv:
  assumes "\<And>xs. stored = SessionList xs \<Longrightarrow> distinct (map fs_id xs)"
  shows "tabs_inv (storageSessions i stored a t)"
proof -
  have "fs_id s \<in> set (map fs_id xs)" if "find P xs = Some s" for P s and xs :: "file_session list"
    using that by (auto simp: find_Some_iff)
  then show ?thesis
    using assms
    by (auto simp: storageSessions_def loadSessions_def tabs_inv_def home_session_def Let_def
        find_Some_iff split: stored_sessions.splits list.splits option.splits)
qed

lemma tabs_apply_inv: "tabs_inv t \<Longrightarrow> tabs_ok e t \<Longrightarrow> tabs_inv (tabs_apply e t)"
proof (cases e)
  case (StorageSessions i st a)
  assume "tabs_ok e t"
  then show ?thesis using StorageSessions by (cases st) (auto intro: load_inv)
next
  case (CloseSession i)
  assume "tabs_inv t"
  then show ?thesis using CloseSession by (simp add: closeSession_inv)
next
  case (AddSession i p)
  assume "tabs_inv t" "tabs_ok e t"
  then show ?thesis using AddSession by (simp add: addSession_def tabs_inv_def session_keys_def)
qed (auto simp: setActivePath_def switchSession_def addSession_def bumpRevision_def markSeen_def
    storageRevision_def tabs_inv_def)

interpretation file_tabs: guarded_machine tabs_apply tabs_ok tabs_inv
  by unfold_locales (rule tabs_apply_inv)

interpretation file_tab_keys: keyed_tabs session_keys "\<lambda>t. Some (ft_active t)" closeSession tabs_inv
  by unfold_locales
    (auto simp: closeSession_inv closeSession_keys, auto simp: tabs_inv_def closeSession_def Let_def)

lemma find_index_append:
  "\<forall>x \<in> set as. \<not> P x \<Longrightarrow> P s \<Longrightarrow> find_index P (as @ s # bs) = Some (length as)"
  by (induction as) auto

text \<open>Whatever was stored, and whatever tabs are opened, closed, switched to or loaded from another
window afterwards, the tabs of the file manager have distinct ids and the active one is among
them: the last tab is never closed and no folder is shown for a tab that is gone.\<close>

theorem file_tabs_reachable_wf:
  assumes "\<And>xs. stored = SessionList xs \<Longrightarrow> distinct (map fs_id xs)"
    and "admissible tabs_ok tabs_apply es (storageSessions newId stored active t)"
  shows "tabs_inv (fold tabs_apply es (storageSessions newId stored active t))"
  using file_tabs.run_inv [OF load_inv assms(2)] assms(1) by blast

theorem file_tabs_reachable_wf_witness:
  "tabs_inv (fold tabs_apply [AddSession ''b'' ''/srv'', CloseSession ''a'', CloseSession ''b'']
     (storageSessions ''a'' NoText None \<lparr>ft_sessions = [], ft_active = [], ft_revision = 0\<rparr>))"
  by (rule file_tabs_reachable_wf)
    (simp_all add: storageSessions_def loadSessions_def home_session_def session_keys_def Let_def)

text \<open>Closing the active tab keeps the others in order and activates its left neighbour, or the
first of the others when it was the leftmost.\<close>

theorem close_active_file_tab:
  assumes "tabs_inv t" "ft_sessions t = as @ s # bs" "ft_active t = fs_id s" "as @ bs \<noteq> []"
  shows "ft_sessions (closeSession (fs_id s) t) = as @ bs \<and>
         ft_active (closeSession (fs_id s) t) = fs_id (if as = [] then hd bs else last as)"
proof -
  have d: "\<forall>x \<in> set as. fs_id x \<noteq> fs_id s" "\<forall>x \<in> set bs. fs_id x \<noteq> fs_id s"
    using assms(1,2) by (simp_all add: tabs_inv_def session_keys_def image_iff) metis+
  have n: "filter (\<lambda>x. fs_id x \<noteq> fs_id s) (as @ s # bs) = as @ bs"
    using d by (simp add: filter_id_conv)
  have i: "find_index (\<lambda>x. fs_id x = fs_id s) (as @ s # bs) = Some (length as)"
    using d by (intro find_index_append) auto
  have l: "\<not> length (as @ s # bs) \<le> 1" using assms(4) by (cases as) auto
  have "(as @ bs) ! (length as - 1) = (if as = [] then hd bs else last as)"
    using assms(4) by (cases as) (auto simp: hd_conv_nth nth_append last_conv_nth)
  moreover have "length as - 1 < length (as @ bs)"
    using assms(4) by (cases as) auto
  ultimately show ?thesis
    using l unfolding closeSession_def assms(2,3) Let_def n i by (simp add: hd_conv_nth)
qed

theorem close_active_file_tab_witness:
  "ft_active (closeSession ''b'' \<lparr>ft_sessions = [home_session ''a'', home_session ''b''],
     ft_active = ''b'', ft_revision = 0\<rparr>) = ''a''"
  using close_active_file_tab [of "\<lparr>ft_sessions = [home_session ''a'', home_session ''b''],
     ft_active = ''b'', ft_revision = 0\<rparr>" "[home_session ''a'']" "home_session ''b''" "[]"]
  by (simp add: tabs_inv_def session_keys_def home_session_def)

text \<open>
  The code asks for the label ''Home'' where \<open>tabLabel\<close> gives none, but it always gives one: the
  home folder, whose path is empty, is labelled with a slash once it was navigated to.
\<close>

lemma tab_label_never_home:
  "or_str (tabLabel path) ''Home'' = tabLabel path \<and>
   (\<exists>s \<in> set (ft_sessions (addSession newId [] t)). fs_id s = newId \<and> fs_label s = ''/'')"
proof -
  have "last (path_parts s) \<noteq> []" if "path_parts s \<noteq> []" for s
    using last_in_set [OF that] by (simp add: path_parts_def)
  then have "tabLabel path \<noteq> []" for path by (auto simp: tabLabel_def Let_def)
  then show ?thesis by (auto simp: or_str_def addSession_def tabLabel_def)
qed

section \<open>Facts about the clipboard\<close>

lemma as_string_list: "List.map_filter as_string (map JStr ps) = ps"
  by (induction ps) (simp_all add: List.map_filter_simps)

lemma read_written_clipboard:
  assumes "cb_paths c \<noteq> []"
  shows "readClipboard (Some (stringify (clipboard_jv c))) = Some c"
  using assms
  by (cases c; cases "cb_mode c")
    (simp_all add: readClipboard_def stringify_def clipboard_jv_def mode_name_def oget_def comp_def
      as_string_list)

lemma js_unique_Nil [simp]: "js_unique xs = [] \<longleftrightarrow> xs = []"
  by (simp add: js_unique_def)

lemma clipboard_set_read:
  assumes "readClipboard (snd s) = fst s"
  shows "readClipboard (snd (copyPaths ps s)) = fst (copyPaths ps s)"
    and "readClipboard (snd (cutPaths ps s)) = fst (cutPaths ps s)"
    and "readClipboard (snd (clearClipboard s)) = fst (clearClipboard s)"
  using assms
  by (simp_all add: copyPaths_def cutPaths_def clearClipboard_def setClipboard_def Let_def
      read_written_clipboard readClipboard_def [of None])

text \<open>The clipboard shown and the one in the session storage agree after every copy, cut and
clear, so a reload of the page keeps it; a copy of some path holds the paths without blanks and
duplicates, in order.\<close>

theorem clipboard_roundtrip:
  assumes "readClipboard (snd s) = fst s"
    and "\<exists>p \<in> set paths. p \<noteq> []"
  shows "readClipboard (snd (copyPaths paths s)) = fst (copyPaths paths s) \<and>
         readClipboard (snd (cutPaths paths s)) = fst (cutPaths paths s) \<and>
         readClipboard (snd (clearClipboard s)) = None \<and>
         fst (copyPaths paths s) =
           Some \<lparr>cb_mode = CopyMode, cb_paths = js_unique (filter (\<lambda>p. p \<noteq> []) paths)\<rparr>"
proof -
  have "filter (\<lambda>p. p \<noteq> []) paths \<noteq> []" using assms(2) by (simp add: filter_empty_conv)
  then have "fst (copyPaths paths s) =
      Some \<lparr>cb_mode = CopyMode, cb_paths = js_unique (filter (\<lambda>p. p \<noteq> []) paths)\<rparr>"
    by (simp add: copyPaths_def setClipboard_def Let_def)
  moreover have "fst (clearClipboard s) = None"
    by (simp add: clearClipboard_def setClipboard_def)
  ultimately show ?thesis
    using clipboard_set_read [OF assms(1)] by simp
qed

theorem clipboard_roundtrip_witness:
  "readClipboard (snd (copyPaths [''/a'', '''', ''/b'', ''/a''] (None, None))) =
     Some \<lparr>cb_mode = CopyMode, cb_paths = [''/a'', ''/b'']\<rparr>"
  using clipboard_roundtrip [of "(None, None)" "[''/a'', '''', ''/b'', ''/a'']"]
  by (simp add: readClipboard_def js_unique_def)

section \<open>Facts about the terminal\<close>

text \<open>
  What a POSIX shell reads: one word from a position inside or outside single quotes, with the
  rest of the line, and the words of a line. The expansions a shell makes outside quotes are not
  among what is read here.
\<close>

definition sh_blank :: "char \<Rightarrow> bool" where
  "sh_blank c \<longleftrightarrow> c = CHR '' '' \<or> c = CHR 9"

fun sh_word :: "bool \<Rightarrow> string \<Rightarrow> (string \<times> string) option" where
  "sh_word True [] = None"
| "sh_word True (c # s) =
     (if c = CHR 39 then sh_word False s else map_option (apfst ((#) c)) (sh_word True s))"
| "sh_word False [] = Some ([], [])"
| "sh_word False (c # s) =
     (if c = CHR 39 then sh_word True s
      else if c = CHR 92 then
        (case s of [] \<Rightarrow> None | d # r \<Rightarrow> map_option (apfst ((#) d)) (sh_word False r))
      else if sh_blank c then Some ([], c # s)
      else map_option (apfst ((#) c)) (sh_word False s))"

function sh_words :: "string \<Rightarrow> string list option" where
  "sh_words [] = Some []"
| "sh_words (c # s) =
     (if sh_blank c then sh_words s
      else (case sh_word False (c # s) of
              None \<Rightarrow> None
            | Some (w, r) \<Rightarrow>
                if length r \<le> length s then map_option ((#) w) (sh_words r) else None))"
  by pat_completeness auto
termination by (relation "measure length") auto

lemma sh_word_quoted:
  "sh_word True (replace_char (CHR 39) [CHR 39, CHR 92, CHR 39, CHR 39] v @ CHR 39 # r) =
     map_option (apfst ((@) v)) (sh_word False r)"
  by (induction v)
    (simp_all add: replace_char_def option.map_comp comp_def apfst_def map_prod_def
      option.map_ident split_beta)

lemma quoted_words: "sh_words (shellSingleQuote v) = Some [v]"
  by (simp add: shellSingleQuote_def sh_blank_def sh_word_quoted)

lemma cd_words: "sh_words (''cd -- '' @ shellSingleQuote v) = Some [''cd'', ''--'', v]"
  by (simp add: sh_blank_def quoted_words)

lemma tryInject_result:
  assumes "n < maxAttempts"
  shows "tryInject delivered payload n =
           (if \<exists>k \<in> {n<..maxAttempts}. delivered k then \<lparr>in_sent = [payload], in_error = False\<rparr>
            else \<lparr>in_sent = [], in_error = True\<rparr>)"
  using assms
proof (induction delivered payload n rule: tryInject.induct)
  case (1 delivered payload n)
  have split: "{n<..maxAttempts} = insert (n + 1) {n + 1<..maxAttempts}"
    using 1(2) by auto
  show ?case
  proof (cases "delivered (n + 1) \<or> maxAttempts \<le> n + 1")
    case True
    then show ?thesis unfolding split tryInject.simps [of delivered payload n] by auto
  next
    case False
    then show ?thesis
      using 1(1) [OF refl] unfolding split tryInject.simps [of delivered payload n] by simp
  qed
qed

text \<open>Opening a folder in the terminal sends at most one command, and one that a shell reads as
the words cd, -- and the trimmed path, whatever characters the path has; it is sent when the
terminal takes it within 40 attempts, and otherwise the user is told.\<close>

theorem open_folder_in_terminal:
  "let target = trim path;
       r = openFolderInTerminal delivered path;
       ready = (\<exists>k \<in> {1..40}. delivered k)
   in (in_error r \<longleftrightarrow> target \<noteq> [] \<and> \<not> ready) \<and>
      (\<exists>cmd. in_sent r = (if target \<noteq> [] \<and> ready then [cmd @ [CHR 13]] else []) \<and>
             sh_words cmd = Some [''cd'', ''--'', target])"
proof -
  have "{0<..maxAttempts} = {1..40}" by (auto simp: maxAttempts_def)
  then have "tryInject delivered p 0 =
      (if \<exists>k \<in> {1..40}. delivered k then \<lparr>in_sent = [p], in_error = False\<rparr>
       else \<lparr>in_sent = [], in_error = True\<rparr>)" for p
    using tryInject_result [of 0 delivered p] by (simp add: maxAttempts_def)
  then show ?thesis
    unfolding openFolderInTerminal_def Let_def
    by (intro conjI exI [of _ "''cd -- '' @ shellSingleQuote (trim path)"] cd_words) simp_all
qed

end
