(* ===== verification/File_Browser.thy ===== *)
theory File_Browser
  imports File_Manager "HOL-Library.Sorting_Algorithms"
begin

text \<open>
  The page of the file manager, \<open>modules/filemanager/pages/browser/index.tsx\<close>: which folder it
  shows, how a listing is filtered and sorted, the selection, the dialogs, and the requests that
  menus, dialogs and keys send. The page is a state machine over the events of its handlers; the
  tabs and the clipboard are those of \<open>File_Manager\<close>. A handler answers with the new state and
  the list of what it sends or shows.
\<close>

section \<open>Listings\<close>

record dir_entry =
  de_name :: string
  de_path :: string
  de_type :: string
  de_size :: rat
  de_mode :: string
  de_mode_octal :: string
  de_mod_time :: string
  de_owner :: "string option"
  de_group :: "string option"
  de_writable :: bool
  de_hint :: "string option"

text \<open>\<open>ListResult\<close>, as far as the page reads it; \<open>dl_home\<close> is the home folder of its user.\<close>

record dir_listing =
  dl_path :: string
  dl_parent :: "string option"
  dl_entries :: "dir_entry list"
  dl_home :: string

definition as_file_entry :: "dir_entry \<Rightarrow> file_entry" where
  "as_file_entry e =
     \<lparr>fe_path = de_path e, fe_name = Some (de_name e), fe_type = Some (de_type e),
      fe_hint = de_hint e\<rparr>"

text \<open>The id of an entry of the trash, unless it is empty (the code tests it for being truthy).\<close>

definition trash_id :: "dir_entry \<Rightarrow> string option" where
  "trash_id e =
     (case trashIdFromEntry (as_file_entry e) of
        Some i \<Rightarrow> if i \<noteq> [] then Some i else None
      | None \<Rightarrow> None)"

section \<open>Paths\<close>

text \<open>\<open>s.replace(/\/+/g, "/")\<close>\<close>

fun squeeze :: "char \<Rightarrow> string \<Rightarrow> string" where
  "squeeze c [] = []"
| "squeeze c [x] = [x]"
| "squeeze c (x # y # s) = (if x = c \<and> y = c then squeeze c (y # s) else x # squeeze c (y # s))"

definition normalizePathInput :: "string \<Rightarrow> string" where
  "normalizePathInput raw =
     (let trimmed = trim raw in
      if trimmed = [] then ''/''
      else (let withSlash = (if starts_with trimmed ''/'' then trimmed else ''/'' @ trimmed);
                clean = squeeze (CHR ''/'') withSlash
            in if length clean > 1 \<and> ends_with clean ''/'' then butlast clean
               else or_str clean ''/''))"

text \<open>A crumb is a label and the folder it leads to.\<close>

fun crumbs_from :: "string \<Rightarrow> string list \<Rightarrow> (string \<times> string) list" where
  "crumbs_from acc [] = []"
| "crumbs_from acc (part # parts) =
     (let acc' = acc @ ''/'' @ part in (part, acc') # crumbs_from acc' parts)"

definition splitPath :: "string \<Rightarrow> (string \<times> string) list" where
  "splitPath path =
     (let clean = (if path = ''/'' then ''/'' else strip_slashes path) in
      if clean = ''/'' then [(''/'', ''/'')]
      else (''/'', ''/'') # crumbs_from [] (path_parts clean))"

definition joinPath :: "string \<Rightarrow> string \<Rightarrow> string" where
  "joinPath dir name =
     (if dir = ''/'' then ''/'' @ name else strip_slashes dir @ ''/'' @ name)"

section \<open>Which files open in the editor\<close>

definition text_extensions :: "string list" where
  "text_extensions =
     [''txt'', ''md'', ''markdown'', ''rst'', ''log'', ''json'', ''jsonc'', ''yml'', ''yaml'',
      ''toml'', ''xml'', ''csv'', ''tsv'', ''sql'', ''go'', ''ts'', ''tsx'', ''js'', ''jsx'',
      ''mjs'', ''cjs'', ''py'', ''rb'', ''rs'', ''c'', ''h'', ''cpp'', ''cc'', ''hpp'', ''java'',
      ''kt'', ''swift'', ''sh'', ''bash'', ''zsh'', ''fish'', ''ps1'', ''bat'', ''cmd'', ''env'',
      ''conf'', ''cfg'', ''ini'', ''properties'', ''service'', ''timer'', ''htm'', ''html'',
      ''css'', ''scss'', ''less'', ''sass'', ''svg'', ''vue'', ''svelte'', ''astro'', ''php'',
      ''lua'', ''r'', ''pl'', ''pm'', ''tf'', ''hcl'', ''proto'', ''graphql'', ''gql'',
      ''dockerfile'', ''makefile'', ''mk'', ''cmake'', ''gradle'', ''mod'', ''sum'', ''lock'',
      ''nix'', ''ex'', ''exs'', ''erl'', ''hrl'', ''clj'', ''edn'', ''zig'', ''nim'', ''dart'',
      ''scala'', ''groovy'', ''vim'', ''el'', ''tex'', ''bib'', ''org'', ''adoc'', ''textile'',
      ''wiki'', ''pem'', ''crt'', ''key'', ''pub'', ''known_hosts'', ''htaccess'']"

definition text_basenames :: "string list" where
  "text_basenames =
     [''dockerfile'', ''makefile'', ''gnumakefile'', ''cmakelists.txt'', ''license'',
      ''licence'', ''readme'', ''changelog'', ''authors'', ''copying'', ''gemfile'',
      ''rakefile'', ''procfile'', ''vagrantfile'', ''.gitignore'', ''.gitattributes'',
      ''.dockerignore'', ''.editorconfig'', ''.npmrc'', ''.nvmrc'', ''.env'', ''.bashrc'',
      ''.zshrc'', ''.profile'', ''.gitconfig'']"

text \<open>\<open>/^\.env\..+$/i\<close>; \<open>.\<close> stands for no line end.\<close>

definition env_basename :: "string \<Rightarrow> bool" where
  "env_basename s \<longleftrightarrow>
     starts_with s ''.env.'' \<and> length s > 5 \<and>
     list_all (\<lambda>c. char_code c \<noteq> 10 \<and> char_code c \<noteq> 13) (drop 5 s)"

definition isTextEditableFile :: "dir_entry \<Rightarrow> bool" where
  "isTextEditableFile e =
     (let hint = (case de_hint e of Some h \<Rightarrow> h | None \<Rightarrow> []) in
      if de_type e = ''directory'' then False
      else if hint = ''text'' then True
      else if hint \<noteq> [] \<and> hint \<noteq> ''binary'' \<and> hint \<noteq> ''text'' then False
      else (let base = map js_lower (or_str (last (js_split ''/'' (de_name e))) (de_name e)) in
            base \<in> set text_basenames \<or> env_basename base \<or>
            list_ex (\<lambda>x. ends_with base (''.'' @ x)) text_extensions))"

definition isZipArchive :: "dir_entry \<Rightarrow> bool" where
  "isZipArchive e \<longleftrightarrow> de_type e \<noteq> ''directory'' \<and> ends_with (map js_lower (de_name e)) ''.zip''"

section \<open>Searching and sorting\<close>

datatype sort_key = ByName | BySize | ByModified | ByOwner | ByMode
datatype sort_dir = Asc | Desc

text \<open>
  The sign of a difference. \<open>String.prototype.localeCompare\<close> depends on the locale of the browser
  and \<open>Date.parse\<close> on its date formats: both are arguments, the first one as a comparator of the
  library, which carries its documented laws; no date is \<open>NaN\<close>, here \<open>None\<close>.
\<close>

definition sign_of :: "rat \<Rightarrow> comp" where
  "sign_of x = (if x < 0 then Less else if x > 0 then Greater else Equiv)"

definition mul_sign :: "sort_dir \<Rightarrow> comp \<Rightarrow> comp" where
  "mul_sign d c =
     (if d = Asc then c
      else (case c of Less \<Rightarrow> Greater | Greater \<Rightarrow> Less | Equiv \<Rightarrow> Equiv))"

definition dirRank :: "dir_entry \<Rightarrow> rat" where
  "dirRank e = (if de_type e = ''directory'' then 0 else 1)"

definition opt_or :: "string option \<Rightarrow> string" where
  "opt_or x = (case x of Some s \<Rightarrow> s | None \<Rightarrow> [])"

definition sort_size :: "dir_entry \<Rightarrow> rat" where
  "sort_size e = (if de_type e = ''directory'' then -1 else de_size e)"

definition sort_time :: "(string \<Rightarrow> rat option) \<Rightarrow> dir_entry \<Rightarrow> rat" where
  "sort_time parseDate e = (case parseDate (de_mod_time e) of Some t \<Rightarrow> t | None \<Rightarrow> 0)"

definition sort_owner :: "dir_entry \<Rightarrow> string" where
  "sort_owner e = opt_or (de_owner e) @ '':'' @ opt_or (de_group e)"

definition sort_mode :: "dir_entry \<Rightarrow> string" where
  "sort_mode e = or_str (de_mode_octal e) (de_mode e)"

definition cmpEntries ::
  "string comparator \<Rightarrow> (string \<Rightarrow> rat option) \<Rightarrow> sort_key \<Rightarrow> sort_dir \<Rightarrow>
     dir_entry \<Rightarrow> dir_entry \<Rightarrow> comp" where
  "cmpEntries collate parseDate sortKey sortDir a b =
     (let cmpText = compare collate;
          byType = sign_of (dirRank a - dirRank b)
      in if sortKey = ByName
         then (if byType \<noteq> Equiv then byType
               else mul_sign sortDir (cmpText (de_name a) (de_name b)))
         else (let primary = (case sortKey of
                     BySize \<Rightarrow> sign_of (sort_size a - sort_size b)
                   | ByModified \<Rightarrow> sign_of (sort_time parseDate a - sort_time parseDate b)
                   | ByOwner \<Rightarrow> cmpText (sort_owner a) (sort_owner b)
                   | ByMode \<Rightarrow> cmpText (sort_mode a) (sort_mode b)
                   | ByName \<Rightarrow> Equiv)
               in if primary \<noteq> Equiv then mul_sign sortDir primary
                  else if byType \<noteq> Equiv then byType
                  else cmpText (de_name a) (de_name b)))"

definition matches_search :: "string \<Rightarrow> dir_entry \<Rightarrow> bool" where
  "matches_search q e \<longleftrightarrow>
     str_includes (map js_lower (de_name e)) q \<or>
     (case de_owner e of Some w \<Rightarrow> str_includes (map js_lower w) q | None \<Rightarrow> False) \<or>
     str_includes (map js_lower (de_mode e)) q"

definition search_entries :: "string \<Rightarrow> dir_entry list \<Rightarrow> dir_entry list" where
  "search_entries search entries =
     (let q = map js_lower (trim search) in
      if q \<noteq> [] then filter (matches_search q) entries else entries)"

text \<open>
  The comparison is a comparator: it is a lexicographic combination of comparators. Sorting with
  it is the stable sort of the library, as \<open>Array.prototype.sort\<close> is.
\<close>

definition num_order :: "('a \<Rightarrow> rat) \<Rightarrow> 'a comparator" where
  "num_order f = key f default"

definition directed :: "sort_dir \<Rightarrow> 'a comparator \<Rightarrow> 'a comparator" where
  "directed d c = (if d = Asc then c else reversed c)"

definition then_by :: "'a comparator \<Rightarrow> 'a comparator \<Rightarrow> 'a comparator" where
  "then_by c d = key (\<lambda>x. (x, x)) (prod_lex c d)"

definition entry_order ::
  "string comparator \<Rightarrow> (string \<Rightarrow> rat option) \<Rightarrow> sort_key \<Rightarrow> sort_dir \<Rightarrow>
     dir_entry comparator" where
  "entry_order collate parseDate sortKey sortDir =
     (let byType = num_order dirRank; byName = key de_name collate in
      case sortKey of
        ByName \<Rightarrow> then_by byType (directed sortDir byName)
      | BySize \<Rightarrow> then_by (directed sortDir (num_order sort_size)) (then_by byType byName)
      | ByModified \<Rightarrow>
          then_by (directed sortDir (num_order (sort_time parseDate))) (then_by byType byName)
      | ByOwner \<Rightarrow> then_by (directed sortDir (key sort_owner collate)) (then_by byType byName)
      | ByMode \<Rightarrow> then_by (directed sortDir (key sort_mode collate)) (then_by byType byName))"

lemma mul_sign_Equiv [simp]: "mul_sign d c = Equiv \<longleftrightarrow> c = Equiv"
  by (cases c) (auto simp: mul_sign_def)

lemma compare_swap: "compare c b a = mul_sign Desc (compare c a b)"
proof (cases "compare c a b")
  case Less
  then show ?thesis using compare.greater_iff_sym_less [of c b a] by (simp add: mul_sign_def)
next
  case Equiv
  then show ?thesis using compare.sym [of c a b] by (simp add: mul_sign_def)
next
  case Greater
  then show ?thesis using compare.greater_iff_sym_less [of c a b] by (simp add: mul_sign_def)
qed

lemma compare_num_order: "compare (num_order f) a b = sign_of (f a - f b)"
proof (cases "f a" "f b" rule: linorder_cases)
  case less
  then have "compare default (f a) (f b) = Less" by simp
  then show ?thesis using less by (simp add: num_order_def sign_of_def)
next
  case equal
  then have "compare default (f a) (f b) = Equiv" by simp
  then show ?thesis using equal by (simp add: num_order_def sign_of_def)
next
  case greater
  then have "compare default (f a) (f b) = Greater" by simp
  then show ?thesis using greater by (simp add: num_order_def sign_of_def)
qed

lemma compare_directed: "compare (directed d c) a b = mul_sign d (compare c a b)"
  by (cases d) (simp_all add: directed_def mul_sign_def [of Asc] compare_swap [of c b a])

lemma compare_then_by:
  "compare (then_by c d) a b =
     (if compare c a b \<noteq> Equiv then compare c a b else compare d a b)"
  by (simp add: then_by_def compare_prod_lex_apply split: comp.split)

theorem entry_order_compares:
  "compare (entry_order collate parseDate k d) = cmpEntries collate parseDate k d"
  by (cases k) (auto simp: fun_eq_iff entry_order_def cmpEntries_def Let_def compare_then_by
      compare_directed compare_num_order)

definition sortedEntries ::
  "string comparator \<Rightarrow> (string \<Rightarrow> rat option) \<Rightarrow> string \<Rightarrow> sort_key \<Rightarrow> sort_dir \<Rightarrow>
     dir_entry list \<Rightarrow> dir_entry list" where
  "sortedEntries collate parseDate search sortKey sortDir entries =
     Sorting_Algorithms.sort (entry_order collate parseDate sortKey sortDir)
       (search_entries search entries)"

section \<open>The state of the page\<close>

datatype dialog_kind = DMkdir | DCreate | DRename | DMove | DCopy | DChmod | DEdit | DDelete
  | DEmptyTrash

record browser =
  br_tabs :: file_tabs
  br_clip :: clipboard_state
  br_path :: string
  br_hidden :: bool
  br_search :: string
  br_selected :: "string list"
  br_dialog :: "dialog_kind option"
  br_target :: "dir_entry option"
  br_opPaths :: "string list option"
  br_name :: string
  br_dest :: string
  br_mode :: string
  br_content :: string
  br_baseline :: string
  br_truncated :: bool
  br_editable :: bool
  br_pathEditing :: bool
  br_pathDraft :: string
  br_sortKey :: sort_key
  br_sortDir :: sort_dir
  br_data :: "dir_listing option"

text \<open>
  \<open>br_data\<close> is what the page shows: the listing of the current folder once it has arrived, and until
  then the listing shown before, which the query keeps as a placeholder. \<open>br_selected\<close> is a \<open>Set\<close>
  in insertion order.
\<close>

definition initial_browser :: "file_tabs \<Rightarrow> clipboard_state \<Rightarrow> browser" where
  "initial_browser tabs clip =
     \<lparr>br_tabs = tabs, br_clip = clip, br_path = fs_path (active_session tabs), br_hidden = False,
      br_search = [], br_selected = [], br_dialog = None, br_target = None, br_opPaths = None,
      br_name = [], br_dest = [], br_mode = ''0644'', br_content = [], br_baseline = [],
      br_truncated = False, br_editable = False, br_pathEditing = False, br_pathDraft = [],
      br_sortKey = ByName, br_sortDir = Asc, br_data = None\<rparr>"

text \<open>What a handler sends, or shows in a toast.\<close>

datatype page_effect =
    Send api_request
  | Download "api_request \<times> string"
  | Upload string string
  | OpenTerminal string
  | Refetch
  | ToastSuccess string
  | ToastWarning string
  | ToastError string

definition br_entries :: "browser \<Rightarrow> dir_entry list" where
  "br_entries b = (case br_data b of Some d \<Rightarrow> dl_entries d | None \<Rightarrow> [])"

definition currentPath :: "browser \<Rightarrow> string" where
  "currentPath b =
     or_str (or_str (br_path b) (case br_data b of Some d \<Rightarrow> dl_path d | None \<Rightarrow> [])) ''/''"

definition inTrash :: "browser \<Rightarrow> bool" where
  "inTrash b = isTrashPath (currentPath b) (map_option dl_home (br_data b))"

definition destDefault :: "browser \<Rightarrow> string" where
  "destDefault b = or_str (opt_or (Option.bind (br_data b) dl_parent)) (currentPath b)"

section \<open>Moving around\<close>

definition navigateTo :: "string \<Rightarrow> browser \<Rightarrow> browser" where
  "navigateTo p b =
     (let normalized = normalizePathInput p in
      b\<lparr>br_path := normalized, br_tabs := setActivePath normalized (br_tabs b), br_selected := [],
        br_search := [], br_pathEditing := False\<rparr>)"

text \<open>
  \<open>markSeen\<close> runs in the same handler as \<open>switchSession\<close>, so it is the one of the last render and
  marks the tab that was active then.
\<close>

definition switchToSession :: "string \<Rightarrow> browser \<Rightarrow> browser \<times> page_effect list" where
  "switchToSession i b =
     (case find (\<lambda>s. fs_id s = i) (ft_sessions (br_tabs b)) of
        None \<Rightarrow> (b, [])
      | Some session \<Rightarrow>
          (let tabs = br_tabs b;
               b1 = b\<lparr>br_tabs := switchSession i tabs, br_path := fs_path session,
                      br_selected := [], br_search := [], br_pathEditing := False\<rparr>
           in if fs_seen session < ft_revision tabs
              then (b1\<lparr>br_tabs := map_session (ft_active tabs)
                         (\<lambda>s. s\<lparr>fs_seen := ft_revision tabs\<rparr>) (br_tabs b1)\<rparr>, [Refetch])
              else (b1, [])))"

definition onAddTab :: "string \<Rightarrow> browser \<Rightarrow> browser" where
  "onAddTab newId b =
     b\<lparr>br_tabs := addSession newId [] (br_tabs b), br_path := [], br_selected := [],
       br_search := [], br_pathEditing := False\<rparr>"

text \<open>The handler of a tab's close button computes the next tab on its own.\<close>

definition onCloseTab :: "string \<Rightarrow> browser \<Rightarrow> browser" where
  "onCloseTab i b =
     (let xs = ft_sessions (br_tabs b);
          closing = find (\<lambda>s. fs_id s = i) xs;
          idx = (case find_index (\<lambda>s. fs_id s = i) xs of Some n \<Rightarrow> n - 1 | None \<Rightarrow> 0);
          wasActive = (i = ft_active (br_tabs b));
          b1 = b\<lparr>br_tabs := closeSession i (br_tabs b)\<rparr>
      in if \<not> wasActive then b1
         else (let remaining = filter (\<lambda>s. fs_id s \<noteq> i) xs;
                   chosen = (if idx < length remaining then Some (remaining ! idx)
                             else if remaining \<noteq> [] then Some (hd remaining) else closing)
               in case chosen of
                    Some n \<Rightarrow> if fs_id n \<noteq> i then b1\<lparr>br_path := fs_path n, br_selected := []\<rparr>
                              else b1
                  | None \<Rightarrow> b1))"

definition startPathEdit :: "browser \<Rightarrow> browser" where
  "startPathEdit b = b\<lparr>br_pathDraft := currentPath b, br_pathEditing := True\<rparr>"

definition commitPathEdit :: "browser \<Rightarrow> browser" where
  "commitPathEdit b = navigateTo (br_pathDraft b) b"

definition cancelPathEdit :: "browser \<Rightarrow> browser" where
  "cancelPathEdit b = b\<lparr>br_pathEditing := False, br_pathDraft := currentPath b\<rparr>"

definition toggleSort :: "sort_key \<Rightarrow> browser \<Rightarrow> browser" where
  "toggleSort k b =
     (if br_sortKey b = k then b\<lparr>br_sortDir := (if br_sortDir b = Asc then Desc else Asc)\<rparr>
      else b\<lparr>br_sortKey := k, br_sortDir := (if k = ByName then Asc else Desc)\<rparr>)"

definition toggleSelect :: "string \<Rightarrow> browser \<Rightarrow> browser" where
  "toggleSelect p b =
     b\<lparr>br_selected := (if p \<in> set (br_selected b) then removeAll p (br_selected b)
                       else br_selected b @ [p])\<rparr>"

text \<open>
  The check box in the head of the list takes the entries that match the search, in the order
  \<open>shown\<close>, which is \<open>sortedEntries\<close> of the last render.
\<close>

definition selectShown :: "bool \<Rightarrow> dir_entry list \<Rightarrow> browser \<Rightarrow> browser" where
  "selectShown v shown b = b\<lparr>br_selected := (if v then js_unique (map de_path shown) else [])\<rparr>"

definition invalidate :: "browser \<Rightarrow> browser \<times> page_effect list" where
  "invalidate b = (b\<lparr>br_tabs := bumpRevision (br_tabs b)\<rparr>, [Refetch])"

text \<open>The effect that refreshes the active tab when another one has changed something.\<close>

definition seenEffect :: "browser \<Rightarrow> browser \<times> page_effect list" where
  "seenEffect b =
     (if needsRefresh (br_tabs b) then (b\<lparr>br_tabs := markSeen (br_tabs b)\<rparr>, [Refetch]) else (b, []))"

section \<open>Dialogs\<close>

definition closeDialog :: "browser \<Rightarrow> browser" where
  "closeDialog b =
     b\<lparr>br_dialog := None, br_target := None, br_opPaths := None, br_name := [], br_dest := [],
       br_content := [], br_baseline := [], br_editable := False\<rparr>"

definition openEdit :: "dir_entry \<Rightarrow> browser \<Rightarrow> browser \<times> page_effect list" where
  "openEdit e b = (b, [Send (readFile (de_path e))])"

text \<open>The rest of \<open>openEdit\<close>, when the file has been read.\<close>

definition fileRead :: "dir_entry \<Rightarrow> string \<Rightarrow> bool \<Rightarrow> browser \<Rightarrow> browser" where
  "fileRead e content truncated b =
     b\<lparr>br_target := Some e, br_content := content, br_baseline := content,
       br_truncated := truncated, br_editable := (\<not> truncated \<and> de_writable e),
       br_dialog := Some DEdit\<rparr>"

definition openEntry :: "dir_entry \<Rightarrow> browser \<Rightarrow> browser \<times> page_effect list" where
  "openEntry e b =
     (if inTrash b \<or> trash_id e \<noteq> None then (b, [])
      else if de_type e = ''directory'' then (navigateTo (de_path e) b, [])
      else if de_type e = ''symlink'' then (navigateTo (de_path e) b, [])
      else if isTextEditableFile e then openEdit e b
      else (b, [Download (downloadFile (de_path e))]))"

definition newItem :: "dialog_kind \<Rightarrow> browser \<Rightarrow> browser" where
  "newItem k b = b\<lparr>br_dialog := Some k, br_name := []\<rparr>"

definition openRename :: "dir_entry \<Rightarrow> browser \<Rightarrow> browser" where
  "openRename e b =
     b\<lparr>br_target := Some e, br_opPaths := Some [de_path e], br_name := de_name e,
       br_dialog := Some DRename\<rparr>"

definition openMove :: "dir_entry \<Rightarrow> string list \<Rightarrow> browser \<Rightarrow> browser" where
  "openMove e paths b =
     b\<lparr>br_target := Some e, br_opPaths := Some paths, br_dest := destDefault b,
       br_dialog := Some DMove\<rparr>"

definition openCopy :: "dir_entry \<Rightarrow> string list \<Rightarrow> browser \<Rightarrow> browser" where
  "openCopy e paths b =
     b\<lparr>br_target := Some e, br_opPaths := Some paths, br_dest := currentPath b,
       br_dialog := Some DCopy\<rparr>"

definition openChmod :: "dir_entry \<Rightarrow> string list \<Rightarrow> browser \<Rightarrow> browser" where
  "openChmod e paths b =
     b\<lparr>br_target := Some e, br_opPaths := Some paths, br_mode := or_str (de_mode_octal e) ''0644'',
       br_dialog := Some DChmod\<rparr>"

definition openDelete :: "dir_entry option \<Rightarrow> string list \<Rightarrow> browser \<Rightarrow> browser" where
  "openDelete e paths b =
     b\<lparr>br_target := e, br_opPaths := Some paths, br_dialog := Some DDelete\<rparr>"

section \<open>Requests of the dialogs\<close>

text \<open>The paths an operation is for, as all four bulk operations determine them.\<close>

definition operationPaths :: "browser \<Rightarrow> string list" where
  "operationPaths b =
     (case br_opPaths b of
        Some (p # ps) \<Rightarrow> p # ps
      | _ \<Rightarrow> if br_selected b \<noteq> [] then br_selected b
            else (case br_target b of Some t \<Rightarrow> [de_path t] | None \<Rightarrow> []))"

definition submitName :: "browser \<Rightarrow> page_effect list" where
  "submitName b =
     (case br_dialog b of
        Some DMkdir \<Rightarrow> [Send (mkdir (joinPath (currentPath b) (trim (br_name b))) None)]
      | Some DCreate \<Rightarrow> [Send (createFile (joinPath (currentPath b) (trim (br_name b))) [] None)]
      | Some DRename \<Rightarrow>
          (case br_target b of
             Some t \<Rightarrow> [Send (renamePath (de_path t) (trim (br_name b)))]
           | None \<Rightarrow> [ToastError ''Rename failed''])
      | _ \<Rightarrow> [])"

definition submitDestination :: "string \<Rightarrow> browser \<Rightarrow> page_effect list" where
  "submitDestination destination b =
     (let paths = operationPaths b; d = trim destination in
      if br_dialog b = Some DMove
      then (if paths = [] then [ToastError ''Move failed'']
            else map (\<lambda>p. Send (movePath p d)) paths)
      else (if paths = [] then [ToastError ''Copy failed'']
            else map (\<lambda>p. Send (copyPath p d)) paths))"

definition submitMode :: "browser \<Rightarrow> page_effect list" where
  "submitMode b =
     (let paths = operationPaths b in
      if paths = [] then [ToastError ''chmod failed'']
      else map (\<lambda>p. Send (chmodPath p (trim (br_mode b)))) paths)"

text \<open>In the trash, a path without a trash id is rejected before a request is made.\<close>

definition permanent_requests :: "dir_entry list \<Rightarrow> string list \<Rightarrow> api_request list" where
  "permanent_requests entries paths =
     List.map_filter (\<lambda>p.
       map_option permanentlyDeleteTrashItem
         (Option.bind (find (\<lambda>e. de_path e = p) entries) trash_id)) paths"

definition submitDelete :: "browser \<Rightarrow> page_effect list" where
  "submitDelete b =
     (if inTrash b then map Send (permanent_requests (br_entries b) (operationPaths b))
      else map (\<lambda>p. Send (moveToTrash p)) (operationPaths b))"

definition saveFile :: "browser \<Rightarrow> page_effect list" where
  "saveFile b =
     (case br_target b of
        Some t \<Rightarrow> [Send (writeFile (de_path t) (br_content b))]
      | None \<Rightarrow> [ToastError ''Save failed''])"

definition resolveActionPaths :: "dir_entry option \<Rightarrow> browser \<Rightarrow> string list" where
  "resolveActionPaths e b =
     (if br_selected b \<noteq> [] \<and>
         (case e of Some x \<Rightarrow> de_path x \<in> set (br_selected b) | None \<Rightarrow> True)
      then br_selected b
      else (case e of Some x \<Rightarrow> [de_path x] | None \<Rightarrow> []))"

definition items_text :: "string \<Rightarrow> nat \<Rightarrow> string" where
  "items_text verb n = verb @ '' '' @ show_nat n @ '' item(s)''"

definition clipboardCopy :: "dir_entry option \<Rightarrow> browser \<Rightarrow> browser \<times> page_effect list" where
  "clipboardCopy e b =
     (let paths = resolveActionPaths e b in
      if paths = [] then (b, [])
      else (b\<lparr>br_clip := copyPaths paths (br_clip b)\<rparr>,
            [ToastSuccess (items_text ''Copied'' (length paths))]))"

definition clipboardCut :: "dir_entry option \<Rightarrow> browser \<Rightarrow> browser \<times> page_effect list" where
  "clipboardCut e b =
     (let paths = resolveActionPaths e b in
      if paths = [] then (b, [])
      else (b\<lparr>br_clip := cutPaths paths (br_clip b)\<rparr>,
            [ToastSuccess (items_text ''Cut'' (length paths))]))"

definition clipboardPaste :: "browser \<Rightarrow> page_effect list" where
  "clipboardPaste b =
     (case fst (br_clip b) of
        Some c \<Rightarrow>
          (if cb_paths c = [] \<or> inTrash b then []
           else map (\<lambda>p. Send (if cb_mode c = CutMode then movePath p (currentPath b)
                               else copyPath p (currentPath b))) (cb_paths c))
      | None \<Rightarrow> [])"

text \<open>\<open>downloadEntries\<close> throws when no entry has a path.\<close>

definition downloadItems :: "dir_entry list \<Rightarrow> page_effect list" where
  "downloadItems items =
     (case downloadEntries (map as_file_entry items) of
        Some d \<Rightarrow> [Download d] | None \<Rightarrow> [ToastError ''Download failed''])"

section \<open>Menus\<close>

text \<open>The selection bar: its items, which actions it offers, and what they do.\<close>

datatype selection_action = SOpen | SEdit | SOpenEditor | SDownload | SZip | SUnzip | SRename
  | SMove | SCopy | SChmod | SDelete | SRestore | SClear

definition selection_items :: "browser \<Rightarrow> dir_entry list" where
  "selection_items b = filter (\<lambda>e. de_path e \<in> set (br_selected b)) (br_entries b)"

definition selection_offers :: "browser \<Rightarrow> selection_action \<Rightarrow> bool" where
  "selection_offers b a =
     (let items = selection_items b; onlyOne = (length items = 1) in
      items \<noteq> [] \<and>
      (if a = SClear then True
       else if inTrash b then a \<in> {SRestore, SDelete}
       else (case a of
           SOpen \<Rightarrow> onlyOne
         | SOpenEditor \<Rightarrow> onlyOne \<and> de_type (hd items) \<noteq> ''directory''
         | SEdit \<Rightarrow> onlyOne \<and> isTextEditableFile (hd items)
         | SRename \<Rightarrow> onlyOne
         | SUnzip \<Rightarrow> onlyOne \<and> isZipArchive (hd items)
         | SRestore \<Rightarrow> False
         | _ \<Rightarrow> True)))"

definition handleSelectionAction ::
  "selection_action \<Rightarrow> dir_entry list \<Rightarrow> browser \<Rightarrow> browser \<times> page_effect list" where
  "handleSelectionAction a items b =
     (if a = SClear then (b\<lparr>br_selected := []\<rparr>, [])
      else case items of
        [] \<Rightarrow> (b, [])
      | fst_item # _ \<Rightarrow>
          (let paths = map de_path items in
           case a of
             SOpen \<Rightarrow> (let r = openEntry fst_item b in ((fst r)\<lparr>br_selected := []\<rparr>, snd r))
           | SEdit \<Rightarrow> openEdit fst_item b
           | SOpenEditor \<Rightarrow> openEdit fst_item b
           | SDownload \<Rightarrow> (b, downloadItems items)
           | SZip \<Rightarrow> (b, [Send (zipPaths paths None)])
           | SUnzip \<Rightarrow> (b, [Send (unzipPath (de_path fst_item) None)])
           | SRename \<Rightarrow> (openRename fst_item b, [])
           | SMove \<Rightarrow> (openMove fst_item paths b, [])
           | SCopy \<Rightarrow> (openCopy fst_item paths b, [])
           | SChmod \<Rightarrow> (openChmod fst_item paths b, [])
           | SDelete \<Rightarrow> (openDelete None paths b, [])
           | SRestore \<Rightarrow> (b, map (\<lambda>i. Send (restoreTrashItem i)) (List.map_filter trash_id items))
           | SClear \<Rightarrow> (b, [])))"

text \<open>
  The menu behind an entry (right click) and the menu of its row. They offer the same items; the
  first acts on the whole selection when the entry belongs to it, the second on the entry alone
  where it opens a dialog.
\<close>

datatype entry_action = EOpen | EEdit | EOpenEditor | ETerminal | ERename | EDuplicate | EMove
  | ECopyTo | ECopyClip | ECutClip | EPaste | EChmod | EDownload | EZip | EUnzip | EDelete
  | ERestore | EDeletePermanent

definition entryActions :: "entry_action \<Rightarrow> dir_entry \<Rightarrow> browser \<Rightarrow> browser \<times> page_effect list" where
  "entryActions a e b =
     (let paths = resolveActionPaths (Some e) b in
      case a of
        EOpen \<Rightarrow> openEntry e b
      | EOpenEditor \<Rightarrow> openEdit e b
      | EEdit \<Rightarrow> openEdit e b
      | ETerminal \<Rightarrow> (b, [OpenTerminal (de_path e)])
      | ERename \<Rightarrow> (openRename e b, [])
      | EDuplicate \<Rightarrow> (b, [Send (duplicatePath (de_path e))])
      | EMove \<Rightarrow> (openMove e paths b, [])
      | ECopyTo \<Rightarrow> (openCopy e paths b, [])
      | ECopyClip \<Rightarrow> clipboardCopy (Some e) b
      | ECutClip \<Rightarrow> clipboardCut (Some e) b
      | EPaste \<Rightarrow> (b, clipboardPaste b)
      | EChmod \<Rightarrow> (openChmod e paths b, [])
      | EDownload \<Rightarrow>
          (let items = filter (\<lambda>x. de_path x \<in> set paths) (br_entries b) in
           (b, downloadItems (if items \<noteq> [] then items else [e])))
      | EZip \<Rightarrow> (b, [Send (zipPaths paths None)])
      | EUnzip \<Rightarrow> (b, [Send (unzipPath (de_path e) None)])
      | EDelete \<Rightarrow> (openDelete (Some e) paths b, [])
      | ERestore \<Rightarrow>
          (b, case trash_id e of Some i \<Rightarrow> [Send (restoreTrashItem i)] | None \<Rightarrow> [])
      | EDeletePermanent \<Rightarrow> (openDelete (Some e) [de_path e] b, []))"

definition context_offers :: "browser \<Rightarrow> dir_entry \<Rightarrow> entry_action \<Rightarrow> bool" where
  "context_offers b e a =
     (let isTrash = (inTrash b \<or> trash_id e \<noteq> None \<or> starts_with (opt_or (de_hint e)) ''trash:'');
          isDir = (de_type e = ''directory'')
      in if isTrash then a \<in> {ERestore, EDeletePermanent}
         else (case a of
             EOpenEditor \<Rightarrow> \<not> isDir
           | EEdit \<Rightarrow> isTextEditableFile e
           | ETerminal \<Rightarrow> isDir
           | EPaste \<Rightarrow> (case fst (br_clip b) of Some c \<Rightarrow> cb_paths c \<noteq> [] | None \<Rightarrow> False)
           | EUnzip \<Rightarrow> isZipArchive e
           | ERestore \<Rightarrow> False
           | EDeletePermanent \<Rightarrow> False
           | _ \<Rightarrow> True))"

text \<open>The row's menu has neither zip nor paste; its delete also drops the selection.\<close>

definition rowActions :: "entry_action \<Rightarrow> dir_entry \<Rightarrow> browser \<Rightarrow> browser \<times> page_effect list" where
  "rowActions a e b =
     (case a of
        EMove \<Rightarrow> (openMove e [de_path e] b, [])
      | ECopyTo \<Rightarrow> (openCopy e [de_path e] b, [])
      | EChmod \<Rightarrow> (openChmod e [de_path e] b, [])
      | EDelete \<Rightarrow> ((openDelete (Some e) [de_path e] b)\<lparr>br_selected := []\<rparr>, [])
      | _ \<Rightarrow> entryActions a e b)"

definition row_offers :: "browser \<Rightarrow> dir_entry \<Rightarrow> entry_action \<Rightarrow> bool" where
  "row_offers b e a =
     (let isTrash = (inTrash b \<or> trash_id e \<noteq> None); isDir = (de_type e = ''directory'')
      in if isTrash then a \<in> {ERestore, EDelete}
         else (case a of
             EOpenEditor \<Rightarrow> \<not> isDir
           | EEdit \<Rightarrow> isTextEditableFile e
           | ETerminal \<Rightarrow> isDir
           | EPaste \<Rightarrow> False
           | EZip \<Rightarrow> False
           | EUnzip \<Rightarrow> False
           | ERestore \<Rightarrow> False
           | EDeletePermanent \<Rightarrow> False
           | _ \<Rightarrow> True))"

section \<open>What happens when a request has been answered\<close>

text \<open>
  A bulk operation is one request for each path; \<open>oks\<close> says which of them succeeded
  (\<open>Promise.allSettled\<close>), and the toast counts them.
\<close>

definition settled_toast :: "(nat \<Rightarrow> string) \<Rightarrow> string \<Rightarrow> bool list \<Rightarrow> page_effect" where
  "settled_toast allOk some oks =
     (let failed = length (filter Not oks); ok = length oks - failed in
      if failed = 0 then ToastSuccess (allOk ok)
      else ToastWarning (some @ '' '' @ show_nat ok @ '', '' @ show_nat failed @ '' failed''))"

definition after_change :: "page_effect \<Rightarrow> browser \<Rightarrow> browser \<times> page_effect list" where
  "after_change toast b = (fst (invalidate b), toast # snd (invalidate b))"

definition moveDone :: "bool list \<Rightarrow> browser \<Rightarrow> browser \<times> page_effect list" where
  "moveDone oks b =
     after_change (settled_toast (items_text ''Moved'') ''Moved'' oks)
       ((closeDialog b)\<lparr>br_selected := []\<rparr>)"

definition copyDone :: "bool list \<Rightarrow> browser \<Rightarrow> browser \<times> page_effect list" where
  "copyDone oks b =
     after_change (settled_toast (items_text ''Copied'') ''Copied'' oks) (closeDialog b)"

definition chmodDone :: "bool list \<Rightarrow> browser \<Rightarrow> browser \<times> page_effect list" where
  "chmodDone oks b =
     after_change (settled_toast (items_text ''Updated permissions on'') ''Updated'' oks)
       ((closeDialog b)\<lparr>br_selected := []\<rparr>)"

definition deleteDone :: "bool \<Rightarrow> bool list \<Rightarrow> browser \<Rightarrow> browser \<times> page_effect list" where
  "deleteDone permanent oks b =
     after_change
       (if permanent then settled_toast (items_text ''Permanently deleted'') ''Deleted'' oks
        else settled_toast (\<lambda>n. items_text ''Moved'' n @ '' to trash'') ''Trashed'' oks)
       ((closeDialog b)\<lparr>br_selected := []\<rparr>)"

definition restoreDone :: "bool list \<Rightarrow> browser \<Rightarrow> browser \<times> page_effect list" where
  "restoreDone oks b =
     after_change (settled_toast (items_text ''Restored'') ''Restored'' oks) (b\<lparr>br_selected := []\<rparr>)"

definition pasteDone :: "clipboard_mode \<Rightarrow> bool list \<Rightarrow> browser \<Rightarrow> browser \<times> page_effect list" where
  "pasteDone mode oks b =
     after_change
       (settled_toast (items_text (if mode = CutMode then ''Moved'' else ''Pasted'')) ''Done'' oks)
       (if mode = CutMode then b\<lparr>br_clip := clearClipboard (br_clip b)\<rparr> else b)"

text \<open>Success of the dialogs that name one item or empty the trash, and of the plain operations.\<close>

definition dialogDone :: "string \<Rightarrow> browser \<Rightarrow> browser \<times> page_effect list" where
  "dialogDone message b = after_change (ToastSuccess message) (closeDialog b)"

definition archiveDone :: "string \<Rightarrow> browser \<Rightarrow> browser \<times> page_effect list" where
  "archiveDone message b = after_change (ToastSuccess message) (b\<lparr>br_selected := []\<rparr>)"

definition plainDone :: "string \<Rightarrow> browser \<Rightarrow> browser \<times> page_effect list" where
  "plainDone message b = after_change (ToastSuccess message) b"

text \<open>\<open>content\<close> is the text of the render whose callback the query library calls.\<close>

definition saveDone :: "string \<Rightarrow> string \<Rightarrow> browser \<Rightarrow> browser \<times> page_effect list" where
  "saveDone content message b =
     after_change (ToastSuccess message) (b\<lparr>br_baseline := content\<rparr>)"

section \<open>The page as a machine\<close>

datatype page_event =
    Navigate string | SwitchTab string | AddTab string | CloseTab string
  | StartPathEdit | PathDraft string | CommitPath | CancelPath
  | Listed dir_listing | ToggleHidden | SetSearch string | SortBy sort_key
  | ToggleSelect string | SelectShown bool "dir_entry list" | Refresh | SeenEffect
  | OpenEntry dir_entry | SelectionAction selection_action
  | ContextMenu entry_action dir_entry | RowMenu entry_action dir_entry
  | NewItem dialog_kind | AskEmptyTrash | CloseDialog
  | NameInput string | ModeInput string | EditInput string
  | SubmitName | SubmitDestination string | SubmitMode | SubmitDelete | SubmitEmptyTrash
  | SaveFile | PasteKey | CopyKey | CutKey | UploadFile string
  | FileWasRead dir_entry string bool
  | DialogDone string | MoveDone "bool list" | CopyDone "bool list" | ChmodDone "bool list"
  | DeleteDone bool "bool list" | RestoreDone "bool list" | PasteDone clipboard_mode "bool list"
  | ArchiveDone string | PlainDone string | SaveDone string string | RequestFailed string
  | OtherWindowTabs string stored_sessions "string option" | OtherWindowRevision nat
  | OtherWindowClipboard "jtext option"

definition still :: "browser \<Rightarrow> browser \<times> page_effect list" where
  "still b = (b, [])"

fun page_step :: "page_event \<Rightarrow> browser \<Rightarrow> browser \<times> page_effect list" where
  "page_step (Navigate p) b = still (navigateTo p b)"
| "page_step (SwitchTab i) b = switchToSession i b"
| "page_step (AddTab i) b = still (onAddTab i b)"
| "page_step (CloseTab i) b = still (onCloseTab i b)"
| "page_step StartPathEdit b = still (startPathEdit b)"
| "page_step (PathDraft s) b = still (b\<lparr>br_pathDraft := s\<rparr>)"
| "page_step CommitPath b = still (commitPathEdit b)"
| "page_step CancelPath b = still (cancelPathEdit b)"
| "page_step (Listed d) b = still (b\<lparr>br_data := Some d\<rparr>)"
| "page_step ToggleHidden b = still (b\<lparr>br_hidden := \<not> br_hidden b\<rparr>)"
| "page_step (SetSearch s) b = still (b\<lparr>br_search := s\<rparr>)"
| "page_step (SortBy k) b = still (toggleSort k b)"
| "page_step (ToggleSelect p) b = still (toggleSelect p b)"
| "page_step (SelectShown v shown) b = still (selectShown v shown b)"
| "page_step Refresh b = invalidate b"
| "page_step SeenEffect b = seenEffect b"
| "page_step (OpenEntry e) b = openEntry e b"
| "page_step (SelectionAction a) b = handleSelectionAction a (selection_items b) b"
| "page_step (ContextMenu a e) b = entryActions a e b"
| "page_step (RowMenu a e) b = rowActions a e b"
| "page_step (NewItem k) b = still (newItem k b)"
| "page_step AskEmptyTrash b = still (b\<lparr>br_dialog := Some DEmptyTrash\<rparr>)"
| "page_step CloseDialog b = still (closeDialog b)"
| "page_step (NameInput s) b = still (b\<lparr>br_name := s\<rparr>)"
| "page_step (ModeInput s) b = still (b\<lparr>br_mode := s\<rparr>)"
| "page_step (EditInput s) b = still (b\<lparr>br_content := s\<rparr>)"
| "page_step SubmitName b = (b, submitName b)"
| "page_step (SubmitDestination d) b = (b\<lparr>br_dest := d\<rparr>, submitDestination d b)"
| "page_step SubmitMode b = (b, submitMode b)"
| "page_step SubmitDelete b = (b, submitDelete b)"
| "page_step SubmitEmptyTrash b = (b, [Send emptyTrash])"
| "page_step SaveFile b = (b, saveFile b)"
| "page_step PasteKey b = (b, clipboardPaste b)"
| "page_step CopyKey b = clipboardCopy None b"
| "page_step CutKey b = clipboardCut None b"
| "page_step (UploadFile f) b = (b, [Upload (currentPath b) f])"
| "page_step (FileWasRead e c t) b = still (fileRead e c t b)"
| "page_step (DialogDone m) b = dialogDone m b"
| "page_step (MoveDone oks) b = moveDone oks b"
| "page_step (CopyDone oks) b = copyDone oks b"
| "page_step (ChmodDone oks) b = chmodDone oks b"
| "page_step (DeleteDone p oks) b = deleteDone p oks b"
| "page_step (RestoreDone oks) b = restoreDone oks b"
| "page_step (PasteDone m oks) b = pasteDone m oks b"
| "page_step (ArchiveDone m) b = archiveDone m b"
| "page_step (PlainDone m) b = plainDone m b"
| "page_step (SaveDone c m) b = saveDone c m b"
| "page_step (RequestFailed m) b = (b, [ToastError m])"
| "page_step (OtherWindowTabs i s a) b =
     still (b\<lparr>br_tabs := storageSessions i s a (br_tabs b)\<rparr>)"
| "page_step (OtherWindowRevision n) b = still (b\<lparr>br_tabs := storageRevision n (br_tabs b)\<rparr>)"
| "page_step (OtherWindowClipboard t) b = still (b\<lparr>br_clip := (readClipboard t, t)\<rparr>)"

text \<open>
  Which events the page offers: a new tab has a fresh id; the shown entries are the matching ones,
  however they are sorted; menus and dialogs offer the actions of
  their entries; another window stores distinct ids.
\<close>

fun page_ok :: "page_event \<Rightarrow> browser \<Rightarrow> bool" where
  "page_ok (AddTab i) b \<longleftrightarrow> i \<notin> set (session_keys (br_tabs b))"
| "page_ok (OtherWindowTabs i s a) b \<longleftrightarrow> tabs_ok (StorageSessions i s a) (br_tabs b)"
| "page_ok (SelectShown v shown) b \<longleftrightarrow>
     mset shown = mset (search_entries (br_search b) (br_entries b))"
| "page_ok (SelectionAction a) b \<longleftrightarrow> selection_offers b a"
| "page_ok (ContextMenu a e) b \<longleftrightarrow> e \<in> set (br_entries b) \<and> context_offers b e a"
| "page_ok (RowMenu a e) b \<longleftrightarrow> e \<in> set (br_entries b) \<and> row_offers b e a"
| "page_ok (NewItem k) b \<longleftrightarrow> k = DMkdir \<or> k = DCreate"
| "page_ok SubmitName b \<longleftrightarrow>
     br_dialog b \<in> {Some DMkdir, Some DCreate, Some DRename} \<and> trim (br_name b) \<noteq> []"
| "page_ok (SubmitDestination d) b \<longleftrightarrow> br_dialog b \<in> {Some DMove, Some DCopy}"
| "page_ok SubmitMode b \<longleftrightarrow> br_dialog b = Some DChmod \<and> trim (br_mode b) \<noteq> []"
| "page_ok SubmitDelete b \<longleftrightarrow> br_dialog b = Some DDelete"
| "page_ok SubmitEmptyTrash b \<longleftrightarrow> br_dialog b = Some DEmptyTrash"
| "page_ok SaveFile b \<longleftrightarrow> br_dialog b = Some DEdit \<and> br_editable b"
| "page_ok e b \<longleftrightarrow> True"

definition page_apply :: "page_event \<Rightarrow> browser \<Rightarrow> browser" where
  "page_apply e b = fst (page_step e b)"

text \<open>Everything a run sends or shows, in order.\<close>

fun page_effects :: "page_event list \<Rightarrow> browser \<Rightarrow> page_effect list" where
  "page_effects [] b = []"
| "page_effects (e # es) b = snd (page_step e b) @ page_effects es (page_apply e b)"

text \<open>The question of the delete dialog: \<open>target?.name\<close> is \<open>undefined\<close> without a target.\<close>

definition delete_prompt :: "browser \<Rightarrow> string" where
  "delete_prompt b =
     (let n = (case br_opPaths b of Some ps \<Rightarrow> length ps | None \<Rightarrow> length (br_selected b));
          m = (case br_opPaths b of Some (p # ps) \<Rightarrow> length (p # ps)
               | _ \<Rightarrow> length (br_selected b));
          name = [CHR 0x93] @
            (case br_target b of Some t \<Rightarrow> de_name t | None \<Rightarrow> ''undefined'') @ [CHR 0x94]
      in if inTrash b
         then (if n > 1 then ''Permanently delete '' @ show_nat m @
                 '' selected item(s)? This cannot be undone.''
               else ''Permanently delete '' @ name @ ''? This cannot be undone.'')
         else (if n > 1 then ''Move '' @ show_nat m @
                 '' selected item(s) to trash? Items are kept for 30 days.''
               else ''Move '' @ name @ '' to trash? Items are kept for 30 days.''))"

section \<open>The folder shown is the one of the active tab\<close>

lemma find_by_id:
  "distinct (map fs_id xs) \<Longrightarrow> s \<in> set xs \<Longrightarrow> find (\<lambda>x. fs_id x = fs_id s) xs = Some s"
  by (induction xs) (auto simp: rev_image_eqI)

definition active_path :: "file_tabs \<Rightarrow> string" where
  "active_path t = fs_path (active_session t)"

lemma active_path_at:
  assumes "distinct (session_keys t)" "s \<in> set (ft_sessions t)" "ft_active t = fs_id s"
  shows "active_path t = fs_path s"
  using assms find_by_id [of "ft_sessions t" s]
  by (simp add: active_path_def active_session_def session_keys_def)

lemma active_of: "tabs_inv t \<Longrightarrow> \<exists>s \<in> set (ft_sessions t). ft_active t = fs_id s"
  by (auto simp: tabs_inv_def session_keys_def)

lemma setActivePath_path: "tabs_inv t \<Longrightarrow> active_path (setActivePath p t) = p"
proof -
  assume inv: "tabs_inv t"
  then obtain s where s: "s \<in> set (ft_sessions t)" "ft_active t = fs_id s" using active_of by blast
  let ?s = "s\<lparr>fs_path := p, fs_label := or_str (tabLabel p) ''Home'', fs_seen := ft_revision t\<rparr>"
  have "active_path (setActivePath p t) = fs_path ?s"
  proof (rule active_path_at)
    show "distinct (session_keys (setActivePath p t))"
      using inv by (simp add: setActivePath_def tabs_inv_def)
    show "?s \<in> set (ft_sessions (setActivePath p t))"
      using s by (force simp: setActivePath_def map_session_def)
    show "ft_active (setActivePath p t) = fs_id ?s" using s by (simp add: setActivePath_def)
  qed
  then show ?thesis by simp
qed

lemma find_fs_id: "find (\<lambda>s. fs_id s = i) xs = Some s \<Longrightarrow> s \<in> set xs \<and> fs_id s = i"
  by (auto simp: find_Some_iff)

lemma mark_path:
  assumes "\<And>s. fs_path (f s) = fs_path s" "\<And>s. fs_id (f s) = fs_id s" "tabs_inv t"
  shows "active_path (map_session i f t) = active_path t"
proof -
  obtain s where s: "s \<in> set (ft_sessions t)" "ft_active t = fs_id s" using active_of assms(3) by blast
  let ?g = "\<lambda>s. if fs_id s = i then f s else s"
  have "active_path (map_session i f t) = fs_path (?g s)"
  proof (rule active_path_at)
    show "distinct (session_keys (map_session i f t))" using assms(2,3) by (simp add: tabs_inv_def)
    show "?g s \<in> set (ft_sessions (map_session i f t))" using s(1) by (simp add: map_session_def)
    show "ft_active (map_session i f t) = fs_id (?g s)" using s(2) assms(2) by simp
  qed
  moreover have "active_path t = fs_path s"
    using active_path_at s assms(3) by (simp add: tabs_inv_def)
  ultimately show ?thesis using assms(1) by simp
qed

lemma markSeen_path: "tabs_inv t \<Longrightarrow> active_path (markSeen t) = active_path t"
  unfolding markSeen_def by (rule mark_path) simp_all

lemma switchSession_path:
  assumes inv: "tabs_inv t" and s: "find (\<lambda>s. fs_id s = i) (ft_sessions t) = Some s"
  shows "tabs_inv (switchSession i t) \<and> active_path (switchSession i t) = fs_path s"
proof
  have id: "s \<in> set (ft_sessions t)" "fs_id s = i" using find_fs_id [OF s] by auto
  then have "tabs_ok (SwitchSession i) t" by (auto simp: session_keys_def)
  then show wf: "tabs_inv (switchSession i t)" using tabs_apply_inv [OF inv, of "SwitchSession i"] by simp
  have "active_path (switchSession i t) = fs_path (s\<lparr>fs_seen := ft_revision t\<rparr>)"
  proof (rule active_path_at)
    show "distinct (session_keys (switchSession i t))" using wf by (simp add: tabs_inv_def)
    show "s\<lparr>fs_seen := ft_revision t\<rparr> \<in> set (ft_sessions (switchSession i t))"
      using id by (force simp: switchSession_def map_session_def)
    show "ft_active (switchSession i t) = fs_id (s\<lparr>fs_seen := ft_revision t\<rparr>)"
      using id by (simp add: switchSession_def)
  qed
  then show "active_path (switchSession i t) = fs_path s" by simp
qed

lemma addSession_path:
  assumes "tabs_inv t" "i \<notin> set (session_keys t)"
  shows "tabs_inv (addSession i p t) \<and> active_path (addSession i p t) = p"
proof
  show wf: "tabs_inv (addSession i p t)"
    using tabs_apply_inv [of t "AddSession i p"] assms by simp
  show "active_path (addSession i p t) = p"
    by (subst active_path_at [where s = "\<lparr>fs_id = i, fs_path = p,
          fs_label = or_str (tabLabel p) ''Home'', fs_seen = ft_revision t\<rparr>"])
      (use wf in \<open>simp_all add: addSession_def tabs_inv_def\<close>)
qed

text \<open>The page and the tabs choose the same tab when the active one is closed.\<close>

lemma onCloseTab_path:
  assumes inv: "tabs_inv (br_tabs b)" and path: "br_path b = active_path (br_tabs b)"
  shows "br_path (onCloseTab i b) = active_path (br_tabs (onCloseTab i b))"
proof -
  let ?t = "br_tabs b"
  let ?rest = "filter (\<lambda>s. fs_id s \<noteq> i) (ft_sessions ?t)"
  let ?idx = "case find_index (\<lambda>s. fs_id s = i) (ft_sessions ?t) of Some n \<Rightarrow> n - 1 | None \<Rightarrow> 0"
  have wf: "tabs_inv (closeSession i ?t)" by (rule closeSession_inv [OF inv])
  have tabs: "br_tabs (onCloseTab i b) = closeSession i ?t"
    by (simp add: onCloseTab_def Let_def split: option.split)
  obtain s where s: "s \<in> set (ft_sessions ?t)" "ft_active ?t = fs_id s" using active_of inv by blast
  show ?thesis
  proof (cases "length (ft_sessions ?t) \<le> 1")
    case True
    then have single: "ft_sessions ?t = [s]" using s(1) by (cases "ft_sessions ?t") auto
    have same: "closeSession i ?t = ?t" using True by (simp add: closeSession_def)
    have "br_path (onCloseTab i b) = br_path b"
    proof (cases "i = ft_active ?t")
      case True
      then show ?thesis using single s(2) by (simp add: onCloseTab_def Let_def)
    qed (simp add: onCloseTab_def Let_def)
    then show ?thesis using path tabs same by simp
  next
    case False
    then have len: "1 < length (session_keys ?t)" by (simp add: session_keys_def)
    have ne: "?rest \<noteq> []"
      using remaining_nonempty [of "session_keys ?t" i] inv len
      by (auto simp: tabs_inv_def session_keys_def filter_map comp_def)
    show ?thesis
    proof (cases "i = ft_active ?t")
      case False
      then have "s \<in> set (ft_sessions (closeSession i ?t))" "ft_active (closeSession i ?t) = fs_id s"
        using s \<open>\<not> length (ft_sessions ?t) \<le> 1\<close> by (auto simp: closeSession_def Let_def)
      then have "active_path (closeSession i ?t) = fs_path s"
        using active_path_at wf by (simp add: tabs_inv_def)
      moreover have "active_path ?t = fs_path s"
        using active_path_at [of ?t s] s inv by (simp add: tabs_inv_def)
      moreover have "br_path (onCloseTab i b) = br_path b"
        using False by (simp add: onCloseTab_def Let_def)
      ultimately show ?thesis using path tabs by simp
    next
      case True
      let ?n = "if ?idx < length ?rest then ?rest ! ?idx else hd ?rest"
      have mem: "?n \<in> set ?rest" using nth_mem [of ?idx ?rest] hd_in_set [OF ne] by (simp del: set_filter)
      have new: "ft_sessions (closeSession i ?t) = ?rest" "ft_active (closeSession i ?t) = fs_id ?n"
        using True \<open>\<not> length (ft_sessions ?t) \<le> 1\<close> by (simp_all add: closeSession_def Let_def)
      then have "active_path (closeSession i ?t) = fs_path ?n"
        using active_path_at [of "closeSession i ?t" ?n] wf mem by (simp add: tabs_inv_def)
      moreover have "br_path (onCloseTab i b) = fs_path ?n"
      proof -
        have id: "fs_id ?n \<noteq> i" using mem by (simp only: set_filter mem_Collect_eq simp_thms)
        show ?thesis
        proof (cases "?idx < length ?rest")
          case less: True
          then have "fs_id (?rest ! ?idx) \<noteq> i" using id by simp
          then show ?thesis using True less by (simp add: onCloseTab_def Let_def)
        next
          case less: False
          then have "fs_id (hd ?rest) \<noteq> i" using id by simp
          then show ?thesis using True less ne by (simp add: onCloseTab_def Let_def)
        qed
      qed
      ultimately show ?thesis using tabs by simp
    qed
  qed
qed
text \<open>The handlers that leave tabs, folder and selection alone, and those that drop the selection.\<close>

definition same_place :: "browser \<Rightarrow> browser \<Rightarrow> bool" where
  "same_place b' b \<longleftrightarrow>
     br_tabs b' = br_tabs b \<and> br_path b' = br_path b \<and>
     (br_selected b' = br_selected b \<or> br_selected b' = [])"

lemmas handler_defs = still_def closeDialog_def openEdit_def fileRead_def newItem_def openRename_def
  openMove_def openCopy_def openChmod_def openDelete_def startPathEdit_def cancelPathEdit_def
  toggleSort_def clipboardCopy_def clipboardCut_def Let_def

lemmas answer_defs = after_change_def invalidate_def moveDone_def copyDone_def chmodDone_def
  deleteDone_def restoreDone_def pasteDone_def dialogDone_def archiveDone_def plainDone_def
  saveDone_def

definition page_wf :: "browser \<Rightarrow> bool" where
  "page_wf b \<longleftrightarrow>
     tabs_inv (br_tabs b) \<and> distinct (br_selected b) \<and> br_path b = active_path (br_tabs b)"

lemma same_place_wf: "page_wf b \<Longrightarrow> same_place b' b \<Longrightarrow> page_wf b'"
  by (auto simp: page_wf_def same_place_def)

lemma revision_path [simp]: "active_path (t\<lparr>ft_revision := r\<rparr>) = active_path t"
  by (simp add: active_path_def active_session_def split: option.split)

lemma bumped_wf:
  "page_wf b \<Longrightarrow> br_tabs b' = bumpRevision (br_tabs b) \<Longrightarrow> br_path b' = br_path b \<Longrightarrow>
   br_selected b' = br_selected b \<or> br_selected b' = [] \<Longrightarrow> page_wf b'"
  by (auto simp: page_wf_def tabs_inv_def bumpRevision_def)

lemma navigateTo_wf: "page_wf b \<Longrightarrow> page_wf (navigateTo p b)"
  by (simp add: page_wf_def navigateTo_def Let_def setActivePath_path)
    (simp add: setActivePath_def tabs_inv_def)

lemma openEntry_wf: "page_wf b \<Longrightarrow> page_wf (fst (openEntry e b))"
  by (simp add: openEntry_def openEdit_def navigateTo_wf)

lemma unselect_wf: "page_wf b \<Longrightarrow> page_wf (b\<lparr>br_selected := []\<rparr>)"
  by (simp add: page_wf_def)

lemma switchToSession_wf: "page_wf b \<Longrightarrow> page_wf (fst (switchToSession i b))"
proof (cases "find (\<lambda>s. fs_id s = i) (ft_sessions (br_tabs b))")
  case (Some s)
  assume "page_wf b"
  then have "tabs_inv (br_tabs b)" by (simp add: page_wf_def)
  note sw = switchSession_path [OF this Some]
  then have "active_path (map_session k (\<lambda>s. s\<lparr>fs_seen := r\<rparr>) (switchSession i (br_tabs b))) = fs_path s"
    for k r
    using mark_path [of "\<lambda>s. s\<lparr>fs_seen := r\<rparr>"] by simp
  then show ?thesis using sw Some
    by (simp add: switchToSession_def Let_def page_wf_def map_session_inv)
qed (simp add: switchToSession_def)

lemma onAddTab_wf: "page_wf b \<Longrightarrow> i \<notin> set (session_keys (br_tabs b)) \<Longrightarrow> page_wf (onAddTab i b)"
  using addSession_path [of "br_tabs b" i "[]"] by (simp add: page_wf_def onAddTab_def)

lemma onCloseTab_wf: "page_wf b \<Longrightarrow> page_wf (onCloseTab i b)"
proof -
  assume wf: "page_wf b"
  have "br_tabs (onCloseTab i b) = closeSession i (br_tabs b)"
    "br_selected (onCloseTab i b) = br_selected b \<or> br_selected (onCloseTab i b) = []"
    by (simp_all add: onCloseTab_def Let_def split: option.split)
  then show ?thesis
    using wf onCloseTab_path [of b i] closeSession_inv [of "br_tabs b" i] by (auto simp: page_wf_def)
qed

lemma entryActions_place: "a \<noteq> EOpen \<Longrightarrow> same_place (fst (entryActions a e b)) b"
  by (cases a) (simp_all add: entryActions_def same_place_def handler_defs)

lemma entryActions_wf: "page_wf b \<Longrightarrow> page_wf (fst (entryActions a e b))"
  using entryActions_place [of a e b] same_place_wf
  by (cases "a = EOpen") (auto simp: entryActions_def openEntry_wf)

lemma rowActions_wf: "page_wf b \<Longrightarrow> page_wf (fst (rowActions a e b))"
proof -
  assume wf: "page_wf b"
  consider "a \<in> {EMove, ECopyTo, EChmod, EDelete}" | "rowActions a e b = entryActions a e b"
    by (cases a) (simp_all add: rowActions_def)
  then show ?thesis
  proof cases
    case 1
    then have "same_place (fst (rowActions a e b)) b"
      by (auto simp: rowActions_def same_place_def handler_defs)
    then show ?thesis using wf same_place_wf by blast
  next
    case 2
    then show ?thesis using wf by (simp add: entryActions_wf)
  qed
qed

lemma selectionAction_wf: "page_wf b \<Longrightarrow> page_wf (fst (handleSelectionAction a items b))"
proof (cases "a = SOpen \<and> items \<noteq> []")
  case True
  assume "page_wf b"
  then show ?thesis using True
    by (auto simp: handleSelectionAction_def Let_def neq_Nil_conv intro!: openEntry_wf unselect_wf)
next
  case False
  assume "page_wf b"
  moreover have "same_place (fst (handleSelectionAction a items b)) b"
    using False by (cases a; cases items)
      (simp_all add: handleSelectionAction_def same_place_def handler_defs)
  ultimately show ?thesis using same_place_wf by blast
qed

text \<open>Events of this window: all but the tabs another window has stored.\<close>

definition own_window :: "page_event \<Rightarrow> browser \<Rightarrow> bool" where
  "own_window e b \<longleftrightarrow>
     page_ok e b \<and> (case e of OtherWindowTabs _ _ _ \<Rightarrow> False | _ \<Rightarrow> True)"

lemma distinct_js_unique [simp]: "distinct (js_unique xs)"
  by (simp add: js_unique_def)

lemma toggleSelect_wf: "page_wf b \<Longrightarrow> page_wf (toggleSelect p b)"
  by (simp add: page_wf_def toggleSelect_def distinct_removeAll)

lemma selectShown_wf: "page_wf b \<Longrightarrow> page_wf (selectShown v shown b)"
  by (simp add: page_wf_def selectShown_def)

lemma page_apply_wf:
  assumes "page_wf b" "own_window e b"
  shows "page_wf (page_apply e b)"
proof (cases e)
  case SeenEffect
  then show ?thesis using assms
    by (auto simp: page_apply_def seenEffect_def page_wf_def markSeen_path)
      (simp add: markSeen_def map_session_inv)
next
  case (OtherWindowRevision n)
  then show ?thesis using assms
    by (auto simp: page_apply_def still_def page_wf_def storageRevision_def tabs_inv_def)
qed (use assms in \<open>simp_all add: page_apply_def own_window_def still_def navigateTo_wf commitPathEdit_def
      switchToSession_wf onAddTab_wf onCloseTab_wf openEntry_wf selectionAction_wf entryActions_wf
      rowActions_wf toggleSelect_wf selectShown_wf\<close>,
    simp_all add: same_place_wf [OF assms(1)] same_place_def handler_defs answer_defs
      bumped_wf [OF assms(1)])

interpretation own_page: guarded_machine page_apply own_window page_wf
  by unfold_locales (rule page_apply_wf)

text \<open>C29: In a window of its own, the page asks for the folder of the active tab: whatever is
opened, closed, switched to, listed, selected, renamed or deleted, and however late answers
arrive, the path of the page is the path stored with the active tab, which the tab bar names. That is also
the folder that uploads, new items and pastes go to, unless the path is empty, as in a tab that stands for the home folder:
then it is the folder of the listing on the screen (the root before there is one), which stays that of the folder before until the new one
has arrived. The tabs stay well formed and no path is selected twice.\<close>

theorem file_page_shows_active_tab:
  assumes "tabs_inv tabs"
    and "admissible own_window page_apply es (initial_browser tabs clip)"
    and "b = fold page_apply es (initial_browser tabs clip)"
  shows "br_path b = fs_path (active_session (br_tabs b)) \<and>
         currentPath b = (if fs_path (active_session (br_tabs b)) \<noteq> [] then fs_path (active_session (br_tabs b))
           else (case br_data b of
               Some d \<Rightarrow> if dl_path d \<noteq> [] then dl_path d else ''/''
             | None \<Rightarrow> ''/'')) \<and>
         tabs_inv (br_tabs b) \<and> distinct (br_selected b)"
proof -
  have "page_wf (initial_browser tabs clip)"
    using assms(1) by (simp add: page_wf_def initial_browser_def active_path_def)
  then have "page_wf b" unfolding assms(3) using assms(2) by (rule own_page.run_inv)
  then have "br_path b = fs_path (active_session (br_tabs b))" "tabs_inv (br_tabs b)" "distinct (br_selected b)"
    by (simp_all add: page_wf_def active_path_def)
  then show ?thesis by (auto simp: currentPath_def or_str_def split: option.split)
qed

definition sample_tabs :: file_tabs where
  "sample_tabs =
     \<lparr>ft_sessions = [home_session ''a'', (home_session ''b'')\<lparr>fs_path := ''/srv''\<rparr>],
      ft_active = ''b'', ft_revision = 0\<rparr>"

lemmas sample_page_simps = sample_tabs_def home_session_def session_keys_def initial_browser_def
  own_window_def page_apply_def handler_defs answer_defs active_session_def

theorem file_page_shows_active_tab_witness:
  "(let b = fold page_apply [Navigate ''/etc/ssl'', AddTab ''c'', SwitchTab ''b'', CloseTab ''b'']
          (initial_browser sample_tabs (None, None))
    in br_path b = fs_path (active_session (br_tabs b)) \<and> tabs_inv (br_tabs b) \<and>
       distinct (br_selected b))"
proof -
  let ?es = "[Navigate ''/etc/ssl'', AddTab ''c'', SwitchTab ''b'', CloseTab ''b'']"
  have "tabs_inv sample_tabs" "admissible own_window page_apply ?es (initial_browser sample_tabs (None, None))"
    by (simp_all add: tabs_inv_def sample_page_simps navigateTo_def onAddTab_def addSession_def
        setActivePath_def map_session_def)
  from file_page_shows_active_tab [OF this refl] show ?thesis unfolding Let_def by blast
qed

text \<open>
  With a second window this fails. The windows share the active tab, so choosing a tab in one
  makes it active in the other, whose page stays where it was; the next step there moves the tab
  of the first window.
\<close>

theorem other_window_takes_over:
  assumes "distinct (map fs_id xs)" "s \<in> set xs"
  shows "br_path (page_apply (OtherWindowTabs i (SessionList xs) (Some (fs_id s))) b) = br_path b"
    and "active_path (br_tabs (page_apply (OtherWindowTabs i (SessionList xs) (Some (fs_id s))) b)) =
           fs_path s"
proof -
  obtain y ys where xs: "xs = y # ys" using assms(2) by (cases xs) auto
  have "find (\<lambda>x. fs_id x = fs_id s) xs = Some s" by (rule find_by_id [OF assms])
  then have t: "storageSessions i (SessionList xs) (Some (fs_id s)) (br_tabs b) =
      (br_tabs b)\<lparr>ft_sessions := xs, ft_active := fs_id s\<rparr>"
    by (simp add: storageSessions_def loadSessions_def Let_def xs)
  show "active_path (br_tabs (page_apply (OtherWindowTabs i (SessionList xs) (Some (fs_id s))) b)) =
      fs_path s"
    using assms active_path_at [of "(br_tabs b)\<lparr>ft_sessions := xs, ft_active := fs_id s\<rparr>" s]
    by (simp add: page_apply_def still_def t)
qed (simp add: page_apply_def still_def)

section \<open>A dialog acts on what was picked\<close>

text \<open>
  The specification of the bulk operations: which menu items open which operation, and what is
  picked by choosing them.
\<close>

datatype bulk_op = BulkMove | BulkCopy | BulkChmod | BulkDelete

fun opens :: "page_event \<Rightarrow> bulk_op option" where
  "opens (SelectionAction a) =
     (case a of SMove \<Rightarrow> Some BulkMove | SCopy \<Rightarrow> Some BulkCopy | SChmod \<Rightarrow> Some BulkChmod
      | SDelete \<Rightarrow> Some BulkDelete | _ \<Rightarrow> None)"
| "opens (ContextMenu a e) =
     (case a of EMove \<Rightarrow> Some BulkMove | ECopyTo \<Rightarrow> Some BulkCopy | EChmod \<Rightarrow> Some BulkChmod
      | EDelete \<Rightarrow> Some BulkDelete | EDeletePermanent \<Rightarrow> Some BulkDelete | _ \<Rightarrow> None)"
| "opens (RowMenu a e) =
     (case a of EMove \<Rightarrow> Some BulkMove | ECopyTo \<Rightarrow> Some BulkCopy | EChmod \<Rightarrow> Some BulkChmod
      | EDelete \<Rightarrow> Some BulkDelete | _ \<Rightarrow> None)"
| "opens _ = None"

fun picked :: "page_event \<Rightarrow> browser \<Rightarrow> string list" where
  "picked (SelectionAction a) b = map de_path (selection_items b)"
| "picked (ContextMenu a e) b =
     (if a \<noteq> EDeletePermanent \<and> de_path e \<in> set (br_selected b) then br_selected b
      else [de_path e])"
| "picked (RowMenu a e) b = [de_path e]"
| "picked _ b = []"

definition bulk_dialog :: "bulk_op \<Rightarrow> dialog_kind" where
  "bulk_dialog k =
     (case k of BulkMove \<Rightarrow> DMove | BulkCopy \<Rightarrow> DCopy | BulkChmod \<Rightarrow> DChmod | BulkDelete \<Rightarrow> DDelete)"

text \<open>Confirming: the destination is that of the folder picker, the mode that of the input.\<close>

fun confirms :: "bulk_op \<Rightarrow> string \<Rightarrow> page_event" where
  "confirms BulkMove d = SubmitDestination d"
| "confirms BulkCopy d = SubmitDestination d"
| "confirms BulkChmod d = SubmitMode"
| "confirms BulkDelete d = SubmitDelete"

text \<open>The request for one path. A deletion in the trash is asked for by the trash id of the entry that is listed
  under the path; without such an entry, or for an entry without a trash id, nothing is asked.\<close>

fun bulk_op_request :: "bulk_op \<Rightarrow> string \<Rightarrow> browser \<Rightarrow> string \<Rightarrow> api_request option" where
  "bulk_op_request BulkMove d b p = Some (movePath p (trim d))"
| "bulk_op_request BulkCopy d b p = Some (copyPath p (trim d))"
| "bulk_op_request BulkChmod d b p = Some (chmodPath p (trim (br_mode b)))"
| "bulk_op_request BulkDelete d b p =
     (if \<not> inTrash b then Some (moveToTrash p)
      else (case find (\<lambda>e. de_path e = p) (br_entries b) of
          Some e \<Rightarrow> (case trash_id e of Some i \<Rightarrow> Some (permanentlyDeleteTrashItem i) | None \<Rightarrow> None)
        | None \<Rightarrow> None))"

lemma bulk_op_request_some: "\<not> (k = BulkDelete \<and> inTrash b) \<Longrightarrow> bulk_op_request k d b p \<noteq> None"
  by (cases k) simp_all

lemma bulk_all:
  "List.map_filter (bulk_op_request BulkMove d b) ps = map (\<lambda>p. movePath p (trim d)) ps"
  "List.map_filter (bulk_op_request BulkCopy d b) ps = map (\<lambda>p. copyPath p (trim d)) ps"
  "List.map_filter (bulk_op_request BulkChmod d b) ps = map (\<lambda>p. chmodPath p (trim (br_mode b))) ps"
  by (induction ps) (simp_all add: map_filter_simps)

lemma bulk_delete_requests:
  "submitDelete b = map Send (List.map_filter (bulk_op_request BulkDelete d b) (operationPaths b))"
proof -
  have trash: "permanent_requests (br_entries b) ps = List.map_filter (bulk_op_request BulkDelete d b) ps"
    if "inTrash b" for ps
    unfolding permanent_requests_def
    by (rule arg_cong [where f = "\<lambda>f. List.map_filter f ps"])
      (auto simp: that fun_eq_iff split: option.split)
  have other: "List.map_filter (bulk_op_request BulkDelete d b) ps = map moveToTrash ps" if "\<not> inTrash b" for ps
    using that by (induction ps) (simp_all add: map_filter_simps)
  show ?thesis by (simp add: submitDelete_def trash other comp_def)
qed

text \<open>Events between opening the dialog and confirming it that are not about another dialog.\<close>

definition quiet :: "page_event \<Rightarrow> bool" where
  "quiet e \<longleftrightarrow>
     (case e of SelectionAction _ \<Rightarrow> False | ContextMenu _ _ \<Rightarrow> False | RowMenu _ _ \<Rightarrow> False
      | NewItem _ \<Rightarrow> False | AskEmptyTrash \<Rightarrow> False | CloseDialog \<Rightarrow> False
      | FileWasRead _ _ _ \<Rightarrow> False | DialogDone _ \<Rightarrow> False | MoveDone _ \<Rightarrow> False
      | CopyDone _ \<Rightarrow> False | ChmodDone _ \<Rightarrow> False | DeleteDone _ _ \<Rightarrow> False | _ \<Rightarrow> True)"

lemma quiet_keeps_dialog:
  assumes "quiet e"
  shows "br_dialog (page_apply e b) = br_dialog b \<and> br_opPaths (page_apply e b) = br_opPaths b"
  using assms
  by (cases e) (auto simp: quiet_def page_apply_def handler_defs answer_defs navigateTo_def
      commitPathEdit_def switchToSession_def onAddTab_def onCloseTab_def toggleSelect_def selectShown_def
      seenEffect_def openEntry_def split: option.split)

lemma quiet_run_keeps_dialog:
  "list_all quiet es \<Longrightarrow>
   br_dialog (fold page_apply es b) = br_dialog b \<and> br_opPaths (fold page_apply es b) = br_opPaths b"
  by (induction es arbitrary: b) (simp_all add: quiet_keeps_dialog)

lemma picked_ne: "opens m = Some k \<Longrightarrow> page_ok m b \<Longrightarrow> picked m b \<noteq> []"
  by (cases m) (auto simp: selection_offers_def Let_def)

lemma opens_dialog:
  assumes "opens m = Some k" "page_ok m b"
  shows "br_dialog (page_apply m b) = Some (bulk_dialog k) \<and>
         br_opPaths (page_apply m b) = Some (picked m b)"
proof (cases m)
  case (SelectionAction a)
  then obtain x xs where "selection_items b = x # xs"
    using assms(2) by (cases "selection_items b") (auto simp: selection_offers_def Let_def)
  then show ?thesis using assms(1) SelectionAction
    by (cases a) (auto simp: page_apply_def handleSelectionAction_def handler_defs bulk_dialog_def)
next
  case (ContextMenu a e)
  then show ?thesis using assms(1)
    by (cases a) (auto simp: page_apply_def entryActions_def resolveActionPaths_def handler_defs
        bulk_dialog_def)
next
  case (RowMenu a e)
  then show ?thesis using assms(1)
    by (cases a) (auto simp: page_apply_def rowActions_def entryActions_def handler_defs
        bulk_dialog_def)
qed (use assms in simp_all)

text \<open>C28: A confirmed move, copy, permission change or deletion outside the trash is exactly one
request for each path that was picked when its dialog was opened, in that order and no others: the entries of the
selection bar; behind an entry the whole selection if the entry belongs to it and otherwise the
entry alone; in a row's menu the entry alone. A confirmed deletion in the trash is one request, by trash
id, for each picked path that is listed with a trash id when it is confirmed, and none for the others.
Whatever happens in between, other folders being shown, listings arriving, selections changing, does not
change the picked paths.\<close>

theorem bulk_operation_targets:
  assumes "opens m = Some k" "page_ok m b" "list_all quiet es"
    and "b' = fold page_apply es (page_apply m b)"
  shows "snd (page_step (confirms k d) b') = map Send (List.map_filter (bulk_op_request k d b') (picked m b)) \<and>
    (k = BulkDelete \<and> inTrash b' \<or>
     length (snd (page_step (confirms k d) b')) = length (picked m b))"
proof -
  have dlg: "br_dialog b' = Some (bulk_dialog k)" "br_opPaths b' = Some (picked m b)"
    using opens_dialog [OF assms(1,2)] quiet_run_keeps_dialog [OF assms(3)] assms(4) by simp_all
  have ops: "operationPaths b' = picked m b"
    using picked_ne [OF assms(1,2)] dlg(2) by (cases "picked m b") (simp_all add: operationPaths_def)
  have "snd (page_step (confirms k d) b') = map Send (List.map_filter (bulk_op_request k d b') (picked m b))"
    using picked_ne [OF assms(1,2)] dlg(1) bulk_delete_requests [of b' d]
    by (cases k) (simp_all add: ops submitDestination_def submitMode_def bulk_dialog_def bulk_all Let_def comp_def)
  moreover have "length (List.map_filter (bulk_op_request k d b') ps) = length ps"
    if "\<not> (k = BulkDelete \<and> inTrash b')" for ps
    using bulk_op_request_some [OF that, of d] by (induction ps) (auto simp: map_filter_simps split: option.split)
  ultimately show ?thesis by auto
qed

definition sample_entry :: "string \<Rightarrow> dir_entry" where
  "sample_entry n =
     \<lparr>de_name = n, de_path = ''/srv/'' @ n, de_type = ''file'', de_size = 1, de_mode = ''-rw'',
      de_mode_octal = ''0644'', de_mod_time = [], de_owner = None, de_group = None,
      de_writable = True, de_hint = None\<rparr>"

definition sample_page :: browser where
  "sample_page =
     (initial_browser sample_tabs (None, None))
       \<lparr>br_data := Some \<lparr>dl_path = ''/srv'', dl_parent = None,
          dl_entries = map sample_entry [''x'', ''y'', ''z''], dl_home = ''/root''\<rparr>,
        br_selected := [''/srv/z'', ''/srv/x'']\<rparr>"

theorem bulk_operation_targets_witness:
  "snd (page_step SubmitDelete
      (fold page_apply [Navigate ''/tmp'', ToggleSelect ''/tmp/q'']
        (page_apply (ContextMenu EDelete (sample_entry ''x'')) sample_page))) =
   [Send (moveToTrash ''/srv/z''), Send (moveToTrash ''/srv/x'')]"
proof -
  let ?b = "fold page_apply [Navigate ''/tmp'', ToggleSelect ''/tmp/q'']
      (page_apply (ContextMenu EDelete (sample_entry ''x'')) sample_page)"
  have "snd (page_step (confirms BulkDelete []) ?b) =
      map Send (List.map_filter (bulk_op_request BulkDelete [] ?b) (picked (ContextMenu EDelete (sample_entry ''x'')) sample_page))"
    by (rule bulk_operation_targets [OF _ _ _ refl, THEN conjunct1])
      (simp_all add: quiet_def sample_page_def sample_entry_def sample_page_simps context_offers_def
        inTrash_def currentPath_def br_entries_def isTrashPath_def trash_id_def trashIdFromEntry_def
        as_file_entry_def opt_or_def or_str_def trash_suffix_def ends_with_def starts_with_def
        strip_slashes_def)
  moreover have "\<not> inTrash ?b"
    by (simp add: sample_page_def sample_entry_def sample_page_simps entryActions_def
        navigateTo_def normalizePathInput_def trim_def trim_start_def trim_end_def js_ws_def
        starts_with_def ends_with_def or_str_def inTrash_def currentPath_def toggleSelect_def
        isTrashPath_def trash_suffix_def strip_slashes_def)
  moreover have "picked (ContextMenu EDelete (sample_entry ''x'')) sample_page = [''/srv/z'', ''/srv/x'']"
    by (simp add: sample_page_def sample_entry_def)
  ultimately show ?thesis by (simp add: map_filter_simps)
qed

section \<open>Requests to delete\<close>

text \<open>
  The routes of the server whose purpose is to delete without the trash. They are not all that can
  lose a file: a move or a paste replaces a file of the same name at its destination without asking
  (\<open>MoveAPI\<close> of \<open>src/modules/filemanager/ops/ops.go\<close> renames over it), saving a file writes over it, and listing the
  trash purges the items that have expired (\<open>src/modules/filemanager/list/list.go\<close>).
\<close>

definition deletion_request :: "api_request \<Rightarrow> bool" where
  "deletion_request r \<longleftrightarrow>
     rq_url r \<in> {FILEMANAGER_OPS_BASE @ ''/trash/delete'', FILEMANAGER_OPS_BASE @ ''/trash/empty'',
                 FILEMANAGER_OPS_BASE @ ''/delete''}"

definition deletion_requests :: "page_effect list \<Rightarrow> api_request list" where
  "deletion_requests xs =
     List.map_filter (\<lambda>x. case x of Send r \<Rightarrow> if deletion_request r then Some r else None | _ \<Rightarrow> None) xs"

lemma deletion_requests_simps [simp]:
  "deletion_requests [] = []"
  "deletion_requests (Send r # xs) = (if deletion_request r then r # deletion_requests xs else deletion_requests xs)"
  "deletion_requests (Download d # xs) = deletion_requests xs"
  "deletion_requests (Upload p n # xs) = deletion_requests xs"
  "deletion_requests (OpenTerminal p # xs) = deletion_requests xs"
  "deletion_requests (Refetch # xs) = deletion_requests xs"
  "deletion_requests (ToastSuccess m # xs) = deletion_requests xs"
  "deletion_requests (ToastWarning m # xs) = deletion_requests xs"
  "deletion_requests (ToastError m # xs) = deletion_requests xs"
  by (simp_all add: deletion_requests_def map_filter_simps)

lemma deletion_requests_append: "deletion_requests (xs @ ys) = deletion_requests xs @ deletion_requests ys"
  by (simp add: deletion_requests_def map_filter_def)

lemma deletion_request_simps [simp]:
  "\<not> deletion_request (mkdir p m)" "\<not> deletion_request (createFile p c m)" "\<not> deletion_request (renamePath p q)"
  "\<not> deletion_request (movePath p q)" "\<not> deletion_request (copyPath p q)" "\<not> deletion_request (duplicatePath p)"
  "\<not> deletion_request (moveToTrash p)" "\<not> deletion_request (restoreTrashItem p)" "\<not> deletion_request (chmodPath p q)"
  "\<not> deletion_request (readFile p)" "\<not> deletion_request (writeFile p c)" "\<not> deletion_request (zipPaths ps z)"
  "\<not> deletion_request (unzipPath p z)" "deletion_request (permanentlyDeleteTrashItem p)" "deletion_request emptyTrash"
  by (simp_all add: deletion_request_def FILEMANAGER_OPS_BASE_def mkdir_def createFile_def renamePath_def
      movePath_def copyPath_def duplicatePath_def moveToTrash_def restoreTrashItem_def chmodPath_def
      readFile_def writeFile_def zipPaths_def unzipPath_def permanentlyDeleteTrashItem_def
      emptyTrash_def)

lemma deletion_requests_none: "(\<And>x. x \<in> set xs \<Longrightarrow> \<not> deletion_request (f x)) \<Longrightarrow> deletion_requests (map (\<lambda>x. Send (f x)) xs) = []"
  by (induction xs) auto

lemma deletion_requests_all: "list_all deletion_request rs \<Longrightarrow> deletion_requests (map Send rs) = rs"
  by (induction rs) auto

lemma permanent_deletions: "list_all deletion_request (permanent_requests es ps)"
  by (auto simp: permanent_requests_def list_all_iff map_filter_def)

lemma toast_deletions [simp]: "deletion_requests [settled_toast f s oks] = []"
  by (simp add: settled_toast_def Let_def)

lemma toast_Cons_deletions [simp]: "deletion_requests (settled_toast f s oks # xs) = deletion_requests xs"
  by (simp add: settled_toast_def Let_def)

lemma openEntry_harmless: "deletion_requests (snd (openEntry e b)) = []"
  by (simp add: openEntry_def openEdit_def)

lemma downloadItems_harmless: "deletion_requests (downloadItems es) = []"
  by (simp add: downloadItems_def split: option.split)

lemma clipboard_harmless:
  "deletion_requests (snd (clipboardCopy e b)) = []" "deletion_requests (snd (clipboardCut e b)) = []"
  "deletion_requests (clipboardPaste b) = []"
  by (auto simp: clipboardCopy_def clipboardCut_def clipboardPaste_def Let_def deletion_requests_none
      split: option.split)

lemmas harmless = openEntry_harmless downloadItems_harmless clipboard_harmless

lemma entryActions_harmless: "deletion_requests (snd (entryActions a e b)) = []"
  by (cases a) (simp_all add: entryActions_def harmless openEdit_def Let_def split: option.split)

lemma rowActions_harmless: "deletion_requests (snd (rowActions a e b)) = []"
  by (cases a) (simp_all add: rowActions_def entryActions_harmless)

lemma selectionAction_harmless: "deletion_requests (snd (handleSelectionAction a items b)) = []"
  by (cases a; cases items)
    (simp_all add: handleSelectionAction_def harmless openEdit_def Let_def deletion_requests_none)

lemma submit_harmless:
  "deletion_requests (submitName b) = []" "deletion_requests (submitDestination d b) = []"
  "deletion_requests (submitMode b) = []" "deletion_requests (saveFile b) = []"
  "deletion_requests (snd (switchToSession i b)) = []" "deletion_requests (snd (seenEffect b)) = []"
  by (auto simp: submitName_def submitDestination_def submitMode_def saveFile_def Let_def
      deletion_requests_none switchToSession_def seenEffect_def split: option.split dialog_kind.split)

lemma submitDelete_deletions:
  "deletion_requests (submitDelete b) =
     (if inTrash b then permanent_requests (br_entries b) (operationPaths b) else [])"
  by (simp add: submitDelete_def deletion_requests_all permanent_deletions deletion_requests_none)

text \<open>C30: The page asks the server to delete past the trash only by confirming a deletion in the trash, with
one request for each path of the operation that is listed with a trash id, or by confirming to empty the
trash. No other event of the page, in whatever state and order, sends a request of those routes;
outside the trash a confirmed deletion only moves to the trash, and the route that deletes
without the trash is never used. What a move onto an existing name or the purge of expired items
loses on the server is not covered.\<close>

theorem trash_only_deletion:
  "deletion_requests (snd (page_step e b)) =
     (if e = SubmitDelete \<and> inTrash b
      then map permanentlyDeleteTrashItem
             (List.map_filter (\<lambda>p. Option.bind (find (\<lambda>x. de_path x = p) (br_entries b)) trash_id)
               (operationPaths b))
      else if e = SubmitEmptyTrash then [emptyTrash] else [])"
proof -
  have ids: "permanent_requests es ps =
      map permanentlyDeleteTrashItem
        (List.map_filter (\<lambda>p. Option.bind (find (\<lambda>x. de_path x = p) es) trash_id) ps)" for es ps
    by (induction ps)
      (auto simp: permanent_requests_def map_filter_simps split: option.split)
  show ?thesis
    by (cases e) (simp_all add: still_def entryActions_harmless rowActions_harmless
        selectionAction_harmless submit_harmless submitDelete_deletions ids answer_defs harmless)
qed

section \<open>The listing\<close>

definition folders_first :: "dir_entry list \<Rightarrow> bool" where
  "folders_first xs \<longleftrightarrow>
     list_all (\<lambda>e. de_type e \<noteq> ''directory'') (dropWhile (\<lambda>e. de_type e = ''directory'') xs)"

lemma sorted_ranks:
  assumes "Sorting_Algorithms.sorted (entry_order c pd ByName d) xs"
  shows "folders_first xs"
  using assms
proof (induction rule: sorted_induct)
  case (Cons x xs)
  show ?case
  proof (cases "de_type x = ''directory''")
    case False
    have "de_type y \<noteq> ''directory''" if "y \<in> set xs" for y
      using Cons.hyps(2) [OF that] False
      by (auto simp: entry_order_compares cmpEntries_def Let_def sign_of_def dirRank_def split: if_splits)
    then show ?thesis using False by (simp add: folders_first_def list_all_iff)
  qed (use Cons.IH in \<open>simp add: folders_first_def\<close>)
qed (simp add: folders_first_def)

text \<open>The listing shown is, whatever is searched for and however it is sorted, exactly the
entries that match the search, each as often as it is listed, in an order in which none stands
before one that the comparison puts before it; entries the comparison does not tell apart keep the
order of the server; and sorting by name keeps folders before files in both directions.\<close>

theorem listing_sorted:
  "mset (sortedEntries collate parseDate q k d entries) = mset (search_entries q entries)
   \<and> sorted_wrt (\<lambda>x y. cmpEntries collate parseDate k d x y \<noteq> Greater)
       (sortedEntries collate parseDate q k d entries)
   \<and> (\<forall>x. filter (\<lambda>y. cmpEntries collate parseDate k d x y = Equiv)
            (sortedEntries collate parseDate q k d entries) =
          filter (\<lambda>y. cmpEntries collate parseDate k d x y = Equiv) (search_entries q entries))
   \<and> folders_first (sortedEntries collate parseDate q ByName d entries)"
proof (intro conjI allI)
  let ?o = "entry_order collate parseDate k d"
  have "sorted_wrt (\<lambda>x y. compare ?o x y \<noteq> Greater) xs" if "Sorting_Algorithms.sorted ?o xs" for xs
    using that by (induction rule: sorted_induct) simp_all
  then show "sorted_wrt (\<lambda>x y. cmpEntries collate parseDate k d x y \<noteq> Greater)
      (sortedEntries collate parseDate q k d entries)"
    by (simp add: sortedEntries_def entry_order_compares)
  show "filter (\<lambda>y. cmpEntries collate parseDate k d x y = Equiv)
         (sortedEntries collate parseDate q k d entries) =
        filter (\<lambda>y. cmpEntries collate parseDate k d x y = Equiv) (search_entries q entries)" for x
    using stable_sort [of ?o x "search_entries q entries"]
    by (simp add: sortedEntries_def entry_order_compares)
qed (simp_all add: sortedEntries_def sorted_ranks [OF sorted_sort])

section \<open>The path bar\<close>

definition slashed :: "string list \<Rightarrow> string" where
  "slashed parts = concat (map (\<lambda>x. CHR ''/'' # x) parts)"

definition good_parts :: "string list \<Rightarrow> bool" where
  "good_parts parts \<longleftrightarrow> list_all (\<lambda>x. x \<noteq> [] \<and> CHR ''/'' \<notin> set x) parts"

text \<open>An absolute path without empty steps and without a slash at its end.\<close>

definition canonical_path :: "string \<Rightarrow> bool" where
  "canonical_path p \<longleftrightarrow> p = ''/'' \<or> path_parts p \<noteq> [] \<and> p = slashed (path_parts p)"

lemma last_free: "c \<notin> set s \<Longrightarrow> s \<noteq> [] \<Longrightarrow> last s \<noteq> c"
  using last_in_set by metis

lemma strip_slashes_id: "s = [] \<or> last s \<noteq> CHR ''/'' \<Longrightarrow> strip_slashes s = s"
  by (cases s rule: rev_cases) (auto simp: strip_slashes_def)

lemma path_parts_simps [simp]: "path_parts [] = []" "path_parts (CHR ''/'' # s) = path_parts s"
  by (simp_all add: path_parts_def starts_with_def)

lemma path_parts_step:
  "CHR ''/'' \<notin> set p \<Longrightarrow> p \<noteq> [] \<Longrightarrow> path_parts (p @ CHR ''/'' # s) = p # path_parts s"
  "CHR ''/'' \<notin> set p \<Longrightarrow> p \<noteq> [] \<Longrightarrow> path_parts p = [p]"
  by (simp_all add: path_parts_def js_split_char_append js_split_char_free)

lemma good_path_parts: "good_parts (path_parts p)"
  by (auto simp: good_parts_def list_all_iff path_parts_def dest: js_split_char_pieces)

lemma path_parts_slashed: "good_parts ps \<Longrightarrow> path_parts (slashed ps) = ps"
proof (induction ps)
  case (Cons p ps)
  then have p: "p \<noteq> []" "CHR ''/'' \<notin> set p" "good_parts ps" by (simp_all add: good_parts_def)
  then show ?case
  proof (cases ps)
    case (Cons q qs)
    then have "slashed ps = CHR ''/'' # (q @ slashed qs)" by (simp add: slashed_def)
    then have "path_parts (slashed (p # ps)) = p # path_parts (CHR ''/'' # q @ slashed qs)"
      using path_parts_step(1) [of p "q @ slashed qs"] p by (simp add: slashed_def)
    then show ?thesis using Cons.IH p \<open>slashed ps = CHR ''/'' # (q @ slashed qs)\<close> by simp
  qed (simp add: slashed_def path_parts_step)
qed (simp add: slashed_def)

lemma squeeze_free: "c \<notin> set s \<Longrightarrow> squeeze c s = s"
  by (induction c s rule: squeeze.induct) auto

lemma squeeze_step:
  "c \<notin> set p \<Longrightarrow> p \<noteq> [] \<Longrightarrow> squeeze c (c # p @ c # s) = c # p @ squeeze c (c # s)"
proof -
  assume p: "c \<notin> set p" "p \<noteq> []"
  then have "squeeze c (p @ c # s) = p @ squeeze c (c # s)"
  proof (induction p)
    case (Cons x p)
    then show ?case by (cases p) auto
  qed simp
  moreover obtain a q where "p = a # q" using p(2) by (cases p) auto
  ultimately show ?thesis using p(1) by auto
qed

lemma squeeze_parts:
  "squeeze (CHR ''/'') (CHR ''/'' # s) =
     (if path_parts s = [] then ''/''
      else slashed (path_parts s) @ (if last (CHR ''/'' # s) = CHR ''/'' then ''/'' else []))"
proof (induction "length s" arbitrary: s rule: less_induct)
  case less
  let ?c = "CHR ''/''"
  show ?case
  proof (cases "?c \<in> set s")
    case False
    then have "last (?c # s) \<noteq> ?c" if "s \<noteq> []" using that last_free [of ?c s] by simp
    moreover have "squeeze ?c (?c # s) = ?c # s" using False squeeze_free [of ?c s] by (cases s) auto
    ultimately show ?thesis using False by (cases "s = []") (auto simp: path_parts_step slashed_def)
  next
    case True
    then obtain p s' where s: "s = p @ ?c # s'" "?c \<notin> set p" using split_list_first [of ?c s] by blast
    then have IH: "squeeze ?c (?c # s') =
        (if path_parts s' = [] then ''/''
         else slashed (path_parts s') @ (if last (?c # s') = ?c then ''/'' else []))"
      using less by simp
    show ?thesis
    proof (cases "p = []")
      case True
      then show ?thesis using s IH by simp
    next
      case False
      have empty: "last (?c # s') = ?c" if "path_parts s' = []"
      proof (rule ccontr)
        assume l: "last (?c # s') \<noteq> ?c"
        then have "s' \<noteq> []" by auto
        then have "last s' \<noteq> ?c" using l by simp
        moreover have "js_join ''/'' (js_split ''/'' s') = s'" by (rule js_join_split)
        moreover have "\<forall>x \<in> set (js_split ''/'' s'). x = []"
          using that by (auto simp: path_parts_def filter_empty_conv)
        moreover have "set (js_join ''/'' ps) \<subseteq> {?c}" if "\<forall>x \<in> set ps. x = []" for ps
          using that by (induction "''/''" ps rule: js_join.induct) auto
        ultimately have "set s' \<subseteq> {?c}" by metis
        then show False
          using \<open>s' \<noteq> []\<close> \<open>last s' \<noteq> ?c\<close> last_in_set by (metis singletonD subsetD)
      qed
      have "squeeze ?c (?c # s) = ?c # p @ squeeze ?c (?c # s')" using squeeze_step s False by simp
      moreover have "path_parts s = p # path_parts s'" using path_parts_step(1) s False by simp
      moreover have "last (?c # s) = last (?c # s')" using s by simp
      ultimately show ?thesis using IH empty by (auto simp: slashed_def)
    qed
  qed
qed

lemma slashed_last:
  assumes "good_parts ps" "ps \<noteq> []"
  shows "slashed ps \<noteq> []" "last (slashed ps) = last (last ps)" "last (slashed ps) \<noteq> CHR ''/''"
    "1 < length (slashed ps)"
proof -
  obtain qs q where ps: "ps = qs @ [q]" using assms(2) by (metis append_butlast_last_id)
  then have q: "q \<noteq> []" "CHR ''/'' \<notin> set q" using assms(1) by (simp_all add: good_parts_def)
  show "slashed ps \<noteq> []" "last (slashed ps) = last (last ps)" "1 < length (slashed ps)"
    using ps q by (auto simp: slashed_def neq_Nil_conv)
  then show "last (slashed ps) \<noteq> CHR ''/''" using ps q last_free [of _ q] by simp
qed

lemma ends_with_single: "ends_with s [c] \<longleftrightarrow> s \<noteq> [] \<and> last s = c"
  by (cases s rule: rev_cases) (auto simp: ends_with_def starts_with_def)

lemma squeeze_length: "length (squeeze c s) \<le> length s"
  by (induction c s rule: squeeze.induct) auto

lemma normalize_length:
  assumes "t = CHR ''/'' # s"
  shows "length (let ps = path_parts t in if ps = [] then ''/'' else slashed ps) \<le> length t"
  using squeeze_length [of "CHR ''/''" t] squeeze_parts [of s] assms
  by (auto simp: Let_def split: if_splits)

text \<open>What the input is turned into: its steps, each behind a slash.\<close>

lemma normalizePathInput_parts:
  "normalizePathInput raw =
     (let ps = path_parts (trim raw) in if ps = [] then ''/'' else slashed ps)"
proof (cases "trim raw = []")
  case False
  let ?w = "if starts_with (trim raw) ''/'' then trim raw else ''/'' @ trim raw"
  obtain s where w: "?w = CHR ''/'' # s"
    using starts_with_iff [of "trim raw" "''/''"] by (cases "starts_with (trim raw) ''/''") auto
  have parts: "path_parts s = path_parts (trim raw)"
    using w by (cases "starts_with (trim raw) ''/''") auto
  let ?ps = "path_parts s"
  have sq: "squeeze (CHR ''/'') ?w =
      (if ?ps = [] then ''/''
       else slashed ?ps @ (if last (CHR ''/'' # s) = CHR ''/'' then ''/'' else []))"
    unfolding w by (rule squeeze_parts)
  show ?thesis
  proof (cases "?ps = []")
    case True
    then show ?thesis using False parts sq
      by (simp add: normalizePathInput_def Let_def ends_with_single or_str_def)
  next
    case ne: False
    note sl = slashed_last [OF good_path_parts ne]
    have "normalizePathInput raw =
        (let clean = squeeze (CHR ''/'') ?w in
         if length clean > 1 \<and> ends_with clean ''/'' then butlast clean else or_str clean ''/'')"
      using False by (simp add: normalizePathInput_def Let_def)
    also have "\<dots> = slashed ?ps"
      using sq ne sl by (auto simp: Let_def ends_with_single or_str_def butlast_append)
    finally show ?thesis using parts ne by (simp add: Let_def)
  qed
qed (simp add: normalizePathInput_def)

lemma canonical_slashed: "good_parts ps \<Longrightarrow> ps \<noteq> [] \<Longrightarrow> canonical_path (slashed ps)"
  by (simp add: canonical_path_def path_parts_slashed)

lemma normalizePathInput_canonical: "canonical_path (normalizePathInput raw)"
  using canonical_slashed [OF good_path_parts]
  by (simp add: normalizePathInput_parts Let_def canonical_path_def)

fun crumb_chain :: "(string \<times> string) list \<Rightarrow> bool" where
  "crumb_chain (a # b # cs) \<longleftrightarrow> snd b = joinPath (snd a) (fst b) \<and> crumb_chain (b # cs)"
| "crumb_chain _ \<longleftrightarrow> True"

lemma crumbs_from_chain:
  assumes "good_parts qs" "good_parts ps" "qs \<noteq> []"
  shows "crumb_chain ((l, slashed qs) # crumbs_from (slashed qs) ps) \<and>
         snd (last ((l, slashed qs) # crumbs_from (slashed qs) ps)) = slashed (qs @ ps)"
  using assms
proof (induction ps arbitrary: l qs)
  case (Cons p ps)
  have step: "slashed qs @ ''/'' @ p = slashed (qs @ [p])" by (simp add: slashed_def)
  have "joinPath (slashed qs) p = slashed (qs @ [p])"
  proof -
    note sl = slashed_last [OF Cons.prems(1,3)]
    have "slashed qs \<noteq> ''/''" using sl(4) by auto
    moreover have "strip_slashes (slashed qs) = slashed qs"
      using sl(3) by (simp add: strip_slashes_id)
    ultimately show ?thesis using step by (simp add: joinPath_def)
  qed
  moreover have "good_parts (qs @ [p])" "good_parts ps" using Cons.prems by (simp_all add: good_parts_def)
  ultimately show ?case using Cons.IH [of "qs @ [p]" p] step by (simp add: Let_def)
qed simp

lemma splitPath_canonical:
  assumes "canonical_path p"
  shows "hd (splitPath p) = (''/'', ''/'') \<and> snd (last (splitPath p)) = p \<and> crumb_chain (splitPath p)"
proof (cases "p = ''/''")
  case False
  then obtain q qs where parts: "path_parts p = q # qs" and p: "p = slashed (q # qs)"
    using assms by (auto simp: canonical_path_def neq_Nil_conv)
  have good: "good_parts [q]" "good_parts qs"
    using good_path_parts [of p] parts by (simp_all add: good_parts_def)
  have "strip_slashes p = p"
    using slashed_last(3) [OF good_path_parts [of p]] parts p by (metis list.distinct(1) strip_slashes_id)
  then have sp: "splitPath p = (''/'', ''/'') # (q, slashed [q]) # crumbs_from (slashed [q]) qs"
    using False parts by (simp add: splitPath_def Let_def slashed_def)
  show ?thesis using crumbs_from_chain [OF good] sp p by (simp add: joinPath_def slashed_def)
qed (simp add: splitPath_def Let_def)

text \<open>Whatever is typed as a path, the page moves to an absolute path without empty steps and
without a slash at its end, and the crumbs shown for it start at the root, go down by one step
each, and end at the path itself.\<close>

theorem path_bar_law:
  "canonical_path (br_path (navigateTo raw b)) \<and>
   hd (splitPath (br_path (navigateTo raw b))) = (''/'', ''/'') \<and>
   crumb_chain (splitPath (br_path (navigateTo raw b))) \<and>
   snd (last (splitPath (br_path (navigateTo raw b)))) = br_path (navigateTo raw b)"
  using splitPath_canonical [OF normalizePathInput_canonical [of raw]]
  by (simp add: navigateTo_def Let_def normalizePathInput_canonical)

text \<open>Opening a folder from the listing shows that folder exactly when its path does not end in
white space: the path of an entry goes through the function for typed paths, which trims it, so a
folder named with a blank at its end cannot be opened; another folder is shown in its place.\<close>

theorem folder_opens_unless_blank:
  assumes "canonical_path (de_path e)" "de_type e = ''directory''" "\<not> inTrash b" "trash_id e = None"
  shows "br_path (fst (openEntry e b)) = de_path e \<longleftrightarrow> \<not> js_ws (last (de_path e))"
proof -
  let ?p = "de_path e"
  have open_dir: "br_path (fst (openEntry e b)) = normalizePathInput ?p"
    using assms by (simp add: openEntry_def navigateTo_def Let_def)
  have hd: "?p \<noteq> []" "hd ?p = CHR ''/''"
    using assms(1) by (auto simp: canonical_path_def slashed_def neq_Nil_conv)
  have start: "trim_start ?p = ?p" by (rule trim_start_id) (use hd in \<open>simp add: js_ws_def\<close>)
  show ?thesis
  proof (cases "js_ws (last ?p)")
    case False
    then have "trim ?p = ?p" using start hd trim_end_id [of ?p] by (simp add: trim_def)
    then have "normalizePathInput ?p = ?p"
      using assms(1) by (auto simp: normalizePathInput_parts Let_def canonical_path_def)
    then show ?thesis using open_dir False by simp
  next
    case True
    have "trim ?p \<noteq> ?p"
      using last_trim_end [of ?p] hd True start by (auto simp: trim_def)
    then have "length (trim ?p) < length ?p"
      using trim_end_suffix [of ?p] start by (auto simp: trim_def) (metis append_self_conv length_append
          less_add_same_cancel1 length_greater_0_conv)
    moreover have "length (normalizePathInput ?p) \<le> length (trim ?p)"
    proof -
      have "\<not> js_ws (CHR ''/'')" "CHR ''/'' \<in> set ?p"
        using hd hd_in_set [of ?p] by (simp_all add: js_ws_def)
      then have "trim ?p \<noteq> []" using trim_Nil_iff by blast
      then have "hd (trim ?p) = CHR ''/''" using start hd hd_trim_end [of ?p] by (simp add: trim_def)
      then obtain s where "trim ?p = CHR ''/'' # s" using \<open>trim ?p \<noteq> []\<close> by (cases "trim ?p") auto
      then show ?thesis using normalize_length by (simp add: normalizePathInput_parts)
    qed
    ultimately show ?thesis using open_dir True by auto
  qed
qed

text \<open>A folder called \<open>a\<close> opens; one called \<open>a\<close> and a blank does not.\<close>

theorem folder_opens_unless_blank_witness:
  "br_path (fst (openEntry ((sample_entry ''a'')\<lparr>de_type := ''directory''\<rparr>) sample_page)) = ''/srv/a''
   \<and> br_path (fst (openEntry ((sample_entry ''a '')\<lparr>de_type := ''directory''\<rparr>) sample_page)) \<noteq> ''/srv/a ''"
proof -
  have "canonical_path (de_path ((sample_entry n)\<lparr>de_type := ''directory''\<rparr>))" if "n = ''a'' \<or> n = ''a ''" for n
    using that by (auto simp: sample_entry_def canonical_path_def slashed_def path_parts_def starts_with_def)
  moreover have "\<not> inTrash sample_page"
    by (simp add: sample_page_def sample_page_simps inTrash_def currentPath_def or_str_def
        isTrashPath_def trash_suffix_def ends_with_def starts_with_def strip_slashes_def)
  moreover have "trash_id ((sample_entry n)\<lparr>de_type := ''directory''\<rparr>) = None" for n
    by (simp add: sample_entry_def trash_id_def trashIdFromEntry_def as_file_entry_def starts_with_def)
  ultimately show ?thesis
    using folder_opens_unless_blank [of "(sample_entry ''a'')\<lparr>de_type := ''directory''\<rparr>" sample_page]
      folder_opens_unless_blank [of "(sample_entry ''a '')\<lparr>de_type := ''directory''\<rparr>" sample_page]
    by (simp add: sample_entry_def js_ws_def)
qed

section \<open>Two slips\<close>

text \<open>
  A new tab shows the home folder once its listing arrives. Until then the path is empty and the
  listing of the tab before stands in, so a paste goes to the folder of that tab.
\<close>

theorem paste_before_home_is_listed:
  assumes "br_data b = Some d" "dl_path d \<noteq> []" "fst (br_clip b) = Some c"
    and "\<not> isTrashPath (dl_path d) (Some (dl_home d))"
  shows "snd (page_step PasteKey (page_apply (AddTab i) b)) =
         map (\<lambda>p. Send (if cb_mode c = CutMode then movePath p (dl_path d) else copyPath p (dl_path d)))
           (cb_paths c)"
  using assms
  by (simp add: page_apply_def still_def onAddTab_def clipboardPaste_def inTrash_def currentPath_def
      or_str_def)

text \<open>The question before a deletion does not name a single entry picked in the selection bar: it
asks about an item called undefined, although the confirmed deletion acts on that entry.\<close>

theorem single_selection_unnamed:
  assumes "selection_items b = [e]" "\<not> inTrash b"
  shows "delete_prompt (page_apply (SelectionAction SDelete) b) =
           ''Move '' @ [CHR 0x93] @ ''undefined'' @ [CHR 0x94] @
           '' to trash? Items are kept for 30 days.'' \<and>
         snd (page_step SubmitDelete (page_apply (SelectionAction SDelete) b)) =
           [Send (moveToTrash (de_path e))]"
  using assms
  by (simp_all add: page_apply_def handleSelectionAction_def openDelete_def delete_prompt_def inTrash_def
      currentPath_def submitDelete_def operationPaths_def)

end
