(* ===== verification/Stack_Env.thy ===== *)
theory Stack_Env
  imports Js_Prelude
begin

text \<open>
  Editing a Docker stack, \<open>modules/docker/pages/stacks/edit\<close>: the environment file
  (\<open>env-file.ts\<close>), read into rows of names and values and written back, and the checks made on
  the compose file before it is sent (\<open>validate-compose-client.ts\<close>).
\<close>

section \<open>Environment file\<close>

record env_pair =
  ev_id :: string
  ev_name :: string
  ev_value :: string

text \<open>
  The counter \<open>envSeq\<close> is passed along; \<open>stamp n\<close> is \<open>Date.now().toString(36)\<close> when the counter
  reaches \<open>n\<close>.
\<close>

definition nextEnvId :: "(nat \<Rightarrow> string) \<Rightarrow> nat \<Rightarrow> string \<times> nat" where
  "nextEnvId stamp seq =
     (''env-'' @ show_nat (seq + 1) @ ''-'' @ stamp (seq + 1), seq + 1)"

definition emptyEnvPair :: "(nat \<Rightarrow> string) \<Rightarrow> nat \<Rightarrow> env_pair \<times> nat" where
  "emptyEnvPair stamp seq =
     (let (i, seq') = nextEnvId stamp seq in (\<lparr>ev_id = i, ev_name = [], ev_value = []\<rparr>, seq'))"

abbreviation LF :: char where "LF \<equiv> CHR 10"
abbreviation CR :: char where "CR \<equiv> CHR 13"
abbreviation DQ :: char where "DQ \<equiv> CHR 34"
abbreviation SQ :: char where "SQ \<equiv> CHR 39"
abbreviation BS :: char where "BS \<equiv> CHR 92"

text \<open>\<open>text.replace(/\r\n/g, "\n")\<close>\<close>

fun replace_crlf :: "string \<Rightarrow> string" where
  "replace_crlf [] = []"
| "replace_crlf [c] = [c]"
| "replace_crlf (c # d # s) =
     (if c = CR \<and> d = LF then LF # replace_crlf s else c # replace_crlf (d # s))"

definition quoted :: "string \<Rightarrow> bool" where
  "quoted v \<longleftrightarrow> (starts_with v [DQ] \<and> ends_with v [DQ]) \<or> (starts_with v [SQ] \<and> ends_with v [SQ])"

text \<open>\<open>value.slice(1, -1)\<close> of a quoted value\<close>

definition unquote :: "string \<Rightarrow> string" where
  "unquote v = (if quoted v then butlast (tl v) else v)"

text \<open>The row of a line, \<open>None\<close> for a blank line or a comment.\<close>

definition env_line :: "string \<Rightarrow> (string \<times> string) option" where
  "env_line line =
     (let trimmed = trim line in
      if trimmed = [] \<or> starts_with trimmed ''#'' then None
      else case index_of CHR ''='' trimmed of
        None \<Rightarrow> Some (trimmed, [])
      | Some eq \<Rightarrow> Some (trim (take eq trimmed), unquote (drop (eq + 1) trimmed)))"

fun env_rows :: "(nat \<Rightarrow> string) \<Rightarrow> nat \<Rightarrow> (string \<times> string) list \<Rightarrow> env_pair list \<times> nat" where
  "env_rows stamp seq [] = ([], seq)"
| "env_rows stamp seq ((n, v) # rows) =
     (let (i, seq') = nextEnvId stamp seq;
          (ps, seq'') = env_rows stamp seq' rows
      in (\<lparr>ev_id = i, ev_name = n, ev_value = v\<rparr> # ps, seq''))"

definition parseEnvFile :: "(nat \<Rightarrow> string) \<Rightarrow> nat \<Rightarrow> string \<Rightarrow> env_pair list \<times> nat" where
  "parseEnvFile stamp seq text =
     (let rows = List.map_filter env_line (js_split [LF] (replace_crlf text));
          (ps, seq') = env_rows stamp seq rows
      in if ps \<noteq> [] then (ps, seq')
         else (let (p, seq'') = emptyEnvPair stamp seq' in ([p], seq'')))"

definition needsQuote :: "string \<Rightarrow> bool" where
  "needsQuote v \<longleftrightarrow> CHR '' '' \<in> set v \<or> CHR ''#'' \<in> set v \<or> CHR ''='' \<in> set v \<or> LF \<in> set v"

definition escape_value :: "string \<Rightarrow> string" where
  "escape_value v = replace_char DQ [BS, DQ] (replace_char BS [BS, BS] v)"

definition env_text :: "string \<Rightarrow> string \<Rightarrow> string" where
  "env_text name v =
     (if needsQuote v then name @ ''='' @ [DQ] @ escape_value v @ [DQ] else name @ ''='' @ v)"

definition serializeEnvFile :: "env_pair list \<Rightarrow> string" where
  "serializeEnvFile pairs =
     js_join [LF] (map (\<lambda>p. env_text (trim (ev_name p)) (ev_value p))
       (filter (\<lambda>p. trim (ev_name p) \<noteq> []) pairs))"

definition envPairsHaveErrors :: "env_pair list \<Rightarrow> bool" where
  "envPairsHaveErrors pairs \<longleftrightarrow>
     list_ex (\<lambda>p. trim (ev_name p) = [] \<and> trim (ev_value p) \<noteq> []) pairs"

section \<open>Compose file\<close>

record compose_issue =
  ci_message :: string
  ci_line :: "nat option"
  ci_column :: "nat option"

record yaml_error =
  ye_message :: string
  ye_line :: "nat option"
  ye_column :: "nat option"

text \<open>
  What the package yaml answers: it throws, with a message if it throws an Error, or it gives a
  document with its errors and the value \<open>doc.toJS()\<close> gives, or what that throws.
\<close>

datatype yaml_doc =
    YamlThrows "string option"
  | YamlDoc "yaml_error list" "string option + jv"

definition compose_issue :: "string \<Rightarrow> compose_issue" where
  "compose_issue msg = \<lparr>ci_message = msg, ci_line = None, ci_column = None\<rparr>"

text \<open>\<open>message.replace(/^YAMLParseError:\s*/i, "")\<close>\<close>

definition strip_yaml_prefix :: "string \<Rightarrow> string" where
  "strip_yaml_prefix s =
     (if starts_with (map js_lower s) ''yamlparseerror:'' then trim_start (drop 15 s) else s)"

definition thrown_issue :: "string option \<Rightarrow> compose_issue" where
  "thrown_issue msg = compose_issue (case msg of Some s \<Rightarrow> s | None \<Rightarrow> ''Invalid YAML'')"

fun as_mapping :: "jv \<Rightarrow> obj option" where
  "as_mapping (JObj b) = Some b"
| "as_mapping _ = None"

fun is_build :: "jv \<Rightarrow> bool" where
  "is_build (JStr _) = True"
| "is_build (JArr _) = True"
| "is_build (JObj _) = True"
| "is_build _ = False"

definition service_complete :: "obj \<Rightarrow> bool" where
  "service_complete s \<longleftrightarrow>
     (case oget s ''image'' of JStr i \<Rightarrow> trim i \<noteq> [] | _ \<Rightarrow> False) \<or>
     is_build (oget s ''build'') \<or>
     (oget s ''extends'' \<noteq> JUndef \<and> oget s ''extends'' \<noteq> JNull)"

fun check_services :: "obj \<Rightarrow> compose_issue option" where
  "check_services [] = None"
| "check_services ((name, svc) # rest) =
     (case as_mapping svc of
        None \<Rightarrow> Some (compose_issue (''Service '' @ [DQ] @ name @ [DQ] @ '' must be a mapping''))
      | Some s \<Rightarrow>
          if service_complete s then check_services rest
          else Some (compose_issue (''Service '' @ [DQ] @ name @ [DQ] @ '' needs an '' @ [DQ] @
                 ''image'' @ [DQ] @ '', '' @ [DQ] @ ''build'' @ [DQ] @ '', or '' @ [DQ] @
                 ''extends'' @ [DQ])))"

definition check_root :: "obj \<Rightarrow> compose_issue option" where
  "check_root doc =
     (let hasServices = map_of doc ''services'' \<noteq> None;
          hasInclude = map_of doc ''include'' \<noteq> None
      in if \<not> hasServices \<and> \<not> hasInclude
         then Some (compose_issue (''Compose file must define a '' @ [DQ] @ ''services'' @ [DQ] @
                '' mapping (or use '' @ [DQ] @ ''include'' @ [DQ] @ '')''))
         else if hasServices
         then (case as_mapping (oget doc ''services'') of
                 None \<Rightarrow> Some (compose_issue ([DQ] @ ''services'' @ [DQ] @
                           '' must be a mapping of service definitions''))
               | Some [] \<Rightarrow> Some (compose_issue ([DQ] @ ''services'' @ [DQ] @
                              '' must define at least one service''))
               | Some services \<Rightarrow> check_services services)
         else None)"

definition validateComposeYamlClient ::
  "(string \<Rightarrow> yaml_doc) \<Rightarrow> string \<Rightarrow> compose_issue option" where
  "validateComposeYamlClient parseDocument text =
     (if trim text = [] then Some (compose_issue ''Compose YAML is required'')
      else case parseDocument text of
        YamlThrows msg \<Rightarrow> Some (thrown_issue msg)
      | YamlDoc (e # _) _ \<Rightarrow>
          Some \<lparr>ci_message = strip_yaml_prefix (ye_message e), ci_line = ye_line e,
                ci_column = ye_column e\<rparr>
      | YamlDoc [] (Inl msg) \<Rightarrow> Some (thrown_issue msg)
      | YamlDoc [] (Inr v) \<Rightarrow>
          (case as_mapping v of
             None \<Rightarrow> Some (compose_issue ''Compose file must be a YAML mapping (object)'')
           | Some doc \<Rightarrow> check_root doc))"

section \<open>Facts about the environment file\<close>

definition pair_of :: "env_pair \<Rightarrow> string \<times> string" where
  "pair_of p = (ev_name p, ev_value p)"

lemma env_rows_pairs: "map pair_of (fst (env_rows stamp seq rows)) = rows"
  by (induction stamp seq rows rule: env_rows.induct)
    (auto simp: pair_of_def Let_def split: prod.splits)

lemma env_rows_Nil: "fst (env_rows stamp seq rows) = [] \<longleftrightarrow> rows = []"
  using env_rows_pairs [of stamp seq rows] by auto

lemma parsed_pairs:
  "map pair_of (fst (parseEnvFile stamp seq text)) =
     (let rows = List.map_filter env_line (js_split [LF] (replace_crlf text))
      in if rows = [] then [([], [])] else rows)"
proof -
  let ?rows = "List.map_filter env_line (js_split [LF] (replace_crlf text))"
  obtain ps seq' where r: "env_rows stamp seq ?rows = (ps, seq')" by force
  have "map pair_of ps = ?rows" using env_rows_pairs [of stamp seq ?rows] r by simp
  then show ?thesis
    using r by (auto simp: parseEnvFile_def emptyEnvPair_def pair_of_def Let_def split: prod.splits)
qed

text \<open>A carriage return before a line end is dropped by the replacement, or else by the trimming.\<close>

lemma trim_snoc: "js_ws c \<Longrightarrow> trim (p @ [c]) = trim p"
  by (cases "\<forall>x \<in> set p. js_ws x")
    (auto simp: trim_def trim_start_def trim_end_def dropWhile_append dest: set_dropWhileD)

definition same_line :: "string \<Rightarrow> string \<Rightarrow> bool" where
  "same_line p q \<longleftrightarrow> q = p \<or> q = p @ [CR]"

lemma split_step:
  "list_all2 same_line (js_split [LF] s) (js_split [LF] t) \<Longrightarrow>
   list_all2 same_line (js_split [LF] (c # s)) (js_split [LF] (c # t))"
  by (cases "js_split [LF] s"; cases "js_split [LF] t")
    (auto simp: starts_with_def same_line_def)

lemma split_crlf:
  "list_all2 same_line (js_split [LF] (replace_crlf s)) (js_split [LF] s)"
proof (induction s rule: replace_crlf.induct)
  case (3 c d s)
  show ?case
  proof (cases "c = CR \<and> d = LF")
    case True
    then show ?thesis
      using 3(1) by (simp add: starts_with_def same_line_def)
  next
    case False
    then show ?thesis
      using split_step [OF 3(2) [OF False], of c] by (simp only: replace_crlf.simps if_False)
  qed
qed (simp_all add: starts_with_def same_line_def)

lemma env_line_cr: "env_line (p @ [CR]) = env_line p"
  by (simp add: env_line_def trim_snoc js_ws_def)

lemma rows_crlf:
  "List.map_filter env_line (js_split [LF] (replace_crlf s)) =
   List.map_filter env_line (js_split [LF] s)"
proof -
  have "List.map_filter env_line ps = List.map_filter env_line qs"
    if "list_all2 same_line ps qs" for ps qs
    using that
    by (induction rule: list_all2_induct)
      (auto simp: List.map_filter_simps env_line_cr same_line_def split: option.splits)
  then show ?thesis using split_crlf by blast
qed

text \<open>The row read from a line that was written for a name and some text.\<close>

definition env_name :: "string \<Rightarrow> bool" where
  "env_name n \<longleftrightarrow> n \<noteq> [] \<and> trim n = n \<and> CHR ''='' \<notin> set n \<and> LF \<notin> set n \<and> hd n \<noteq> CHR ''#''"

lemma env_line_written:
  assumes "env_name n"
  shows "env_line (n @ CHR ''='' # w) = Some (n, unquote (trim_end w))"
proof -
  have n: "n \<noteq> []" "trim n = n" "CHR ''='' \<notin> set n" "hd n \<noteq> CHR ''#''"
    using assms by (simp_all add: env_name_def)
  have "\<not> js_ws (hd n)"
    using n(1,2) by (metis hd_dropWhile trim_start_def trim_def hd_trim_end trim_Nil_iff
        dropWhile_eq_Nil_conv)
  then have "trim (n @ CHR ''='' # w) = n @ CHR ''='' # trim_end w"
    using n(1) by (simp add: trim_def trim_start_id trim_end_mid js_ws_def)
  moreover have "\<not> starts_with (n @ CHR ''='' # trim_end w) ''#''"
    using n(1,4) by (cases n) (auto simp: starts_with_def)
  ultimately show ?thesis
    using n by (simp add: env_line_def index_of_append)
qed

text \<open>Which values are read back as they were written.\<close>

definition env_value_kept :: "string \<Rightarrow> bool" where
  "env_value_kept v \<longleftrightarrow>
     (if needsQuote v then DQ \<notin> set v \<and> BS \<notin> set v \<and> LF \<notin> set v
      else trim_end v = v \<and> \<not> quoted v)"

lemma escape_Cons:
  "escape_value (c # v) =
     (if c = BS then [BS, BS] else if c = DQ then [BS, DQ] else [c]) @ escape_value v"
  by (simp add: escape_value_def replace_char_def)

lemma escape_Nil: "escape_value [] = []"
  by (simp add: escape_value_def replace_char_def)

lemma escape_length: "length v \<le> length (escape_value v)"
  by (induction v) (auto simp: escape_Cons escape_Nil)

lemma escape_same: "escape_value v = v \<longleftrightarrow> DQ \<notin> set v \<and> BS \<notin> set v"
proof (induction v)
  case (Cons c v)
  show ?case
  proof (cases "c = BS \<or> c = DQ")
    case True
    then have "length (c # v) < length (escape_value (c # v))"
      using escape_length [of v] by (auto simp: escape_Cons)
    then have "escape_value (c # v) \<noteq> c # v" by force
    then show ?thesis using True by auto
  next
    case False
    then show ?thesis using Cons by (auto simp: escape_Cons)
  qed
qed (simp add: escape_Nil)

lemma unquote_length: "length (unquote v) \<le> length v"
  by (simp add: unquote_def)

lemma unquote_same: "unquote v = v \<longleftrightarrow> \<not> quoted v"
proof -
  have "length (butlast (tl v)) < length v" if "quoted v"
    using that by (cases v) (auto simp: quoted_def starts_with_def)
  then show ?thesis by (metis less_irrefl unquote_def)
qed

lemma trim_end_length: "length (trim_end v) \<le> length v"
  by (metis append_take_drop_id length_append le_add1 trim_end_suffix)

lemma trim_end_shorter: "trim_end v \<noteq> v \<Longrightarrow> length (trim_end v) < length v"
  using trim_end_suffix [of v] by (metis append.right_neutral length_append length_greater_0_conv
      less_add_same_cancel1)

lemma quoted_dq: "unquote (DQ # w @ [DQ]) = w"
  by (simp add: unquote_def quoted_def starts_with_def ends_with_def)

lemma env_line_text:
  assumes "env_name n" "LF \<notin> set v"
  shows "\<exists>v'. env_line (env_text n v) = Some (n, v') \<and> (v' = v \<longleftrightarrow> env_value_kept v)"
proof (cases "needsQuote v")
  case True
  have "trim_end (DQ # escape_value v @ [DQ]) = DQ # escape_value v @ [DQ]"
    by (rule trim_end_id) (simp add: js_ws_def)
  then have "env_line (env_text n v) = Some (n, escape_value v)"
    using env_line_written [OF assms(1), of "DQ # escape_value v @ [DQ]"] True
    by (simp add: env_text_def quoted_dq)
  then show ?thesis
    using True assms(2) by (simp add: env_value_kept_def escape_same)
next
  case False
  have "env_line (env_text n v) = Some (n, unquote (trim_end v))"
    using env_line_written [OF assms(1), of v] False by (simp add: env_text_def)
  moreover have "unquote (trim_end v) = v \<longleftrightarrow> trim_end v = v \<and> \<not> quoted v"
    using unquote_same [of v] unquote_length [of "trim_end v"] trim_end_shorter [of v]
    by (cases "trim_end v = v") auto
  ultimately show ?thesis using False by (simp add: env_value_kept_def)
qed

lemma escape_LF: "LF \<in> set (escape_value v) \<longleftrightarrow> LF \<in> set v"
  by (induction v) (auto simp: escape_Cons escape_Nil)

lemma env_text_LF: "env_name n \<Longrightarrow> LF \<in> set (env_text n v) \<longleftrightarrow> LF \<in> set v"
  by (auto simp: env_text_def env_name_def escape_LF)

lemma env_line_chars: "env_line line = Some (n, v) \<Longrightarrow> set v \<subseteq> set line"
proof -
  assume a: "env_line line = Some (n, v)"
  have u: "set (unquote w) \<subseteq> set w" for w
    unfolding unquote_def by (auto dest: in_set_butlastD list.set_sel(2) [rotated])
      (metis in_set_butlastD list.sel(2) list.set_sel(2))
  have "v = [] \<or> (\<exists>k. v = unquote (drop k (trim line)))"
    using a by (auto simp: env_line_def Let_def split: if_splits option.splits)
  then show ?thesis
    using u set_trim [of line] set_drop_subset by fastforce
qed

text \<open>No value that was read holds a line end.\<close>

lemma rows_LF_free:
  "(n, v) \<in> set (List.map_filter env_line (js_split [LF] t)) \<Longrightarrow> LF \<notin> set v"
  using js_split_char_pieces [of _ LF t] env_line_chars
  by (fastforce simp: List.map_filter_def)

lemma written_rows:
  assumes "\<forall>p \<in> set ps. env_name (ev_name p) \<and> LF \<notin> set (ev_value p)" "ps \<noteq> []"
  shows "List.map_filter env_line (js_split [LF] (serializeEnvFile ps)) =
         List.map_filter env_line (map (\<lambda>p. env_text (ev_name p) (ev_value p)) ps)"
proof -
  have t: "trim (ev_name p) = ev_name p" "ev_name p \<noteq> []" if "p \<in> set ps" for p
    using that assms(1) by (auto simp: env_name_def)
  then have "serializeEnvFile ps = js_join [LF] (map (\<lambda>p. env_text (ev_name p) (ev_value p)) ps)"
    unfolding serializeEnvFile_def by (simp cong: map_cong filter_cong)
  then show ?thesis
    using assms by (simp add: js_split_join_char env_text_LF)
qed

lemma pointwise_rows:
  assumes "\<forall>p \<in> set ps. env_name (ev_name p) \<and> LF \<notin> set (ev_value p)"
  shows "List.map_filter env_line (map (\<lambda>p. env_text (ev_name p) (ev_value p)) ps) = map pair_of ps
         \<longleftrightarrow> (\<forall>p \<in> set ps. env_value_kept (ev_value p))"
  using assms
proof (induction ps)
  case (Cons p ps)
  obtain v' where "env_line (env_text (ev_name p) (ev_value p)) = Some (ev_name p, v')"
      "v' = ev_value p \<longleftrightarrow> env_value_kept (ev_value p)"
    using env_line_text [of "ev_name p" "ev_value p"] Cons.prems by auto
  with Cons show ?case by (simp add: List.map_filter_simps pair_of_def)
qed (simp add: List.map_filter_simps)

lemma named_roundtrip:
  assumes "\<forall>p \<in> set ps. env_name (ev_name p)" and "ps \<noteq> []"
  shows "map pair_of (fst (parseEnvFile stamp seq (serializeEnvFile ps))) = map pair_of ps \<longleftrightarrow>
         (\<forall>p \<in> set ps. env_value_kept (ev_value p))"
proof (cases "\<forall>p \<in> set ps. LF \<notin> set (ev_value p)")
  case True
  have ok: "\<forall>p \<in> set ps. env_name (ev_name p) \<and> LF \<notin> set (ev_value p)"
    using True assms(1) by blast
  have "ev_name (hd ps) \<noteq> []" using assms by (auto simp: env_name_def)
  then have "map pair_of ps \<noteq> [([], [])]" using assms(2) by (cases ps) (auto simp: pair_of_def)
  then show ?thesis
    using pointwise_rows [OF ok] assms(2)
    by (auto simp: parsed_pairs rows_crlf written_rows [OF ok assms(2)] Let_def)
next
  case False
  then obtain p where p: "p \<in> set ps" "LF \<in> set (ev_value p)" by blast
  have "\<not> env_value_kept (ev_value p)"
    using p(2) by (simp add: env_value_kept_def needsQuote_def)
  moreover have "pair_of p \<notin> set (map pair_of (fst (parseEnvFile stamp seq (serializeEnvFile ps))))"
    using p(2) rows_LF_free [of "ev_name p" "ev_value p"]
    by (auto simp: parsed_pairs rows_crlf Let_def pair_of_def)
  ultimately show ?thesis using p(1) by (metis image_eqI set_map)
qed

lemma index_of_take: "index_of c xs = Some i \<Longrightarrow> c \<notin> set (take i xs)"
  by (induction xs arbitrary: i) (auto split: if_splits)

text \<open>A row that was read has a name that can be written, or none.\<close>

lemma env_line_name:
  assumes "env_line line = Some (n, v)" "LF \<notin> set line"
  shows "n = [] \<or> env_name n"
proof -
  let ?t = "trim line"
  have t: "?t \<noteq> []" "hd ?t \<noteq> CHR ''#''" "LF \<notin> set ?t"
    using assms set_trim [of line]
    by (auto simp: env_line_def starts_with_def Let_def split: if_splits) (cases "trim line"; auto)+
  show ?thesis
  proof (cases "index_of CHR ''='' ?t")
    case None
    then have "n = ?t" using assms(1) by (auto simp: env_line_def Let_def split: if_splits)
    then show ?thesis using t None by (simp add: env_name_def index_of_None)
  next
    case (Some k)
    then have n: "n = trim (take k ?t)" using assms(1) by (auto simp: env_line_def Let_def split: if_splits)
    have "set n \<subseteq> set (take k ?t)" using n set_trim by auto
    moreover have "CHR ''='' \<notin> set (take k ?t)" using Some by (rule index_of_take)
    moreover have "set (take k ?t) \<subseteq> set ?t" by (rule set_take_subset)
    moreover have "trim n = n" using n by simp
    moreover have "hd n = hd ?t" if "n \<noteq> []"
    proof -
      have "k \<noteq> 0" using that n by (intro notI) simp
      then have take: "take k ?t = hd ?t # take (k - 1) (tl ?t)" using t(1) by (cases ?t; cases k) auto
      moreover have "\<not> js_ws (hd ?t)"
        using t(1) tight_trim [of line] by (simp add: tight_def)
      ultimately have "trim (take k ?t) = trim_end (take k ?t)" by (simp add: trim_def trim_start_id)
      then show ?thesis using that n take hd_trim_end [of "take k ?t"] by simp
    qed
    ultimately show ?thesis using t by (auto simp: env_name_def)
  qed
qed

lemma rows_names:
  "(n, v) \<in> set (List.map_filter env_line (js_split [LF] t)) \<Longrightarrow> n = [] \<or> env_name n"
  using js_split_char_pieces [of _ LF t] env_line_name by (fastforce simp: List.map_filter_def)

lemma map_filter_length: "length (List.map_filter f xs) \<le> length xs"
  by (simp add: List.map_filter_def)

text \<open>Rows that are read back are all written, so their names are not blank.\<close>

lemma reread_names:
  assumes "List.map_filter env_line (js_split [LF] (serializeEnvFile ps)) = map pair_of ps" "ps \<noteq> []"
  shows "\<forall>p \<in> set ps. env_name (ev_name p)"
proof -
  let ?ws = "filter (\<lambda>p. trim (ev_name p) \<noteq> []) ps"
  let ?ls = "map (\<lambda>p. env_text (trim (ev_name p)) (ev_value p)) ?ws"
  have r: "LF \<notin> set (ev_value p) \<and> (ev_name p = [] \<or> env_name (ev_name p))" if "p \<in> set ps" for p
  proof -
    have "(ev_name p, ev_value p) \<in> set (List.map_filter env_line (js_split [LF] (serializeEnvFile ps)))"
      using that by (auto simp: assms(1) pair_of_def)
    then show ?thesis using rows_LF_free rows_names by blast
  qed
  have w: "LF \<notin> set l" if "l \<in> set ?ls" for l
  proof -
    obtain p where "p \<in> set ps" "trim (ev_name p) \<noteq> []" "l = env_text (trim (ev_name p)) (ev_value p)"
      using \<open>l \<in> set ?ls\<close> by auto
    moreover from this have "env_name (ev_name p)" "LF \<notin> set (ev_value p)"
      using r [of p] by (auto simp: trim_Nil_iff)
    moreover from this(1) have "trim (ev_name p) = ev_name p" by (simp add: env_name_def)
    ultimately show ?thesis by (simp add: env_text_LF)
  qed
  have "?ws \<noteq> []"
  proof
    assume "?ws = []"
    then have "serializeEnvFile ps = []" unfolding serializeEnvFile_def by (simp only: list.map js_join.simps)
    then show False using assms by (simp add: List.map_filter_simps env_line_def trim_def trim_start_def trim_end_def)
  qed
  then have "js_split [LF] (serializeEnvFile ps) = ?ls"
    unfolding serializeEnvFile_def using w by (intro js_split_join_char) auto
  then have "length ps \<le> length ?ws"
    using map_filter_length [of env_line ?ls] assms(1) by (metis length_map)
  then have "?ws = ps"
    by (metis (no_types, lifting) filter_id_conv length_filter_less linorder_not_less)
  then have "trim (ev_name p) \<noteq> []" if "p \<in> set ps" for p using that by (metis (mono_tags, lifting) filter_id_conv)
  then show ?thesis using r by (metis trim_Nil_iff all_not_in_conv set_empty)
qed

text \<open>C38: Saving the rows of an environment file and opening it again gives the same names and
values exactly when every name is one and every value is one the parser reads back, or there is
just the empty row of an empty file. A name must not be blank, hold an equals sign or a line end,
begin with a number sign or have outer white space; a value that had to be quoted must be without
quotes, backslashes and line ends, because the parser undoes the quoting but not the escaping; any
other must not end in white space or look quoted.\<close>

theorem env_file_roundtrip:
  "map pair_of (fst (parseEnvFile stamp seq (serializeEnvFile ps))) = map pair_of ps \<longleftrightarrow>
     map pair_of ps = [([], [])] \<or>
     ps \<noteq> [] \<and> (\<forall>p \<in> set ps. env_name (ev_name p) \<and> env_value_kept (ev_value p))"
    (is "?kept \<longleftrightarrow> ?empty \<or> ?names")
proof
  assume k: ?kept
  let ?rows = "List.map_filter env_line (js_split [LF] (serializeEnvFile ps))"
  have e: "(if ?rows = [] then [([], [])] else ?rows) = map pair_of ps"
    using k by (simp only: parsed_pairs rows_crlf Let_def)
  show "?empty \<or> ?names"
  proof (cases "?rows = []")
    case True
    then show ?thesis using e by simp
  next
    case False
    then have "?rows = map pair_of ps" using e by (simp only: if_False)
    moreover from this have "ps \<noteq> []" using False by auto
    ultimately show ?thesis using reread_names named_roundtrip k by blast
  qed
next
  assume "?empty \<or> ?names"
  then show ?kept
  proof
    assume ?empty
    then obtain p where p: "ps = [p]" "ev_name p = []" "ev_value p = []" by (auto simp: pair_of_def)
    then have "serializeEnvFile ps = []" by (simp add: serializeEnvFile_def trim_def trim_start_def trim_end_def)
    then show ?kept
      using p by (simp add: parsed_pairs rows_crlf Let_def List.map_filter_simps env_line_def
          trim_def trim_start_def trim_end_def pair_of_def)
  next
    assume ?names
    then show ?kept using named_roundtrip [of ps] by blast
  qed
qed

theorem env_file_roundtrip_witness:
  "map pair_of (fst (parseEnvFile (\<lambda>_. ''t'') 0 (serializeEnvFile
       [\<lparr>ev_id = ''a'', ev_name = ''MSG'', ev_value = ''hello world''\<rparr>]))) = [(''MSG'', ''hello world'')] \<and>
   map pair_of (fst (parseEnvFile (\<lambda>_. ''t'') 0 (serializeEnvFile
       [\<lparr>ev_id = ''a'', ev_name = ''OPTS'', ev_value = ''-p ''  @ [DQ]\<rparr>]))) \<noteq> [(''OPTS'', ''-p '' @ [DQ])]"
proof
  show "map pair_of (fst (parseEnvFile (\<lambda>_. ''t'') 0 (serializeEnvFile
       [\<lparr>ev_id = ''a'', ev_name = ''MSG'', ev_value = ''hello world''\<rparr>]))) = [(''MSG'', ''hello world'')]"
    using env_file_roundtrip [where ps = "[\<lparr>ev_id = ''a'', ev_name = ''MSG'', ev_value = ''hello world''\<rparr>]"]
    by (simp add: pair_of_def env_name_def env_value_kept_def needsQuote_def trim_def trim_start_def
        trim_end_def js_ws_def)
  show "map pair_of (fst (parseEnvFile (\<lambda>_. ''t'') 0 (serializeEnvFile
       [\<lparr>ev_id = ''a'', ev_name = ''OPTS'', ev_value = ''-p ''  @ [DQ]\<rparr>]))) \<noteq> [(''OPTS'', ''-p '' @ [DQ])]"
    using env_file_roundtrip [where ps = "[\<lparr>ev_id = ''a'', ev_name = ''OPTS'', ev_value = ''-p '' @ [DQ]\<rparr>]"]
    by (simp add: pair_of_def env_name_def env_value_kept_def needsQuote_def trim_def trim_start_def
        trim_end_def js_ws_def)
qed

section \<open>Facts about the compose file\<close>

lemma check_services_None:
  "check_services ss = None \<longleftrightarrow>
     list_all (\<lambda>(name, svc). \<exists>s. svc = JObj s \<and> service_complete s) ss"
proof (induction ss rule: check_services.induct)
  case (2 name svc rest)
  then show ?case by (cases svc) auto
qed simp

lemma as_mapping_Some: "as_mapping v = Some b \<longleftrightarrow> v = JObj b"
  by (cases v) auto

lemma check_root_None:
  "check_root doc = None \<longleftrightarrow>
     (case map_of doc ''services'' of
        None \<Rightarrow> map_of doc ''include'' \<noteq> None
      | Some v \<Rightarrow> \<exists>ss. v = JObj ss \<and> ss \<noteq> [] \<and>
          list_all (\<lambda>(name, svc). \<exists>s. svc = JObj s \<and> service_complete s) ss)"
proof (cases "map_of doc ''services''")
  case (Some v)
  show ?thesis
  proof (cases v)
    case (JObj b)
    then show ?thesis
      using Some
      by (cases b) (auto simp: check_root_def oget_def Let_def check_services_None [symmetric]
          simp del: check_services.simps)
  qed (simp_all add: check_root_def oget_def Some)
qed (simp add: check_root_def)

text \<open>C39: The local check passes exactly the non-blank texts that the YAML parser reads without an
error as a mapping that has an include or services, and whose services, if given, are a non-empty
mapping of mappings that each have an image, a build or an extends.\<close>

theorem compose_check_exact:
  "validateComposeYamlClient parseDocument text = None \<longleftrightarrow>
     trim text \<noteq> [] \<and>
     (\<exists>doc. parseDocument text = YamlDoc [] (Inr (JObj doc)) \<and>
        (case map_of doc ''services'' of
           None \<Rightarrow> map_of doc ''include'' \<noteq> None
         | Some v \<Rightarrow> \<exists>ss. v = JObj ss \<and> ss \<noteq> [] \<and>
             list_all (\<lambda>(name, svc). \<exists>s. svc = JObj s \<and> service_complete s) ss))"
  unfolding check_root_None [symmetric] validateComposeYamlClient_def
  by (auto simp: as_mapping_Some split: yaml_doc.splits list.splits sum.splits option.splits)

end
