(* ===== verification/Docker_Api.thy ===== *)
theory Docker_Api
  imports Url_Coding
begin

text \<open>
  The requests of the Docker pages, \<open>modules/docker/pages\<close>: one definition per request function
  of the API modules, its arguments first and the request it sends as the result. \<open>stored\<close> is the
  environment selected in localStorage, \<open>None\<close> when there is none or it cannot be read. Request
  bodies are values; an absent optional argument is \<open>None\<close>, or \<open>JUndef\<close> inside a body.
\<close>

section \<open>Environments\<close>

definition getStoredEnvironmentId :: "string option option \<Rightarrow> string option" where
  "getStoredEnvironmentId item = (case item of Some v \<Rightarrow> v | None \<Rightarrow> None)"

definition setStoredEnvironmentId ::
  "bool \<Rightarrow> string option \<Rightarrow> string option \<Rightarrow> string option" where
  "setStoredEnvironmentId writable i stored =
     (if \<not> writable then stored
      else case i of
        Some v \<Rightarrow> if v \<noteq> [] then Some v else None
      | None \<Rightarrow> None)"

definition envQueryParams :: "string option \<Rightarrow> string option \<Rightarrow> obj option" where
  "envQueryParams stored environmentId =
     (case (case environmentId of Some i \<Rightarrow> Some i | None \<Rightarrow> stored) of
        Some i \<Rightarrow> if i \<noteq> [] then Some [(''environment_id'', JStr i)] else None
      | None \<Rightarrow> None)"

text \<open>\<open>...envQueryParams()\<close> in an object of parameters, and \<open>x || undefined\<close>.\<close>

definition env_fields :: "string option \<Rightarrow> obj" where
  "env_fields stored = (case envQueryParams stored None of Some ps \<Rightarrow> ps | None \<Rightarrow> [])"

definition truthy_str :: "string option \<Rightarrow> jv" where
  "truthy_str s = (case s of Some x \<Rightarrow> if x \<noteq> [] then JStr x else JUndef | None \<Rightarrow> JUndef)"

definition DOCKER_ENV_BASE :: string where
  "DOCKER_ENV_BASE = ''/docker/environments''"

definition listDockerEnvironments :: api_request where
  "listDockerEnvironments =
     request ''get'' DOCKER_ENV_BASE"

definition getDockerEnvironment :: "string \<Rightarrow> api_request" where
  "getDockerEnvironment i =
     request ''get'' (DOCKER_ENV_BASE @ ''/'' @ i)"

definition createDockerEnvironment :: "jv \<Rightarrow> api_request" where
  "createDockerEnvironment body =
     with_data body (request ''post'' DOCKER_ENV_BASE)"

definition updateDockerEnvironment :: "string \<Rightarrow> jv \<Rightarrow> api_request" where
  "updateDockerEnvironment i body =
     with_data body (request ''put'' (DOCKER_ENV_BASE @ ''/'' @ i))"

definition deleteDockerEnvironment :: "string \<Rightarrow> api_request" where
  "deleteDockerEnvironment i =
     request ''delete'' (DOCKER_ENV_BASE @ ''/'' @ i)"

definition activateDockerEnvironment :: "string \<Rightarrow> api_request" where
  "activateDockerEnvironment i =
     request ''post'' (DOCKER_ENV_BASE @ ''/'' @ i @ ''/activate'')"

definition testDockerEnvironment :: "string \<Rightarrow> api_request" where
  "testDockerEnvironment i =
     request ''post'' (DOCKER_ENV_BASE @ ''/'' @ i @ ''/test'')"

section \<open>Containers\<close>

definition DOCKER_CONTAINERS_LIST :: string where
  "DOCKER_CONTAINERS_LIST = ''/docker/containers/list''"

definition DOCKER_CONTAINERS_SINGLE :: string where
  "DOCKER_CONTAINERS_SINGLE = ''/docker/containers/single''"

definition listContainers :: "string option \<Rightarrow> api_request" where
  "listContainers stored =
     with_params (envQueryParams stored None) (request ''get'' DOCKER_CONTAINERS_LIST)"

definition getContainer :: "string option \<Rightarrow> string \<Rightarrow> api_request" where
  "getContainer stored i =
     with_params (envQueryParams stored None)
       (request ''get'' (DOCKER_CONTAINERS_SINGLE @ ''/'' @ i))"

definition createContainer :: "string option \<Rightarrow> jv \<Rightarrow> api_request" where
  "createContainer stored body =
     with_data body (with_params (envQueryParams stored None)
       (request ''post'' DOCKER_CONTAINERS_SINGLE))"

definition updateContainer :: "string option \<Rightarrow> string \<Rightarrow> jv \<Rightarrow>
  api_request" where
  "updateContainer stored i body =
     with_data body (with_params (envQueryParams stored None)
       (request ''put'' (DOCKER_CONTAINERS_SINGLE @ ''/'' @ encodeURIComponent i)))"

definition startContainer :: "string option \<Rightarrow> string \<Rightarrow> api_request" where
  "startContainer stored i =
     with_params (envQueryParams stored None)
       (request ''post'' (DOCKER_CONTAINERS_SINGLE @ ''/'' @ i @ ''/start''))"

definition stopContainer :: "string option \<Rightarrow> string \<Rightarrow> api_request" where
  "stopContainer stored i =
     with_params (envQueryParams stored None)
       (request ''post'' (DOCKER_CONTAINERS_SINGLE @ ''/'' @ i @ ''/stop''))"

definition restartContainer :: "string option \<Rightarrow> string \<Rightarrow> api_request"
  where
  "restartContainer stored i =
     with_params (envQueryParams stored None)
       (request ''post'' (DOCKER_CONTAINERS_SINGLE @ ''/'' @ i @ ''/restart''))"

definition killContainer :: "string option \<Rightarrow> string \<Rightarrow> api_request" where
  "killContainer stored i =
     with_params (envQueryParams stored None)
       (request ''post'' (DOCKER_CONTAINERS_SINGLE @ ''/'' @ i @ ''/kill''))"

definition pauseContainer :: "string option \<Rightarrow> string \<Rightarrow> api_request" where
  "pauseContainer stored i =
     with_params (envQueryParams stored None)
       (request ''post'' (DOCKER_CONTAINERS_SINGLE @ ''/'' @ i @ ''/pause''))"

definition resumeContainer :: "string option \<Rightarrow> string \<Rightarrow> api_request" where
  "resumeContainer stored i =
     with_params (envQueryParams stored None)
       (request ''post'' (DOCKER_CONTAINERS_SINGLE @ ''/'' @ i @ ''/resume''))"

definition getContainerStats :: "string option \<Rightarrow> string \<Rightarrow> api_request"
  where
  "getContainerStats stored i =
     with_params (envQueryParams stored None)
       (request ''get'' (DOCKER_CONTAINERS_SINGLE @ ''/'' @ i @ ''/stats''))"

definition getContainerTop :: "string option \<Rightarrow> string \<Rightarrow> api_request" where
  "getContainerTop stored i =
     with_params (envQueryParams stored None)
       (request ''get'' (DOCKER_CONTAINERS_SINGLE @ ''/'' @ i @ ''/top''))"

definition updateRestartPolicy :: "string option \<Rightarrow> string \<Rightarrow> jv
  \<Rightarrow> api_request" where
  "updateRestartPolicy stored i body =
     with_data body (with_params (envQueryParams stored None)
       (request ''post'' (DOCKER_CONTAINERS_SINGLE @ ''/'' @ i @ ''/restart-policy'')))"

definition connectContainerNetwork :: "string option \<Rightarrow> string \<Rightarrow> string
  \<Rightarrow> api_request" where
  "connectContainerNetwork stored i networkId =
     with_data (JObj [(''network_id'', JStr networkId)])
       (with_params (envQueryParams stored None)
       (request ''post'' (DOCKER_CONTAINERS_SINGLE @ ''/'' @ i @ ''/networks/connect'')))"

definition disconnectContainerNetwork :: "string option \<Rightarrow> string \<Rightarrow> string
  \<Rightarrow> bool \<Rightarrow> api_request" where
  "disconnectContainerNetwork stored i networkId force =
     with_data (JObj [(''network_id'', JStr networkId), (''force'', JBool force)])
       (with_params (envQueryParams stored None)
       (request ''post'' (DOCKER_CONTAINERS_SINGLE @ ''/'' @ i @ ''/networks/disconnect'')))"

definition commitContainer :: "string option \<Rightarrow> string \<Rightarrow> jv \<Rightarrow>
  api_request" where
  "commitContainer stored i body =
     with_data body (with_params (envQueryParams stored None)
       (request ''post'' (DOCKER_CONTAINERS_SINGLE @ ''/'' @ i @ ''/commit'')))"

definition removeContainer ::
  "string option \<Rightarrow> string \<Rightarrow> bool option \<Rightarrow> bool option \<Rightarrow> api_request" where
  "removeContainer stored i force volumes =
     (let qs = js_join ''&''
            ((if force \<noteq> Some False then [''force=1''] else []) @
             (if volumes = Some True then [''volumes=1''] else []))
      in with_params (envQueryParams stored None)
           (request ''delete''
             (DOCKER_CONTAINERS_SINGLE @ ''/'' @ i @ (if qs \<noteq> [] then ''?'' @ qs else []))))"

definition recreateContainer :: "string option \<Rightarrow> string \<Rightarrow> bool option \<Rightarrow> api_request" where
  "recreateContainer stored i pull =
     with_data (JObj [(''pull'', JBool (pull = Some True))])
       (with_params (envQueryParams stored None)
         (request ''post'' (DOCKER_CONTAINERS_SINGLE @ ''/'' @ i @ ''/recreate'')))"

definition getContainerLogs :: "string option \<Rightarrow> string \<Rightarrow> nat option \<Rightarrow> api_request" where
  "getContainerLogs stored i tail =
     with_params (Some (env_fields stored @
         [(''tail'', JNum (of_nat (case tail of Some n \<Rightarrow> n | None \<Rightarrow> 200)))]))
       (request ''get'' (DOCKER_CONTAINERS_SINGLE @ ''/'' @ i @ ''/logs''))"

section \<open>Images\<close>

definition DOCKER_IMAGES_LIST :: string where
  "DOCKER_IMAGES_LIST = ''/docker/images/list''"

definition DOCKER_IMAGES_SINGLE :: string where
  "DOCKER_IMAGES_SINGLE = ''/docker/images/single''"

definition listImages :: "string option \<Rightarrow> api_request" where
  "listImages stored =
     with_params (envQueryParams stored None) (request ''get'' DOCKER_IMAGES_LIST)"

definition inspectImage :: "string option \<Rightarrow> string \<Rightarrow> api_request" where
  "inspectImage stored i =
     with_params (envQueryParams stored None)
       (request ''get'' (DOCKER_IMAGES_SINGLE @ ''/'' @ encodeURIComponent i))"

definition pruneImages :: "string option \<Rightarrow> api_request" where
  "pruneImages stored =
     with_params (envQueryParams stored None)
       (request ''post'' (DOCKER_IMAGES_SINGLE @ ''/prune''))"

definition pullImage ::
  "string option \<Rightarrow> string \<Rightarrow> string option \<Rightarrow> bool option \<Rightarrow> api_request" where
  "pullImage stored img tag force =
     with_data (JObj [(''image'', JStr img),
         (''tag'', case tag of Some s \<Rightarrow> JStr s | None \<Rightarrow> JUndef),
         (''force'', JBool (force = Some True)), (''re_pull'', JBool (force = Some True))])
       (with_params (envQueryParams stored None) (request ''post'' DOCKER_IMAGES_SINGLE))"

definition removeImage :: "string option \<Rightarrow> string \<Rightarrow> bool \<Rightarrow> api_request" where
  "removeImage stored i force =
     with_params (envQueryParams stored None)
       (request ''delete'' (DOCKER_IMAGES_SINGLE @ ''/'' @ encodeURIComponent i @
         (if force then ''?force=1'' else [])))"

section \<open>Networks\<close>

definition DOCKER_NETWORKS_LIST :: string where
  "DOCKER_NETWORKS_LIST = ''/docker/networks/list''"

definition DOCKER_NETWORKS_SINGLE :: string where
  "DOCKER_NETWORKS_SINGLE = ''/docker/networks/single''"

definition listNetworks :: "string option \<Rightarrow> api_request" where
  "listNetworks stored =
     with_params (envQueryParams stored None) (request ''get'' DOCKER_NETWORKS_LIST)"

definition createNetwork :: "string option \<Rightarrow> jv \<Rightarrow> api_request" where
  "createNetwork stored body =
     with_data body (with_params (envQueryParams stored None)
       (request ''post'' DOCKER_NETWORKS_SINGLE))"

definition getNetwork :: "string option \<Rightarrow> string \<Rightarrow> api_request" where
  "getNetwork stored i =
     with_params (envQueryParams stored None)
       (request ''get'' (DOCKER_NETWORKS_SINGLE @ ''/'' @ encodeURIComponent i))"

definition disconnectNetworkContainer :: "string option \<Rightarrow> string \<Rightarrow> string
  \<Rightarrow> bool \<Rightarrow> api_request" where
  "disconnectNetworkContainer stored networkId containerId force =
     with_data (JObj [(''container_id'', JStr containerId), (''force'', JBool force)])
       (with_params (envQueryParams stored None)
       (request ''post'' (DOCKER_NETWORKS_SINGLE @ ''/'' @ encodeURIComponent networkId
       @ ''/disconnect'')))"

definition removeNetwork :: "string option \<Rightarrow> string \<Rightarrow> api_request" where
  "removeNetwork stored i =
     with_params (envQueryParams stored None)
       (request ''delete'' (DOCKER_NETWORKS_SINGLE @ ''/'' @ encodeURIComponent i))"

definition inspectNetwork :: "string option \<Rightarrow> string \<Rightarrow> api_request" where
  "inspectNetwork stored i = getNetwork stored i"

section \<open>Volumes\<close>

definition DOCKER_VOLUMES_LIST :: string where
  "DOCKER_VOLUMES_LIST = ''/docker/volumes/list''"

definition DOCKER_VOLUMES_SINGLE :: string where
  "DOCKER_VOLUMES_SINGLE = ''/docker/volumes/single''"

definition listVolumes :: "string option \<Rightarrow> api_request" where
  "listVolumes stored =
     with_params (envQueryParams stored None) (request ''get'' DOCKER_VOLUMES_LIST)"

definition createVolume :: "string option \<Rightarrow> jv \<Rightarrow> api_request" where
  "createVolume stored body =
     with_data body (with_params (envQueryParams stored None)
       (request ''post'' DOCKER_VOLUMES_SINGLE))"

definition inspectVolume :: "string option \<Rightarrow> string \<Rightarrow> api_request" where
  "inspectVolume stored name =
     with_params (envQueryParams stored None)
       (request ''get'' (DOCKER_VOLUMES_SINGLE @ ''/'' @ encodeURIComponent name))"

definition removeVolume :: "string option \<Rightarrow> string \<Rightarrow> bool \<Rightarrow> api_request" where
  "removeVolume stored name force =
     with_params (envQueryParams stored None)
       (request ''delete'' (DOCKER_VOLUMES_SINGLE @ ''/'' @ encodeURIComponent name @
         (if force then ''?force=1'' else [])))"

section \<open>Stacks\<close>

definition DOCKER_STACKS_LIST :: string where
  "DOCKER_STACKS_LIST = ''/docker/stacks/list''"

definition DOCKER_STACKS_SINGLE :: string where
  "DOCKER_STACKS_SINGLE = ''/docker/stacks/single''"

definition listStacks :: "string option \<Rightarrow> api_request" where
  "listStacks stored =
     with_params (envQueryParams stored None) (request ''get'' DOCKER_STACKS_LIST)"

definition getStack :: "string option \<Rightarrow> string \<Rightarrow> api_request" where
  "getStack stored i =
     with_params (envQueryParams stored None)
       (request ''get'' (DOCKER_STACKS_SINGLE @ ''/'' @ encodeURIComponent i))"

definition updateStack :: "string option \<Rightarrow> string \<Rightarrow> jv \<Rightarrow>
  api_request" where
  "updateStack stored i body =
     with_data body (with_params (envQueryParams stored None)
       (request ''put'' (DOCKER_STACKS_SINGLE @ ''/'' @ encodeURIComponent i)))"

definition deployStack :: "string option \<Rightarrow> string \<Rightarrow> api_request" where
  "deployStack stored i =
     with_params (envQueryParams stored None)
       (request ''post'' (DOCKER_STACKS_SINGLE @ ''/'' @ encodeURIComponent i @ ''/deploy''))"

definition stopStack :: "string option \<Rightarrow> string \<Rightarrow> api_request" where
  "stopStack stored i =
     with_params (envQueryParams stored None)
       (request ''post'' (DOCKER_STACKS_SINGLE @ ''/'' @ encodeURIComponent i @ ''/stop''))"

definition validateCompose :: "string option \<Rightarrow> jv \<Rightarrow> api_request" where
  "validateCompose stored body =
     with_data body (with_params (envQueryParams stored None)
       (request ''post'' (DOCKER_STACKS_SINGLE @ ''/validate'')))"

definition createStack :: "string option \<Rightarrow> jv \<Rightarrow> string option \<Rightarrow> api_request" where
  "createStack stored body environmentId =
     with_data body (with_params (envQueryParams stored environmentId)
       (request ''post'' DOCKER_STACKS_SINGLE))"

definition removeStack :: "string option \<Rightarrow> string \<Rightarrow> bool \<Rightarrow> api_request" where
  "removeStack stored i force =
     with_params (Some (env_fields stored @ (if force then [(''force'', JStr ''1'')] else [])))
       (request ''delete'' (DOCKER_STACKS_SINGLE @ ''/'' @ encodeURIComponent i))"

section \<open>Templates\<close>

definition DOCKER_TEMPLATES_LIST :: string where
  "DOCKER_TEMPLATES_LIST = ''/docker/templates/list''"

definition DOCKER_TEMPLATES_SINGLE :: string where
  "DOCKER_TEMPLATES_SINGLE = ''/docker/templates/single''"

definition getTemplate :: "string option \<Rightarrow> string \<Rightarrow> api_request" where
  "getTemplate stored i =
     with_params (envQueryParams stored None)
       (request ''get'' (DOCKER_TEMPLATES_SINGLE @ ''/'' @ encodeURIComponent i))"

definition deployTemplate :: "string option \<Rightarrow> jv \<Rightarrow> api_request" where
  "deployTemplate stored body =
     with_data body (with_params (envQueryParams stored None)
       (request ''post'' (DOCKER_TEMPLATES_SINGLE @ ''/deploy'')))"

definition listTemplates ::
  "string option \<Rightarrow> string option \<Rightarrow> string option \<Rightarrow> string option \<Rightarrow> bool option \<Rightarrow>
   api_request" where
  "listTemplates stored q category ty refresh =
     with_params (Some (env_fields stored @
         [(''q'', truthy_str q), (''category'', truthy_str category), (''type'', truthy_str ty),
          (''refresh'', if refresh = Some True then JStr ''1'' else JUndef)]))
       (request ''get'' DOCKER_TEMPLATES_LIST)"

section \<open>Engine\<close>

definition DOCKER_ENGINE_BASE :: string where
  "DOCKER_ENGINE_BASE = ''/docker/engine''"

definition getEngineStatus :: "string option \<Rightarrow> api_request" where
  "getEngineStatus stored =
     with_params (envQueryParams stored None)
       (request ''get'' (DOCKER_ENGINE_BASE @ ''/status''))"

definition controlDockerEngine :: "string \<Rightarrow> api_request" where
  "controlDockerEngine action =
     request ''post'' (DOCKER_ENGINE_BASE @ ''/'' @ action)"

section \<open>Every request names the selected environment\<close>

definition selected_environment :: "string option \<Rightarrow> string option" where
  "selected_environment stored = (case stored of Some e \<Rightarrow> if e \<noteq> [] then Some e else None | None \<Rightarrow> None)"

definition sent_environment :: "api_request \<Rightarrow> string option" where
  "sent_environment r = (case rq_params r of Some ps \<Rightarrow> get_str ps ''environment_id'' | None \<Rightarrow> None)"

text \<open>All requests about an engine, for any arguments.\<close>

definition docker_requests ::
  "string option \<Rightarrow> string \<Rightarrow> string \<Rightarrow> jv \<Rightarrow> bool \<Rightarrow> bool option \<Rightarrow> string option \<Rightarrow> nat option \<Rightarrow>
   api_request list" where
  "docker_requests stored i n body force force_opt tag tail =
     [listContainers stored, getContainer stored i, createContainer stored body,
      updateContainer stored i body, startContainer stored i, stopContainer stored i,
      restartContainer stored i, killContainer stored i, pauseContainer stored i,
      resumeContainer stored i, getContainerStats stored i, getContainerTop stored i,
      updateRestartPolicy stored i body, connectContainerNetwork stored i n,
      disconnectContainerNetwork stored i n force, commitContainer stored i body,
      removeContainer stored i force_opt force_opt, recreateContainer stored i force_opt,
      getContainerLogs stored i tail, listImages stored, inspectImage stored i,
      pruneImages stored, pullImage stored n tag force_opt, removeImage stored i force,
      listNetworks stored, createNetwork stored body, getNetwork stored i,
      disconnectNetworkContainer stored n i force, removeNetwork stored i,
      inspectNetwork stored i, listVolumes stored, createVolume stored body,
      inspectVolume stored n, removeVolume stored n force, listStacks stored, getStack stored i,
      updateStack stored i body, deployStack stored i, stopStack stored i,
      validateCompose stored body, createStack stored body None, removeStack stored i force,
      getTemplate stored i, deployTemplate stored body,
      listTemplates stored tag tag tag force_opt, getEngineStatus stored]"

lemma rq_params_simps [simp]:
  "rq_params (request mth url) = None" "rq_params (with_params ps r) = ps"
  "rq_params (with_data d r) = rq_params r"
  by (simp_all add: request_def with_params_def with_data_def)

lemma sent_env:
  "sent_environment (with_params (envQueryParams stored None) r) = selected_environment stored"
  "sent_environment (with_data d r) = sent_environment r"
  "map_of fs ''environment_id'' = None \<Longrightarrow>
     sent_environment (with_params (Some (env_fields stored @ fs)) r) = selected_environment stored"
  by (auto simp: sent_environment_def envQueryParams_def env_fields_def selected_environment_def
      get_str_def oget_def split: option.split)

lemmas docker_request_defs =
    listContainers_def getContainer_def createContainer_def updateContainer_def
    startContainer_def stopContainer_def restartContainer_def killContainer_def
    pauseContainer_def resumeContainer_def getContainerStats_def getContainerTop_def
    updateRestartPolicy_def connectContainerNetwork_def disconnectContainerNetwork_def
    commitContainer_def removeContainer_def recreateContainer_def getContainerLogs_def
    listImages_def inspectImage_def pruneImages_def pullImage_def removeImage_def
    listNetworks_def createNetwork_def getNetwork_def disconnectNetworkContainer_def
    removeNetwork_def inspectNetwork_def listVolumes_def createVolume_def inspectVolume_def
    removeVolume_def listStacks_def getStack_def updateStack_def deployStack_def stopStack_def
    validateCompose_def createStack_def removeStack_def getTemplate_def deployTemplate_def
    listTemplates_def getEngineStatus_def

text \<open>Choosing an environment directs every Docker request to it: each request about containers,
  images, networks, volumes, stacks, templates or the engine's status carries the chosen
  environment, and none at all when no environment is chosen.\<close>

theorem docker_requests_in_environment:
  "list_all (\<lambda>r. sent_environment r = selected_environment chosen)
     (docker_requests (setStoredEnvironmentId True chosen stored) i n body force force_opt tag tail)"
proof -
  have "selected_environment (setStoredEnvironmentId True chosen stored) = selected_environment chosen"
    by (simp add: selected_environment_def setStoredEnvironmentId_def split: option.split)
  then show ?thesis
    by (simp add: docker_requests_def docker_request_defs sent_env Let_def)
qed

text \<open>A stack can be created in another environment than the selected one.\<close>

lemma createStack_environment:
  "e \<noteq> [] \<Longrightarrow> sent_environment (createStack stored body (Some e)) = Some e"
  by (simp add: createStack_def sent_environment_def envQueryParams_def get_str_def oget_def)

end
