(* ===== verification/Container_Edit.thy ===== *)
theory Container_Edit
  imports Docker_Api
begin

text \<open>
  Creating and editing a Docker container, \<open>modules/docker/pages/containers/edit\<close>: the form, how the
  inspected container fills it, and the body it sends. Saving an edit replaces the container by one
  made from that body, so what the form loses is lost. Absent objects and null lists of the
  inspected data are \<open>None\<close>. \<open>numStr\<close> is \<open>String\<close> on numbers and \<open>numOf\<close> is \<open>Number\<close> on
  strings, \<open>None\<close> for NaN.
\<close>

section \<open>Inspected containers\<close>

record port_binding =
  pb_HostIp :: "string option"
  pb_HostPort :: "string option"

record mount_point =
  mp_Type :: "string option"
  mp_Source :: "string option"
  mp_Destination :: "string option"
  mp_RW :: "bool option"

record device_mapping =
  dv_PathOnHost :: "string option"
  dv_PathInContainer :: "string option"
  dv_CgroupPermissions :: "string option"

type_synonym kv_row = "string \<times> string"

text \<open>
  Of a map without further use of its values, the keys; the engine writes the keys of every map in
  order.
\<close>

record docker_inspect =
  in_Image :: "string option"
  in_Env :: "string list option"
  in_Cmd :: "string list option"
  in_Entrypoint :: "string list option"
  in_WorkingDir :: "string option"
  in_User :: "string option"
  in_Hostname :: "string option"
  in_Labels :: "kv_row list option"
  in_Tty :: "bool option"
  in_OpenStdin :: "bool option"
  in_ExposedPorts :: "string list option"
  in_Binds :: "string list option"
  in_PortBindings :: "(string \<times> port_binding list option) list option"
  in_PublishAllPorts :: "bool option"
  in_Privileged :: "bool option"
  in_ReadonlyRootfs :: "bool option"
  in_AutoRemove :: "bool option"
  in_ExtraHosts :: "string list option"
  in_CapAdd :: "string list option"
  in_CapDrop :: "string list option"
  in_Dns :: "string list option"
  in_Devices :: "device_mapping list option"
  in_Memory :: "int option"
  in_NanoCpus :: "int option"
  in_RestartName :: "string option"
  in_RestartRetries :: "int option"
  in_LogType :: "string option"
  in_LogConfig :: "kv_row list option"
  in_NetworkMode :: "string option"
  in_Networks :: "string list option"
  in_Mounts :: "mount_point list option"

record container_detail =
  dt_name :: string
  dt_image :: string
  dt_state :: string
  dt_inspect :: docker_inspect

section \<open>The form\<close>

record port_row =
  pr_host_ip :: string
  pr_host_port :: string
  pr_container_port :: string
  pr_protocol :: string

record volume_row =
  vr_host :: string
  vr_container :: string
  vr_read_only :: bool

datatype console_mode = ConsoleBoth | ConsoleInteractive | ConsoleTty | ConsoleNone

datatype cmd_mode = CmdDefault | CmdOverride

record container_form =
  fm_name :: string
  fm_registry :: string
  fm_image :: string
  fm_alwaysPull :: bool
  fm_publishAll :: bool
  fm_ports :: "port_row list"
  fm_autoRemove :: bool
  fm_startAfter :: bool
  fm_imageError :: bool
  fm_cmdMode :: cmd_mode
  fm_cmd :: string
  fm_entrypointMode :: cmd_mode
  fm_entrypoint :: string
  fm_workdir :: string
  fm_user :: string
  fm_consoleMode :: console_mode
  fm_logDriver :: string
  fm_logOpts :: "kv_row list"
  fm_volumes :: "volume_row list"
  fm_networks :: "string list"
  fm_hostname :: string
  fm_extraHosts :: string
  fm_dns :: string
  fm_envRows :: "kv_row list"
  fm_labelRows :: "kv_row list"
  fm_restart :: string
  fm_restartRetries :: string
  fm_privileged :: bool
  fm_readonlyRoot :: bool
  fm_memory :: string
  fm_cpus :: string
  fm_devices :: string
  fm_capAdd :: string
  fm_capDrop :: string

definition initial_form :: container_form where
  "initial_form =
     \<lparr>fm_name = [], fm_registry = ''dockerhub'', fm_image = [], fm_alwaysPull = True,
      fm_publishAll = False, fm_ports = [], fm_autoRemove = False, fm_startAfter = True,
      fm_imageError = False, fm_cmdMode = CmdDefault, fm_cmd = [], fm_entrypointMode = CmdDefault,
      fm_entrypoint = [], fm_workdir = [], fm_user = [], fm_consoleMode = ConsoleNone,
      fm_logDriver = [], fm_logOpts = [], fm_volumes = [], fm_networks = [], fm_hostname = [],
      fm_extraHosts = [], fm_dns = [], fm_envRows = [], fm_labelRows = [], fm_restart = ''no'',
      fm_restartRetries = ''0'', fm_privileged = False, fm_readonlyRoot = False, fm_memory = [],
      fm_cpus = [], fm_devices = [], fm_capAdd = [], fm_capDrop = []\<rparr>"

definition emptyPort :: port_row where
  "emptyPort = \<lparr>pr_host_ip = [], pr_host_port = [], pr_container_port = [], pr_protocol = ''tcp''\<rparr>"

definition emptyVolume :: volume_row where
  "emptyVolume = \<lparr>vr_host = [], vr_container = [], vr_read_only = False\<rparr>"

definition emptyKv :: kv_row where "emptyKv = ([], [])"

section \<open>Reading the inspected container\<close>

text \<open>\<open>x || ""\<close>, \<open>x || []\<close> and \<open>Boolean(x)\<close>.\<close>

definition or_nil :: "'a list option \<Rightarrow> 'a list" where
  "or_nil x = (case x of Some v \<Rightarrow> v | None \<Rightarrow> [])"

definition is_true :: "bool option \<Rightarrow> bool" where
  "is_true b \<longleftrightarrow> b = Some True"

definition shellJoin :: "string list option \<Rightarrow> string" where
  "shellJoin parts = (if or_nil parts = [] then [] else js_join '' '' (or_nil parts))"

text \<open>\<open>t.split(/\s+/)\<close>\<close>

function split_ws :: "string \<Rightarrow> string list" where
  "split_ws [] = [[]]"
| "split_ws (c # s) =
     (if js_ws c then [] # split_ws (dropWhile js_ws s)
      else (case split_ws s of [] \<Rightarrow> [[c]] | w # ws \<Rightarrow> (c # w) # ws))"
  by pat_completeness auto
termination by (relation "measure length") (auto simp: less_Suc_eq_le length_dropWhile_le)

definition shellSplit :: "string \<Rightarrow> string list option" where
  "shellSplit text =
     (let t = trim text in
      if t = [] then None else Some (filter (\<lambda>w. w \<noteq> []) (split_ws t)))"

definition port_proto :: "string \<Rightarrow> string \<times> string" where
  "port_proto key =
     (let parts = js_split ''/'' key
      in (hd parts, map js_lower (if length parts < 2 \<or> parts ! 1 = [] then ''tcp'' else parts ! 1)))"

definition binding_rows :: "string \<times> port_binding list option \<Rightarrow> port_row list" where
  "binding_rows kb =
     (case port_proto (fst kb) of (portProto, protocol) \<Rightarrow>
        if or_nil (snd kb) = []
        then [\<lparr>pr_host_ip = [], pr_host_port = [], pr_container_port = portProto,
                pr_protocol = protocol\<rparr>]
        else map (\<lambda>b. \<lparr>pr_host_ip = or_nil (pb_HostIp b), pr_host_port = or_nil (pb_HostPort b),
                        pr_container_port = portProto, pr_protocol = protocol\<rparr>) (or_nil (snd kb)))"

definition portsFromInspect :: "docker_inspect \<Rightarrow> port_row list" where
  "portsFromInspect insp = concat (map binding_rows (or_nil (in_PortBindings insp)))"

definition bind_row :: "string \<Rightarrow> volume_row" where
  "bind_row b =
     (let parts = js_split '':'' b in
      if 3 \<le> length parts
      then \<lparr>vr_host = parts ! 0, vr_container = parts ! 1, vr_read_only = (parts ! 2 = ''ro'')\<rparr>
      else \<lparr>vr_host = parts ! 0, vr_container = (if 1 < length parts then parts ! 1 else []),
            vr_read_only = False\<rparr>)"

definition volumesFromInspect :: "docker_inspect \<Rightarrow> volume_row list" where
  "volumesFromInspect insp =
     (if or_nil (in_Binds insp) \<noteq> [] then map bind_row (or_nil (in_Binds insp))
      else map (\<lambda>m. \<lparr>vr_host = or_nil (mp_Source m), vr_container = or_nil (mp_Destination m),
                      vr_read_only = (mp_RW m = Some False)\<rparr>)
             (filter (\<lambda>m. mp_Type m = Some ''bind'' \<or> or_nil (mp_Source m) \<noteq> [])
               (or_nil (in_Mounts insp))))"

definition env_row :: "string \<Rightarrow> kv_row" where
  "env_row line =
     (case index_of CHR ''='' line of
        None \<Rightarrow> (line, [])
      | Some i \<Rightarrow> (take i line, drop (i + 1) line))"

definition envFromInspect :: "docker_inspect \<Rightarrow> kv_row list" where
  "envFromInspect insp = map env_row (or_nil (in_Env insp))"

definition labelsFromInspect :: "docker_inspect \<Rightarrow> kv_row list" where
  "labelsFromInspect insp = or_nil (in_Labels insp)"

definition memoryFromBytes :: "int option \<Rightarrow> string" where
  "memoryFromBytes n =
     (case n of
        None \<Rightarrow> []
      | Some n \<Rightarrow>
          if n = 0 then []
          else if n mod (1024 * 1024 * 1024) = 0 then show_int (n div (1024 * 1024 * 1024)) @ ''g''
          else if n mod (1024 * 1024) = 0 then show_int (n div (1024 * 1024)) @ ''m''
          else show_int n)"

definition consoleFromInspect :: "docker_inspect \<Rightarrow> console_mode" where
  "consoleFromInspect insp =
     (let tty = is_true (in_Tty insp); stdin = is_true (in_OpenStdin insp) in
      if tty \<and> stdin then ConsoleBoth
      else if stdin then ConsoleInteractive
      else if tty then ConsoleTty
      else ConsoleNone)"

definition deviceText :: "device_mapping \<Rightarrow> string" where
  "deviceText d =
     js_join '':'' (filter (\<lambda>s. s \<noteq> [])
       [or_nil (dv_PathOnHost d), or_nil (dv_PathInContainer d), or_nil (dv_CgroupPermissions d)])"

text \<open>A container that was loaded fills every field of the form.\<close>

definition load_detail :: "(rat \<Rightarrow> string) \<Rightarrow> container_detail \<Rightarrow> container_form \<Rightarrow> container_form" where
  "load_detail numStr d f =
     (let insp = dt_inspect d;
          cmdVal = shellJoin (in_Cmd insp);
          epVal = shellJoin (in_Entrypoint insp)
      in f\<lparr>
        fm_name := dt_name d,
        fm_image := (if dt_image d \<noteq> [] then dt_image d else or_nil (in_Image insp)),
        fm_registry := (if str_includes (dt_image d) ''.'' \<and> str_includes (dt_image d) ''/''
                        then ''other'' else ''dockerhub''),
        fm_alwaysPull := False,
        fm_publishAll := is_true (in_PublishAllPorts insp),
        fm_ports := portsFromInspect insp,
        fm_autoRemove := is_true (in_AutoRemove insp),
        fm_startAfter := (dt_state d = ''running''),
        fm_cmd := cmdVal,
        fm_cmdMode := (if cmdVal \<noteq> [] then CmdOverride else CmdDefault),
        fm_entrypoint := epVal,
        fm_entrypointMode := (if epVal \<noteq> [] then CmdOverride else CmdDefault),
        fm_workdir := or_nil (in_WorkingDir insp),
        fm_user := or_nil (in_User insp),
        fm_hostname := or_nil (in_Hostname insp),
        fm_consoleMode := consoleFromInspect insp,
        fm_logDriver := or_nil (in_LogType insp),
        fm_logOpts := or_nil (in_LogConfig insp),
        fm_volumes := volumesFromInspect insp,
        fm_networks := or_nil (in_Networks insp),
        fm_extraHosts := js_join [CHR 10] (or_nil (in_ExtraHosts insp)),
        fm_dns := js_join [CHR 10] (or_nil (in_Dns insp)),
        fm_envRows := envFromInspect insp,
        fm_labelRows := labelsFromInspect insp,
        fm_restart := (if or_nil (in_RestartName insp) \<noteq> [] then or_nil (in_RestartName insp) else ''no''),
        fm_restartRetries := show_int (case in_RestartRetries insp of Some n \<Rightarrow> n | None \<Rightarrow> 0),
        fm_privileged := is_true (in_Privileged insp),
        fm_readonlyRoot := is_true (in_ReadonlyRootfs insp),
        fm_memory := memoryFromBytes (in_Memory insp),
        fm_cpus := (case in_NanoCpus insp of
            Some n \<Rightarrow> if n \<noteq> 0 then numStr (of_int n / 1000000000) else []
          | None \<Rightarrow> []),
        fm_devices := js_join [CHR 10] (map deviceText (or_nil (in_Devices insp))),
        fm_capAdd := js_join [CHR 10] (or_nil (in_CapAdd insp)),
        fm_capDrop := js_join [CHR 10] (or_nil (in_CapDrop insp))\<rparr>)"

section \<open>The request body\<close>

record create_input =
  ci_image :: string
  ci_name :: "string option"
  ci_ports :: "string list"
  ci_publish_all :: bool
  ci_always_pull :: bool
  ci_auto_remove :: bool
  ci_start :: bool
  ci_binds :: "string list"
  ci_networks :: "string list option"
  ci_env :: "string list"
  ci_labels :: "kv_row list"
  ci_cmd :: "string list option"
  ci_entrypoint :: "string list option"
  ci_working_dir :: "string option"
  ci_user :: "string option"
  ci_hostname :: "string option"
  ci_extra_hosts :: "string list"
  ci_dns :: "string list"
  ci_restart_policy :: string
  ci_restart_retries :: rat
  ci_privileged :: bool
  ci_readonly_rootfs :: bool
  ci_memory :: "string option"
  ci_cpus :: "rat option option"
  ci_devices :: "string list"
  ci_cap_add :: "string list"
  ci_cap_drop :: "string list"
  ci_tty :: bool
  ci_open_stdin :: bool
  ci_log_driver :: "string option"
  ci_log_opts :: "kv_row list option"

text \<open>\<open>s.trim() || undefined\<close>\<close>

definition trim_or_undef :: "string \<Rightarrow> string option" where
  "trim_or_undef s = (if trim s \<noteq> [] then Some (trim s) else None)"

definition port_string :: "port_row \<Rightarrow> string" where
  "port_string p =
     (let proto = or_str (pr_protocol p) ''tcp'';
          cport = trim (pr_container_port p);
          hport = trim (pr_host_port p);
          hip = trim (pr_host_ip p);
          base = (if hip \<noteq> [] \<and> hport \<noteq> [] then hip @ '':'' @ hport @ '':'' @ cport
                  else if hport \<noteq> [] then hport @ '':'' @ cport
                  else cport)
      in base @ ''/'' @ proto)"

definition bind_string :: "volume_row \<Rightarrow> string" where
  "bind_string v = trim (vr_host v) @ '':'' @ trim (vr_container v) @ (if vr_read_only v then '':ro'' else [])"

text \<open>Rows as an object: a later row of the same key replaces the value of the earlier one.\<close>

definition recordFromKv :: "kv_row list \<Rightarrow> kv_row list" where
  "recordFromKv rows =
     foldl (\<lambda>out (k, v). if trim k = [] then out else AList.update (trim k) v out) [] rows"

text \<open>Non-blank lines, and items separated by line ends or commas.\<close>

definition text_lines :: "string \<Rightarrow> string list" where
  "text_lines s = filter (\<lambda>x. x \<noteq> []) (map trim (js_split [CHR 10] s))"

definition text_items :: "string \<Rightarrow> string list" where
  "text_items s = text_lines (map (\<lambda>c. if c = CHR '','' then CHR 10 else c) s)"

definition env_string :: "kv_row \<Rightarrow> string" where
  "env_string r = trim (fst r) @ ''='' @ snd r"

definition buildBody ::
  "(string \<Rightarrow> rat option) \<Rightarrow> container_form \<Rightarrow> create_input option \<times> container_form" where
  "buildBody numOf f =
     (let img = trim (fm_image f) in
      if img = [] then (None, f\<lparr>fm_imageError := True\<rparr>)
      else (Some
        \<lparr>ci_image = img,
         ci_name = trim_or_undef (fm_name f),
         ci_ports = map port_string (filter (\<lambda>p. trim (pr_container_port p) \<noteq> []) (fm_ports f)),
         ci_publish_all = fm_publishAll f,
         ci_always_pull = fm_alwaysPull f,
         ci_auto_remove = fm_autoRemove f,
         ci_start = fm_startAfter f,
         ci_binds = map bind_string
           (filter (\<lambda>v. trim (vr_host v) \<noteq> [] \<and> trim (vr_container v) \<noteq> []) (fm_volumes f)),
         ci_networks = (if fm_networks f \<noteq> [] then Some (fm_networks f) else None),
         ci_env = map env_string (filter (\<lambda>r. trim (fst r) \<noteq> []) (fm_envRows f)),
         ci_labels = recordFromKv (fm_labelRows f),
         ci_cmd = (if fm_cmdMode f = CmdOverride then shellSplit (fm_cmd f) else None),
         ci_entrypoint =
           (if fm_entrypointMode f = CmdOverride then shellSplit (fm_entrypoint f) else None),
         ci_working_dir = trim_or_undef (fm_workdir f),
         ci_user = trim_or_undef (fm_user f),
         ci_hostname = trim_or_undef (fm_hostname f),
         ci_extra_hosts = text_lines (fm_extraHosts f),
         ci_dns = text_items (fm_dns f),
         ci_restart_policy = fm_restart f,
         ci_restart_retries = (case numOf (fm_restartRetries f) of Some r \<Rightarrow> r | None \<Rightarrow> 0),
         ci_privileged = fm_privileged f,
         ci_readonly_rootfs = fm_readonlyRoot f,
         ci_memory = trim_or_undef (fm_memory f),
         ci_cpus = (if trim (fm_cpus f) \<noteq> [] then Some (numOf (fm_cpus f)) else None),
         ci_devices = text_lines (fm_devices f),
         ci_cap_add = text_items (fm_capAdd f),
         ci_cap_drop = text_items (fm_capDrop f),
         ci_tty = (fm_consoleMode f = ConsoleBoth \<or> fm_consoleMode f = ConsoleTty),
         ci_open_stdin = (fm_consoleMode f = ConsoleBoth \<or> fm_consoleMode f = ConsoleInteractive),
         ci_log_driver = (if fm_logDriver f \<noteq> [] then Some (fm_logDriver f) else None),
         ci_log_opts = (let opts = recordFromKv (fm_logOpts f)
                        in if opts \<noteq> [] then Some opts else None)\<rparr>,
        f\<lparr>fm_imageError := False\<rparr>))"

text \<open>The body as JSON; an undefined field is left out when it is sent.\<close>

definition opt_jv :: "('a \<Rightarrow> jv) \<Rightarrow> 'a option \<Rightarrow> jv" where
  "opt_jv f x = (case x of Some v \<Rightarrow> f v | None \<Rightarrow> JUndef)"

definition strs_jv :: "string list \<Rightarrow> jv" where "strs_jv xs = JArr (map JStr xs)"

definition rows_jv :: "kv_row list \<Rightarrow> jv" where
  "rows_jv rows = JObj (map (\<lambda>(k, v). (k, JStr v)) rows)"

definition create_input_jv :: "create_input \<Rightarrow> jv" where
  "create_input_jv b = JObj
     [(''image'', JStr (ci_image b)), (''name'', opt_jv JStr (ci_name b)),
      (''ports'', strs_jv (ci_ports b)), (''publish_all'', JBool (ci_publish_all b)),
      (''always_pull'', JBool (ci_always_pull b)), (''auto_remove'', JBool (ci_auto_remove b)),
      (''start'', JBool (ci_start b)), (''binds'', strs_jv (ci_binds b)),
      (''networks'', opt_jv strs_jv (ci_networks b)), (''env'', strs_jv (ci_env b)),
      (''labels'', rows_jv (ci_labels b)), (''cmd'', opt_jv strs_jv (ci_cmd b)),
      (''entrypoint'', opt_jv strs_jv (ci_entrypoint b)),
      (''working_dir'', opt_jv JStr (ci_working_dir b)), (''user'', opt_jv JStr (ci_user b)),
      (''hostname'', opt_jv JStr (ci_hostname b)), (''extra_hosts'', strs_jv (ci_extra_hosts b)),
      (''dns'', strs_jv (ci_dns b)), (''restart_policy'', JStr (ci_restart_policy b)),
      (''restart_retries'', JNum (ci_restart_retries b)), (''privileged'', JBool (ci_privileged b)),
      (''readonly_rootfs'', JBool (ci_readonly_rootfs b)), (''memory'', opt_jv JStr (ci_memory b)),
      (''cpus'', opt_jv (\<lambda>x. case x of Some r \<Rightarrow> JNum r | None \<Rightarrow> JNull) (ci_cpus b)),
      (''devices'', strs_jv (ci_devices b)), (''cap_add'', strs_jv (ci_cap_add b)),
      (''cap_drop'', strs_jv (ci_cap_drop b)), (''tty'', JBool (ci_tty b)),
      (''open_stdin'', JBool (ci_open_stdin b)), (''log_driver'', opt_jv JStr (ci_log_driver b)),
      (''log_opts'', opt_jv rows_jv (ci_log_opts b))]"

text \<open>Saving: nothing is sent without an image; \<open>editId\<close> is empty for a new container.\<close>

definition onDeploy ::
  "string option \<Rightarrow> (string \<Rightarrow> rat option) \<Rightarrow> string \<Rightarrow> container_form \<Rightarrow> api_request option \<times> container_form" where
  "onDeploy stored numOf editId f =
     (case buildBody numOf f of
        (None, f') \<Rightarrow> (None, f')
      | (Some b, f') \<Rightarrow>
          (Some (if editId \<noteq> [] then updateContainer stored editId (create_input_jv b)
                 else createContainer stored (create_input_jv b)), f'))"

section \<open>Facts about the fields\<close>

text \<open>A text that trimming keeps and that is not empty.\<close>

definition kept :: "string \<Rightarrow> bool" where
  "kept s \<longleftrightarrow> tight s \<and> s \<noteq> []"

lemma trim_kept [simp]: "kept s \<Longrightarrow> trim s = s"
  by (simp add: kept_def trim_id)

lemma kept_nonempty: "kept s \<Longrightarrow> s \<noteq> []"
  by (simp add: kept_def)

lemma trim_fixed: "trim s = s \<longleftrightarrow> tight s"
  by (metis tight_trim trim_id)

lemma kept_trim: "trim s \<noteq> [] \<Longrightarrow> kept (trim s)"
  by (simp add: kept_def tight_trim)

lemma text_lines_join:
  assumes "list_all (\<lambda>x. kept x \<and> CHR 10 \<notin> set x) xs"
  shows "text_lines (js_join [CHR 10] xs) = xs"
proof (cases "xs = []")
  case False
  then have "js_split [CHR 10] (js_join [CHR 10] xs) = xs"
    using assms by (intro js_split_join_char) (auto simp: list_all_iff)
  moreover have "map trim xs = xs" "filter (\<lambda>x. x \<noteq> []) xs = xs"
    using assms by (auto simp: list_all_iff kept_nonempty intro!: map_idI filter_True)
  ultimately show ?thesis by (simp add: text_lines_def)
qed (simp add: text_lines_def)

lemma text_items_join:
  assumes "list_all (\<lambda>x. kept x \<and> CHR 10 \<notin> set x \<and> CHR '','' \<notin> set x) xs"
  shows "text_items (js_join [CHR 10] xs) = xs"
proof -
  have "set (js_join [CHR 10] xs) \<subseteq> insert (CHR 10) (\<Union> (set ` set xs))"
    by (induction "[CHR 10]" xs rule: js_join.induct) auto
  then have "CHR '','' \<notin> set (js_join [CHR 10] xs)" using assms by (auto simp: list_all_iff)
  then have "map (\<lambda>c. if c = CHR '','' then CHR 10 else c) (js_join [CHR 10] xs) = js_join [CHR 10] xs"
    by (intro map_idI) auto
  then show ?thesis
    using assms text_lines_join [of xs] by (simp add: text_items_def list_all_iff)
qed

lemma kept_rows:
  "map f (filter P (map g xs)) = xs \<longleftrightarrow> list_all (\<lambda>x. P (g x) \<and> f (g x) = x) xs"
proof (induction xs)
  case (Cons x xs)
  have "map f (filter P (map g xs)) \<noteq> x # xs"
    using length_filter_le [of P "map g xs"] by (metis Suc_n_not_le_n length_Cons length_map)
  then show ?case using Cons by auto
qed simp

lemma update_fresh: "k \<notin> fst ` set al \<Longrightarrow> AList.update k v al = al @ [(k, v)]"
  by (induction al) auto

lemma record_rows:
  assumes "distinct (map fst rows)" "list_all (\<lambda>(k, v). kept k) rows"
  shows "recordFromKv rows = rows"
proof -
  have "foldl (\<lambda>out (k, v). if trim k = [] then out else AList.update (trim k) v out) acc rows = acc @ rows"
    if "fst ` set acc \<inter> fst ` set rows = {}" for acc
    using that assms
  proof (induction rows arbitrary: acc)
    case (Cons r rows)
    obtain k v where r: "r = (k, v)" by (cases r)
    have "AList.update k v acc = acc @ [(k, v)]"
      using Cons.prems r by (intro update_fresh) auto
    moreover have "fst ` set (acc @ [(k, v)]) \<inter> fst ` set rows = {}"
      using Cons.prems r by auto
    ultimately show ?case using Cons r by (simp add: kept_nonempty)
  qed simp
  from this [of "[]"] show ?thesis by (simp add: recordFromKv_def)
qed

subsection \<open>Commands\<close>

definition word :: "string \<Rightarrow> bool" where
  "word w \<longleftrightarrow> w \<noteq> [] \<and> list_all (\<lambda>c. \<not> js_ws c) w"

lemma word_kept: "word w \<Longrightarrow> kept w"
  using hd_in_set [of w] last_in_set [of w] by (auto simp: word_def kept_def tight_def list_all_iff)

lemma split_ws_ne [simp]: "split_ws s \<noteq> []"
  by (induction s rule: split_ws.induct) (auto split: list.splits)

lemma split_ws_pieces: "w \<in> set (split_ws s) \<Longrightarrow> list_all (\<lambda>c. \<not> js_ws c) w"
proof (induction s arbitrary: w rule: split_ws.induct)
  case (2 c s)
  then show ?case by (cases "split_ws s") (auto split: if_splits)
qed simp

lemma split_ws_word: "list_all (\<lambda>c. \<not> js_ws c) w \<Longrightarrow> split_ws w = [w]"
  by (induction w) auto

lemma split_ws_append:
  "list_all (\<lambda>c. \<not> js_ws c) w \<Longrightarrow> split_ws (w @ CHR '' '' # s) = w # split_ws (dropWhile js_ws s)"
  by (induction w) (auto simp: js_ws_def)

lemma split_ws_join: "ws \<noteq> [] \<Longrightarrow> list_all word ws \<Longrightarrow> split_ws (js_join '' '' ws) = ws"
proof (induction ws)
  case (Cons w ws)
  show ?case
  proof (cases "ws = []")
    case False
    then obtain v vs where ws: "ws = v # vs" by (cases ws) auto
    then have "\<not> js_ws (hd (js_join '' '' ws)) \<and> js_join '' '' ws \<noteq> []"
      using Cons.prems by (cases vs) (auto simp: word_def list_all_iff hd_append)
    then have "dropWhile js_ws (js_join '' '' ws) = js_join '' '' ws"
      by (cases "js_join '' '' ws") auto
    then show ?thesis
      using Cons False split_ws_append [of w "js_join '' '' ws"] by (simp add: js_join_Cons word_def)
  qed (use Cons.prems in \<open>simp add: word_def split_ws_word\<close>)
qed simp

lemma tight_join_words: "list_all word ws \<Longrightarrow> tight (js_join '' '' ws)"
proof (induction ws)
  case (Cons w ws)
  then have w: "\<not> js_ws (hd w)" "\<not> js_ws (last w)" "w \<noteq> []"
    using word_kept [of w] by (auto simp: kept_def tight_def)
  show ?case
  proof (cases "ws = []")
    case False
    then obtain v vs where "ws = v # vs" by (cases ws) auto
    then have "js_join '' '' ws \<noteq> []" using Cons.prems by (cases vs) (auto simp: word_def)
    then show ?thesis using w Cons False by (auto simp: js_join_Cons tight_def hd_append)
  qed (use w in \<open>simp add: tight_def\<close>)
qed (simp add: tight_def)

lemma shell_roundtrip:
  "(if shellJoin c \<noteq> [] then shellSplit (shellJoin c) else None) = c \<longleftrightarrow>
     c \<noteq> Some [] \<and> list_all word (or_nil c)"
proof (cases "or_nil c = []")
  case True
  then show ?thesis by (cases c) (auto simp: shellJoin_def or_nil_def)
next
  case False
  then obtain ws where c: "c = Some ws" "ws \<noteq> []" by (cases c) (auto simp: or_nil_def)
  show ?thesis
  proof
    assume *: "(if shellJoin c \<noteq> [] then shellSplit (shellJoin c) else None) = c"
    then have "shellSplit (shellJoin c) = Some ws" using c by (auto split: if_splits)
    then have "ws = filter (\<lambda>w. w \<noteq> []) (split_ws (trim (shellJoin c)))"
      by (auto simp: shellSplit_def Let_def split: if_splits)
    then have "list_all word ws" using split_ws_pieces by (auto simp: list_all_iff word_def)
    then show "c \<noteq> Some [] \<and> list_all word (or_nil c)" using c by (simp add: or_nil_def)
  next
    assume "c \<noteq> Some [] \<and> list_all word (or_nil c)"
    then have ws: "list_all word ws" using c by (simp add: or_nil_def)
    have j: "shellJoin c = js_join '' '' ws" using c by (simp add: shellJoin_def or_nil_def)
    have "js_join '' '' ws \<noteq> []"
      using ws c(2) by (cases ws; cases "tl ws") (auto simp: word_def)
    moreover have "filter (\<lambda>w. w \<noteq> []) ws = ws" using ws by (auto simp: list_all_iff word_def)
    ultimately show "(if shellJoin c \<noteq> [] then shellSplit (shellJoin c) else None) = c"
      using c j split_ws_join [OF c(2) ws] trim_id [OF tight_join_words [OF ws]]
      by (simp add: shellSplit_def)
  qed
qed

subsection \<open>Environment and mounts\<close>

definition env_kept :: "string \<Rightarrow> bool" where
  "env_kept line \<longleftrightarrow>
     (case index_of CHR ''='' line of None \<Rightarrow> False | Some i \<Rightarrow> kept (take i line))"

lemma index_of_split: "index_of c xs = Some i \<Longrightarrow> xs = take i xs @ c # drop (Suc i) xs"
  by (induction xs arbitrary: i) (auto split: if_splits)

lemma env_row_kept:
  "trim (fst (env_row line)) \<noteq> [] \<and> env_string (env_row line) = line \<longleftrightarrow> env_kept line"
proof (cases "index_of CHR ''='' line")
  case None
  then have "trim line @ ''='' \<noteq> line" by (metis index_of_None in_set_conv_decomp)
  then show ?thesis by (simp add: None env_row_def env_kept_def env_string_def)
next
  case (Some i)
  let ?k = "take i line"
  have "line = ?k @ ''='' @ drop (i + 1) line" using index_of_split [OF Some] by simp
  then have "trim ?k @ ''='' @ drop (i + 1) line = line \<longleftrightarrow> trim ?k = ?k" by (metis append_same_eq)
  then show ?thesis
    using trim_fixed [of ?k] by (auto simp: Some env_row_def env_kept_def kept_def env_string_def)
qed

definition plain_bind :: "string \<Rightarrow> bool" where
  "plain_bind b \<longleftrightarrow>
     (case js_split '':'' b of
        [h, c] \<Rightarrow> kept h \<and> kept c
      | [h, c, m] \<Rightarrow> kept h \<and> kept c \<and> m = ''ro''
      | _ \<Rightarrow> False)"

lemma bind_row_parts:
  "CHR '':'' \<notin> set (vr_host (bind_row b))" "CHR '':'' \<notin> set (vr_container (bind_row b))"
proof -
  have p: "CHR '':'' \<notin> set x" if "x \<in> set (js_split '':'' b)" for x
    using that by (rule js_split_char_pieces)
  have "js_split '':'' b ! 0 \<in> set (js_split '':'' b)" by (intro nth_mem) simp
  moreover have "1 < length (js_split '':'' b) \<Longrightarrow> js_split '':'' b ! 1 \<in> set (js_split '':'' b)"
    by (rule nth_mem)
  ultimately show "CHR '':'' \<notin> set (vr_host (bind_row b))" "CHR '':'' \<notin> set (vr_container (bind_row b))"
    using p by (auto simp: bind_row_def Let_def)
qed

lemma bind_string_split:
  assumes "CHR '':'' \<notin> set (vr_host v)" "CHR '':'' \<notin> set (vr_container v)"
  shows "js_split '':'' (bind_string v) =
    trim (vr_host v) # trim (vr_container v) # (if vr_read_only v then [''ro''] else [])"
proof -
  have "CHR '':'' \<notin> set (trim (vr_host v))" "CHR '':'' \<notin> set (trim (vr_container v))"
    using assms set_trim by auto
  then show ?thesis
    by (simp add: bind_string_def js_split_char_append js_split_char_free starts_with_def)
qed

lemma bind_row_kept:
  "(trim (vr_host (bind_row b)) \<noteq> [] \<and> trim (vr_container (bind_row b)) \<noteq> []) \<and>
   bind_string (bind_row b) = b \<longleftrightarrow> plain_bind b"
proof
  assume a: "(trim (vr_host (bind_row b)) \<noteq> [] \<and> trim (vr_container (bind_row b)) \<noteq> []) \<and>
    bind_string (bind_row b) = b"
  then show "plain_bind b"
    using bind_string_split [OF bind_row_parts [of b]] kept_trim
    by (auto simp: plain_bind_def split: if_splits)
next
  assume "plain_bind b"
  then consider (rw) h c where "js_split '':'' b = [h, c]" "kept h" "kept c"
    | (ro) h c where "js_split '':'' b = [h, c, ''ro'']" "kept h" "kept c"
    by (auto simp: plain_bind_def split: list.splits)
  then show "(trim (vr_host (bind_row b)) \<noteq> [] \<and> trim (vr_container (bind_row b)) \<noteq> []) \<and>
    bind_string (bind_row b) = b"
  proof cases
    case rw
    then have "b = h @ '':'' @ c" using js_join_split [of "'':''" b] by simp
    then show ?thesis using rw by (simp add: bind_row_def bind_string_def kept_nonempty)
  next
    case ro
    then have "b = h @ '':'' @ c @ '':ro''" using js_join_split [of "'':''" b] by simp
    then show ?thesis using ro by (simp add: bind_row_def bind_string_def kept_nonempty)
  qed
qed

section \<open>Saving without a change\<close>

text \<open>The body that says what the inspected container is, apart from the text forms of numbers.\<close>

definition some_nonempty :: "'a list \<Rightarrow> 'a list option" where
  "some_nonempty xs = (if xs \<noteq> [] then Some xs else None)"

definition config_of :: "container_detail \<Rightarrow> create_input" where
  "config_of d = (let insp = dt_inspect d in
     \<lparr>ci_image = dt_image d, ci_name = Some (dt_name d),
      ci_ports = map port_string (portsFromInspect insp),
      ci_publish_all = is_true (in_PublishAllPorts insp), ci_always_pull = False,
      ci_auto_remove = is_true (in_AutoRemove insp), ci_start = (dt_state d = ''running''),
      ci_binds = or_nil (in_Binds insp), ci_networks = some_nonempty (or_nil (in_Networks insp)),
      ci_env = or_nil (in_Env insp), ci_labels = or_nil (in_Labels insp),
      ci_cmd = in_Cmd insp, ci_entrypoint = in_Entrypoint insp,
      ci_working_dir = some_nonempty (or_nil (in_WorkingDir insp)),
      ci_user = some_nonempty (or_nil (in_User insp)),
      ci_hostname = some_nonempty (or_nil (in_Hostname insp)),
      ci_extra_hosts = or_nil (in_ExtraHosts insp), ci_dns = or_nil (in_Dns insp),
      ci_restart_policy =
        (if or_nil (in_RestartName insp) \<noteq> [] then or_nil (in_RestartName insp) else ''no''),
      ci_restart_retries = of_int (case in_RestartRetries insp of Some n \<Rightarrow> n | None \<Rightarrow> 0),
      ci_privileged = is_true (in_Privileged insp),
      ci_readonly_rootfs = is_true (in_ReadonlyRootfs insp),
      ci_memory = some_nonempty (memoryFromBytes (in_Memory insp)),
      ci_cpus = (case in_NanoCpus insp of
          Some n \<Rightarrow> if n \<noteq> 0 then Some (Some (of_int n / 1000000000)) else None | None \<Rightarrow> None),
      ci_devices = map deviceText (or_nil (in_Devices insp)),
      ci_cap_add = or_nil (in_CapAdd insp), ci_cap_drop = or_nil (in_CapDrop insp),
      ci_tty = is_true (in_Tty insp), ci_open_stdin = is_true (in_OpenStdin insp),
      ci_log_driver = some_nonempty (or_nil (in_LogType insp)),
      ci_log_opts = some_nonempty (or_nil (in_LogConfig insp))\<rparr>)"

definition line_ok :: "string \<Rightarrow> bool" where
  "line_ok x \<longleftrightarrow> kept x \<and> CHR 10 \<notin> set x"

definition item_ok :: "string \<Rightarrow> bool" where
  "item_ok x \<longleftrightarrow> line_ok x \<and> CHR '','' \<notin> set x"

definition rows_ok :: "kv_row list \<Rightarrow> bool" where
  "rows_ok rows \<longleftrightarrow> distinct (map fst rows) \<and> list_all (\<lambda>(k, v). kept k) rows"

text \<open>The containers an edit keeps.\<close>

definition plain_detail :: "container_detail \<Rightarrow> bool" where
  "plain_detail d \<longleftrightarrow> (let insp = dt_inspect d in
     kept (dt_image d) \<and> kept (dt_name d) \<and>
     list_all env_kept (or_nil (in_Env insp)) \<and>
     list_all plain_bind (or_nil (in_Binds insp)) \<and>
     (or_nil (in_Binds insp) = [] \<longrightarrow> or_nil (in_Mounts insp) = []) \<and>
     list_all (\<lambda>p. kept (pr_container_port p)) (portsFromInspect insp) \<and>
     list_all (\<lambda>c. c \<noteq> Some [] \<and> list_all word (or_nil c)) [in_Cmd insp, in_Entrypoint insp] \<and>
     list_all (\<lambda>s. tight (or_nil s)) [in_WorkingDir insp, in_User insp, in_Hostname insp] \<and>
     rows_ok (or_nil (in_Labels insp)) \<and> rows_ok (or_nil (in_LogConfig insp)) \<and>
     list_all line_ok (or_nil (in_ExtraHosts insp)) \<and>
     list_all line_ok (map deviceText (or_nil (in_Devices insp))) \<and>
     list_all item_ok (or_nil (in_Dns insp)) \<and>
     list_all item_ok (or_nil (in_CapAdd insp)) \<and> list_all item_ok (or_nil (in_CapDrop insp)))"

lemma trim_or_undef_tight: "tight s \<Longrightarrow> trim_or_undef s = some_nonempty s"
  by (simp add: trim_or_undef_def some_nonempty_def trim_id)

lemma env_strings: "list_all env_kept ls \<Longrightarrow>
   map env_string (filter (\<lambda>r. trim (fst r) \<noteq> []) (map env_row ls)) = ls"
  unfolding kept_rows using env_row_kept by (simp add: list_all_iff)

lemma env_strings_iff:
  "map env_string (filter (\<lambda>r. trim (fst r) \<noteq> []) (map env_row ls)) = ls \<longleftrightarrow>
     list_all env_kept ls"
  unfolding kept_rows using env_row_kept by simp

lemma bind_strings_iff:
  "map bind_string (filter (\<lambda>v. trim (vr_host v) \<noteq> [] \<and> trim (vr_container v) \<noteq> []) (map bind_row bs)) = bs
     \<longleftrightarrow> list_all plain_bind bs"
  unfolding kept_rows using bind_row_kept by simp

text \<open>The numbers of a container survive their text form.\<close>

definition numbers_ok :: "(rat \<Rightarrow> string) \<Rightarrow> (string \<Rightarrow> rat option) \<Rightarrow> docker_inspect \<Rightarrow> bool" where
  "numbers_ok numStr numOf insp \<longleftrightarrow>
     (let r = (case in_RestartRetries insp of Some n \<Rightarrow> n | None \<Rightarrow> 0) in
      numOf (show_int r) = Some (of_int r)) \<and>
     (case in_NanoCpus insp of
        Some n \<Rightarrow> (let x = of_int n / 1000000000 in kept (numStr x) \<and> numOf (numStr x) = Some x)
      | None \<Rightarrow> True)"

lemma show_int_chars: "c \<in> set (show_int n) \<Longrightarrow> c = CHR ''-'' \<or> 48 \<le> char_code c \<and> char_code c < 58"
  using show_nat_digits by (auto simp: show_int_def split: if_splits)

lemma memory_tight: "tight (memoryFromBytes m)"
proof (rule tight_no_ws)
  have "\<not> js_ws c" if "c \<in> set (show_int n)" for c n
    using show_int_chars [OF that] by (auto simp: js_ws_def char_code_def)
  moreover have "\<not> js_ws CHR ''g''" "\<not> js_ws CHR ''m''" by (simp_all add: js_ws_def)
  ultimately show "list_all (\<lambda>c. \<not> js_ws c) (memoryFromBytes m)"
    by (auto simp: memoryFromBytes_def list_all_iff split: option.split)
qed

lemma mode_override: "((if P then CmdOverride else CmdDefault) = CmdOverride) = P"
  by simp

lemma console_flags:
  "(consoleFromInspect i = ConsoleBoth \<or> consoleFromInspect i = ConsoleTty) = is_true (in_Tty i)"
  "(consoleFromInspect i = ConsoleBoth \<or> consoleFromInspect i = ConsoleInteractive) = is_true (in_OpenStdin i)"
  by (simp_all add: consoleFromInspect_def Let_def)

lemma volumes_binds:
  "or_nil (in_Binds i) \<noteq> [] \<Longrightarrow> volumesFromInspect i = map bind_row (or_nil (in_Binds i))"
  by (simp add: volumesFromInspect_def)

text \<open>Without binds the mounts take their place, all that have a source and a destination.\<close>

lemma volumes_mounts:
  assumes "or_nil (in_Binds i) = []"
  shows "map bind_string (filter (\<lambda>v. trim (vr_host v) \<noteq> [] \<and> trim (vr_container v) \<noteq> [])
      (volumesFromInspect i)) = [] \<longleftrightarrow>
    list_all (\<lambda>m. trim (or_nil (mp_Source m)) = [] \<or> trim (or_nil (mp_Destination m)) = [])
      (or_nil (in_Mounts i))"
  using assms
  by (auto simp: volumesFromInspect_def filter_empty_conv list_all_iff simp del: trim_Nil_iff)

lemma volumes_kept_iff:
  "map bind_string (filter (\<lambda>v. trim (vr_host v) \<noteq> [] \<and> trim (vr_container v) \<noteq> [])
      (volumesFromInspect i)) = or_nil (in_Binds i) \<longleftrightarrow>
   (if or_nil (in_Binds i) \<noteq> [] then list_all plain_bind (or_nil (in_Binds i))
    else list_all (\<lambda>m. trim (or_nil (mp_Source m)) = [] \<or> trim (or_nil (mp_Destination m)) = [])
           (or_nil (in_Mounts i)))"
  using volumes_mounts [of i] bind_strings_iff [of "or_nil (in_Binds i)"] volumes_binds [of i]
  by (cases "or_nil (in_Binds i) = []") simp_all

lemma plain_volumes:
  assumes "list_all plain_bind (or_nil (in_Binds i))" "or_nil (in_Binds i) = [] \<longrightarrow> or_nil (in_Mounts i) = []"
  shows "map bind_string (filter (\<lambda>v. trim (vr_host v) \<noteq> [] \<and> trim (vr_container v) \<noteq> [])
     (volumesFromInspect i)) = or_nil (in_Binds i)"
proof (cases "or_nil (in_Binds i) = []")
  case True
  then show ?thesis using assms(2) by (simp add: volumesFromInspect_def)
next
  case False
  then show ?thesis using assms(1) by (simp add: volumes_binds bind_strings_iff)
qed

lemma plain_ports:
  "list_all (\<lambda>p. kept (pr_container_port p)) ps \<Longrightarrow>
   filter (\<lambda>p. trim (pr_container_port p) \<noteq> []) ps = ps"
  by (auto simp: list_all_iff kept_nonempty intro!: filter_True)

lemma items_lines:
  "list_all line_ok xs \<Longrightarrow> text_lines (js_join [CHR 10] xs) = xs"
  "list_all item_ok xs \<Longrightarrow> text_items (js_join [CHR 10] xs) = xs"
  by (simp_all add: text_lines_join text_items_join line_ok_def item_ok_def list_all_iff)

lemma rows_record: "rows_ok rows \<Longrightarrow> recordFromKv rows = rows"
  by (simp add: rows_ok_def record_rows)

lemma loaded_fields:
    "fm_name (load_detail numStr d f) = (dt_name d)"
    "fm_image (load_detail numStr d f) = ((if dt_image d \<noteq> [] then dt_image d else or_nil
    (in_Image (dt_inspect d))))"
    "fm_registry (load_detail numStr d f) = ((if str_includes (dt_image d) ''.'' \<and>
    str_includes (dt_image d) ''/'' then ''other'' else ''dockerhub''))"
    "fm_alwaysPull (load_detail numStr d f) = (False)"
    "fm_publishAll (load_detail numStr d f) = (is_true (in_PublishAllPorts (dt_inspect d)))"
    "fm_ports (load_detail numStr d f) = (portsFromInspect (dt_inspect d))"
    "fm_autoRemove (load_detail numStr d f) = (is_true (in_AutoRemove (dt_inspect d)))"
    "fm_startAfter (load_detail numStr d f) = ((dt_state d = ''running''))"
    "fm_cmd (load_detail numStr d f) = (shellJoin (in_Cmd (dt_inspect d)))"
    "fm_cmdMode (load_detail numStr d f) = ((if shellJoin (in_Cmd (dt_inspect d)) \<noteq> [] then
    CmdOverride else CmdDefault))"
    "fm_entrypoint (load_detail numStr d f) = (shellJoin (in_Entrypoint (dt_inspect d)))"
    "fm_entrypointMode (load_detail numStr d f) = ((if shellJoin (in_Entrypoint (dt_inspect d))
    \<noteq> [] then CmdOverride else CmdDefault))"
    "fm_workdir (load_detail numStr d f) = (or_nil (in_WorkingDir (dt_inspect d)))"
    "fm_user (load_detail numStr d f) = (or_nil (in_User (dt_inspect d)))"
    "fm_hostname (load_detail numStr d f) = (or_nil (in_Hostname (dt_inspect d)))"
    "fm_consoleMode (load_detail numStr d f) = (consoleFromInspect (dt_inspect d))"
    "fm_logDriver (load_detail numStr d f) = (or_nil (in_LogType (dt_inspect d)))"
    "fm_logOpts (load_detail numStr d f) = (or_nil (in_LogConfig (dt_inspect d)))"
    "fm_volumes (load_detail numStr d f) = (volumesFromInspect (dt_inspect d))"
    "fm_networks (load_detail numStr d f) = (or_nil (in_Networks (dt_inspect d)))"
    "fm_extraHosts (load_detail numStr d f) = (js_join [CHR 10] (or_nil (in_ExtraHosts (dt_inspect
    d))))"
    "fm_dns (load_detail numStr d f) = (js_join [CHR 10] (or_nil (in_Dns (dt_inspect d))))"
    "fm_envRows (load_detail numStr d f) = (envFromInspect (dt_inspect d))"
    "fm_labelRows (load_detail numStr d f) = (labelsFromInspect (dt_inspect d))"
    "fm_restart (load_detail numStr d f) = ((if or_nil (in_RestartName (dt_inspect d)) \<noteq> []
    then or_nil (in_RestartName (dt_inspect d)) else ''no''))"
    "fm_restartRetries (load_detail numStr d f) = (show_int (case in_RestartRetries (dt_inspect d)
    of Some n \<Rightarrow> n | None \<Rightarrow> 0))"
    "fm_privileged (load_detail numStr d f) = (is_true (in_Privileged (dt_inspect d)))"
    "fm_readonlyRoot (load_detail numStr d f) = (is_true (in_ReadonlyRootfs (dt_inspect d)))"
    "fm_memory (load_detail numStr d f) = (memoryFromBytes (in_Memory (dt_inspect d)))"
    "fm_cpus (load_detail numStr d f) = ((case in_NanoCpus (dt_inspect d) of Some n \<Rightarrow>
    if n \<noteq> 0 then numStr (of_int n / 1000000000) else [] | None \<Rightarrow> []))"
    "fm_devices (load_detail numStr d f) = (js_join [CHR 10] (map deviceText (or_nil (in_Devices
    (dt_inspect d)))))"
    "fm_capAdd (load_detail numStr d f) = (js_join [CHR 10] (or_nil (in_CapAdd (dt_inspect d))))"
    "fm_capDrop (load_detail numStr d f) = (js_join [CHR 10] (or_nil (in_CapDrop (dt_inspect
    d))))"
  by (simp_all add: load_detail_def Let_def)

lemma loaded_body:
  assumes "plain_detail d" "numbers_ok numStr numOf (dt_inspect d)"
  shows "fst (buildBody numOf (load_detail numStr d f)) = Some (config_of d)"
proof -
  let ?i = "dt_inspect d"
  have img: "(if dt_image d \<noteq> [] then dt_image d else x) = dt_image d" "trim (dt_image d) = dt_image d"
      "dt_image d \<noteq> []" "trim_or_undef (dt_name d) = Some (dt_name d)" for x
    using assms(1) by (simp_all add: plain_detail_def Let_def kept_nonempty trim_or_undef_def)
  have fields: "map env_string (filter (\<lambda>r. trim (fst r) \<noteq> []) (envFromInspect ?i)) = or_nil (in_Env ?i)"
      "map bind_string (filter (\<lambda>v. trim (vr_host v) \<noteq> [] \<and> trim (vr_container v) \<noteq> []) (volumesFromInspect ?i)) =
         or_nil (in_Binds ?i)"
      "filter (\<lambda>p. trim (pr_container_port p) \<noteq> []) (portsFromInspect ?i) = portsFromInspect ?i"
      "recordFromKv (labelsFromInspect ?i) = or_nil (in_Labels ?i)"
      "recordFromKv (or_nil (in_LogConfig ?i)) = or_nil (in_LogConfig ?i)"
    using assms(1) by (simp_all add: plain_detail_def Let_def envFromInspect_def env_strings plain_volumes
        plain_ports rows_record labelsFromInspect_def)
  have cmds: "(if shellJoin (in_Cmd ?i) \<noteq> [] then shellSplit (shellJoin (in_Cmd ?i)) else None) = in_Cmd ?i"
      "(if shellJoin (in_Entrypoint ?i) \<noteq> [] then shellSplit (shellJoin (in_Entrypoint ?i)) else None) = in_Entrypoint ?i"
    using assms(1) by (simp_all only: shell_roundtrip) (simp_all add: plain_detail_def Let_def)
  have texts: "trim_or_undef (or_nil (in_WorkingDir ?i)) = some_nonempty (or_nil (in_WorkingDir ?i))"
      "trim_or_undef (or_nil (in_User ?i)) = some_nonempty (or_nil (in_User ?i))"
      "trim_or_undef (or_nil (in_Hostname ?i)) = some_nonempty (or_nil (in_Hostname ?i))"
      "trim_or_undef (memoryFromBytes (in_Memory ?i)) = some_nonempty (memoryFromBytes (in_Memory ?i))"
    using assms(1) memory_tight by (simp_all add: plain_detail_def Let_def trim_or_undef_tight)
  have lists: "text_lines (js_join [CHR 10] (or_nil (in_ExtraHosts ?i))) = or_nil (in_ExtraHosts ?i)"
      "text_lines (js_join [CHR 10] (map deviceText (or_nil (in_Devices ?i)))) = map deviceText (or_nil (in_Devices ?i))"
      "text_items (js_join [CHR 10] (or_nil (in_Dns ?i))) = or_nil (in_Dns ?i)"
      "text_items (js_join [CHR 10] (or_nil (in_CapAdd ?i))) = or_nil (in_CapAdd ?i)"
      "text_items (js_join [CHR 10] (or_nil (in_CapDrop ?i))) = or_nil (in_CapDrop ?i)"
    using assms(1) by (simp_all add: plain_detail_def Let_def items_lines)
  have retries: "(case numOf (show_int (case in_RestartRetries ?i of Some n \<Rightarrow> n | None \<Rightarrow> 0)) of Some r \<Rightarrow> r | None \<Rightarrow> 0) =
      of_int (case in_RestartRetries ?i of Some n \<Rightarrow> n | None \<Rightarrow> 0)"
    using assms(2) by (simp add: numbers_ok_def Let_def)
  have cpus: "(let s = (case in_NanoCpus ?i of Some n \<Rightarrow> if n \<noteq> 0 then numStr (of_int n / 1000000000) else [] | None \<Rightarrow> [])
      in if trim s \<noteq> [] then Some (numOf s) else None) =
      (case in_NanoCpus ?i of Some n \<Rightarrow> if n \<noteq> 0 then Some (Some (of_int n / 1000000000)) else None | None \<Rightarrow> None)"
    using assms(2) by (auto simp: numbers_ok_def Let_def kept_nonempty split: option.splits)
  show ?thesis
    unfolding buildBody_def config_of_def loaded_fields mode_override console_flags Let_def img fields
      cmds texts lists retries cpus [unfolded Let_def]
    using img(3) by (simp add: some_nonempty_def)
qed

lemma body_fields:
  assumes "fst (buildBody numOf f) = Some b"
  shows "ci_env b = map env_string (filter (\<lambda>r. trim (fst r) \<noteq> []) (fm_envRows f))"
    "ci_binds b = map bind_string
       (filter (\<lambda>v. trim (vr_host v) \<noteq> [] \<and> trim (vr_container v) \<noteq> []) (fm_volumes f))"
    "ci_cmd b = (if fm_cmdMode f = CmdOverride then shellSplit (fm_cmd f) else None)"
    "ci_entrypoint b = (if fm_entrypointMode f = CmdOverride then shellSplit (fm_entrypoint f) else None)"
proof -
  have "trim (fm_image f) \<noteq> []" using assms by (auto simp: buildBody_def Let_def)
  note eq = assms [unfolded buildBody_def Let_def if_not_P [OF this] fst_conv option.inject, symmetric]
  show "ci_env b = map env_string (filter (\<lambda>r. trim (fst r) \<noteq> []) (fm_envRows f))"
    "ci_binds b = map bind_string
       (filter (\<lambda>v. trim (vr_host v) \<noteq> [] \<and> trim (vr_container v) \<noteq> []) (fm_volumes f))"
    "ci_cmd b = (if fm_cmdMode f = CmdOverride then shellSplit (fm_cmd f) else None)"
    "ci_entrypoint b = (if fm_entrypointMode f = CmdOverride then shellSplit (fm_entrypoint f) else None)"
    by (simp_all add: eq split del: if_split)
qed

section \<open>Properties\<close>

text \<open>Saving an edit without a change asks for the container that was inspected: every setting of
  the inspected container, from its environment, command, mounts and networks to its limits,
  capabilities and logging, is in the body sent to the container's own address, if its values are
  ones the form can hold.\<close>

theorem unchanged_edit_keeps_container:
  assumes "plain_detail d" "numbers_ok numStr numOf (dt_inspect d)" "i \<noteq> []"
  shows "fst (onDeploy stored numOf i (load_detail numStr d f)) =
    Some (updateContainer stored i (create_input_jv (config_of d)))"
  using loaded_body [OF assms(1,2), of f] assms(3)
  by (cases "buildBody numOf (load_detail numStr d f)") (simp add: onDeploy_def)

text \<open>C40: Which environments, mounts and commands an accepted edit without a change keeps, exactly:
  every line of the environment must have a name free of outer white space before its equals sign;
  every bind must be host:container or host:container:ro, and a container without binds must have
  no mount with a source and a destination, for such a mount comes back as a bind; and a command
  must be absent or made of words without white space.\<close>

theorem unchanged_edit_exact:
  assumes "fst (buildBody numOf (load_detail numStr d f)) = Some b"
  shows "(ci_env b = or_nil (in_Env (dt_inspect d)) \<longleftrightarrow> list_all env_kept (or_nil (in_Env (dt_inspect d)))) \<and>
    (ci_binds b = or_nil (in_Binds (dt_inspect d)) \<longleftrightarrow>
       (if or_nil (in_Binds (dt_inspect d)) \<noteq> [] then list_all plain_bind (or_nil (in_Binds (dt_inspect d)))
        else list_all (\<lambda>m. trim (or_nil (mp_Source m)) = [] \<or> trim (or_nil (mp_Destination m)) = [])
               (or_nil (in_Mounts (dt_inspect d))))) \<and>
    (ci_cmd b = in_Cmd (dt_inspect d) \<longleftrightarrow>
       in_Cmd (dt_inspect d) \<noteq> Some [] \<and> list_all word (or_nil (in_Cmd (dt_inspect d)))) \<and>
    (ci_entrypoint b = in_Entrypoint (dt_inspect d) \<longleftrightarrow>
       in_Entrypoint (dt_inspect d) \<noteq> Some [] \<and> list_all word (or_nil (in_Entrypoint (dt_inspect d))))"
  unfolding body_fields [OF assms(1)] loaded_fields mode_override envFromInspect_def
    volumes_kept_iff env_strings_iff shell_roundtrip by simp

text \<open>A mount whose options are more than ro comes back writable: saving an unchanged edit asks for
  the same mount without any option, also where the options make it read-only.\<close>

theorem edit_drops_mount_options:
  assumes "fst (buildBody numOf (load_detail numStr d f)) = Some b"
    and "mnt \<in> set (or_nil (in_Binds (dt_inspect d)))"
    and "js_split '':'' mnt = [h, c, opts]" "kept h" "kept c" "opts \<noteq> ''ro''"
  shows "h @ '':'' @ c \<in> set (ci_binds b)"
proof -
  have "or_nil (in_Binds (dt_inspect d)) \<noteq> []" using assms(2) by auto
  moreover have "bind_row mnt = \<lparr>vr_host = h, vr_container = c, vr_read_only = False\<rparr>"
    using assms(3,6) by (simp add: bind_row_def)
  ultimately show ?thesis
    unfolding body_fields [OF assms(1)] loaded_fields using assms(2,4,5)
    by (auto simp: volumes_binds bind_string_def kept_nonempty intro!: image_eqI [of _ _ "bind_row mnt"])
qed

section \<open>Instances\<close>

definition demo_inspect :: docker_inspect where
  "demo_inspect =
     \<lparr>in_Image = Some ''nginx:alpine'', in_Env = Some [''PATH=/bin'', ''MODE=a b''],
      in_Cmd = Some [''nginx'', ''-g''], in_Entrypoint = None, in_WorkingDir = Some ''/srv'',
      in_User = None, in_Hostname = Some ''web'', in_Labels = Some [(''team'', ''x'')],
      in_Tty = Some False, in_OpenStdin = Some True,
      in_ExposedPorts = Some [''80/tcp''], in_Binds = Some [''/data:/srv:ro'', ''/log:/log''],
      in_PortBindings = Some [(''80/tcp'', Some [\<lparr>pb_HostIp = Some [], pb_HostPort = Some ''8080''\<rparr>])],
      in_PublishAllPorts = Some False, in_Privileged = Some False, in_ReadonlyRootfs = Some False,
      in_AutoRemove = Some False, in_ExtraHosts = None, in_CapAdd = Some [''NET_ADMIN''],
      in_CapDrop = None, in_Dns = Some [''1.1.1.1''], in_Devices = None, in_Memory = Some 536870912,
      in_NanoCpus = Some 1500000000, in_RestartName = Some ''always'', in_RestartRetries = Some 0,
      in_LogType = Some ''json-file'', in_LogConfig = None,
      in_NetworkMode = Some ''bridge'', in_Networks = Some [''bridge''],
      in_Mounts = None\<rparr>"

definition demo_detail :: container_detail where
  "demo_detail = \<lparr>dt_name = ''web'', dt_image = ''nginx:alpine'', dt_state = ''running'',
     dt_inspect = demo_inspect\<rparr>"

text \<open>The two numbers of the instance and their text.\<close>

definition demo_num :: "rat \<Rightarrow> string" where
  "demo_num r = (if r = 3 / 2 then ''1.5'' else ''0'')"

definition demo_num_of :: "string \<Rightarrow> rat option" where
  "demo_num_of s = (if s = ''1.5'' then Some (3 / 2) else if s = ''0'' then Some 0 else None)"

lemma demo_plain: "plain_detail demo_detail" by code_simp

lemma demo_numbers: "numbers_ok demo_num demo_num_of demo_inspect" by code_simp

lemma unchanged_edit_keeps_container_witness:
  "\<exists>r. fst (onDeploy None demo_num_of ''c1'' (load_detail demo_num demo_detail initial_form)) = Some r \<and>
     rq_method r = ''put''"
proof -
  have "numbers_ok demo_num demo_num_of (dt_inspect demo_detail)"
    using demo_numbers by (simp add: demo_detail_def)
  from unchanged_edit_keeps_container [OF demo_plain this, of "''c1''" None initial_form]
  show ?thesis by (simp add: updateContainer_def)
qed

definition odd_detail :: container_detail where
  "odd_detail = demo_detail\<lparr>dt_inspect := demo_inspect\<lparr>in_Cmd := Some [''sh'', ''-c'', ''a b''],
     in_Binds := Some [''/data:/srv:ro,z'']\<rparr>\<rparr>"

lemma odd_body:
  obtains b where "fst (buildBody demo_num_of (load_detail demo_num odd_detail initial_form)) = Some b"
proof -
  have "trim (fm_image (load_detail demo_num odd_detail initial_form)) \<noteq> []"
    by (simp add: loaded_fields odd_detail_def demo_detail_def trim_Nil_iff js_ws_def)
  then show ?thesis using that by (simp add: buildBody_def Let_def del: trim_Nil_iff)
qed

lemma unchanged_edit_exact_witness:
  "\<exists>b. fst (buildBody demo_num_of (load_detail demo_num odd_detail initial_form)) = Some b \<and>
     ci_cmd b \<noteq> Some [''sh'', ''-c'', ''a b'']"
proof -
  obtain b where b: "fst (buildBody demo_num_of (load_detail demo_num odd_detail initial_form)) = Some b"
    by (rule odd_body)
  have "or_nil (in_Binds (dt_inspect odd_detail)) \<noteq> []" "in_Cmd (dt_inspect odd_detail) = Some [''sh'', ''-c'', ''a b'']"
      "\<not> list_all word (or_nil (in_Cmd (dt_inspect odd_detail)))"
    by code_simp+
  then show ?thesis using unchanged_edit_exact [OF b] b by metis
qed

lemma edit_drops_mount_options_witness:
  "\<exists>b. fst (buildBody demo_num_of (load_detail demo_num odd_detail initial_form)) = Some b \<and>
     ''/data:/srv'' \<in> set (ci_binds b)"
proof -
  obtain b where b: "fst (buildBody demo_num_of (load_detail demo_num odd_detail initial_form)) = Some b"
    by (rule odd_body)
  have "''/data:/srv:ro,z'' \<in> set (or_nil (in_Binds (dt_inspect odd_detail)))"
      "js_split '':'' ''/data:/srv:ro,z'' = [''/data'', ''/srv'', ''ro,z'']" "kept ''/data''" "kept ''/srv''"
    by code_simp+
  then show ?thesis using edit_drops_mount_options [OF b, of "''/data:/srv:ro,z''" "''/data''" "''/srv''" "''ro,z''"] b
    by simp
qed

end
