(* ===== verification/Container_Update.thy ===== *)
theory Container_Update
  imports Container_Edit
begin

text \<open>
  The server's side of saving a container, \<open>modules/docker/containers/handlers.go\<close>: the values it
  parses from the body and the calls \<open>UpdateAPI\<close> and \<open>createFromBody\<close> make to the Docker engine, in
  order. The engine is outside the repository; its answers are a record. \<open>newPort\<close> is \<open>nat.NewPort\<close>
  of the Docker libraries and \<open>parseFloat\<close> is \<open>strconv.ParseFloat\<close>. White space is the same in both
  languages on the characters of the model.
\<close>

section \<open>Parsing the body\<close>

definition trunc_rat :: "rat \<Rightarrow> int" where
  "trunc_rat r = (if r < 0 then - \<lfloor>- r\<rfloor> else \<lfloor>r\<rfloor>)"

definition parseMemory :: "(string \<Rightarrow> rat option) \<Rightarrow> string \<Rightarrow> string + int" where
  "parseMemory parseFloat text =
     (let s = trim (map js_lower text) in
      if s = [] \<or> s = ''0'' then Inr 0
      else let
        (mult, s) =
          (if ends_with s ''g'' then (1024 * 1024 * 1024, butlast s)
           else if ends_with s ''m'' then (1024 * 1024, butlast s)
           else if ends_with s ''k'' then (1024, butlast s)
           else if ends_with s ''b'' then (1, butlast s)
           else (1, s))
      in case parseFloat s of
           None \<Rightarrow> Inl (''invalid memory: '' @ s)
         | Some v \<Rightarrow> Inr (trunc_rat (v * mult)))"

record go_binding =
  gb_HostIP :: string
  gb_HostPort :: string

text \<open>Protocol, host address, host port and container port of one mapping.\<close>

definition parse_port :: "string \<Rightarrow> string + (string \<times> string \<times> string \<times> string)" where
  "parse_port raw =
     (let parts = js_split ''/'' raw;
          (proto, raw) = (if length parts = 2 then (map js_lower (parts ! 1), parts ! 0)
                          else (''tcp'', raw))
      in case js_split '':'' raw of
           [c] \<Rightarrow> Inr (proto, [], [], c)
         | [h, c] \<Rightarrow> Inr (proto, [], h, c)
         | [i, h, c] \<Rightarrow> Inr (proto, i, h, c)
         | _ \<Rightarrow> Inl (''invalid port mapping: '' @ raw))"

type_synonym port_map = "(string \<times> go_binding list) list"

fun port_loop ::
  "(string \<Rightarrow> string \<Rightarrow> string + string) \<Rightarrow> string list \<Rightarrow> port_map \<Rightarrow> string list \<Rightarrow>
   string + (string list \<times> port_map)" where
  "port_loop newPort exposed bindings [] = Inr (exposed, bindings)"
| "port_loop newPort exposed bindings (text # ports) =
     (let raw = trim text in
      if raw = [] then port_loop newPort exposed bindings ports
      else case parse_port raw of
        Inl e \<Rightarrow> Inl e
      | Inr (proto, hostIP, hostPort, containerPort) \<Rightarrow>
          (case newPort proto containerPort of
             Inl e \<Rightarrow> Inl e
           | Inr p \<Rightarrow>
               let b = (if hostPort \<noteq> [] \<or> hostIP \<noteq> [] then \<lparr>gb_HostIP = hostIP, gb_HostPort = hostPort\<rparr>
                        else \<lparr>gb_HostIP = [], gb_HostPort = []\<rparr>)
               in port_loop newPort (if p \<in> set exposed then exposed else exposed @ [p])
                    (AList.map_default p [b] (\<lambda>bs. bs @ [b]) bindings) ports))"

definition parsePortBindings ::
  "(string \<Rightarrow> string \<Rightarrow> string + string) \<Rightarrow> string list \<Rightarrow> string + (string list \<times> port_map)" where
  "parsePortBindings newPort ports = port_loop newPort [] [] ports"

definition parseDevices :: "string list \<Rightarrow> (string \<times> string \<times> string) list" where
  "parseDevices devs =
     map (\<lambda>d. let parts = js_split '':'' d in
            if length parts = 1 then (parts ! 0, parts ! 0, ''rwm'')
            else if length parts = 2 then (parts ! 0, parts ! 1, ''rwm'')
            else (parts ! 0, parts ! 1, parts ! 2))
       (filter (\<lambda>d. d \<noteq> []) (map trim devs))"

section \<open>The configuration handed to the engine\<close>

record engine_config =
  ec_Image :: string
  ec_Env :: "string list"
  ec_Cmd :: "string list option"
  ec_Entrypoint :: "string list option"
  ec_WorkingDir :: string
  ec_User :: string
  ec_Hostname :: string
  ec_Labels :: "kv_row list"
  ec_ExposedPorts :: "string list"
  ec_Tty :: bool
  ec_OpenStdin :: bool
  ec_Binds :: "string list"
  ec_PortBindings :: port_map
  ec_PublishAllPorts :: bool
  ec_Privileged :: bool
  ec_ReadonlyRootfs :: bool
  ec_AutoRemove :: bool
  ec_ExtraHosts :: "string list"
  ec_CapAdd :: "string list"
  ec_CapDrop :: "string list"
  ec_DNS :: "string list"
  ec_RestartName :: string
  ec_RestartRetries :: int
  ec_Devices :: "(string \<times> string \<times> string) list"
  ec_LogConfig :: "(string \<times> kv_row list) option"
  ec_Memory :: int
  ec_NanoCPUs :: int
  ec_NetworkMode :: "string option"
  ec_Networks :: "string list"

text \<open>
  The body as the server decodes it: the form's fields, one the form never sends, and the number of
  retries as an \<open>int\<close>. A number that is no integer of 64 bits cannot be decoded into it.
\<close>

record create_body = create_input +
  cb_pull_if_missing :: bool
  cb_restart_retries :: int

definition go_int :: "int \<Rightarrow> bool" where
  "go_int n \<longleftrightarrow> - (2 ^ 63) \<le> n \<and> n < 2 ^ 63"

definition decode_body :: "create_input \<Rightarrow> create_body option" where
  "decode_body b =
     (let n = \<lfloor>ci_restart_retries b\<rfloor> in
      if ci_restart_retries b = of_int n \<and> go_int n
      then Some (create_input.extend b (create_body.fields False n)) else None)"

definition engine_config_of ::
  "string list \<Rightarrow> port_map \<Rightarrow> int \<Rightarrow> create_body \<Rightarrow> engine_config" where
  "engine_config_of exposed bindings mem b =
     (let restartName = trim (ci_restart_policy b);
          cpus = (case ci_cpus b of Some (Some r) \<Rightarrow> r | _ \<Rightarrow> 0);
          networks = or_nil (ci_networks b);
          driver = trim (or_nil (ci_log_driver b))
      in \<lparr>ec_Image = ci_image b, ec_Env = ci_env b, ec_Cmd = ci_cmd b,
          ec_Entrypoint = ci_entrypoint b, ec_WorkingDir = or_nil (ci_working_dir b),
          ec_User = or_nil (ci_user b), ec_Hostname = or_nil (ci_hostname b),
          ec_Labels = ci_labels b, ec_ExposedPorts = exposed, ec_Tty = ci_tty b,
          ec_OpenStdin = ci_open_stdin b, ec_Binds = ci_binds b, ec_PortBindings = bindings,
          ec_PublishAllPorts = ci_publish_all b, ec_Privileged = ci_privileged b,
          ec_ReadonlyRootfs = ci_readonly_rootfs b, ec_AutoRemove = ci_auto_remove b,
          ec_ExtraHosts = ci_extra_hosts b, ec_CapAdd = ci_cap_add b, ec_CapDrop = ci_cap_drop b,
          ec_DNS = ci_dns b, ec_RestartName = (if restartName = [] then ''no'' else restartName),
          ec_RestartRetries = cb_restart_retries b, ec_Devices = parseDevices (ci_devices b),
          ec_LogConfig = (if driver \<noteq> [] then Some (driver, or_nil (ci_log_opts b)) else None),
          ec_Memory = (if 0 < mem then mem else 0),
          ec_NanoCPUs = (if 0 < cpus then trunc_rat (cpus * 1000000000) else 0),
          ec_NetworkMode = (if networks \<noteq> [] \<and> trim (hd networks) \<noteq> [] then Some (trim (hd networks))
                            else None),
          ec_Networks = filter (\<lambda>n. n \<noteq> []) (map trim networks)\<rparr>)"

section \<open>Creating and updating\<close>

datatype engine_call =
    EInspect string
  | EStop string
  | ERemove string
  | EImageInspect string
  | EPull string
  | ECreate string engine_config
  | EStart string

text \<open>
  What the engine answers: whether there is a client for it, the old container's name, and whether
  each call succeeds.
\<close>

record engine_answers =
  ea_client :: bool
  ea_inspect :: "string option"
  ea_remove :: bool
  ea_image :: bool
  ea_pull :: bool
  ea_create :: "string option"
  ea_start :: bool

datatype api_reply = Done | InvalidBody | Invalid string | EngineFailed

definition createFromBody ::
  "(string \<Rightarrow> string \<Rightarrow> string + string) \<Rightarrow> (string \<Rightarrow> rat option) \<Rightarrow> engine_answers \<Rightarrow> create_body \<Rightarrow>
   engine_call list \<times> api_reply" where
  "createFromBody newPort parseFloat ans body =
     (let body = body\<lparr>ci_image := trim (ci_image body)\<rparr> in
      if ci_image body = [] then ([], Invalid ''image is required'')
      else let
        shouldPull = (ci_always_pull body \<or> (cb_pull_if_missing body \<and> \<not> ea_image ans));
        calls = EImageInspect (ci_image body) # (if shouldPull then [EPull (ci_image body)] else [])
      in
      if shouldPull \<and> \<not> ea_pull ans then (calls, EngineFailed)
      else if \<not> shouldPull \<and> \<not> ea_image ans
      then (calls, Invalid ''image not found locally; enable Always pull or pull the image first'')
      else (case parsePortBindings newPort (ci_ports body) of
          Inl e \<Rightarrow> (calls, Invalid e)
        | Inr (exposed, bindings) \<Rightarrow>
            (case parseMemory parseFloat (or_nil (ci_memory body)) of
               Inl e \<Rightarrow> (calls, Invalid e)
             | Inr mem \<Rightarrow>
                 let calls = calls @ [ECreate (trim (or_nil (ci_name body)))
                                        (engine_config_of exposed bindings mem body)]
                 in (case ea_create ans of
                       None \<Rightarrow> (calls, EngineFailed)
                     | Some i \<Rightarrow>
                         if \<not> ci_start body then (calls, Done)
                         else (calls @ [EStart i], if ea_start ans then Done else EngineFailed)))))"

definition UpdateAPI ::
  "(string \<Rightarrow> string \<Rightarrow> string + string) \<Rightarrow> (string \<Rightarrow> rat option) \<Rightarrow> engine_answers \<Rightarrow> string \<Rightarrow>
   create_body option \<Rightarrow> engine_call list \<times> api_reply" where
  "UpdateAPI newPort parseFloat ans i sent =
     (if \<not> ea_client ans then ([], EngineFailed)
      else case sent of
        None \<Rightarrow> ([], InvalidBody)
      | Some body \<Rightarrow>
          (case ea_inspect ans of
             None \<Rightarrow> ([EInspect i], EngineFailed)
           | Some oldName \<Rightarrow>
               let body = (if trim (or_nil (ci_name body)) = []
                           then body\<lparr>ci_name := Some (if starts_with oldName ''/'' then drop 1 oldName
                                                      else oldName)\<rparr>
                           else body);
                   calls = [EInspect i, EStop i, ERemove i]
               in if \<not> ea_remove ans then (calls, EngineFailed)
                  else (let (cs, reply) = createFromBody newPort parseFloat ans body
                        in (calls @ cs, reply))))"

definition CreateAPI ::
  "(string \<Rightarrow> string \<Rightarrow> string + string) \<Rightarrow> (string \<Rightarrow> rat option) \<Rightarrow> engine_answers \<Rightarrow>
   create_body option \<Rightarrow> engine_call list \<times> api_reply" where
  "CreateAPI newPort parseFloat ans sent =
     (if \<not> ea_client ans then ([], EngineFailed)
      else case sent of
        None \<Rightarrow> ([], InvalidBody)
      | Some body \<Rightarrow> createFromBody newPort parseFloat ans body)"

section \<open>What the server reads back\<close>

text \<open>A text free of the separators of a port mapping.\<close>

definition port_text :: "string \<Rightarrow> bool" where
  "port_text s \<longleftrightarrow> tight s \<and> CHR '':'' \<notin> set s \<and> CHR ''/'' \<notin> set s"

lemma port_text_trim: "port_text s \<Longrightarrow> trim s = s"
  by (simp add: port_text_def trim_id)

definition row_ok :: "port_row \<Rightarrow> bool" where
  "row_ok p \<longleftrightarrow> port_text (pr_host_ip p) \<and> port_text (pr_host_port p) \<and>
     port_text (pr_container_port p) \<and> pr_container_port p \<noteq> [] \<and>
     port_text (pr_protocol p) \<and> pr_protocol p \<noteq> [] \<and> map js_lower (pr_protocol p) = pr_protocol p"

lemma js_split_two: "c \<notin> set a \<Longrightarrow> c \<notin> set b \<Longrightarrow> js_split [c] (a @ c # b) = [a, b]"
  by (simp add: js_split_char_append js_split_char_free)

lemma js_split_three:
  "c \<notin> set a \<Longrightarrow> c \<notin> set b \<Longrightarrow> c \<notin> set d \<Longrightarrow> js_split [c] (a @ c # b @ c # d) = [a, b, d]"
  by (simp add: js_split_char_append js_split_char_free)

text \<open>A host address without a host port is lost on the way.\<close>

lemma port_string_parsed:
  assumes "row_ok p"
  shows "parse_port (port_string p) =
    Inr (pr_protocol p, if pr_host_port p = [] then [] else pr_host_ip p, pr_host_port p, pr_container_port p)"
proof -
  let ?base = "(if pr_host_ip p \<noteq> [] \<and> pr_host_port p \<noteq> []
      then pr_host_ip p @ '':'' @ pr_host_port p @ '':'' @ pr_container_port p
      else if pr_host_port p \<noteq> [] then pr_host_port p @ '':'' @ pr_container_port p
      else pr_container_port p)"
  have p: "port_string p = ?base @ CHR ''/'' # pr_protocol p"
    using assms by (simp add: port_string_def row_ok_def port_text_trim or_str_def)
  have "CHR ''/'' \<notin> set ?base" "CHR ''/'' \<notin> set (pr_protocol p)"
    using assms by (auto simp: row_ok_def port_text_def)
  then have s: "js_split ''/'' (port_string p) = [?base, pr_protocol p]"
    unfolding p by (rule js_split_two)
  have b: "js_split '':'' ?base =
      (if pr_host_ip p \<noteq> [] \<and> pr_host_port p \<noteq> [] then [pr_host_ip p, pr_host_port p, pr_container_port p]
       else if pr_host_port p \<noteq> [] then [pr_host_port p, pr_container_port p]
       else [pr_container_port p])"
    using assms js_split_two js_split_three
    by (auto simp: row_ok_def port_text_def js_split_char_free)
  show ?thesis
    using assms unfolding parse_port_def s by (simp add: b row_ok_def Let_def)
qed

lemma port_string_tight:
  assumes "row_ok p"
  shows "trim (port_string p) = port_string p \<and> port_string p \<noteq> []"
proof -
  have "\<not> js_ws (hd x)" if "tight x" "x \<noteq> []" for x using that by (simp add: tight_def)
  moreover have "\<not> js_ws (last x)" if "tight x" "x \<noteq> []" for x using that by (simp add: tight_def)
  ultimately have "tight (port_string p)" "port_string p \<noteq> []"
    using assms by (auto simp: port_string_def row_ok_def port_text_trim or_str_def tight_def port_text_def
        hd_append Let_def)
  then show ?thesis by (simp add: trim_id)
qed

lemma map_default_new: "k \<notin> fst ` set m \<Longrightarrow> AList.map_default k v f m = m @ [(k, v)]"
  by (induction m) auto

lemma map_default_last: "k \<notin> fst ` set m \<Longrightarrow> AList.map_default k v f (m @ [(k, x)]) = m @ [(k, f x)]"
  by (induction m) auto

definition go_bind :: "port_binding \<Rightarrow> go_binding" where
  "go_bind b = \<lparr>gb_HostIP = or_nil (pb_HostIp b), gb_HostPort = or_nil (pb_HostPort b)\<rparr>"

definition binding_ok :: "port_binding \<Rightarrow> bool" where
  "binding_ok b \<longleftrightarrow> port_text (or_nil (pb_HostIp b)) \<and> port_text (or_nil (pb_HostPort b)) \<and>
     (or_nil (pb_HostPort b) = [] \<longrightarrow> or_nil (pb_HostIp b) = [])"

definition port_ok :: "(string \<Rightarrow> string \<Rightarrow> string + string) \<Rightarrow> string \<times> port_binding list option \<Rightarrow> bool" where
  "port_ok newPort kb \<longleftrightarrow>
     (case js_split ''/'' (fst kb) of
        [cp, proto] \<Rightarrow> port_text cp \<and> cp \<noteq> [] \<and> port_text proto \<and> proto \<noteq> [] \<and>
          map js_lower proto = proto \<and> newPort proto cp = Inr (fst kb)
      | _ \<Rightarrow> False) \<and>
     or_nil (snd kb) \<noteq> [] \<and> list_all binding_ok (or_nil (snd kb))"

definition key_rows :: "string \<Rightarrow> string \<Rightarrow> port_binding list \<Rightarrow> port_row list" where
  "key_rows cp proto bs =
     map (\<lambda>b. \<lparr>pr_host_ip = or_nil (pb_HostIp b), pr_host_port = or_nil (pb_HostPort b),
                pr_container_port = cp, pr_protocol = proto\<rparr>) bs"

lemma port_loop_row:
  assumes "row_ok p" "newPort (pr_protocol p) (pr_container_port p) = Inr key"
    and "pr_host_port p = [] \<longrightarrow> pr_host_ip p = []"
  shows "port_loop newPort ex bs (port_string p # ports) =
    port_loop newPort (if key \<in> set ex then ex else ex @ [key])
      (AList.map_default key [\<lparr>gb_HostIP = pr_host_ip p, gb_HostPort = pr_host_port p\<rparr>]
         (\<lambda>ds. ds @ [\<lparr>gb_HostIP = pr_host_ip p, gb_HostPort = pr_host_port p\<rparr>]) bs) ports"
  using port_string_tight [OF assms(1)] port_string_parsed [OF assms(1)] assms(2,3)
  by (simp add: Let_def)

lemma port_loop_more:
  assumes "list_all row_ok (key_rows cp proto bs)" "list_all binding_ok bs"
    and "newPort proto cp = Inr key" "key \<notin> fst ` set m"
  shows "port_loop newPort (ex @ [key]) (m @ [(key, ds)]) (map port_string (key_rows cp proto bs) @ rest) =
    port_loop newPort (ex @ [key]) (m @ [(key, ds @ map go_bind bs)]) rest"
  using assms
proof (induction bs arbitrary: ds)
  case (Cons b bs)
  then show ?case
    by (simp add: key_rows_def port_loop_row map_default_last binding_ok_def go_bind_def
        del: port_loop.simps(2))
qed (simp add: key_rows_def)

lemma port_loop_key:
  assumes "list_all row_ok (key_rows cp proto bs)" "list_all binding_ok bs" "bs \<noteq> []"
    and "newPort proto cp = Inr key" "key \<notin> fst ` set m" "key \<notin> set ex"
  shows "port_loop newPort ex m (map port_string (key_rows cp proto bs) @ rest) =
    port_loop newPort (ex @ [key]) (m @ [(key, map go_bind bs)]) rest"
proof (cases bs)
  case (Cons b bs')
  have "port_loop newPort ex m (map port_string (key_rows cp proto bs) @ rest) =
      port_loop newPort (ex @ [key]) (m @ [(key, [go_bind b])]) (map port_string (key_rows cp proto bs') @ rest)"
    using assms unfolding Cons
    by (simp add: key_rows_def port_loop_row map_default_new binding_ok_def go_bind_def
        del: port_loop.simps(2))
  also have "\<dots> = port_loop newPort (ex @ [key]) (m @ [(key, [go_bind b] @ map go_bind bs')]) rest"
    using assms unfolding Cons by (intro port_loop_more) (auto simp: key_rows_def)
  finally show ?thesis using Cons by simp
qed (use assms in simp)

lemma port_ok_rows:
  assumes "port_ok newPort (key, b)"
  obtains cp proto where "port_proto key = (cp, proto)" "newPort proto cp = Inr key"
    "list_all row_ok (key_rows cp proto (or_nil b))"
proof -
  obtain cp proto where sp: "js_split ''/'' key = [cp, proto]" and ok: "port_text cp" "cp \<noteq> []"
      "port_text proto" "proto \<noteq> []" "map js_lower proto = proto" "newPort proto cp = Inr key"
    using assms by (auto simp: port_ok_def split: list.splits)
  have "list_all row_ok (key_rows cp proto (or_nil b))"
    using assms ok by (auto simp: port_ok_def list_all_iff key_rows_def row_ok_def binding_ok_def)
  then show ?thesis using that sp ok by (simp add: port_proto_def)
qed

lemma ports_parsed:
  assumes "list_all (port_ok newPort) pbs" "distinct (map fst pbs)"
    and "fst ` set m \<inter> fst ` set pbs = {}" "set ex \<inter> fst ` set pbs = {}"
  shows "port_loop newPort ex m (map port_string (concat (map binding_rows pbs))) =
    Inr (ex @ map fst pbs, m @ map (\<lambda>(k, bs). (k, map go_bind (or_nil bs))) pbs)"
  using assms
proof (induction pbs arbitrary: ex m)
  case (Cons kb pbs)
  obtain key b where kb: "kb = (key, b)" by (cases kb)
  obtain cp proto where c: "port_proto key = (cp, proto)" "newPort proto cp = Inr key"
      "list_all row_ok (key_rows cp proto (or_nil b))"
    using Cons.prems(1) kb by (auto elim: port_ok_rows)
  have o: "or_nil b \<noteq> []" "list_all binding_ok (or_nil b)"
    using Cons.prems(1) kb by (simp_all add: port_ok_def)
  have r: "binding_rows kb = key_rows cp proto (or_nil b)"
    using c(1) o(1) kb by (simp add: binding_rows_def key_rows_def)
  have "key \<notin> fst ` set m" "key \<notin> set ex" using Cons.prems(3,4) kb by auto
  then have "port_loop newPort ex m (map port_string (concat (map binding_rows (kb # pbs)))) =
      port_loop newPort (ex @ [key]) (m @ [(key, map go_bind (or_nil b))])
        (map port_string (concat (map binding_rows pbs)))"
    using port_loop_key [of cp proto "or_nil b" newPort key m ex] c o by (simp add: r)
  also have "\<dots> = Inr ((ex @ [key]) @ map fst pbs,
      (m @ [(key, map go_bind (or_nil b))]) @ map (\<lambda>(k, bs). (k, map go_bind (or_nil bs))) pbs)"
    using Cons.prems kb by (intro Cons.IH) auto
  finally show ?case using kb by simp
qed simp

lemma inspected_ports:
  assumes "list_all (port_ok newPort) (or_nil (in_PortBindings i))"
    and "distinct (map fst (or_nil (in_PortBindings i)))"
  shows "parsePortBindings newPort (map port_string (portsFromInspect i)) =
    Inr (map fst (or_nil (in_PortBindings i)),
      map (\<lambda>(k, bs). (k, map go_bind (or_nil bs))) (or_nil (in_PortBindings i)))"
  using ports_parsed [OF assms, of "[]" "[]"] by (simp add: parsePortBindings_def portsFromInspect_def)

subsection \<open>Memory and devices\<close>

definition mem_number :: "int \<Rightarrow> int" where
  "mem_number n = (if n mod (1024 * 1024 * 1024) = 0 then n div (1024 * 1024 * 1024)
     else if n mod (1024 * 1024) = 0 then n div (1024 * 1024) else n)"

lemma ends_with_char: "ends_with s [c] \<longleftrightarrow> s \<noteq> [] \<and> last s = c"
  by (cases s rule: rev_cases) (auto simp: ends_with_def starts_with_def)

lemma show_nat_zero: "show_nat n = ''0'' \<Longrightarrow> n = 0"
proof (cases "n < 10")
  case True
  assume "show_nat n = ''0''"
  with True have "(char_of (48 + n) :: char) = CHR ''0''" by (simp add: show_nat.simps [of n])
  then have "(of_char (char_of (48 + n) :: char) :: nat) = of_char CHR ''0''" by simp
  with True show ?thesis by simp
next
  case False
  assume "show_nat n = ''0''"
  with False show ?thesis by (simp add: show_nat.simps [of n] append_eq_Cons_conv)
qed

lemma show_int_pos: "0 < n \<Longrightarrow> show_int n \<noteq> ''0'' \<and> show_int n \<noteq> []"
  using show_nat_zero [of "nat n"] by (auto simp: show_int_def)

lemma digit_lower: "48 \<le> char_code c \<and> char_code c < 58 \<Longrightarrow> js_lower c = c"
  by (simp add: js_lower_def)

lemma memory_chars:
  "c \<in> set (memoryFromBytes m) \<Longrightarrow>
     c = CHR ''-'' \<or> (48 \<le> char_code c \<and> char_code c < 58) \<or> c = CHR ''g'' \<or> c = CHR ''m''"
  by (cases m) (auto simp: memoryFromBytes_def split: if_splits dest: show_int_chars)

lemma memory_lower: "map js_lower (memoryFromBytes m) = memoryFromBytes m"
proof (rule map_idI)
  fix c assume "c \<in> set (memoryFromBytes m)"
  from memory_chars [OF this] digit_lower [of c] show "js_lower c = c"
    by (elim disjE) (simp_all add: js_lower_def char_code_def)
qed

lemma trunc_of_int [simp]: "trunc_rat (of_int n) = n"
proof (cases "n < 0")
  case True
  have "\<lfloor>- (of_int n :: rat)\<rfloor> = - n" using floor_of_int [of "- n", where 'a = rat] by simp
  with True show ?thesis by (simp add: trunc_rat_def)
qed (simp add: trunc_rat_def)

lemma trunc_scaled: "q * k = n \<Longrightarrow> trunc_rat (of_int q * of_int k) = n"
  by (metis of_int_mult trunc_of_int)

lemma show_int_last: "0 < n \<Longrightarrow> last (show_int n) \<notin> {CHR ''g'', CHR ''m'', CHR ''k'', CHR ''b''}"
  using show_int_chars [of "last (show_int n)" n] show_int_pos [of n] last_in_set [of "show_int n"]
  by (auto simp: char_code_def)

lemma memory_text:
  assumes "0 < n"
  obtains (unit) u where "memoryFromBytes (Some n) = show_int (mem_number n) @ [u]"
      "(u, n) \<in> {(CHR ''g'', mem_number n * 1073741824), (CHR ''m'', mem_number n * 1048576)}"
    | (bytes) "memoryFromBytes (Some n) = show_int n" "mem_number n = n"
proof -
  have "n mod 1073741824 = 0 \<Longrightarrow> n = n div 1073741824 * 1073741824"
    "n mod 1048576 = 0 \<Longrightarrow> n = n div 1048576 * 1048576"
    using div_mult_mod_eq [of n 1073741824] div_mult_mod_eq [of n 1048576] by linarith+
  note div = this
  have num: "1024 * 1024 * 1024 = (1073741824 :: int)" "1024 * 1024 = (1048576 :: int)" by simp_all
  note defs = memoryFromBytes_def mem_number_def num
  consider (g) "n mod 1073741824 = 0" | (m) "n mod 1073741824 \<noteq> 0" "n mod 1048576 = 0"
    | (b) "n mod 1073741824 \<noteq> 0" "n mod 1048576 \<noteq> 0" by blast
  then show ?thesis
  proof cases
    case g
    then show ?thesis using assms div(1) by (intro unit [of "CHR ''g''"]) (simp_all only: defs, simp_all)
  next
    case m
    then show ?thesis using assms div(2) by (intro unit [of "CHR ''m''"]) (simp_all only: defs, simp_all)
  next
    case b
    then show ?thesis using assms by (intro bytes) (simp_all only: defs, simp_all)
  qed
qed

lemma memory_trim: "trim (map js_lower (memoryFromBytes m)) = memoryFromBytes m"
  using memory_tight by (simp only: memory_lower trim_id)

lemma parse_unit:
  assumes "trim (map js_lower text) = s @ [u]" "parseFloat s = Some (of_int q)" "s \<noteq> []"
  shows "u = CHR ''g'' \<Longrightarrow> parseMemory parseFloat text = Inr (q * 1073741824)"
    "u = CHR ''m'' \<Longrightarrow> parseMemory parseFloat text = Inr (q * 1048576)"
  using trunc_scaled [of q 1073741824] trunc_scaled [of q 1048576] assms(2,3)
  unfolding parseMemory_def assms(1) by (simp_all add: ends_with_char Let_def)

lemma memory_parsed:
  assumes "0 < n" "parseFloat (show_int (mem_number n)) = Some (of_int (mem_number n))"
  shows "parseMemory parseFloat (memoryFromBytes (Some n)) = Inr n"
  using assms(1)
proof (cases rule: memory_text)
  case (unit u)
  have "show_int (mem_number n) \<noteq> []" by (simp add: show_int_def)
  then show ?thesis
    using parse_unit [of "memoryFromBytes (Some n)" "show_int (mem_number n)" u parseFloat "mem_number n"]
      memory_trim [of "Some n"] assms(2) unit by auto
next
  case bytes
  have t: "trim (map js_lower (memoryFromBytes (Some n))) = show_int n"
    using memory_trim [of "Some n"] bytes by simp
  show ?thesis
    using assms(2) show_int_pos [OF assms(1)] show_int_last [OF assms(1)] bytes(2)
    unfolding parseMemory_def t by (simp add: ends_with_char Let_def)
qed

definition device_ok :: "device_mapping \<Rightarrow> bool" where
  "device_ok d \<longleftrightarrow> list_all (\<lambda>x. case x of Some s \<Rightarrow> s \<noteq> [] \<and> CHR '':'' \<notin> set s | None \<Rightarrow> False)
     [dv_PathOnHost d, dv_PathInContainer d, dv_CgroupPermissions d] \<and> tight (deviceText d)"

definition device_triple :: "device_mapping \<Rightarrow> string \<times> string \<times> string" where
  "device_triple d = (or_nil (dv_PathOnHost d), or_nil (dv_PathInContainer d), or_nil (dv_CgroupPermissions d))"

lemma devices_parsed:
  "list_all device_ok ds \<Longrightarrow> parseDevices (map deviceText ds) = map device_triple ds"
proof (induction ds)
  case (Cons d ds)
  obtain a b c where d: "dv_PathOnHost d = Some a" "dv_PathInContainer d = Some b"
      "dv_CgroupPermissions d = Some c" "a \<noteq> []" "b \<noteq> []" "c \<noteq> []"
      "CHR '':'' \<notin> set a" "CHR '':'' \<notin> set b" "CHR '':'' \<notin> set c" "tight (deviceText d)"
    using Cons.prems by (auto simp: device_ok_def split: option.splits)
  have t: "deviceText d = a @ CHR '':'' # b @ CHR '':'' # c"
    using d by (simp add: deviceText_def or_nil_def)
  have "js_split '':'' (deviceText d) = [a, b, c]" unfolding t using d by (intro js_split_three)
  moreover have "trim (deviceText d) = deviceText d" using d by (simp add: trim_id)
  moreover have "deviceText d \<noteq> []" unfolding t by simp
  ultimately show ?case
    using Cons d by (simp add: parseDevices_def device_triple_def or_nil_def Let_def)
qed (simp add: parseDevices_def)

section \<open>An unchanged edit, end to end\<close>

text \<open>The configuration of the engine that says what was inspected.\<close>

definition inspected_config :: "container_detail \<Rightarrow> engine_config" where
  "inspected_config d = (let i = dt_inspect d in
     \<lparr>ec_Image = dt_image d, ec_Env = or_nil (in_Env i), ec_Cmd = in_Cmd i,
      ec_Entrypoint = in_Entrypoint i, ec_WorkingDir = or_nil (in_WorkingDir i),
      ec_User = or_nil (in_User i), ec_Hostname = or_nil (in_Hostname i),
      ec_Labels = or_nil (in_Labels i), ec_ExposedPorts = or_nil (in_ExposedPorts i),
      ec_Tty = is_true (in_Tty i), ec_OpenStdin = is_true (in_OpenStdin i),
      ec_Binds = or_nil (in_Binds i),
      ec_PortBindings = map (\<lambda>(k, bs). (k, map go_bind (or_nil bs))) (or_nil (in_PortBindings i)),
      ec_PublishAllPorts = is_true (in_PublishAllPorts i), ec_Privileged = is_true (in_Privileged i),
      ec_ReadonlyRootfs = is_true (in_ReadonlyRootfs i), ec_AutoRemove = is_true (in_AutoRemove i),
      ec_ExtraHosts = or_nil (in_ExtraHosts i), ec_CapAdd = or_nil (in_CapAdd i),
      ec_CapDrop = or_nil (in_CapDrop i), ec_DNS = or_nil (in_Dns i),
      ec_RestartName = (if or_nil (in_RestartName i) = [] then ''no'' else or_nil (in_RestartName i)),
      ec_RestartRetries = (case in_RestartRetries i of Some n \<Rightarrow> n | None \<Rightarrow> 0),
      ec_Devices = map device_triple (or_nil (in_Devices i)),
      ec_LogConfig = (if or_nil (in_LogType i) = [] then None
                      else Some (or_nil (in_LogType i), or_nil (in_LogConfig i))),
      ec_Memory = (case in_Memory i of Some n \<Rightarrow> n | None \<Rightarrow> 0),
      ec_NanoCPUs = (case in_NanoCpus i of Some n \<Rightarrow> n | None \<Rightarrow> 0),
      ec_NetworkMode = (if or_nil (in_NetworkMode i) = [] then None else in_NetworkMode i),
      ec_Networks = or_nil (in_Networks i)\<rparr>)"

text \<open>
  What the server asks of an inspected container to read its body back: well-formed ports, numbers
  and devices, exactly the published ports exposed, and the first network as its mode.
\<close>

definition server_ok ::
  "(string \<Rightarrow> string \<Rightarrow> string + string) \<Rightarrow> (string \<Rightarrow> rat option) \<Rightarrow> docker_inspect \<Rightarrow> bool" where
  "server_ok newPort parseFloat i \<longleftrightarrow>
     list_all (port_ok newPort) (or_nil (in_PortBindings i)) \<and>
     distinct (map fst (or_nil (in_PortBindings i))) \<and>
     or_nil (in_ExposedPorts i) = map fst (or_nil (in_PortBindings i)) \<and>
     or_nil (in_NetworkMode i) = (case or_nil (in_Networks i) of n # _ \<Rightarrow> n | [] \<Rightarrow> []) \<and>
     go_int (case in_RestartRetries i of Some n \<Rightarrow> n | None \<Rightarrow> 0) \<and>
     (case in_Memory i of Some n \<Rightarrow> n = 0 \<or> 0 < n \<and>
        parseFloat (show_int (mem_number n)) = Some (of_int (mem_number n)) | None \<Rightarrow> True) \<and>
     (case in_NanoCpus i of Some n \<Rightarrow> 0 \<le> n | None \<Rightarrow> True) \<and>
     list_all device_ok (or_nil (in_Devices i)) \<and> list_all kept (or_nil (in_Networks i)) \<and>
     tight (or_nil (in_RestartName i)) \<and> tight (or_nil (in_LogType i))"

lemma or_nil_some [simp]: "or_nil (some_nonempty xs) = xs" "or_nil (Some xs) = xs" "or_nil None = []"
  by (simp_all add: or_nil_def some_nonempty_def)

lemma memory_sent:
  assumes "server_ok newPort parseFloat i"
  shows "parseMemory parseFloat (memoryFromBytes (in_Memory i)) =
    Inr (case in_Memory i of Some n \<Rightarrow> n | None \<Rightarrow> 0)"
proof (cases "in_Memory i")
  case (Some n)
  show ?thesis
  proof (cases "n = 0")
    case False
    then show ?thesis using assms Some memory_parsed [of n parseFloat] by (simp add: server_ok_def)
  qed (simp add: Some memoryFromBytes_def parseMemory_def)
qed (simp add: memoryFromBytes_def parseMemory_def)

text \<open>The decoded body of a container that was inspected.\<close>

definition body_of :: "container_detail \<Rightarrow> create_body" where
  "body_of d = create_input.extend (config_of d)
     (create_body.fields False (case in_RestartRetries (dt_inspect d) of Some n \<Rightarrow> n | None \<Rightarrow> 0))"

lemma decode_config:
  "server_ok newPort parseFloat (dt_inspect d) \<Longrightarrow> decode_body (config_of d) = Some (body_of d)"
  by (simp add: decode_body_def body_of_def server_ok_def config_of_def Let_def)

lemma body_of_sel:
  "cb_pull_if_missing (body_of d) = False"
  "ci_image (body_of d) = ci_image (config_of d)" "ci_name (body_of d) = ci_name (config_of d)"
  "ci_ports (body_of d) = ci_ports (config_of d)" "ci_memory (body_of d) = ci_memory (config_of d)"
  "ci_always_pull (body_of d) = ci_always_pull (config_of d)" "ci_start (body_of d) = ci_start (config_of d)"
  by (simp_all add: body_of_def create_input.defs create_body.defs)

lemma config_recreated:
  assumes "plain_detail d" "server_ok newPort parseFloat (dt_inspect d)"
  shows "engine_config_of (map fst (or_nil (in_PortBindings (dt_inspect d))))
      (map (\<lambda>(k, bs). (k, map go_bind (or_nil bs))) (or_nil (in_PortBindings (dt_inspect d))))
      (case in_Memory (dt_inspect d) of Some n \<Rightarrow> n | None \<Rightarrow> 0) (body_of d) =
    inspected_config d"
proof -
  let ?i = "dt_inspect d"
  have nets: "map trim (or_nil (in_Networks ?i)) = or_nil (in_Networks ?i)"
      "filter (\<lambda>n. n \<noteq> []) (or_nil (in_Networks ?i)) = or_nil (in_Networks ?i)"
      "or_nil (in_Networks ?i) \<noteq> [] \<Longrightarrow> kept (hd (or_nil (in_Networks ?i)))"
    using assms(2) by (auto simp: server_ok_def list_all_iff kept_nonempty intro!: map_idI filter_True)
  have tr: "trim (or_nil (in_RestartName ?i)) = or_nil (in_RestartName ?i)"
      "trim (or_nil (in_LogType ?i)) = or_nil (in_LogType ?i)" "trim ''no'' = ''no''"
    using assms(2) by (simp_all add: server_ok_def trim_id) (simp add: trim_id tight_def js_ws_def)
  have own: "or_nil (in_ExposedPorts ?i) = map fst (or_nil (in_PortBindings ?i))"
      "(if or_nil (in_NetworkMode ?i) = [] then None else in_NetworkMode ?i) =
         (if or_nil (in_Networks ?i) = [] then None else Some (hd (or_nil (in_Networks ?i))))"
    using assms(2) nets(3)
    by (simp_all add: server_ok_def) (cases "in_NetworkMode ?i"; auto split: list.splits simp: kept_def)
  have dev: "parseDevices (map deviceText (or_nil (in_Devices ?i))) = map device_triple (or_nil (in_Devices ?i))"
    using assms(2) by (simp add: server_ok_def devices_parsed)
  have mem: "(if 0 < (case in_Memory ?i of Some n \<Rightarrow> n | None \<Rightarrow> 0) then (case in_Memory ?i of Some n \<Rightarrow> n | None \<Rightarrow> 0) else 0) =
      (case in_Memory ?i of Some n \<Rightarrow> n | None \<Rightarrow> 0)"
    using assms(2) by (auto simp: server_ok_def split: option.splits)
  have cpu: "(let c = (case ci_cpus (config_of d) of Some (Some r) \<Rightarrow> r | _ \<Rightarrow> 0)
      in if 0 < c then trunc_rat (c * 1000000000) else 0) = (case in_NanoCpus ?i of Some n \<Rightarrow> n | None \<Rightarrow> 0)"
    using assms(2) by (auto simp: server_ok_def config_of_def Let_def split: option.splits)
  show ?thesis
    using nets tr dev mem cpu own
    by (simp add: engine_config_of_def inspected_config_def body_of_def create_input.defs
        create_body.defs Let_def) (simp add: config_of_def Let_def some_nonempty_def kept_nonempty)
qed

lemma create_reply:
  assumes "ci_image b \<noteq> []" "trim (ci_image b) = ci_image b" "\<not> ci_always_pull b"
    "\<not> cb_pull_if_missing b" "ea_image ans"
    and "parsePortBindings newPort (ci_ports b) = Inr (ex, bs)"
    and "parseMemory parseFloat (or_nil (ci_memory b)) = Inr mem" "ea_create ans = Some new"
  shows "createFromBody newPort parseFloat ans b =
    ([EImageInspect (ci_image b), ECreate (trim (or_nil (ci_name b))) (engine_config_of ex bs mem b)] @
       (if ci_start b then [EStart new] else []),
     if ci_start b \<and> \<not> ea_start ans then EngineFailed else Done)"
  using assms by (simp add: createFromBody_def Let_def)

section \<open>Properties\<close>

text \<open>C1: Saving an unchanged edit of a container whose values the form, the numbers' texts and the
  server can carry (\<open>plain_detail\<close>, \<open>numbers_ok\<close>, \<open>server_ok\<close>: so no bind options but ro, no white space
  in a word of the command, no exposed port that is not published, the network mode that of the
  first network), by an engine that answers every call, recreates the container as it was: the
  engine is asked to stop and remove it and then to create, under the same name, a container of
  exactly the inspected configuration, and to start it if it was running.\<close>

theorem update_recreates_container:
  assumes "plain_detail d" "numbers_ok numStr numOf (dt_inspect d)"
    and "server_ok newPort parseFloat (dt_inspect d)"
    and "ea_client ans" "ea_inspect ans = Some old" "ea_remove ans" "ea_image ans" "ea_create ans = Some new" "ea_start ans"
    and "fst (buildBody numOf (load_detail numStr d f)) = Some b"
  shows "UpdateAPI newPort parseFloat ans i (decode_body b) =
    ([EInspect i, EStop i, ERemove i, EImageInspect (dt_image d),
      ECreate (dt_name d) (inspected_config d)] @ (if dt_state d = ''running'' then [EStart new] else []),
     Done)"
proof -
  have b: "b = config_of d" using loaded_body [OF assms(1,2), of f] assms(10) by simp
  have k: "kept (dt_image d)" "kept (dt_name d)" using assms(1) by (simp_all add: plain_detail_def Let_def)
  let ?i = "dt_inspect d"
  have ports: "parsePortBindings newPort (ci_ports (config_of d)) =
      Inr (map fst (or_nil (in_PortBindings ?i)),
        map (\<lambda>(k, bs). (k, map go_bind (or_nil bs))) (or_nil (in_PortBindings ?i)))"
    using inspected_ports [of newPort ?i] assms(3) by (simp add: server_ok_def config_of_def Let_def)
  have mem: "parseMemory parseFloat (or_nil (ci_memory (config_of d))) =
      Inr (case in_Memory ?i of Some n \<Rightarrow> n | None \<Rightarrow> 0)"
    using memory_sent [OF assms(3)] by (simp add: config_of_def Let_def)
  have sel: "ci_image (config_of d) = dt_image d" "ci_name (config_of d) = Some (dt_name d)"
      "\<not> ci_always_pull (config_of d)" "ci_start (config_of d) = (dt_state d = ''running'')"
    by (simp_all add: config_of_def Let_def)
  have "createFromBody newPort parseFloat ans (body_of d) =
      ([EImageInspect (dt_image d), ECreate (dt_name d) (inspected_config d)] @
         (if dt_state d = ''running'' then [EStart new] else []), Done)"
    using create_reply [of "body_of d" ans newPort, OF _ _ _ _ assms(7), of _ _ parseFloat _ new]
      ports mem assms(8,9) k config_recreated [OF assms(1,3)]
    by (simp add: body_of_sel sel kept_nonempty)
  then show ?thesis
    using assms(4-6) k
    by (simp add: b UpdateAPI_def decode_config [OF assms(3)] body_of_sel sel kept_nonempty)
qed

definition creates :: "engine_call \<Rightarrow> bool" where
  "creates c = (case c of ECreate _ _ \<Rightarrow> True | _ \<Rightarrow> False)"

lemma created_calls:
  assumes "createFromBody newPort parseFloat ans b = (calls, reply)"
  shows "reply = Done \<Longrightarrow> list_ex creates calls" "reply = Invalid e \<Longrightarrow> \<not> list_ex creates calls"
    "reply \<noteq> InvalidBody"
  using assms unfolding createFromBody_def Let_def
  by (auto simp: creates_def split: if_splits sum.splits option.splits)

text \<open>C2: An edit that is rejected for its values loses the container: whenever the server answers
  that the new settings are invalid, it has already removed the old container, and it has created
  none in its place. Only a body it cannot even decode, as one with a fraction as the number of
  retries, is rejected before the engine is asked for anything; an accepted edit has removed the
  old container and created the new one.\<close>

theorem rejected_update_loses_container:
  assumes "UpdateAPI newPort parseFloat ans i sent = (calls, reply)"
  shows "case reply of
      Invalid e \<Rightarrow> sent \<noteq> None \<and> ERemove i \<in> set calls \<and> \<not> list_ex creates calls
    | InvalidBody \<Rightarrow> sent = None \<and> calls = []
    | Done \<Rightarrow> ERemove i \<in> set calls \<and> list_ex creates calls
    | EngineFailed \<Rightarrow> \<not> ea_client ans \<or> sent \<noteq> None"
proof (cases "ea_client ans \<and> sent \<noteq> None \<and> ea_inspect ans \<noteq> None \<and> ea_remove ans")
  case True
  then obtain b cs where c: "createFromBody newPort parseFloat ans b = (cs, reply)"
      "calls = [EInspect i, EStop i, ERemove i] @ cs" "sent \<noteq> None"
    using assms by (auto simp: UpdateAPI_def Let_def split: prod.splits if_splits)
  show ?thesis
    using created_calls [OF c(1)] c(2,3) by (cases reply) (auto simp: creates_def)
next
  case False
  then show ?thesis
    using assms by (auto simp: UpdateAPI_def Let_def split: option.splits if_splits)
qed

section \<open>Instances\<close>

definition demo_port :: "string \<Rightarrow> string \<Rightarrow> string + string" where
  "demo_port proto port = Inr (port @ ''/'' @ proto)"

definition demo_float :: "string \<Rightarrow> rat option" where
  "demo_float s = (if s = ''512'' then Some 512 else None)"

definition demo_answers :: engine_answers where
  "demo_answers = \<lparr>ea_client = True, ea_inspect = Some ''/web'', ea_remove = True, ea_image = True, ea_pull = True,
     ea_create = Some ''c2'', ea_start = True\<rparr>"

lemma demo_server: "server_ok demo_port demo_float (dt_inspect demo_detail)" by code_simp

lemma update_recreates_container_witness:
  "\<exists>b. fst (buildBody demo_num_of (load_detail demo_num demo_detail initial_form)) = Some b \<and>
     snd (UpdateAPI demo_port demo_float demo_answers ''c1'' (decode_body b)) = Done"
proof -
  have n: "numbers_ok demo_num demo_num_of (dt_inspect demo_detail)"
    using demo_numbers by (simp add: demo_detail_def)
  have b: "fst (buildBody demo_num_of (load_detail demo_num demo_detail initial_form)) = Some (config_of demo_detail)"
    by (rule loaded_body [OF demo_plain n])
  show ?thesis
    using update_recreates_container [OF demo_plain n demo_server _ _ _ _ _ _ b, of demo_answers] b
    by (simp add: demo_answers_def)
qed

text \<open>The container that listens on an IPv6 address of the host.\<close>

definition ipv6_detail :: container_detail where
  "ipv6_detail = demo_detail\<lparr>dt_inspect := demo_inspect\<lparr>in_PortBindings :=
     Some [(''80/tcp'', Some [\<lparr>pb_HostIp = Some ''::1'', pb_HostPort = Some ''8080''\<rparr>])]\<rparr>\<rparr>"

lemma rejected_update_loses_container_witness:
  "\<exists>b. fst (buildBody demo_num_of (load_detail demo_num ipv6_detail initial_form)) = Some b \<and>
     snd (UpdateAPI demo_port demo_float demo_answers ''c1'' (decode_body b)) =
       Invalid ''invalid port mapping: ::1:8080:80'' \<and>
     ERemove ''c1'' \<in> set (fst (UpdateAPI demo_port demo_float demo_answers ''c1'' (decode_body b))) \<and>
     \<not> list_ex creates (fst (UpdateAPI demo_port demo_float demo_answers ''c1'' (decode_body b))) \<and>
     snd (UpdateAPI demo_port demo_float demo_answers ''c1'' (decode_body (b\<lparr>ci_restart_retries := 3 / 2\<rparr>))) =
       InvalidBody \<and>
     fst (UpdateAPI demo_port demo_float demo_answers ''c1'' (decode_body (b\<lparr>ci_restart_retries := 3 / 2\<rparr>))) = []"
proof -
  let ?update = "\<lambda>b. UpdateAPI demo_port demo_float demo_answers ''c1'' (decode_body b)"
  let ?half = "(config_of ipv6_detail)\<lparr>ci_restart_retries := 3 / 2\<rparr>"
  have "plain_detail ipv6_detail" "numbers_ok demo_num demo_num_of (dt_inspect ipv6_detail)"
    by code_simp+
  then have b: "fst (buildBody demo_num_of (load_detail demo_num ipv6_detail initial_form)) = Some (config_of ipv6_detail)"
    by (rule loaded_body)
  have r: "snd (?update (config_of ipv6_detail)) = Invalid ''invalid port mapping: ::1:8080:80''"
    by code_simp
  have "decode_body ?half = None" by code_simp
  then have "snd (?update ?half) = InvalidBody" by (simp add: UpdateAPI_def demo_answers_def)
  note h = this
  have "case snd (?update ?half) of
      Invalid e \<Rightarrow> decode_body ?half \<noteq> None \<and> ERemove ''c1'' \<in> set (fst (?update ?half)) \<and>
        \<not> list_ex creates (fst (?update ?half))
    | InvalidBody \<Rightarrow> decode_body ?half = None \<and> fst (?update ?half) = []
    | Done \<Rightarrow> ERemove ''c1'' \<in> set (fst (?update ?half)) \<and> list_ex creates (fst (?update ?half))
    | EngineFailed \<Rightarrow> \<not> ea_client demo_answers \<or> decode_body ?half \<noteq> None"
    by (rule rejected_update_loses_container) (rule prod.collapse [symmetric])
  then have "fst (?update ?half) = []" unfolding h api_reply.case by (rule conjunct2)
  moreover have "ERemove ''c1'' \<in> set (fst (?update (config_of ipv6_detail))) \<and>
      \<not> list_ex creates (fst (?update (config_of ipv6_detail)))"
    using rejected_update_loses_container [of demo_port demo_float demo_answers "''c1''"
      "decode_body (config_of ipv6_detail)" "fst (?update (config_of ipv6_detail))"
      "snd (?update (config_of ipv6_detail))", OF prod.collapse [symmetric]] r by simp
  ultimately show ?thesis using b r h by blast
qed

end
