(* ===== verification/Exec_Console.thy ===== *)
theory Exec_Console
  imports Live_Terminal Docker_Api K8s_Api
begin

text \<open>
  The consoles of containers and pods, from the page to the process. The pages
  \<open>modules/docker/pages/containers/single/console.tsx\<close> and
  \<open>modules/kubernetes/pages/pods/detail/exec.tsx\<close> choose a command; \<open>exec-terminal.tsx\<close>, the same
  component twice but for its URL, keeps one socket for as long as it is mounted; and
  \<open>src/modules/docker/containers/exec_ws.go\<close> reads the query of that URL and the frames of that
  socket. Both ends are modelled, so that what is typed can be followed to the process.
\<close>

section \<open>Choosing a command\<close>

text \<open>\<open>s.split(/\s+/)[0]\<close> of a trimmed text.\<close>

definition first_word :: "string \<Rightarrow> string" where
  "first_word s = takeWhile (\<lambda>c. \<not> js_ws c) s"

definition after_last :: "char \<Rightarrow> string \<Rightarrow> string" where
  "after_last c s = rev (takeWhile (\<lambda>x. x \<noteq> c) (rev s))"

definition commandDisplayName :: "string \<Rightarrow> string" where
  "commandDisplayName command =
     (let trimmed = trim command; base = or_str (first_word trimmed) trimmed in
      after_last (CHR ''/'') base)"

record console_session =
  cs_command :: string
  cs_user :: string

record console_page =
  cp_preset :: string
  cp_customEnabled :: bool
  cp_customCommand :: string
  cp_user :: string
  cp_session :: "console_session option"

definition initial_console :: "string \<Rightarrow> console_page" where
  "initial_console user =
     \<lparr>cp_preset = ''/bin/bash'', cp_customEnabled = False, cp_customCommand = [], cp_user = user,
      cp_session = None\<rparr>"

definition useCustomCommand :: "bool \<Rightarrow> console_page \<Rightarrow> console_page" where
  "useCustomCommand checked c =
     (let c1 = c\<lparr>cp_customEnabled := checked\<rparr> in
      if checked \<and> cp_customCommand c = []
      then c1\<lparr>cp_customCommand := commandDisplayName (cp_preset c)\<rparr> else c1)"

definition console_connect :: "console_page \<Rightarrow> console_page" where
  "console_connect c =
     (let command = (if cp_customEnabled c then trim (cp_customCommand c) else trim (cp_preset c)) in
      if command = [] then c
      else c\<lparr>cp_session := Some \<lparr>cs_command = command, cs_user = trim (cp_user c)\<rparr>\<rparr>)"

definition console_disconnect :: "console_page \<Rightarrow> console_page" where
  "console_disconnect c = c\<lparr>cp_session := None\<rparr>"

text \<open>The page of a pod, with the names of its containers; a command and a container are needed.\<close>

record pod_session =
  ps_container :: string
  ps_command :: string

record pod_page =
  pp_container :: string
  pp_preset :: string
  pp_customEnabled :: bool
  pp_customCommand :: string
  pp_session :: "pod_session option"

definition default_container :: "string list \<Rightarrow> string" where
  "default_container containers = (case containers of [] \<Rightarrow> [] | c # _ \<Rightarrow> c)"

definition initial_pod_page :: "string list \<Rightarrow> pod_page" where
  "initial_pod_page containers =
     \<lparr>pp_container = default_container containers, pp_preset = ''/bin/sh'', pp_customEnabled = False,
      pp_customCommand = [], pp_session = None\<rparr>"

definition pod_connect :: "string list \<Rightarrow> pod_page \<Rightarrow> pod_page" where
  "pod_connect containers p =
     (let command = (if pp_customEnabled p then trim (pp_customCommand p) else trim (pp_preset p));
          ctr = or_str (trim (pp_container p)) (default_container containers)
      in if command = [] \<or> ctr = [] then p
         else p\<lparr>pp_session := Some \<lparr>ps_container = ctr, ps_command = command\<rparr>\<rparr>)"

section \<open>The URL of the socket\<close>

definition token_param :: "auth_state \<Rightarrow> (string \<times> string) list" where
  "token_param auth = set_param ''access_token'' (map_option access_token (getCurrentTokens auth)) []"

definition buildContainerExecWebSocketURL ::
  "location \<Rightarrow> auth_state \<Rightarrow> string option \<Rightarrow> string \<Rightarrow> string \<Rightarrow> string option \<Rightarrow> ws_url" where
  "buildContainerExecWebSocketURL loc auth stored i command user =
     \<lparr>wu_base = ws_base (baseApiURL loc) @ DOCKER_CONTAINERS_SINGLE @ ''/'' @ encodeURIComponent i @ ''/exec'',
      wu_params =
        set_param ''environment_id''
          (case envQueryParams stored None of Some ps \<Rightarrow> get_str ps ''environment_id'' | None \<Rightarrow> None)
          (set_param ''user'' (map_option trim user)
            (AList.update ''command'' command (token_param auth)))\<rparr>"

definition buildPodExecWebSocketURL ::
  "location \<Rightarrow> auth_state \<Rightarrow> string \<Rightarrow> string \<Rightarrow> string \<Rightarrow> string option \<Rightarrow> ws_url" where
  "buildPodExecWebSocketURL loc auth namespace name command ctr =
     \<lparr>wu_base = ws_base (baseApiURL loc) @ K8S_WORKLOADS_BASE @ ''/pods/'' @
        encodeURIComponent namespace @ ''/'' @ encodeURIComponent name @ ''/exec'',
      wu_params =
        set_param ''container'' (map_option trim ctr)
          (AList.update ''command'' command (token_param auth))\<rparr>"

section \<open>The terminal component\<close>

text \<open>A frame is the text of a control object, or bytes.\<close>

datatype exec_frame = ControlFrame jv | BinaryFrame "nat list"

record exec_state =
  ex_socket :: "ws_state option"
  ex_status :: term_status
  ex_ping :: bool
  ex_fit :: bool
  ex_disposed :: bool
  ex_exited :: bool
  ex_sent :: "exec_frame list"
  ex_screen :: "string list"
  ex_exits :: nat

text \<open>\<open>new TextEncoder().encode(data)\<close>\<close>

definition utf8_text :: "string \<Rightarrow> nat list" where
  "utf8_text s = concat (map (\<lambda>c. utf8 (code_point c)) s)"

definition resize_message :: "nat \<Rightarrow> nat \<Rightarrow> jv" where
  "resize_message cols rows =
     JObj [(''type'', JStr ''resize''), (''cols'', JNum (of_nat cols)), (''rows'', JNum (of_nat rows))]"

definition plain_message :: "string \<Rightarrow> jv" where
  "plain_message t = JObj [(''type'', JStr t)]"

definition ex_send :: "exec_frame \<Rightarrow> exec_state \<Rightarrow> exec_state" where
  "ex_send f s = (if ex_socket s = Some WsOpen then s\<lparr>ex_sent := ex_sent s @ [f]\<rparr> else s)"

definition ex_write :: "string \<Rightarrow> exec_state \<Rightarrow> exec_state" where
  "ex_write x s = s\<lparr>ex_screen := ex_screen s @ [x]\<rparr>"

definition ex_report :: "exec_state \<Rightarrow> exec_state" where
  "ex_report s = s\<lparr>ex_status := StDisconnected, ex_exits := ex_exits s + 1\<rparr>"

definition exec_mount :: exec_state where
  "exec_mount =
     \<lparr>ex_socket = Some WsConnecting, ex_status = StConnecting, ex_ping = False, ex_fit = False,
      ex_disposed = False, ex_exited = False, ex_sent = [], ex_screen = [], ex_exits = 0\<rparr>"

definition ex_onopen :: "nat \<Rightarrow> nat \<Rightarrow> exec_state \<Rightarrow> exec_state" where
  "ex_onopen cols rows s =
     (let s = s\<lparr>ex_socket := Some WsOpen\<rparr> in
      if ex_disposed s then s
      else (ex_send (ControlFrame (resize_message cols rows)) (s\<lparr>ex_status := StConnected\<rparr>))
             \<lparr>ex_ping := True\<rparr>)"

definition ex_onmessage :: "incoming \<Rightarrow> exec_state \<Rightarrow> exec_state" where
  "ex_onmessage m s =
     (case m of
        BytesMessage bytes \<Rightarrow> ex_write bytes s
      | TextMessage data BadText \<Rightarrow> ex_write data s
      | TextMessage data (JText v) \<Rightarrow>
          if v = JNull then ex_write data s
          else (let msg = (case as_object v of Some b \<Rightarrow> b | None \<Rightarrow> []);
                    type = get_str msg ''type'';
                    message = (\<lambda>dflt. case non_empty (get_str msg ''message'') of
                                 Some x \<Rightarrow> x | None \<Rightarrow> dflt)
                in if type = Some ''ready'' then s\<lparr>ex_screen := [], ex_fit := True\<rparr>
                   else if type = Some ''error''
                   then (ex_write (ansi ''31'' (message ''Console error'')) s)\<lparr>ex_status := StError\<rparr>
                   else if type = Some ''exit''
                   then ex_report (ex_write (ansi ''90'' (message ''Console closed'')) (s\<lparr>ex_exited := True\<rparr>))
                   else s))"

definition ex_onclose :: "exec_state \<Rightarrow> exec_state" where
  "ex_onclose s =
     (let s = s\<lparr>ex_socket := Some WsClosed, ex_ping := False\<rparr> in
      if ex_disposed s then s
      else if \<not> ex_exited s then ex_report s else s)"

definition ex_onData :: "string \<Rightarrow> exec_state \<Rightarrow> exec_state" where
  "ex_onData data s = ex_send (BinaryFrame (utf8_text data)) s"

definition ex_pingTick :: "exec_state \<Rightarrow> exec_state" where
  "ex_pingTick s = ex_send (ControlFrame (plain_message ''ping'')) s"

definition ex_scheduleFit :: "exec_state \<Rightarrow> exec_state" where
  "ex_scheduleFit s = s\<lparr>ex_fit := True\<rparr>"

definition ex_fitFrame :: "nat \<Rightarrow> nat \<Rightarrow> exec_state \<Rightarrow> exec_state" where
  "ex_fitFrame cols rows s =
     (let s = s\<lparr>ex_fit := False\<rparr> in
      if ex_disposed s then s else ex_send (ControlFrame (resize_message cols rows)) s)"

definition ex_unmount :: "exec_state \<Rightarrow> exec_state" where
  "ex_unmount s =
     (ex_send (ControlFrame (plain_message ''kill'')) (s\<lparr>ex_disposed := True, ex_ping := False, ex_fit := False\<rparr>))
       \<lparr>ex_socket := None\<rparr>"

text \<open>
  What the browser delivers, and when: a socket opens once, only an open one receives, and after
  unmounting no handler is left. A screen has fewer than 65536 columns and rows.
\<close>

datatype exec_event = EOpened nat nat | EReceived incoming | EClosed | EPing | ETyped string
  | EResized | EFit nat nat | EUnmount

fun exec_apply :: "exec_event \<Rightarrow> exec_state \<Rightarrow> exec_state" where
  "exec_apply (EOpened cols rows) = ex_onopen cols rows"
| "exec_apply (EReceived m) = ex_onmessage m"
| "exec_apply EClosed = ex_onclose"
| "exec_apply EPing = ex_pingTick"
| "exec_apply (ETyped d) = ex_onData d"
| "exec_apply EResized = ex_scheduleFit"
| "exec_apply (EFit cols rows) = ex_fitFrame cols rows"
| "exec_apply EUnmount = ex_unmount"

fun exec_ok :: "exec_event \<Rightarrow> exec_state \<Rightarrow> bool" where
  "exec_ok (EOpened cols rows) s \<longleftrightarrow> ex_socket s = Some WsConnecting \<and> cols < 65536 \<and> rows < 65536"
| "exec_ok (EReceived _) s \<longleftrightarrow> ex_socket s = Some WsOpen"
| "exec_ok EClosed s \<longleftrightarrow> ex_socket s \<in> {Some WsConnecting, Some WsOpen}"
| "exec_ok EPing s \<longleftrightarrow> ex_ping s"
| "exec_ok (EFit cols rows) s \<longleftrightarrow> ex_fit s \<and> cols < 65536 \<and> rows < 65536"
| "exec_ok _ s \<longleftrightarrow> \<not> ex_disposed s"

section \<open>The server\<close>

text \<open>
  How Go splits a command: white space separates, quotes and backslashes protect, and an empty
  word is dropped.
\<close>

definition flush :: "string \<Rightarrow> string list \<Rightarrow> string list" where
  "flush current parts = (if current = [] then parts else parts @ [current])"

primrec split_loop :: "string \<Rightarrow> char option \<Rightarrow> bool \<Rightarrow> string \<Rightarrow> string list \<Rightarrow> string list" where
  "split_loop [] quote escape current parts = flush current parts"
| "split_loop (r # s) quote escape current parts =
     (if escape then split_loop s quote False (current @ [r]) parts
      else if r = CHR 92 \<and> quote \<noteq> Some (CHR 39) then split_loop s quote True current parts
      else case quote of
        Some q \<Rightarrow> if r = q then split_loop s None False current parts
                  else split_loop s quote False (current @ [r]) parts
      | None \<Rightarrow>
          if r = CHR 39 \<or> r = CHR 34 then split_loop s (Some r) False current parts
          else if r = CHR '' '' \<or> r = CHR 9 \<or> r = CHR 10
          then split_loop s None False [] (flush current parts)
          else split_loop s None False (current @ [r]) parts)"

definition splitCommand :: "string \<Rightarrow> string list" where
  "splitCommand s = split_loop s None False [] []"

definition known_shells :: "string list" where
  "known_shells = [''/bin/bash'', ''/bin/sh'', ''/bin/ash'', ''/bin/zsh'', ''/bin/dash'',
     ''bash'', ''sh'', ''ash'', ''zsh'', ''dash'']"

definition parseExecCommand :: "string \<Rightarrow> string list" where
  "parseExecCommand command0 =
     (let command = trim command0 in
      if command = [] then []
      else if command \<in> set known_shells
      then (if \<not> starts_with command ''/'' then [''/bin/'' @ command] else [command])
      else splitCommand command)"

text \<open>
  What \<open>HandleExecWS\<close> takes from the connection: the container, and from the query the command, the
  user and the environment. \<open>Inl\<close> is the message of an error that closes the socket.
\<close>

record exec_request =
  er_container :: string
  er_environment :: string
  er_user :: string
  er_cmd :: "string list"

definition query :: "(string \<times> string) list \<Rightarrow> string \<Rightarrow> string" where
  "query ps k = (case map_of ps k of Some v \<Rightarrow> v | None \<Rightarrow> [])"

definition exec_request_of :: "string \<Rightarrow> (string \<times> string) list \<Rightarrow> string + exec_request" where
  "exec_request_of pathId ps =
     (let i = trim pathId; command = or_str (trim (query ps ''command'')) ''/bin/sh'';
          cmd = parseExecCommand command
      in if i = [] then Inl ''container id is required''
         else if cmd = [] then Inl ''command is required''
         else Inr \<lparr>er_container = i, er_environment = trim (query ps ''environment_id''),
                   er_user = trim (query ps ''user''), er_cmd = cmd\<rparr>)"

text \<open>
  A frame of the client. \<open>json.Unmarshal\<close> into the control record: names match in any case, a
  missing or null field keeps its zero value, and a value of another type or range is an error,
  upon which the text itself goes to the process.
\<close>

datatype client_message = TextFrame string jtext | BytesFrame "nat list"

record exec_control =
  ct_type :: string
  ct_cols :: nat
  ct_rows :: nat
  ct_data :: string

definition go_field :: "obj \<Rightarrow> string \<Rightarrow> jv option" where
  "go_field b k =
     (case filter (\<lambda>(x, v). map js_lower x = k \<and> v \<noteq> JNull) b of
        [] \<Rightarrow> None | xs \<Rightarrow> Some (snd (last xs)))"

definition go_string :: "jv option \<Rightarrow> string option" where
  "go_string v = (case v of None \<Rightarrow> Some [] | Some (JStr s) \<Rightarrow> Some s | Some _ \<Rightarrow> None)"

definition go_uint16 :: "jv option \<Rightarrow> nat option" where
  "go_uint16 v =
     (case v of
        None \<Rightarrow> Some 0
      | Some (JNum r) \<Rightarrow>
          if r = of_int \<lfloor>r\<rfloor> \<and> 0 \<le> r \<and> r \<le> 65535 then Some (nat \<lfloor>r\<rfloor>) else None
      | Some _ \<Rightarrow> None)"

definition unmarshal :: "jtext \<Rightarrow> exec_control option" where
  "unmarshal t =
     (case t of
        BadText \<Rightarrow> None
      | JText JNull \<Rightarrow> Some \<lparr>ct_type = [], ct_cols = 0, ct_rows = 0, ct_data = []\<rparr>
      | JText (JObj b) \<Rightarrow>
          (case (go_string (go_field b ''type''), go_uint16 (go_field b ''cols''),
                 go_uint16 (go_field b ''rows''), go_string (go_field b ''data'')) of
             (Some t, Some c, Some r, Some d) \<Rightarrow>
               Some \<lparr>ct_type = t, ct_cols = c, ct_rows = r, ct_data = d\<rparr>
           | _ \<Rightarrow> None)
      | JText _ \<Rightarrow> None)"

text \<open>
  The session on the server: what the process has been given, its size requests, what was sent
  back, and whether the session is over. \<open>takes\<close> says whether the process still takes input.
\<close>

record exec_session =
  es_stdin :: "nat list"
  es_sizes :: "(nat \<times> nat) list"
  es_replies :: "jv list"
  es_over :: bool

definition session_start :: exec_session where
  "session_start = \<lparr>es_stdin = [], es_sizes = [], es_replies = [], es_over = False\<rparr>"

definition to_process :: "bool \<Rightarrow> nat list \<Rightarrow> exec_session \<Rightarrow> exec_session" where
  "to_process takes bytes s =
     (if takes then s\<lparr>es_stdin := es_stdin s @ bytes\<rparr> else s\<lparr>es_over := True\<rparr>)"

definition serve :: "bool \<Rightarrow> client_message \<Rightarrow> exec_session \<Rightarrow> exec_session" where
  "serve takes m s =
     (if es_over s then s
      else case m of
        BytesFrame bytes \<Rightarrow> if bytes \<noteq> [] then to_process takes bytes s else s
      | TextFrame text json \<Rightarrow>
          (case unmarshal json of
             None \<Rightarrow> to_process takes (utf8_text text) s
           | Some c \<Rightarrow>
               if ct_type c = ''resize''
               then (if ct_cols c > 0 \<and> ct_rows c > 0
                     then s\<lparr>es_sizes := es_sizes s @ [(ct_cols c, ct_rows c)]\<rparr> else s)
               else if ct_type c = ''input''
               then (if ct_data c \<noteq> [] then to_process takes (utf8_text (ct_data c)) s else s)
               else if ct_type c = ''ping''
               then s\<lparr>es_replies := es_replies s @ [plain_message ''pong'']\<rparr>
               else if ct_type c = ''kill''
               then s\<lparr>es_replies := es_replies s @
                         [JObj [(''type'', JStr ''exit''), (''message'', JStr ''Disconnected'')]],
                      es_over := True\<rparr>
               else s))"

section \<open>The end of a session is reported\<close>

definition is_exit :: "exec_event \<Rightarrow> bool" where
  "is_exit e \<longleftrightarrow>
     (case e of
        EReceived (TextMessage data (JText v)) \<Rightarrow>
          (case as_object v of Some b \<Rightarrow> get_str b ''type'' = Some ''exit'' | None \<Rightarrow> False)
      | _ \<Rightarrow> False)"

definition ex_alive :: "exec_state \<Rightarrow> bool" where
  "ex_alive s \<longleftrightarrow> ex_socket s = Some WsConnecting \<or> ex_socket s = Some WsOpen"

text \<open>After \<open>k\<close> exit messages, and with \<open>c\<close> telling whether the socket has closed.\<close>

definition reported :: "nat \<Rightarrow> bool \<Rightarrow> exec_state \<Rightarrow> bool" where
  "reported k c s \<longleftrightarrow>
     (ex_exited s \<longleftrightarrow> 0 < k) \<and> ex_exits s = (if 0 < k then k else if c then 1 else 0) \<and>
     (ex_alive s \<longrightarrow> \<not> c) \<and> (ex_disposed s \<longleftrightarrow> ex_socket s = None) \<and>
     (ex_ping s \<longrightarrow> ex_socket s = Some WsOpen)"

lemma get_str_Nil [simp]: "get_str [] k = None"
  by (simp add: get_str_def oget_def)

lemma message_kinds:
  "ex_socket (ex_onmessage m s) = ex_socket s" "ex_disposed (ex_onmessage m s) = ex_disposed s"
  "ex_ping (ex_onmessage m s) = ex_ping s" "ex_sent (ex_onmessage m s) = ex_sent s"
  "ex_exited (ex_onmessage m s) \<longleftrightarrow> ex_exited s \<or> is_exit (EReceived m)"
  "ex_exits (ex_onmessage m s) = ex_exits s + (if is_exit (EReceived m) then 1 else 0)"
  by (auto simp: ex_onmessage_def is_exit_def ex_write_def ex_report_def Let_def
      split: incoming.split jtext.split option.split)

lemma reported_step:
  assumes "reported k c s" "exec_ok e s"
  shows "reported (k + (if is_exit e then 1 else 0)) (c \<or> e = EClosed) (exec_apply e s)"
proof (cases e)
  case (EReceived m)
  then have "\<not> c" using assms by (simp add: reported_def ex_alive_def)
  then show ?thesis using assms EReceived by (auto simp: reported_def message_kinds ex_alive_def)
qed (use assms in \<open>auto simp: reported_def is_exit_def ex_alive_def ex_onopen_def ex_onclose_def
    ex_pingTick_def ex_onData_def ex_scheduleFit_def ex_fitFrame_def ex_unmount_def ex_send_def
    ex_report_def Let_def\<close>)

lemma reported_run:
  "reported k c s \<Longrightarrow> admissible exec_ok exec_apply es s \<Longrightarrow>
   reported (k + length (filter is_exit es)) (c \<or> EClosed \<in> set es) (fold exec_apply es s)"
proof (induction es arbitrary: k c s)
  case (Cons e es)
  then have "reported (k + (if is_exit e then 1 else 0)) (c \<or> e = EClosed) (exec_apply e s)"
    using reported_step by simp
  from Cons.IH [OF this] Cons.prems(2) show ?case by (cases "e = EClosed") auto
qed simp

lemma reported_mount: "reported 0 False exec_mount"
  by (simp add: reported_def exec_mount_def ex_alive_def)

text \<open>The page hears of the end of a console exactly as often as it ends: once for each exit
message of the server, and if there is none once when the connection closes, whether it was ever
open or not. After an exit message the closing of the socket is not reported again, and nothing
is reported once the component is unmounted.\<close>

theorem console_end_reported:
  assumes "admissible exec_ok exec_apply es exec_mount"
  shows "ex_exits (fold exec_apply es exec_mount) =
    (if filter is_exit es \<noteq> [] then length (filter is_exit es)
     else if EClosed \<in> set es then 1 else 0)"
  using reported_run [OF reported_mount assms] by (simp add: reported_def)

definition exit_message :: incoming where
  "exit_message =
     TextMessage [] (JText (JObj [(''type'', JStr ''exit''), (''message'', JStr ''bye'')]))"

theorem console_end_reported_witness:
  "ex_exits (fold exec_apply [EOpened 80 24, EReceived exit_message, EClosed] exec_mount) = 1"
  by (subst console_end_reported)
    (simp_all add: exec_mount_def exit_message_def is_exit_def get_str_def oget_def ex_onopen_def
      ex_send_def message_kinds Let_def)

section \<open>From the keyboard to the process\<close>

text \<open>The frames of the component as the server reads them; \<open>render\<close> is the text of a JSON value.\<close>

definition wire :: "(jv \<Rightarrow> string) \<Rightarrow> exec_frame \<Rightarrow> client_message" where
  "wire render f =
     (case f of ControlFrame v \<Rightarrow> TextFrame (render v) (stringify v) | BinaryFrame b \<Rightarrow> BytesFrame b)"

definition session_of :: "(jv \<Rightarrow> string) \<Rightarrow> exec_state \<Rightarrow> exec_session" where
  "session_of render s = fold (serve True) (map (wire render) (ex_sent s)) session_start"

lemma session_send:
  "session_of render (ex_send f s) =
     (if ex_socket s = Some WsOpen then serve True (wire render f) (session_of render s)
      else session_of render s)"
  by (simp add: session_of_def ex_send_def)

lemma session_same: "ex_sent s' = ex_sent s \<Longrightarrow> session_of render s' = session_of render s"
  by (simp add: session_of_def)

lemma lower_letters:
  "js_lower CHR ''t'' = CHR ''t''"
  "js_lower CHR ''y'' = CHR ''y''"
  "js_lower CHR ''p'' = CHR ''p''"
  "js_lower CHR ''e'' = CHR ''e''"
  "js_lower CHR ''c'' = CHR ''c''"
  "js_lower CHR ''o'' = CHR ''o''"
  "js_lower CHR ''l'' = CHR ''l''"
  "js_lower CHR ''s'' = CHR ''s''"
  "js_lower CHR ''r'' = CHR ''r''"
  "js_lower CHR ''w'' = CHR ''w''"
  by (simp_all add: js_lower_def char_code_def)

lemma control_fields:
  "go_field [(''type'', v)] k = (if k = ''type'' \<and> v \<noteq> JNull then Some v else None)"
  "go_field [(''type'', JStr t), (''cols'', JNum c), (''rows'', JNum r)] k =
     (if k = ''type'' then Some (JStr t) else if k = ''cols'' then Some (JNum c)
      else if k = ''rows'' then Some (JNum r) else None)"
  by (auto simp: go_field_def lower_letters)

lemma unmarshal_resize:
  assumes "c < 65536" "r < 65536"
  shows "unmarshal (stringify (resize_message c r)) =
    Some \<lparr>ct_type = ''resize'', ct_cols = c, ct_rows = r, ct_data = []\<rparr>"
proof -
  have num: "go_uint16 (Some (JNum (of_nat n))) = Some n" if "n < 65536" for n
    using that by (simp add: go_uint16_def)
  show ?thesis
    by (simp add: stringify_def resize_message_def unmarshal_def control_fields num assms go_string_def)
qed

lemma unmarshal_plain:
  "unmarshal (stringify (plain_message t)) =
     Some \<lparr>ct_type = t, ct_cols = 0, ct_rows = 0, ct_data = []\<rparr>"
  by (simp add: stringify_def plain_message_def unmarshal_def control_fields go_string_def go_uint16_def)

lemma serve_frames:
  "es_stdin (serve True (wire render (BinaryFrame b)) S) = es_stdin S @ (if es_over S then [] else b)"
  "es_over (serve True (wire render (BinaryFrame b)) S) = es_over S"
  "c < 65536 \<Longrightarrow> r < 65536 \<Longrightarrow>
   es_stdin (serve True (wire render (ControlFrame (resize_message c r))) S) = es_stdin S"
  "c < 65536 \<Longrightarrow> r < 65536 \<Longrightarrow>
   es_over (serve True (wire render (ControlFrame (resize_message c r))) S) = es_over S"
  "es_stdin (serve True (wire render (ControlFrame (plain_message ''ping''))) S) = es_stdin S"
  "es_over (serve True (wire render (ControlFrame (plain_message ''ping''))) S) = es_over S"
  "es_stdin (serve True (wire render (ControlFrame (plain_message ''kill''))) S) = es_stdin S"
  "es_over (serve True (wire render (ControlFrame (plain_message ''kill''))) S)"
  by (simp_all add: serve_def wire_def to_process_def unmarshal_resize unmarshal_plain)

text \<open>What the user types while the socket is open.\<close>

fun typed :: "exec_event list \<Rightarrow> exec_state \<Rightarrow> nat list" where
  "typed [] s = []"
| "typed (e # es) s =
     (case e of ETyped d \<Rightarrow> if ex_socket s = Some WsOpen then utf8_text d else [] | _ \<Rightarrow> [])
     @ typed es (exec_apply e s)"

definition attached :: "(jv \<Rightarrow> string) \<Rightarrow> exec_state \<Rightarrow> bool" where
  "attached render s \<longleftrightarrow>
     (ex_disposed s \<longleftrightarrow> ex_socket s = None) \<and> (\<not> ex_disposed s \<longrightarrow> \<not> es_over (session_of render s))"

lemma attached_step:
  assumes "attached render s" "exec_ok e s"
  shows "attached render (exec_apply e s) \<and>
    es_stdin (session_of render (exec_apply e s)) = es_stdin (session_of render s) @ typed [e] s"
proof (cases e)
  case (EReceived m)
  then show ?thesis using assms session_same [of "ex_onmessage m s" s]
    by (simp add: attached_def message_kinds)
qed (use assms in \<open>auto simp: attached_def ex_onopen_def ex_onclose_def ex_pingTick_def ex_onData_def
    ex_scheduleFit_def ex_fitFrame_def ex_unmount_def ex_report_def Let_def session_send serve_frames
    session_of_def ex_send_def\<close>)

lemma typed_single: "typed (e # es) s = typed [e] s @ typed es (exec_apply e s)"
  by simp

lemma attached_run:
  "attached render s \<Longrightarrow> admissible exec_ok exec_apply es s \<Longrightarrow>
   es_stdin (session_of render (fold exec_apply es s)) = es_stdin (session_of render s) @ typed es s"
proof (induction es arbitrary: s)
  case (Cons e es)
  then have "attached render (exec_apply e s) \<and>
      es_stdin (session_of render (exec_apply e s)) = es_stdin (session_of render s) @ typed [e] s"
    using attached_step by simp
  then show ?case using Cons.IH [of "exec_apply e s"] Cons.prems(2) by (simp add: typed_single [of e es])
qed simp

lemma attached_mount: "attached render exec_mount"
  by (simp add: attached_def exec_mount_def session_of_def session_start_def)

text \<open>Leaving the page with an open socket kills the session; nothing of the component follows.\<close>

lemma unmount_ends_session:
  "ex_socket s = Some WsOpen \<Longrightarrow> es_over (session_of render (exec_apply EUnmount s))"
proof -
  assume "ex_socket s = Some WsOpen"
  then have "session_of render (exec_apply EUnmount s) =
      serve True (wire render (ControlFrame (plain_message ''kill''))) (session_of render s)"
    by (simp add: ex_unmount_def ex_send_def session_of_def)
  then show ?thesis by (simp add: serve_frames)
qed

text \<open>C22: The process of a console is given exactly what was typed while its socket was open, byte
for byte and in order: no size, ping or kill message of the component reaches its input, whatever
order the events come in, and whatever text JSON values are written as. Leaving the page while the
socket is open ends the session on the server.\<close>

theorem typing_reaches_process:
  assumes "admissible exec_ok exec_apply es exec_mount"
    and "s = fold exec_apply es exec_mount"
  shows "es_stdin (fold (serve True) (map (wire render) (ex_sent s)) session_start) =
           typed es exec_mount
         \<and> (ex_socket s = Some WsOpen \<longrightarrow>
            es_over (fold (serve True) (map (wire render) (ex_sent (exec_apply EUnmount s)))
              session_start))"
  using attached_run [OF attached_mount assms(1), of render] unmount_ends_session [of s render] assms(2)
  by (simp add: session_of_def exec_mount_def session_start_def)

theorem typing_reaches_process_witness:
  "(let es = [EOpened 80 24, ETyped ''ls'', EResized, EFit 90 30, EPing, ETyped [CHR 10]];
        s = fold exec_apply es exec_mount
    in es_stdin (fold (serve True) (map (wire (\<lambda>_. ''{}'')) (ex_sent s)) session_start) = [108, 115, 10])"
  unfolding Let_def
  by (subst conjunct1 [OF typing_reaches_process [OF _ refl]])
    (simp_all add: exec_mount_def ex_onopen_def ex_onData_def ex_send_def ex_scheduleFit_def
      ex_fitFrame_def ex_pingTick_def utf8_text_def utf8_def code_point_def Let_def)

section \<open>From the page to the argument vector\<close>

text \<open>How to write a word so that the server reads it back: in double quotes.\<close>

definition quoted_word :: "string \<Rightarrow> string" where
  "quoted_word w =
     CHR 34 # concat (map (\<lambda>c. if c = CHR 34 \<or> c = CHR 92 then [CHR 92, c] else [c]) w) @ [CHR 34]"

lemma split_inside:
  "split_loop (concat (map (\<lambda>c. if c = CHR 34 \<or> c = CHR 92 then [CHR 92, c] else [c]) w) @ CHR 34 # s)
     (Some (CHR 34)) False current parts = split_loop s None False (current @ w) parts"
  by (induction w arbitrary: current) auto

lemma split_quoted: "split_loop (quoted_word w @ s) None False [] parts = split_loop s None False w parts"
  by (simp add: quoted_word_def split_inside)

lemma flush_words: "flush w parts @ filter (\<lambda>w. w \<noteq> []) ws = parts @ filter (\<lambda>w. w \<noteq> []) (w # ws)"
  by (simp add: flush_def)

lemma split_words:
  "split_loop (js_join '' '' (map quoted_word ws)) None False [] parts =
     parts @ filter (\<lambda>w. w \<noteq> []) ws"
proof (induction ws arbitrary: parts)
  case (Cons w ws)
  show ?case
  proof (cases ws)
    case Nil
    then show ?thesis using split_quoted [of w "[]" parts] by (simp add: flush_def)
  next
    case (Cons v vs)
    then have "js_join '' '' (map quoted_word (w # ws)) =
        quoted_word w @ CHR '' '' # js_join '' '' (map quoted_word ws)"
      by simp
    then show ?thesis using Cons.IH [of "flush w parts"] by (simp add: split_quoted flush_words)
  qed
qed (simp add: flush_def)

text \<open>A command of quoted words is split into these words, except that empty words are lost:
quotes and backslashes protect blanks, quotes and backslashes, but no quoting keeps an empty
argument.\<close>

theorem command_words_survive:
  "splitCommand (js_join '' '' (map quoted_word ws)) = filter (\<lambda>w. w \<noteq> []) ws"
  using split_words [of ws "[]"] by (simp add: splitCommand_def)

lemma quoted_ends: "quoted_word w \<noteq> []" "hd (quoted_word w) = CHR 34" "last (quoted_word w) = CHR 34"
  by (simp_all add: quoted_word_def)

lemma quoted_join:
  assumes "ws \<noteq> []"
  shows "js_join '' '' (map quoted_word ws) \<noteq> []" "hd (js_join '' '' (map quoted_word ws)) = CHR 34"
    "last (js_join '' '' (map quoted_word ws)) = CHR 34"
proof -
  show ne: "js_join '' '' (map quoted_word ws) \<noteq> []"
    using assms by (cases ws; cases "tl ws") (auto simp: quoted_ends)
  show "hd (js_join '' '' (map quoted_word ws)) = CHR 34"
    using assms by (cases ws; cases "tl ws") (auto simp: quoted_ends)
  show "last (js_join '' '' (map quoted_word ws)) = CHR 34"
    using assms
  proof (induction ws)
    case (Cons w ws)
    have "js_join '' '' (map quoted_word ws) \<noteq> []" if "ws \<noteq> []"
      using that by (cases ws; cases "tl ws") (auto simp: quoted_ends)
    then show ?case using Cons by (cases ws) (auto simp: quoted_ends)
  qed simp
qed

lemma parse_quoted:
  assumes "ws \<noteq> []"
  shows "trim (js_join '' '' (map quoted_word ws)) = js_join '' '' (map quoted_word ws)"
    and "parseExecCommand (js_join '' '' (map quoted_word ws)) = filter (\<lambda>w. w \<noteq> []) ws"
proof -
  let ?c = "js_join '' '' (map quoted_word ws)"
  have "tight ?c" using quoted_join [OF assms] by (simp add: tight_def js_ws_def)
  then show t: "trim ?c = ?c" by (rule trim_id)
  have "?c \<notin> set known_shells"
  proof
    assume "?c \<in> set known_shells"
    then have "hd ?c \<in> hd ` set known_shells" by (rule imageI)
    then show False using quoted_join(2) [OF assms] by (simp add: known_shells_def)
  qed
  then show "parseExecCommand ?c = filter (\<lambda>w. w \<noteq> []) ws"
    using t quoted_join(1) [OF assms] by (simp add: parseExecCommand_def Let_def command_words_survive)
qed

lemma exec_query:
  "query (wu_params (buildContainerExecWebSocketURL loc auth stored i command (Some user))) ''command'' =
     command"
  "query (wu_params (buildContainerExecWebSocketURL loc auth stored i command (Some user))) ''user'' =
     trim user"
  "query (wu_params (buildContainerExecWebSocketURL loc auth stored i command (Some user)))
     ''environment_id'' = (case stored of Some e \<Rightarrow> e | None \<Rightarrow> [])"
  by (auto simp: query_def buildContainerExecWebSocketURL_def set_param_def token_param_def
      update_conv' envQueryParams_def get_str_def oget_def split: option.split)

text \<open>C31: Connecting a container's console runs the command of the page: the words of a quoted custom
command, as the user and in the environment chosen on the page, in the container of the page. The
command, the user and the environment pass the URL unchanged; they are trimmed once on each side.\<close>

theorem console_runs_command:
  assumes "cp_customEnabled c" "cp_customCommand c = js_join '' '' (map quoted_word ws)"
    and "ws \<noteq> []" "[] \<notin> set ws" "trim i \<noteq> []"
    and "cp_session (console_connect c) = Some ses"
  shows "exec_request_of i (wu_params
           (buildContainerExecWebSocketURL loc auth stored i (cs_command ses) (Some (cs_user ses)))) =
         Inr \<lparr>er_container = trim i,
              er_environment = trim (case stored of Some e \<Rightarrow> e | None \<Rightarrow> []),
              er_user = trim (cp_user c), er_cmd = ws\<rparr>"
proof -
  let ?c = "js_join '' '' (map quoted_word ws)"
  have ses: "cs_command ses = ?c" "cs_user ses = trim (cp_user c)"
    using assms parse_quoted(1) [OF assms(3)] quoted_join(1) [OF assms(3)]
    by (auto simp: console_connect_def Let_def)
  have "filter (\<lambda>w. w \<noteq> []) ws = ws" using assms(4) by (auto intro: filter_True)
  then have "parseExecCommand ?c = ws" using parse_quoted(2) [OF assms(3)] by simp
  then show ?thesis
    using parse_quoted(1) [OF assms(3)] quoted_join(1) [OF assms(3)] assms(3,5) ses
    by (simp add: exec_request_of_def Let_def exec_query or_str_def)
qed

theorem console_runs_command_witness:
  "exec_request_of ''abc'' (wu_params (buildContainerExecWebSocketURL
      \<lparr>loc_protocol = ''https:'', loc_host = ''h''\<rparr> initial_auth (Some ''e1'') ''abc''
      (js_join '' '' (map quoted_word [''sh'', ''-c'', ''a b''])) (Some ''root''))) =
   Inr \<lparr>er_container = ''abc'', er_environment = ''e1'', er_user = ''root'',
        er_cmd = [''sh'', ''-c'', ''a b'']\<rparr>"
proof -
  let ?cmd = "js_join '' '' (map quoted_word [''sh'', ''-c'', ''a b''])"
  let ?c = "(initial_console '' root '')\<lparr>cp_customEnabled := True, cp_customCommand := ?cmd\<rparr>"
  have trims: "trim '' root '' = ''root''" "trim ''abc'' = ''abc''" "trim ''e1'' = ''e1''"
    by (simp_all add: trim_def trim_start_def trim_end_def js_ws_def)
  have ses: "cp_session (console_connect ?c) = Some \<lparr>cs_command = ?cmd, cs_user = ''root''\<rparr>"
    using parse_quoted(1) [of "[''sh'', ''-c'', ''a b'']"] quoted_join(1) [of "[''sh'', ''-c'', ''a b'']"]
    by (simp only: console_connect_def Let_def initial_console_def trims) (simp add: trims)
  show ?thesis
    using console_runs_command [OF _ _ _ _ _ ses, of "[''sh'', ''-c'', ''a b'']" "''abc''"
        "\<lparr>loc_protocol = ''https:'', loc_host = ''h''\<rparr>" "initial_auth" "Some ''e1''"]
    by (simp add: trims initial_console_def)
qed

end
