(* ===== verification/Install_Jobs.thy ===== *)
theory Install_Jobs
  imports Net_Errors Sse_Stream
begin

text \<open>
  Jobs that the server runs and a page follows through a stream of events: the installation of a
  software (\<open>softwares/pages/single/index.tsx\<close>, \<open>vscode/pages/list/install-gate.tsx\<close>), of the
  remote desktop packages (\<open>vnc-novnc/pages/settings\<close>, the desktop tab of a user), the start and the
  creation of a VS Code workspace (\<open>vscode/pages/list/index.tsx\<close>), and the followed logs. Each page has
  its own copy of the handler of events; here each copy is a definition, and a locale states what they
  have in common. The server's record of a background setup is that of
  \<open>vncnovnc/install/setup/reconcile.go\<close>.

  A call of the streaming functions is a run: it is under way from the click to its end, which is a
  normal return (\<open>None\<close>) or an exception. The identifiers of lines (React keys) and their time stamps
  are not modelled. Handlers see the state of the latest rendering.
\<close>

section \<open>Events and the terminal of a job\<close>

datatype event_type = EvStart | EvSystem | EvLog | EvDone | EvCancelled | EvError | EvOther

record setup_event =
  ev_type :: event_type
  ev_job :: "string option"
  ev_line :: "string option"
  ev_stream :: "string option"
  ev_message :: "string option"
  ev_success :: bool
  ev_name :: "string option"
  ev_version :: "string option"
  ev_url :: "string option"
  ev_path :: "string option"
  ev_unit :: "string option"
  ev_data :: "string option"

datatype line_stream = Stdout | Stderr | SystemLine

type_synonym term_line = "line_stream \<times> string"

datatype install_status = Idle | Running | Success | Failed | Cancelled

datatype notice = Succeeded string | Went_wrong string | Noted string

text \<open>
  What the terminals of the pages keep: the fields of their state, the controller that
  \<open>abortRef\<close> refers to, the controllers aborted, the runs under way with the job each of them
  attached to, and what was shown and fetched anew.
\<close>

record panel =
  p_open :: bool
  p_status :: install_status
  p_lines :: "term_line list"
  p_job :: "string option"
  p_installing :: bool
  p_cancelling :: bool
  p_ctl :: "nat option"
  p_next :: nat
  p_aborted :: "nat list"
  p_runs :: "(nat \<times> string option) list"
  p_notices :: "notice list"
  p_refetched :: "string list"
  p_requests :: "string list"

text \<open>\<open>a || b\<close> on an optional string\<close>

definition js_or :: "string option \<Rightarrow> string \<Rightarrow> string" where
  "js_or x d = (case x of Some s \<Rightarrow> if s \<noteq> [] then s else d | None \<Rightarrow> d)"

definition dots :: string where "dots = [CHR 0x85]"

definition dash :: string where "dash = '' '' @ [CHR 0x97] @ '' ''"

definition appendLine :: "line_stream \<Rightarrow> string \<Rightarrow> 'a panel_scheme \<Rightarrow> 'a panel_scheme" where
  "appendLine stream text p = p\<lparr>p_lines := p_lines p @ [(stream, text)]\<rparr>"

definition notify :: "notice \<Rightarrow> 'a panel_scheme \<Rightarrow> 'a panel_scheme" where
  "notify n p = p\<lparr>p_notices := p_notices p @ [n]\<rparr>"

definition invalidateQueries :: "string \<Rightarrow> 'a panel_scheme \<Rightarrow> 'a panel_scheme" where
  "invalidateQueries key p = p\<lparr>p_refetched := p_refetched p @ [key]\<rparr>"

definition set_status :: "install_status \<Rightarrow> 'a panel_scheme \<Rightarrow> 'a panel_scheme" where
  "set_status s p = p\<lparr>p_status := s\<rparr>"

text \<open>The stream of a line of output: \<open>stderr\<close> or else \<open>stdout\<close>.\<close>

definition log_stream :: "string option \<Rightarrow> line_stream" where
  "log_stream s = (if s = Some ''stderr'' then Stderr else Stdout)"

definition server_stream :: "string \<Rightarrow> line_stream" where
  "server_stream s = (if s = ''stderr'' then Stderr else if s = ''system'' then SystemLine else Stdout)"

text \<open>\<open>if (line != null) append(line)\<close>, and the variant that also skips an empty line.\<close>

definition append_present :: "line_stream \<Rightarrow> string option \<Rightarrow> 'a panel_scheme \<Rightarrow> 'a panel_scheme" where
  "append_present stream line p = (case line of Some l \<Rightarrow> appendLine stream l p | None \<Rightarrow> p)"

definition append_nonempty :: "line_stream \<Rightarrow> string option \<Rightarrow> 'a panel_scheme \<Rightarrow> 'a panel_scheme" where
  "append_nonempty stream line p =
     (case line of Some l \<Rightarrow> if l \<noteq> [] then appendLine stream l p else p | None \<Rightarrow> p)"

definition note_job :: "string option \<Rightarrow> 'a panel_scheme \<Rightarrow> 'a panel_scheme" where
  "note_job j p =
     (case j of Some x \<Rightarrow> if x \<noteq> [] then p\<lparr>p_job := Some x\<rparr> else p | None \<Rightarrow> p)"

text \<open>\<open>abortRef.current?.abort()\<close>, and a new controller in its place for a new run.\<close>

definition abort_current :: "'a panel_scheme \<Rightarrow> 'a panel_scheme" where
  "abort_current p =
     (case p_ctl p of Some c \<Rightarrow> p\<lparr>p_aborted := c # p_aborted p\<rparr> | None \<Rightarrow> p)"

definition open_run :: "string option \<Rightarrow> 'a panel_scheme \<Rightarrow> 'a panel_scheme" where
  "open_run target p = (let p = abort_current p in
     p\<lparr>p_ctl := Some (p_next p), p_next := Suc (p_next p), p_runs := p_runs p @ [(p_next p, target)]\<rparr>)"

definition close_run :: "nat \<Rightarrow> 'a panel_scheme \<Rightarrow> 'a panel_scheme" where
  "close_run c p = p\<lparr>p_runs := filter (\<lambda>r. fst r \<noteq> c) (p_runs p)\<rparr>"

text \<open>\<open>setStatus((prev) => (prev === "running" ? s : prev))\<close>\<close>

definition settle_status :: "install_status \<Rightarrow> 'a panel_scheme \<Rightarrow> 'a panel_scheme" where
  "settle_status s p = (if p_status p = Running then set_status s p else p)"

definition fresh_terminal :: "'a panel_scheme \<Rightarrow> 'a panel_scheme" where
  "fresh_terminal p =
     p\<lparr>p_open := True, p_lines := [], p_status := Running, p_installing := True,
       p_cancelling := False\<rparr>"

definition idle_flags :: "'a panel_scheme \<Rightarrow> 'a panel_scheme" where
  "idle_flags p = p\<lparr>p_installing := False, p_cancelling := False\<rparr>"

definition new_panel :: panel where
  "new_panel = \<lparr>p_open = False, p_status = Idle, p_lines = [], p_job = None, p_installing = False,
     p_cancelling = False, p_ctl = None, p_next = 0, p_aborted = [], p_runs = [], p_notices = [],
     p_refetched = [], p_requests = []\<rparr>"

section \<open>The gate of the VS Code page\<close>

record queue_item =
  qi_id :: string
  qi_software :: string
  qi_name :: string
  qi_status :: string
  qi_job :: "string option"

record queue_snapshot =
  qs_running :: bool
  qs_pending :: nat
  qs_items :: "queue_item list"

record runtime_status =
  rs_software_id :: "string option"
  rs_software_name :: "string option"
  rs_cli_command :: "string option"

record gate = panel +
  g_queue :: "queue_snapshot option"
  g_attached :: "string option"
  g_effect_key :: "(string \<times> string \<times> string option) option"
  g_pending_key :: string
  g_installed_calls :: nat

definition SOFTWARES_FETCH_KEY :: string where "SOFTWARES_FETCH_KEY = ''softwarespage''"

definition VSCODE_SESSIONS_FETCH_KEY :: string where
  "VSCODE_SESSIONS_FETCH_KEY = ''vscodesessionspage''"

definition gate_softwareId :: "runtime_status \<Rightarrow> string" where
  "gate_softwareId r = js_or (map_option trim (rs_software_id r)) []"

definition gate_softwareName :: "runtime_status \<Rightarrow> string" where
  "gate_softwareName r = js_or (map_option trim (rs_software_name r)) ''VS Code Server''"

definition gate_cliCommand :: "runtime_status \<Rightarrow> string" where
  "gate_cliCommand r = js_or (map_option trim (rs_cli_command r))
     (''cws software install '' @ [CHR 34] @ gate_softwareName r @ [CHR 34])"

definition matchesVsCodeSoftware :: "queue_item \<Rightarrow> string \<Rightarrow> string \<Rightarrow> bool" where
  "matchesVsCodeSoftware it softwareId softwareName =
     (if softwareId \<noteq> [] \<and> qi_software it = softwareId then True
      else let name = map js_lower (qi_name it); target = map js_lower softwareName in
        if target \<noteq> [] \<and> name = target then True
        else str_includes name ''vs code server'' \<or> str_includes name ''code server'')"

definition vscodeQueueItem :: "runtime_status \<Rightarrow> queue_snapshot option \<Rightarrow> queue_item option" where
  "vscodeQueueItem r q =
     (case q of None \<Rightarrow> None
      | Some q \<Rightarrow> List.find (\<lambda>it. (qi_status it = ''pending'' \<or> qi_status it = ''running'') \<and>
          matchesVsCodeSoftware it (gate_softwareId r) (gate_softwareName r)) (qs_items q))"

definition queueBusy :: "queue_snapshot option \<Rightarrow> bool" where
  "queueBusy q = (case q of None \<Rightarrow> False | Some q \<Rightarrow> qs_running q \<or> 0 < qs_pending q)"

definition start_text :: "string \<Rightarrow> setup_event \<Rightarrow> string" where
  "start_text softwareName ev =
     js_or (ev_message ev)
       (''Starting '' @ (case ev_name ev of Some n \<Rightarrow> n | None \<Rightarrow> softwareName) @
        (case ev_version ev of Some v \<Rightarrow> if v \<noteq> [] then '' v'' @ v else [] | None \<Rightarrow> []))"

definition gate_done :: "setup_event \<Rightarrow> gate \<Rightarrow> gate" where
  "gate_done ev s =
     (if ev_success ev
      then let s = appendLine SystemLine (js_or (ev_message ev) ''Install completed'')
                     (set_status Success s);
               s = notify (Succeeded (js_or (ev_message ev) ''VS Code Server installed'')) s;
               s = invalidateQueries VSCODE_SESSIONS_FETCH_KEY (invalidateQueries SOFTWARES_FETCH_KEY s)
           in s\<lparr>g_installed_calls := Suc (g_installed_calls s)\<rparr>
      else notify (Went_wrong (js_or (ev_message ev) ''Install finished with errors''))
             (appendLine Stderr (js_or (ev_message ev) ''Install failed'') (set_status Failed s)))"

definition gate_handleStreamEvent :: "runtime_status \<Rightarrow> setup_event \<Rightarrow> gate \<Rightarrow> gate" where
  "gate_handleStreamEvent r ev s =
     (case ev_type ev of
        EvStart \<Rightarrow> appendLine SystemLine (start_text (gate_softwareName r) ev) (note_job (ev_job ev) s)
      | EvSystem \<Rightarrow> append_present SystemLine (ev_line ev) s
      | EvLog \<Rightarrow> append_present (log_stream (ev_stream ev)) (ev_line ev) s
      | EvDone \<Rightarrow> gate_done ev s
      | EvCancelled \<Rightarrow> appendLine SystemLine (js_or (ev_message ev) ''Install cancelled'')
          (set_status Cancelled s)
      | EvError \<Rightarrow> notify (Went_wrong (js_or (ev_message ev) ''Install failed''))
          (appendLine Stderr (js_or (ev_message ev) ''Install stream error'') (set_status Failed s))
      | EvOther \<Rightarrow> s)"

definition gate_attachToJob :: "string \<Rightarrow> gate \<Rightarrow> gate" where
  "gate_attachToJob target s =
     (if target = [] \<or> g_attached s = Some target then s
      else if p_installing s then s
      else let s = (open_run (Some target) s)\<lparr>g_attached := Some target\<rparr>;
               s = (fresh_terminal s)\<lparr>p_job := Some target\<rparr>
           in appendLine SystemLine (''Attached to install job '' @ take 8 target @ dots) s)"

definition gate_startInstall :: "runtime_status \<Rightarrow> gate \<Rightarrow> gate" where
  "gate_startInstall r s =
     (if gate_softwareId r = [] \<or> p_installing s then s
      else let s = (open_run None s)\<lparr>g_attached := None\<rparr>;
               s = (fresh_terminal s)\<lparr>p_job := None\<rparr>;
               s = appendLine SystemLine
                     (''Connecting to install stream for '' @ gate_softwareName r @ dots) s;
               s = appendLine SystemLine (''CLI equivalent: '' @ gate_cliCommand r) s
           in if queueBusy (g_queue s)
              then appendLine SystemLine (''Softwares queue is busy'' @ dash @
                     ''install will start when the queue is clear.'') s
              else s)"

text \<open>The end of a run: what follows the \<open>await\<close>, the \<open>catch\<close> and the \<open>finally\<close>.\<close>

definition gate_run_failed ::
  "(rat \<Rightarrow> string) \<Rightarrow> string \<Rightarrow> nat \<Rightarrow> err option \<Rightarrow> gate \<Rightarrow> gate" where
  "gate_run_failed numStr fallback c result s =
     (case result of
        None \<Rightarrow> s
      | Some e \<Rightarrow>
          if c \<in> set (p_aborted s) then settle_status Cancelled s
          else let message = getRequestErrorMessage numStr e fallback
               in notify (Went_wrong message) (appendLine Stderr message (set_status Failed s)))"

definition gate_install_end :: "(rat \<Rightarrow> string) \<Rightarrow> nat \<Rightarrow> err option \<Rightarrow> gate \<Rightarrow> gate" where
  "gate_install_end numStr c result s =
     close_run c (idle_flags (gate_run_failed numStr ''Install failed'' c result s))"

definition gate_attach_end ::
  "(rat \<Rightarrow> string) \<Rightarrow> nat \<Rightarrow> string \<Rightarrow> err option \<Rightarrow> gate \<Rightarrow> gate" where
  "gate_attach_end numStr c target result s =
     (let s = idle_flags (gate_run_failed numStr ''Could not follow install'' c result s)
      in close_run c (if g_attached s = Some target then s\<lparr>g_attached := None\<rparr> else s))"

text \<open>The cancel button; the answer to its request, if there was a job to cancel, aborts the run.\<close>

definition gate_cancelInstall :: "gate \<Rightarrow> gate" where
  "gate_cancelInstall s =
     (let s = s\<lparr>p_cancelling := True\<rparr> in
      case p_job s of
        Some j \<Rightarrow> if j \<noteq> [] then s\<lparr>p_requests := p_requests s @ [j]\<rparr> else abort_current s
      | None \<Rightarrow> abort_current s)"

definition gate_cancel_answer :: "(rat \<Rightarrow> string) \<Rightarrow> err option \<Rightarrow> gate \<Rightarrow> gate" where
  "gate_cancel_answer numStr result s =
     abort_current
       (case result of None \<Rightarrow> s
        | Some e \<Rightarrow> notify (Went_wrong (getRequestErrorMessage numStr e ''Could not cancel install'')) s)"

text \<open>A rendering with a new snapshot of the queue: the waiting line, and the effect on the item.\<close>

definition waiting_text :: "string \<Rightarrow> string" where
  "waiting_text softwareName =
     ''Waiting for software queue'' @ dash @ softwareName @ '' is queued behind other installs.''"

definition gate_pending_line :: "runtime_status \<Rightarrow> queue_item option \<Rightarrow> gate \<Rightarrow> gate" where
  "gate_pending_line r item s =
     (let key = (case item of Some it \<Rightarrow> if qi_status it = ''pending'' then qi_id it else []
                 | None \<Rightarrow> []) in
      if key = [] \<and> g_pending_key s \<noteq> [] then s\<lparr>g_pending_key := []\<rparr>
      else if key \<noteq> [] \<and> key \<noteq> g_pending_key s
      then let s = s\<lparr>g_pending_key := key, p_open := True, p_status := Running\<rparr>
           in if \<exists>l \<in> set (p_lines s). str_includes (snd l) ''Waiting for software queue''
              then s
              else appendLine SystemLine (waiting_text (gate_softwareName r)) s
      else s)"

definition gate_follow_item :: "queue_item option \<Rightarrow> gate \<Rightarrow> gate" where
  "gate_follow_item item s =
     (let key = map_option (\<lambda>it. (qi_id it, qi_status it, qi_job it)) item in
      if key = g_effect_key s then s
      else let s = s\<lparr>g_effect_key := key\<rparr> in
        case item of
          Some it \<Rightarrow>
            (case qi_job it of
               Some j \<Rightarrow> if qi_status it = ''running'' \<and> j \<noteq> [] then gate_attachToJob j s else s
             | None \<Rightarrow> s)
        | None \<Rightarrow> s)"

definition gate_render :: "runtime_status \<Rightarrow> queue_snapshot option \<Rightarrow> gate \<Rightarrow> gate" where
  "gate_render r q s =
     (let item = vscodeQueueItem r q in
      gate_follow_item item (gate_pending_line r item (s\<lparr>g_queue := q\<rparr>)))"

datatype gate_input =
    GatePoll "queue_snapshot option"
  | GateInstalled
  | GateInstall
  | GateEvent nat setup_event
  | GateEnd nat "err option"
  | GateCancel
  | GateCancelAnswer "err option"
  | GateUnmount

fun gate_step :: "runtime_status \<Rightarrow> (rat \<Rightarrow> string) \<Rightarrow> gate_input \<Rightarrow> gate \<Rightarrow> gate" where
  "gate_step r numStr (GatePoll q) s = gate_render r q s"
| "gate_step r numStr GateInstalled s = s\<lparr>g_installed_calls := Suc (g_installed_calls s)\<rparr>"
| "gate_step r numStr GateInstall s = gate_startInstall r s"
| "gate_step r numStr (GateEvent c ev) s =
     (if c \<in> fst ` set (p_runs s) then gate_handleStreamEvent r ev s else s)"
| "gate_step r numStr (GateEnd c result) s =
     (case map_of (p_runs s) c of
        None \<Rightarrow> s
      | Some None \<Rightarrow> gate_install_end numStr c result s
      | Some (Some target) \<Rightarrow> gate_attach_end numStr c target result s)"
| "gate_step r numStr GateCancel s = gate_cancelInstall s"
| "gate_step r numStr (GateCancelAnswer result) s = gate_cancel_answer numStr result s"
| "gate_step r numStr GateUnmount s = abort_current s"

definition new_gate :: gate where
  "new_gate = panel.extend new_panel
     \<lparr>g_queue = None, g_attached = None, g_effect_key = None, g_pending_key = [],
      g_installed_calls = 0\<rparr>"

section \<open>The server's record of a setup of the remote desktop\<close>

record server_line =
  sl_text :: string
  sl_stream :: string

record activeInstall =
  ai_jobID :: string
  ai_status :: string
  ai_phase :: string
  ai_waiting :: bool
  ai_message :: string
  ai_auto :: bool
  ai_lines :: "server_line list"

definition ai_maxLines :: nat where "ai_maxLines = 4000"

definition ai_append :: "string \<Rightarrow> string \<Rightarrow> activeInstall \<Rightarrow> activeInstall" where
  "ai_append stream text a =
     (let ls = ai_lines a @ [\<lparr>sl_text = text, sl_stream = stream\<rparr>]
      in a\<lparr>ai_lines := (if ai_maxLines < length ls then drop (length ls - ai_maxLines) ls else ls)\<rparr>)"

definition ai_setMessage :: "string \<Rightarrow> activeInstall \<Rightarrow> activeInstall" where
  "ai_setMessage message a = a\<lparr>ai_message := message\<rparr>"

definition ai_setPhase :: "string \<Rightarrow> string \<Rightarrow> activeInstall \<Rightarrow> activeInstall" where
  "ai_setPhase phase message a =
     (let a = a\<lparr>ai_phase := phase, ai_waiting := (phase = ''waiting_queue'')\<rparr>
      in if message \<noteq> [] then a\<lparr>ai_message := message\<rparr> else a)"

definition ai_finish :: "string \<Rightarrow> string \<Rightarrow> activeInstall \<Rightarrow> activeInstall" where
  "ai_finish status message a =
     a\<lparr>ai_status := status, ai_message := message, ai_phase := [], ai_waiting := False,
       ai_lines := ai_lines a @ [\<lparr>sl_text = message, sl_stream = ''system''\<rparr>]\<rparr>"

text \<open>What a poll is answered: the fields that the page reads.\<close>

record active_state =
  as_active :: bool
  as_job_id :: "string option"
  as_status :: string
  as_auto :: bool
  as_lines :: "server_line list"

definition GetActiveInstall :: "activeInstall option \<Rightarrow> active_state" where
  "GetActiveInstall inst =
     (case inst of
        None \<Rightarrow> \<lparr>as_active = False, as_job_id = None, as_status = ''idle'', as_auto = False, as_lines = []\<rparr>
      | Some a \<Rightarrow> \<lparr>as_active = (ai_status a = ''running''),
          as_job_id = (if ai_jobID a \<noteq> [] then Some (ai_jobID a) else None), as_status = ai_status a,
          as_auto = ai_auto a, as_lines = ai_lines a\<rparr>)"

text \<open>The background job that reinstalls missing packages: how it begins, and its outcome once the
  queue of installations has been waited for and the script has run.\<close>

definition bg_begin :: "string \<Rightarrow> bool \<Rightarrow> activeInstall" where
  "bg_begin jobID auto =
     ai_append ''system'' (''Waiting for software install queue'' @ dots)
       \<lparr>ai_jobID = jobID, ai_status = ''running'', ai_phase = ''waiting_queue'', ai_waiting = True,
        ai_message = ''Waiting for software install queue'' @ dots, ai_auto = auto, ai_lines = []\<rparr>"

definition bg_queue_line :: "string \<Rightarrow> activeInstall \<Rightarrow> activeInstall" where
  "bg_queue_line line a = ai_append ''system'' line (ai_setMessage line a)"

definition bg_installing :: "activeInstall \<Rightarrow> activeInstall" where
  "bg_installing a = ai_append ''system'' ''Starting VNC/noVNC package setup''
     (ai_setPhase ''installing'' ''Starting VNC/noVNC package setup'' a)"

datatype script_end = ScriptCancelled | ScriptFailed string | ScriptTimedOut | ScriptDone

definition bg_end :: "script_end \<Rightarrow> activeInstall \<Rightarrow> activeInstall" where
  "bg_end e a =
     (case e of
        ScriptCancelled \<Rightarrow> ai_finish ''cancelled'' ''Installation stopped'' a
      | ScriptFailed msg \<Rightarrow> ai_finish ''error'' msg a
      | ScriptTimedOut \<Rightarrow> ai_finish ''error'' ''setup timed out'' a
      | ScriptDone \<Rightarrow> ai_finish ''success'' ''VNC/noVNC packages installed (services not started)'' a)"

section \<open>The remote desktop settings page\<close>

definition VNC_SETUP_FETCH_KEY :: string where "VNC_SETUP_FETCH_KEY = ''vncsetuppage''"
definition VNC_SERVICE_FETCH_KEY :: string where "VNC_SERVICE_FETCH_KEY = ''vncservicestatus''"
definition RDP_SETUP_FETCH_KEY :: string where "RDP_SETUP_FETCH_KEY = ''rdpsetup''"
definition USER_RDP_FETCH_KEY :: string where "USER_RDP_FETCH_KEY = ''user-rdp''"

text \<open>
  The store, which survives navigation, with the references of one mounted page. What the store
  holds when the page is mounted is arbitrary.
\<close>

record vnc_session = panel +
  v_updateMode :: bool
  v_hydratedJobId :: "string option"
  v_autoStarted :: bool

definition new_vnc_session :: vnc_session where
  "new_vnc_session = panel.extend new_panel
     \<lparr>v_updateMode = False, v_hydratedJobId = None, v_autoStarted = False\<rparr>"

definition resetTerminal :: "vnc_session \<Rightarrow> vnc_session" where
  "resetTerminal s = s\<lparr>p_open := False, p_status := Idle, p_lines := [], p_job := None,
     p_installing := False, p_cancelling := False, v_hydratedJobId := None\<rparr>"

text \<open>The effect that shows the install reported by the server.\<close>

definition snapshot_running :: "active_state \<Rightarrow> bool" where
  "snapshot_running a \<longleftrightarrow> as_active a \<or> as_status a = ''running''"

definition snapshot_finished :: "active_state \<Rightarrow> bool" where
  "snapshot_finished a \<longleftrightarrow> as_status a \<in> {''success'', ''error'', ''cancelled''}"

definition snapshot_status :: "active_state \<Rightarrow> install_status" where
  "snapshot_status a =
     (if snapshot_running a then Running
      else if as_status a = ''success'' then Success
      else if as_status a = ''cancelled'' then Cancelled else Failed)"

definition snapshot_lines :: "active_state \<Rightarrow> term_line list" where
  "snapshot_lines a = map (\<lambda>l. (server_stream (sl_stream l), sl_text l)) (as_lines a)"

definition vnc_hydrate :: "active_state option \<Rightarrow> vnc_session \<Rightarrow> vnc_session" where
  "vnc_hydrate active s =
     (case active of
        None \<Rightarrow> s
      | Some a \<Rightarrow>
          if \<not> snapshot_running a \<and> \<not> snapshot_finished a then s
          else case as_job_id a of
              None \<Rightarrow> s
            | Some j \<Rightarrow>
                if j = [] then s
                else if v_hydratedJobId s \<noteq> Some j \<or> snapshot_running a
                then s\<lparr>p_lines := snapshot_lines a, p_job := Some j, v_hydratedJobId := Some j,
                       p_open := True, p_installing := snapshot_running a, v_updateMode := as_auto a,
                       p_status := snapshot_status a\<rparr>
                else s)"

definition vnc_startInstall :: "bool \<Rightarrow> vnc_session \<Rightarrow> vnc_session" where
  "vnc_startInstall asUpdate s =
     (if p_installing s then s
      else let s = open_run None s;
               s = (fresh_terminal (s\<lparr>v_updateMode := asUpdate\<rparr>))\<lparr>p_job := None\<rparr>
           in appendLine SystemLine
                ((if asUpdate then ''Checking packages and applying updates''
                  else ''Connecting to setup stream'') @ dots) s)"

definition vnc_done :: "bool \<Rightarrow> setup_event \<Rightarrow> vnc_session \<Rightarrow> vnc_session" where
  "vnc_done asUpdate ev s =
     (let s = (if ev_success ev
               then notify (Succeeded (js_or (ev_message ev)
                      (if asUpdate then ''Packages checked & updated'' else ''VNC/noVNC installed'')))
                    (appendLine SystemLine (js_or (ev_message ev) ''Setup completed'')
                      (set_status Success s))
               else notify (Went_wrong (js_or (ev_message ev) ''Setup finished with errors''))
                    (appendLine Stderr (js_or (ev_message ev) ''Setup failed'') (set_status Failed s)))
      in invalidateQueries VNC_SERVICE_FETCH_KEY (invalidateQueries VNC_SETUP_FETCH_KEY s))"

definition vnc_onEvent :: "bool \<Rightarrow> setup_event \<Rightarrow> vnc_session \<Rightarrow> vnc_session" where
  "vnc_onEvent asUpdate ev s =
     (case ev_type ev of
        EvStart \<Rightarrow> appendLine SystemLine (js_or (ev_message ev)
            (if asUpdate then ''Starting package check & update''
             else ''Starting VNC/noVNC package setup'')) (note_job (ev_job ev) s)
      | EvLog \<Rightarrow> append_present (log_stream (ev_stream ev)) (ev_line ev) s
      | EvDone \<Rightarrow> vnc_done asUpdate ev s
      | EvCancelled \<Rightarrow> invalidateQueries VNC_SETUP_FETCH_KEY
          (notify (Noted (js_or (ev_message ev) ''Installation stopped''))
            (appendLine Stderr (js_or (ev_message ev) ''Installation stopped'')
              (set_status Cancelled s)))
      | EvError \<Rightarrow> notify (Went_wrong (js_or (ev_message ev) ''Setup failed''))
          (appendLine Stderr (js_or (ev_message ev) ''Setup error'') (set_status Failed s))
      | _ \<Rightarrow> s)"

definition stream_end ::
  "(rat \<Rightarrow> string) \<Rightarrow> string \<Rightarrow> nat \<Rightarrow> err option \<Rightarrow> 'a panel_scheme \<Rightarrow> 'a panel_scheme" where
  "stream_end numStr fallback c result s =
     (let s = (case result of
          None \<Rightarrow> settle_status Success s
        | Some e \<Rightarrow>
            if c \<in> set (p_aborted s) then settle_status Cancelled s
            else let message = getRequestErrorMessage numStr e fallback
                 in notify (Went_wrong message) (appendLine Stderr message (set_status Failed s)))
      in close_run c ((idle_flags s)\<lparr>p_ctl := None\<rparr>))"

definition vnc_install_end :: "(rat \<Rightarrow> string) \<Rightarrow> nat \<Rightarrow> err option \<Rightarrow> vnc_session \<Rightarrow> vnc_session" where
  "vnc_install_end numStr = stream_end numStr ''Setup failed''"

text \<open>The effect that reinstalls missing packages, once for each mounted page.\<close>

definition vnc_auto_start :: "bool \<Rightarrow> bool \<Rightarrow> active_state option \<Rightarrow> vnc_session \<Rightarrow> vnc_session" where
  "vnc_auto_start packagesMissing canInstall active s =
     (if v_autoStarted s \<or> \<not> packagesMissing \<or> \<not> canInstall \<or> p_installing s \<or>
         (case active of Some a \<Rightarrow> snapshot_running a | None \<Rightarrow> False)
      then s else vnc_startInstall True (s\<lparr>v_autoStarted := True\<rparr>))"

text \<open>The stop button, and what follows the answer to its request.\<close>

definition vnc_handleStop :: "vnc_session \<Rightarrow> vnc_session" where
  "vnc_handleStop s =
     (if \<not> p_installing s then s
      else let s = appendLine SystemLine (''Stop requested'' @ dots) (s\<lparr>p_cancelling := True\<rparr>) in
        case p_job s of
          Some j \<Rightarrow> if j \<noteq> [] then s\<lparr>p_requests := p_requests s @ [j]\<rparr> else abort_current s
        | None \<Rightarrow> abort_current s)"

definition stop_answer ::
  "(rat \<Rightarrow> string) \<Rightarrow> err option \<Rightarrow> 'a panel_scheme \<Rightarrow> 'a panel_scheme" where
  "stop_answer numStr result s =
     abort_current
       (case result of None \<Rightarrow> s
        | Some e \<Rightarrow> appendLine Stderr
            (getRequestErrorMessage numStr e (''Stop request failed'' @ dash @ ''aborting stream'')) s)"

section \<open>The setup of RDP\<close>

text \<open>Optional on the settings page: it does not start while another setup is under way.\<close>

definition rdp_startInstall :: "bool \<Rightarrow> panel \<Rightarrow> panel" where
  "rdp_startInstall installing s =
     (if p_installing s \<or> installing then s
      else let s = (fresh_terminal (open_run None s))\<lparr>p_job := None\<rparr>
           in appendLine SystemLine (''Connecting to RDP (xrdp) setup stream'' @ dots) s)"

definition rdp_onEvent :: "setup_event \<Rightarrow> panel \<Rightarrow> panel" where
  "rdp_onEvent ev s =
     (case ev_type ev of
        EvStart \<Rightarrow> appendLine SystemLine
          (js_or (ev_message ev) ''Starting optional RDP (xrdp) package setup'')
          (note_job (ev_job ev) s)
      | EvLog \<Rightarrow> append_present (log_stream (ev_stream ev)) (ev_line ev) s
      | EvDone \<Rightarrow> invalidateQueries RDP_SETUP_FETCH_KEY
          (if ev_success ev
           then notify (Succeeded (js_or (ev_message ev) ''RDP (xrdp) installed''))
             (appendLine SystemLine (js_or (ev_message ev) ''RDP setup completed'')
               (set_status Success s))
           else notify (Went_wrong (js_or (ev_message ev) ''RDP setup finished with errors''))
             (appendLine Stderr (js_or (ev_message ev) ''RDP setup failed'') (set_status Failed s)))
      | EvCancelled \<Rightarrow> invalidateQueries RDP_SETUP_FETCH_KEY
          (notify (Noted (js_or (ev_message ev) ''Installation stopped''))
            (appendLine Stderr (js_or (ev_message ev) ''Installation stopped'')
              (set_status Cancelled s)))
      | EvError \<Rightarrow> notify (Went_wrong (js_or (ev_message ev) ''RDP setup failed''))
          (appendLine Stderr (js_or (ev_message ev) ''RDP setup error'') (set_status Failed s))
      | _ \<Rightarrow> s)"

definition rdp_install_end :: "(rat \<Rightarrow> string) \<Rightarrow> nat \<Rightarrow> err option \<Rightarrow> panel \<Rightarrow> panel" where
  "rdp_install_end numStr = stream_end numStr ''RDP setup failed''"

definition rdp_handleStop :: "panel \<Rightarrow> panel" where
  "rdp_handleStop s =
     (if \<not> p_installing s then s
      else let s = appendLine SystemLine (''Stop requested'' @ dots) (s\<lparr>p_cancelling := True\<rparr>) in
        case p_job s of
          Some j \<Rightarrow> if j \<noteq> [] then s\<lparr>p_requests := p_requests s @ [j]\<rparr> else abort_current s
        | None \<Rightarrow> abort_current s)"

text \<open>The stop button of the terminal on the desktop tab of a user, when its request has been answered.\<close>

definition user_rdp_stop :: "panel \<Rightarrow> panel" where
  "user_rdp_stop s =
     (let s = s\<lparr>p_cancelling := True\<rparr> in
      case p_job s of
        Some j \<Rightarrow> if j \<noteq> [] then s\<lparr>p_requests := p_requests s @ [j]\<rparr> else s
      | None \<Rightarrow> s)"

definition user_rdp_stopped :: "err option \<Rightarrow> panel \<Rightarrow> panel" where
  "user_rdp_stopped result s =
     (case result of
        None \<Rightarrow> (set_status Cancelled (abort_current s))\<lparr>p_cancelling := False\<rparr>
      | Some _ \<Rightarrow> s\<lparr>p_cancelling := False\<rparr>)"

text \<open>On the desktop tab of a user there is no guard, and the end leaves the flags alone.\<close>

definition user_rdp_start :: "bool \<Rightarrow> panel \<Rightarrow> panel" where
  "user_rdp_start reinstall s =
     (let s = (open_run None s)\<lparr>p_open := True, p_status := Running, p_cancelling := False,
                p_job := None, p_lines := []\<rparr>
      in appendLine SystemLine
           ((if reinstall then ''Connecting to RDP force-reinstall stream''
             else ''Connecting to RDP setup stream'') @ dots) s)"

definition user_rdp_onEvent :: "bool \<Rightarrow> setup_event \<Rightarrow> panel \<Rightarrow> panel" where
  "user_rdp_onEvent reinstall ev s =
     (let s = note_job (ev_job ev) s in
      case ev_type ev of
        EvStart \<Rightarrow> appendLine SystemLine (js_or (ev_message ev)
          (if reinstall then ''Starting RDP force reinstall'' else ''Starting RDP package setup'')) s
      | EvLog \<Rightarrow> append_nonempty (log_stream (ev_stream ev)) (ev_line ev) s
      | EvError \<Rightarrow> notify (Went_wrong ''RDP install failed'')
          (appendLine Stderr (js_or (ev_message ev) ''RDP install failed'') (set_status Failed s))
      | EvCancelled \<Rightarrow> appendLine Stderr (js_or (ev_message ev) ''Installation stopped'')
          (set_status Cancelled s)
      | EvDone \<Rightarrow>
          if ev_success ev
          then invalidateQueries USER_RDP_FETCH_KEY
            (notify (Succeeded (js_or (ev_message ev) ''RDP installed''))
              (appendLine SystemLine (js_or (ev_message ev) ''RDP setup completed'')
                (set_status Success s)))
          else notify (Went_wrong ''RDP install failed'')
            (appendLine Stderr (js_or (ev_message ev) ''RDP setup failed'') (set_status Failed s))
      | _ \<Rightarrow> s)"

definition user_rdp_end :: "nat \<Rightarrow> err option \<Rightarrow> panel \<Rightarrow> panel" where
  "user_rdp_end c result s =
     close_run c
       (case result of
          None \<Rightarrow> settle_status Success s
        | Some e \<Rightarrow>
            if c \<in> set (p_aborted s) then settle_status Cancelled s
            else notify (Went_wrong ''RDP install failed'')
              (appendLine Stderr
                (case e of AxiosErr m _ \<Rightarrow> m | PlainErr m \<Rightarrow> m | OtherErr \<Rightarrow> ''RDP install failed'')
                (set_status Failed s)))"

section \<open>The page of one software\<close>

record job_snapshot =
  jn_id :: string
  jn_status :: string
  jn_failure :: "string option"
  jn_lines :: "server_line list"

record software_page =
  sp_id :: string
  sp_hasUpdate :: bool
  sp_isInstalled :: bool
  sp_canUninstall :: bool

record single = panel +
  s_failure :: "string option"
  s_uninstalling :: bool
  s_ready :: bool
  s_restoring :: bool
  s_hide_timers :: nat
  s_left_to :: "string option"

text \<open>The page when it is mounted for a software: its latest job is being asked for.\<close>

definition new_single :: single where
  "new_single = panel.extend new_panel
     \<lparr>s_failure = None, s_uninstalling = False, s_ready = False, s_restoring = True,
      s_hide_timers = 0, s_left_to = None\<rparr>"

definition statusFromJob :: "string \<Rightarrow> install_status" where
  "statusFromJob s =
     (if s = ''running'' then Running else if s = ''success'' then Success
      else if s = ''cancelled'' then Cancelled else if s = ''error'' then Failed else Idle)"

definition linesFromJob :: "job_snapshot \<Rightarrow> term_line list" where
  "linesFromJob job = map (\<lambda>l. (server_stream (sl_stream l), sl_text l)) (jn_lines job)"

definition nonempty_text :: "string option \<Rightarrow> string option" where
  "nonempty_text x = (case x of Some s \<Rightarrow> if s \<noteq> [] then x else None | None \<Rightarrow> None)"

definition hideTerminalSuccess :: "single \<Rightarrow> single" where
  "hideTerminalSuccess s =
     s\<lparr>p_open := False, p_lines := [], p_status := Idle, s_failure := None, p_job := None\<rparr>"

definition single_handleStreamEvent :: "setup_event \<Rightarrow> single \<Rightarrow> single" where
  "single_handleStreamEvent ev s =
     (case ev_type ev of
        EvStart \<Rightarrow> note_job (ev_job ev) s
      | EvSystem \<Rightarrow> append_present SystemLine (ev_line ev) s
      | EvLog \<Rightarrow> append_present (log_stream (ev_stream ev)) (ev_line ev) s
      | EvDone \<Rightarrow>
          if ev_success ev
          then let s = append_nonempty SystemLine (ev_message ev) (set_status Success s);
                   s = invalidateQueries SOFTWARES_FETCH_KEY
                         (notify (Succeeded (js_or (ev_message ev) ''Installed successfully'')) s)
               in s\<lparr>s_hide_timers := Suc (s_hide_timers s)\<rparr>
          else invalidateQueries SOFTWARES_FETCH_KEY
            (notify (Went_wrong (js_or (ev_message ev) ''Install finished with errors''))
              (append_nonempty Stderr (ev_message ev) (set_status Failed s)))
      | EvCancelled \<Rightarrow> notify (Noted (js_or (ev_message ev) ''Installation cancelled''))
          (appendLine Stderr (js_or (ev_message ev) ''Installation cancelled'')
            (set_status Cancelled s))
      | EvError \<Rightarrow>
          let s = set_status Failed s;
              s = (case nonempty_text (ev_message ev) of
                     Some m \<Rightarrow> s\<lparr>s_failure := Some m\<rparr>
                   | None \<Rightarrow> appendLine Stderr ''Install error''
                       (s\<lparr>s_failure := Some (js_or (s_failure s) ''Install failed'')\<rparr>))
          in notify (Went_wrong (case ev_message ev of
               Some m \<Rightarrow> js_or (Some (takeWhile (\<lambda>c. c \<noteq> CHR 10) m)) ''Install failed''
             | None \<Rightarrow> ''Install failed'')) s
      | EvOther \<Rightarrow> s)"

definition single_startInstall :: "software_page \<Rightarrow> single \<Rightarrow> single" where
  "single_startInstall v s =
     (if sp_id v = [] \<or> p_installing s then s
      else let s = (fresh_terminal (open_run None s))\<lparr>p_job := None, s_failure := None\<rparr>;
               mode = (if sp_hasUpdate v then ''update''
                       else if sp_isInstalled v then ''reinstall'' else ''install'')
           in appendLine SystemLine (''Connecting to '' @ mode @ '' stream'' @ dots) s)"

text \<open>\<open>if (abortRef.current === controller) abortRef.current = null\<close>\<close>

definition drop_controller :: "nat \<Rightarrow> 'a panel_scheme \<Rightarrow> 'a panel_scheme" where
  "drop_controller c p = (if p_ctl p = Some c then p\<lparr>p_ctl := None\<rparr> else p)"

definition single_install_end :: "(rat \<Rightarrow> string) \<Rightarrow> nat \<Rightarrow> err option \<Rightarrow> single \<Rightarrow> single" where
  "single_install_end numStr c result s =
     (let s = (case result of
          None \<Rightarrow> settle_status Success s
        | Some e \<Rightarrow>
            if c \<in> set (p_aborted s) then s
            else let message = getRequestErrorMessage numStr e ''Install failed'';
                     s = (set_status Failed s)\<lparr>p_open := True, s_failure := Some message\<rparr>
                 in notify (Went_wrong message) (appendLine Stderr message s))
      in close_run c (idle_flags (drop_controller c s)))"

text \<open>The restored session: the latest job, the stream of a job that still runs, and what is asked
  again once that stream is lost.\<close>

definition single_restore :: "(err, job_snapshot option) sum \<Rightarrow> single \<Rightarrow> single" where
  "single_restore answer s =
     (let s = s\<lparr>s_restoring := False\<rparr> in
      case answer of
        Inl _ \<Rightarrow> s\<lparr>s_ready := True\<rparr>
      | Inr None \<Rightarrow> s\<lparr>s_ready := True\<rparr>
      | Inr (Some job) \<Rightarrow>
          if jn_status job = ''success'' then s\<lparr>s_ready := True\<rparr>
          else
            let s = s\<lparr>p_job := Some (jn_id job), s_failure := nonempty_text (jn_failure job),
                      p_open := True, p_status := statusFromJob (jn_status job)\<rparr>
            in if jn_status job = ''running''
               then s\<lparr>p_lines := [], p_installing := True, p_ctl := Some (p_next s),
                      p_next := Suc (p_next s), p_runs := p_runs s @ [(p_next s, Some (jn_id job))],
                      s_ready := True\<rparr>
               else s\<lparr>p_lines := linesFromJob job, p_installing := False, s_ready := True\<rparr>)"

definition single_attach_end :: "(rat \<Rightarrow> string) \<Rightarrow> nat \<Rightarrow> err option \<Rightarrow> single \<Rightarrow> single" where
  "single_attach_end numStr c result s =
     (case result of
        None \<Rightarrow> close_run c (drop_controller c (idle_flags s))
      | Some e \<Rightarrow>
          if c \<in> set (p_aborted s) then close_run c (drop_controller c s)
          else appendLine Stderr (getRequestErrorMessage numStr e ''Lost install stream'') s)"

definition single_attach_again ::
  "nat \<Rightarrow> (err, job_snapshot option) sum \<Rightarrow> single \<Rightarrow> single" where
  "single_attach_again c answer s =
     close_run c (drop_controller c
       (case answer of
          Inr (Some job) \<Rightarrow>
            s\<lparr>p_lines := linesFromJob job, p_status := statusFromJob (jn_status job),
              s_failure := nonempty_text (jn_failure job), p_installing := (jn_status job = ''running'')\<rparr>
        | _ \<Rightarrow> (set_status Failed s)\<lparr>p_installing := False\<rparr>))"

definition single_handleCancel :: "single \<Rightarrow> single" where
  "single_handleCancel s =
     (if \<not> p_installing s then s
      else let s = appendLine SystemLine (''Cancel requested'' @ dots) (s\<lparr>p_cancelling := True\<rparr>) in
        case p_job s of
          Some j \<Rightarrow> if j \<noteq> [] then s\<lparr>p_requests := p_requests s @ [j]\<rparr> else s\<lparr>p_cancelling := False\<rparr>
        | None \<Rightarrow> s\<lparr>p_cancelling := False\<rparr>)"

definition single_cancel_answer :: "(rat \<Rightarrow> string) \<Rightarrow> err option \<Rightarrow> single \<Rightarrow> single" where
  "single_cancel_answer numStr result s =
     (case result of None \<Rightarrow> s
      | Some e \<Rightarrow> appendLine Stderr (getRequestErrorMessage numStr e ''Cancel request failed'') s)
     \<lparr>p_cancelling := False\<rparr>"

definition single_uninstall_begin :: "software_page \<Rightarrow> single \<Rightarrow> single" where
  "single_uninstall_begin v s =
     (if sp_id v = [] \<or> \<not> sp_canUninstall v \<or> s_uninstalling s \<or> p_installing s then s
      else s\<lparr>s_uninstalling := True\<rparr>)"

definition single_uninstall_end ::
  "(rat \<Rightarrow> string) \<Rightarrow> (err, string option) sum \<Rightarrow> single \<Rightarrow> single" where
  "single_uninstall_end numStr answer s =
     (case answer of
        Inr message \<Rightarrow> (invalidateQueries SOFTWARES_FETCH_KEY
            (notify (Succeeded (js_or message ''Uninstall queued'')) s))
          \<lparr>s_left_to := Some ''/softwares/installing''\<rparr>
      | Inl e \<Rightarrow> notify (Went_wrong (getRequestErrorMessage numStr e ''Could not queue uninstall'')) s)
     \<lparr>s_uninstalling := False\<rparr>"

datatype single_input =
    SingleInstall
  | SingleRestored "(err, job_snapshot option) sum"
  | SingleEvent nat setup_event
  | SingleEnd nat "err option"
  | SingleAgain nat "(err, job_snapshot option) sum"
  | SingleCancel
  | SingleCancelAnswer "err option"
  | SingleHideTimer
  | SingleClose
  | SingleClear
  | SingleUninstall
  | SingleUninstallAnswer "(err, string option) sum"

fun single_step :: "software_page \<Rightarrow> (rat \<Rightarrow> string) \<Rightarrow> single_input \<Rightarrow> single \<Rightarrow> single" where
  "single_step v numStr SingleInstall s = single_startInstall v s"
| "single_step v numStr (SingleRestored a) s = (if s_restoring s then single_restore a s else s)"
| "single_step v numStr (SingleEvent c ev) s =
     (if c \<in> fst ` set (p_runs s) then single_handleStreamEvent ev s else s)"
| "single_step v numStr (SingleEnd c result) s =
     (case map_of (p_runs s) c of
        None \<Rightarrow> s
      | Some None \<Rightarrow> single_install_end numStr c result s
      | Some (Some _) \<Rightarrow> single_attach_end numStr c result s)"
| "single_step v numStr (SingleAgain c a) s =
     (case map_of (p_runs s) c of Some (Some _) \<Rightarrow> single_attach_again c a s | _ \<Rightarrow> s)"
| "single_step v numStr SingleCancel s = single_handleCancel s"
| "single_step v numStr (SingleCancelAnswer r) s = single_cancel_answer numStr r s"
| "single_step v numStr SingleHideTimer s =
     (if 0 < s_hide_timers s
      then hideTerminalSuccess (s\<lparr>s_hide_timers := s_hide_timers s - 1\<rparr>) else s)"
| "single_step v numStr SingleClose s = s\<lparr>p_open := False\<rparr>"
| "single_step v numStr SingleClear s = s\<lparr>p_lines := [], s_failure := None\<rparr>"
| "single_step v numStr SingleUninstall s = single_uninstall_begin v s"
| "single_step v numStr (SingleUninstallAnswer a) s =
     (if s_uninstalling s then single_uninstall_end numStr a s else s)"

section \<open>Followed logs\<close>

text \<open>The log page of the remote desktop service. Starting and stopping is the switch
  \<open>streaming\<close>; its effect opens a run or aborts the current one.\<close>

record log_view =
  lg_lines :: "term_line list"
  lg_streaming :: bool
  lg_connecting :: bool
  lg_ctl :: "nat option"
  lg_next :: nat
  lg_aborted :: "nat list"
  lg_notices :: "notice list"

definition log_lines_max :: nat where "log_lines_max = 4000"

definition log_append :: "line_stream \<Rightarrow> string \<Rightarrow> log_view \<Rightarrow> log_view" where
  "log_append stream text s =
     (let ls = lg_lines s @ [(stream, text)]
      in s\<lparr>lg_lines := (if log_lines_max < length ls then drop (length ls - log_lines_max) ls else ls)\<rparr>)"

definition log_onEvent :: "setup_event \<Rightarrow> log_view \<Rightarrow> log_view" where
  "log_onEvent ev s =
     (let s = s\<lparr>lg_connecting := False\<rparr> in
      case ev_type ev of
        EvStart \<Rightarrow> log_append SystemLine (js_or (ev_message ev) ''Connected to log stream'') s
      | EvLog \<Rightarrow>
          (let prefix = (case nonempty_text (ev_path ev) of Some p \<Rightarrow> ''['' @ p @ ''] '' | None \<Rightarrow> [])
           in log_append (log_stream (ev_stream ev))
                (prefix @ (case ev_line ev of Some l \<Rightarrow> l | None \<Rightarrow> [])) s)
      | EvDone \<Rightarrow> log_append SystemLine (js_or (ev_message ev) ''Stream ended'') s
      | EvError \<Rightarrow> log_append Stderr (js_or (ev_message ev) ''Stream error'') s
      | _ \<Rightarrow> s)"

definition log_switch :: "bool \<Rightarrow> log_view \<Rightarrow> log_view" where
  "log_switch on s =
     (if on = lg_streaming s then s
      else let s = s\<lparr>lg_streaming := on,
                 lg_aborted := (case lg_ctl s of Some c \<Rightarrow> c # lg_aborted s | None \<Rightarrow> lg_aborted s)\<rparr>
           in if on then s\<lparr>lg_ctl := Some (lg_next s), lg_next := Suc (lg_next s), lg_connecting := True\<rparr>
              else s\<lparr>lg_ctl := None, lg_connecting := False\<rparr>)"

definition log_end :: "nat \<Rightarrow> err option \<Rightarrow> log_view \<Rightarrow> log_view" where
  "log_end c result s =
     (if c \<in> set (lg_aborted s) then s
      else case result of
        None \<Rightarrow>
          if lg_streaming s then log_switch False (log_append SystemLine ''Stream disconnected'' s) else s
      | Some e \<Rightarrow>
          let message = (case e of AxiosErr m _ \<Rightarrow> m | PlainErr m \<Rightarrow> m
                         | OtherErr \<Rightarrow> ''Failed to stream logs'');
              s = log_append Stderr message (s\<lparr>lg_connecting := False\<rparr>)
          in log_switch False (s\<lparr>lg_notices := lg_notices s @ [Went_wrong message]\<rparr>))"

text \<open>The service panel of a software: its actions, and the logs it follows.\<close>

record service_panel =
  sv_status :: "string option"
  sv_busy :: "string option"
  sv_open :: bool
  sv_live :: bool
  sv_rows :: "(string option \<times> string) list"
  sv_error :: "string option"
  sv_ctl :: "nat option"
  sv_next :: nat
  sv_aborted :: "nat list"
  sv_notices :: "notice list"

definition sv_runAction :: "string \<Rightarrow> service_panel \<Rightarrow> service_panel" where
  "sv_runAction action s = s\<lparr>sv_busy := Some action\<rparr>"

definition sv_action_answer ::
  "(rat \<Rightarrow> string) \<Rightarrow> string \<Rightarrow> (err, string) sum \<Rightarrow> service_panel \<Rightarrow> service_panel" where
  "sv_action_answer numStr action answer s =
     (case answer of
        Inr overall \<Rightarrow> s\<lparr>sv_status := Some overall,
          sv_notices := sv_notices s @ [Succeeded (action @ '' '' @ [CHR 0xB7] @ '' '' @ overall)]\<rparr>
      | Inl e \<Rightarrow> s\<lparr>sv_notices := sv_notices s @
          [Went_wrong (getRequestErrorMessage numStr e (''Could not '' @ action @ '' service''))]\<rparr>)
     \<lparr>sv_busy := None\<rparr>"

definition sv_stopLogs :: "service_panel \<Rightarrow> service_panel" where
  "sv_stopLogs s =
     s\<lparr>sv_aborted := (case sv_ctl s of Some c \<Rightarrow> c # sv_aborted s | None \<Rightarrow> sv_aborted s),
       sv_ctl := None, sv_live := False\<rparr>"

definition sv_startLogs :: "service_panel \<Rightarrow> service_panel" where
  "sv_startLogs s =
     (let s = sv_stopLogs s in
      s\<lparr>sv_open := True, sv_error := None, sv_rows := [], sv_live := True, sv_ctl := Some (sv_next s),
        sv_next := Suc (sv_next s)\<rparr>)"

definition sv_onEvent :: "setup_event \<Rightarrow> service_panel \<Rightarrow> service_panel" where
  "sv_onEvent ev s =
     (case (ev_type ev, nonempty_text (ev_message ev), nonempty_text (ev_line ev)) of
        (EvStart, Some m, _) \<Rightarrow> s\<lparr>sv_rows := sv_rows s @ [(None, m)]\<rparr>
      | (EvLog, _, Some l) \<Rightarrow> s\<lparr>sv_rows := sv_rows s @ [(ev_unit ev, l)]\<rparr>
      | (EvError, _, _) \<Rightarrow> s\<lparr>sv_error := Some (js_or (ev_message ev) ''Log stream error'')\<rparr>
      | (EvDone, _, _) \<Rightarrow> s\<lparr>sv_live := False\<rparr>
      | _ \<Rightarrow> s)"

definition sv_logs_end ::
  "(rat \<Rightarrow> string) \<Rightarrow> nat \<Rightarrow> err option \<Rightarrow> service_panel \<Rightarrow> service_panel" where
  "sv_logs_end numStr c result s =
     (let s = (case result of
          Some e \<Rightarrow> if c \<in> set (sv_aborted s) then s
            else s\<lparr>sv_error := Some (getRequestErrorMessage numStr e ''Could not stream service logs'')\<rparr>
        | None \<Rightarrow> s)
      in if sv_ctl s = Some c then s\<lparr>sv_live := False, sv_ctl := None\<rparr> else s)"

section \<open>What the handlers have in common\<close>

text \<open>What an event says about the outcome of a job; an error closes it as well.\<close>

definition ev_verdict :: "setup_event \<Rightarrow> install_status option" where
  "ev_verdict ev =
     (case ev_type ev of
        EvDone \<Rightarrow> Some (if ev_success ev then Success else Failed)
      | EvCancelled \<Rightarrow> Some Cancelled
      | EvError \<Rightarrow> Some Failed
      | _ \<Rightarrow> None)"

text \<open>The outcome told last, and otherwise a default.\<close>

definition told_status :: "install_status \<Rightarrow> setup_event list \<Rightarrow> install_status" where
  "told_status d evs = fold (\<lambda>ev d. case ev_verdict ev of Some v \<Rightarrow> v | None \<Rightarrow> d) evs d"

text \<open>
  The contract of a handler of events: the lines only grow, and the runs, the flags and the
  controllers are left alone. A handler that knows every outcome also makes the status follow the
  verdicts.
\<close>

locale run_view =
  fixes handle :: "setup_event \<Rightarrow> 's \<Rightarrow> 's"
    and shown :: "'s \<Rightarrow> term_line list"
    and control :: "'s \<Rightarrow> 'c"
  assumes lines_law: "\<exists>ls. shown (handle ev s) = shown s @ ls"
    and control_law: "control (handle ev s) = control s"
begin

lemma lines_grow: "\<exists>ls. shown (fold handle evs s) = shown s @ ls"
proof (induction evs arbitrary: s)
  case (Cons ev evs)
  obtain ls where "shown (handle ev s) = shown s @ ls" using lines_law by blast
  with Cons [of "handle ev s"] show ?case by auto
qed simp

lemma control_kept: "control (fold handle evs s) = control s"
  by (induction evs arbitrary: s) (simp_all add: control_law)

end

locale job_view = run_view +
  fixes status :: "'a \<Rightarrow> install_status"
  assumes verdict_law:
      "status (handle ev s) = (case ev_verdict ev of Some v \<Rightarrow> v | None \<Rightarrow> status s)"
begin

lemma status_told: "status (fold handle evs s) = told_status (status s) evs"
  by (induction evs arbitrary: s) (simp_all add: told_status_def verdict_law split: option.splits)

end

text \<open>The part of a panel that belongs to its runs.\<close>

definition run_control ::
  "'a panel_scheme \<Rightarrow> bool \<times> bool \<times> nat option \<times> nat \<times> nat list \<times> (nat \<times> string option) list" where
  "run_control p =
     (p_installing p, p_cancelling p, p_ctl p, p_next p, p_aborted p, p_runs p)"

named_theorems panel_simps \<open>unfoldings of the operations of a panel\<close>

lemmas [panel_simps] =
  appendLine_def notify_def invalidateQueries_def set_status_def append_present_def append_nonempty_def
  note_job_def settle_status_def run_control_def

interpretation gate_view: job_view "gate_handleStreamEvent r" p_lines run_control p_status
  by unfold_locales
    (auto simp: panel_simps gate_handleStreamEvent_def gate_done_def ev_verdict_def Let_def
      split: event_type.splits option.splits)

interpretation vnc_view: job_view "vnc_onEvent asUpdate" p_lines run_control p_status
  by unfold_locales
    (auto simp: panel_simps vnc_onEvent_def vnc_done_def ev_verdict_def Let_def
      split: event_type.splits option.splits)

interpretation rdp_view: job_view rdp_onEvent p_lines run_control p_status
  by unfold_locales
    (auto simp: panel_simps rdp_onEvent_def ev_verdict_def Let_def
      split: event_type.splits option.splits)

interpretation user_rdp_view: job_view "user_rdp_onEvent reinstall" p_lines run_control p_status
  by unfold_locales
    (auto simp: panel_simps user_rdp_onEvent_def ev_verdict_def Let_def
      split: event_type.splits option.splits)

interpretation single_view: job_view single_handleStreamEvent p_lines run_control p_status
  by unfold_locales
    (auto simp: panel_simps single_handleStreamEvent_def ev_verdict_def Let_def
      split: event_type.splits option.splits)

section \<open>One stream at a time\<close>

definition gate_inv :: "gate \<Rightarrow> bool" where
  "gate_inv s \<longleftrightarrow>
     map snd (p_runs s) = (if p_installing s then [g_attached s] else []) \<and>
     (\<not> p_installing s \<longrightarrow> g_attached s = None) \<and>
     map (Some \<circ> fst) (p_runs s) = (if p_installing s then [p_ctl s] else [])"

lemma gate_inv_cases:
  assumes "gate_inv s"
  obtains (idle) "p_runs s = []" "\<not> p_installing s" "g_attached s = None"
  | (busy) c where "p_runs s = [(c, g_attached s)]" "p_installing s" "p_ctl s = Some c"
proof (cases "p_installing s")
  case True
  then have r: "map snd (p_runs s) = [g_attached s]" "map (Some \<circ> fst) (p_runs s) = [p_ctl s]"
    using assms by (simp_all add: gate_inv_def)
  then obtain x where "p_runs s = [x]" by (cases "p_runs s") auto
  with r show ?thesis by (intro busy [of "fst x"]) (auto simp: True prod_eq_iff)
qed (use assms idle in \<open>auto simp: gate_inv_def\<close>)

lemma gate_inv_control:
  "run_control s' = run_control s \<Longrightarrow> g_attached s' = g_attached s \<Longrightarrow> gate_inv s' = gate_inv s"
  by (simp add: gate_inv_def run_control_def)

lemma handle_attached: "g_attached (gate_handleStreamEvent r ev s) = g_attached s"
  by (auto simp: gate_handleStreamEvent_def gate_done_def panel_simps Let_def
      split: event_type.splits option.splits)

lemma gate_event_inv: "gate_inv s \<Longrightarrow> gate_inv (gate_handleStreamEvent r ev s)"
  using gate_inv_control [OF gate_view.control_law handle_attached] by simp

lemmas gate_run_simps =
  gate_inv_def open_run_def abort_current_def fresh_terminal_def panel_simps close_run_def
  idle_flags_def Let_def

lemma gate_attach_inv: "gate_inv s \<Longrightarrow> gate_inv (gate_attachToJob j s)"
  by (erule gate_inv_cases) (auto simp: gate_attachToJob_def gate_run_simps split: option.splits)

lemma gate_start_inv: "gate_inv s \<Longrightarrow> gate_inv (gate_startInstall r s)"
  by (erule gate_inv_cases) (auto simp: gate_startInstall_def gate_run_simps split: option.splits)

lemma failed_keeps_runs:
  "p_runs (gate_run_failed numStr f c result s) = p_runs s \<and>
   g_attached (gate_run_failed numStr f c result s) = g_attached s \<and>
   p_ctl (gate_run_failed numStr f c result s) = p_ctl s"
  by (auto simp: gate_run_failed_def panel_simps Let_def split: option.splits)

lemma gate_end_inv:
  assumes "gate_inv s"
  shows "gate_inv (gate_step r numStr (GateEnd c result) s)"
  using assms
proof (cases rule: gate_inv_cases)
  case (busy d)
  then show ?thesis
    using assms failed_keeps_runs [of numStr _ c result s]
    by (cases "g_attached s")
      (auto simp: gate_install_end_def gate_attach_end_def close_run_def idle_flags_def gate_inv_def Let_def)
qed (use assms in simp)

lemma gate_render_inv: "gate_inv s \<Longrightarrow> gate_inv (gate_render r q s)"
proof -
  assume "gate_inv s"
  then have "gate_inv (gate_pending_line r item (s\<lparr>g_queue := q\<rparr>))" for item
    by (auto simp: gate_pending_line_def gate_inv_def appendLine_def Let_def)
  then have "gate_inv ((gate_pending_line r item (s\<lparr>g_queue := q\<rparr>))\<lparr>g_effect_key := k\<rparr>)"
    for item k by (simp add: gate_inv_def)
  with \<open>\<And>item. gate_inv (gate_pending_line r item (s\<lparr>g_queue := q\<rparr>))\<close> show ?thesis
    by (auto simp: gate_render_def gate_follow_item_def Let_def intro: gate_attach_inv
        split: option.splits)
qed

lemma gate_cancel_inv:
  "gate_inv s \<Longrightarrow> gate_inv (abort_current s)"
  "gate_inv s \<Longrightarrow> gate_inv (gate_cancelInstall s)"
  "gate_inv s \<Longrightarrow> gate_inv (gate_cancel_answer numStr result s)"
  by (auto simp: gate_cancelInstall_def gate_cancel_answer_def abort_current_def gate_inv_def
      notify_def Let_def split: option.splits)

lemma gate_installed_inv: "gate_inv s \<Longrightarrow> gate_inv (s\<lparr>g_installed_calls := n\<rparr>)"
  by (simp add: gate_inv_def)

lemma gate_step_inv: "gate_inv s \<Longrightarrow> gate_inv (gate_step r numStr i s)"
proof (cases i)
  case (GateEnd c result)
  then show "gate_inv s \<Longrightarrow> ?thesis" using gate_end_inv by blast
qed (simp_all add: gate_render_inv gate_start_inv gate_event_inv gate_cancel_inv gate_installed_inv)

interpretation gate_machine: state_machine "gate_step r numStr" gate_inv
  by unfold_locales (rule gate_step_inv)

lemma new_gate_inv: "gate_inv new_gate"
  by (simp add: gate_inv_def new_gate_def new_panel_def panel.defs)

section \<open>The outcome of a run\<close>

text \<open>What may happen while a run is under way: an event, the stop button, the answer to its request.\<close>

datatype run_item = Told setup_event | StopClicked | StopAnswered "err option"

fun vnc_play :: "(rat \<Rightarrow> string) \<Rightarrow> bool \<Rightarrow> run_item \<Rightarrow> vnc_session \<Rightarrow> vnc_session" where
  "vnc_play numStr asUpdate (Told ev) = vnc_onEvent asUpdate ev"
| "vnc_play numStr asUpdate StopClicked = vnc_handleStop"
| "vnc_play numStr asUpdate (StopAnswered e) = stop_answer numStr e"

fun rdp_play :: "(rat \<Rightarrow> string) \<Rightarrow> run_item \<Rightarrow> panel \<Rightarrow> panel" where
  "rdp_play numStr (Told ev) = rdp_onEvent ev"
| "rdp_play numStr StopClicked = rdp_handleStop"
| "rdp_play numStr (StopAnswered e) = stop_answer numStr e"

fun user_rdp_play :: "bool \<Rightarrow> run_item \<Rightarrow> panel \<Rightarrow> panel" where
  "user_rdp_play reinstall (Told ev) = user_rdp_onEvent reinstall ev"
| "user_rdp_play reinstall StopClicked = user_rdp_stop"
| "user_rdp_play reinstall (StopAnswered e) = user_rdp_stopped e"

fun gate_play :: "runtime_status \<Rightarrow> (rat \<Rightarrow> string) \<Rightarrow> run_item \<Rightarrow> gate \<Rightarrow> gate" where
  "gate_play r numStr (Told ev) = gate_handleStreamEvent r ev"
| "gate_play r numStr StopClicked = gate_cancelInstall"
| "gate_play r numStr (StopAnswered e) = gate_cancel_answer numStr e"

fun single_play :: "(rat \<Rightarrow> string) \<Rightarrow> run_item \<Rightarrow> single \<Rightarrow> single" where
  "single_play numStr (Told ev) = single_handleStreamEvent ev"
| "single_play numStr StopClicked = single_handleCancel"
| "single_play numStr (StopAnswered e) = single_cancel_answer numStr e"

text \<open>What an item says about the outcome; the desktop tab of a user takes the answer to a stop for
  one.\<close>

fun told_verdict :: "run_item \<Rightarrow> install_status option" where
  "told_verdict (Told ev) = ev_verdict ev"
| "told_verdict _ = None"

fun user_verdict :: "run_item \<Rightarrow> install_status option" where
  "user_verdict (Told ev) = ev_verdict ev"
| "user_verdict (StopAnswered None) = Some Cancelled"
| "user_verdict _ = None"

definition last_verdict ::
  "(run_item \<Rightarrow> install_status option) \<Rightarrow> install_status \<Rightarrow> run_item list \<Rightarrow> install_status" where
  "last_verdict verdict d items =
     fold (\<lambda>i d. case verdict i of Some v \<Rightarrow> v | None \<Rightarrow> d) items d"

text \<open>The contract of what happens during a run: the status follows the verdicts, and which runs
  are under way does not change.\<close>

locale played_run =
  fixes play :: "run_item \<Rightarrow> 's \<Rightarrow> 's"
    and verdict :: "run_item \<Rightarrow> install_status option"
    and status :: "'s \<Rightarrow> install_status"
    and runs :: "'s \<Rightarrow> 'k"
  assumes play_status: "status (play i s) = (case verdict i of Some v \<Rightarrow> v | None \<Rightarrow> status s)"
    and play_runs: "runs (play i s) = runs s"
begin

lemma played:
  "status (fold play items s) = last_verdict verdict (status s) items"
  "runs (fold play items s) = runs s"
  by (induction items arbitrary: s)
    (simp_all add: last_verdict_def play_status play_runs split: option.splits)

end

definition run_left :: "'a panel_scheme \<Rightarrow> bool \<times> (nat \<times> string option) list" where
  "run_left p = (p_installing p, p_runs p)"

lemma event_left:
  "run_control s' = run_control s \<Longrightarrow> p_installing s' = p_installing s"
  "run_control s' = run_control s \<Longrightarrow> p_runs s' = p_runs s"
  "run_control s' = run_control s \<Longrightarrow> p_aborted s' = p_aborted s"
  by (simp_all add: run_control_def)

lemmas stop_simps =
  vnc_handleStop_def rdp_handleStop_def stop_answer_def user_rdp_stop_def user_rdp_stopped_def
  gate_cancelInstall_def gate_cancel_answer_def single_handleCancel_def single_cancel_answer_def
  abort_current_def run_left_def panel_simps Let_def

interpretation vnc_run: played_run "vnc_play numStr asUpdate" told_verdict p_status run_left
proof unfold_locales
  fix i s
  show "p_status (vnc_play numStr asUpdate i s) = (case told_verdict i of Some v \<Rightarrow> v | None \<Rightarrow> p_status s)"
    by (cases i) (auto simp: vnc_view.verdict_law stop_simps split: option.splits)
  show "run_left (vnc_play numStr asUpdate i s) = run_left s"
    by (cases i) (auto simp: event_left [OF vnc_view.control_law] stop_simps split: option.splits)
qed

interpretation rdp_run: played_run "rdp_play numStr" told_verdict p_status run_left
proof unfold_locales
  fix i s
  show "p_status (rdp_play numStr i s) = (case told_verdict i of Some v \<Rightarrow> v | None \<Rightarrow> p_status s)"
    by (cases i) (auto simp: rdp_view.verdict_law stop_simps split: option.splits)
  show "run_left (rdp_play numStr i s) = run_left s"
    by (cases i) (auto simp: event_left [OF rdp_view.control_law] stop_simps split: option.splits)
qed

interpretation user_rdp_run: played_run "user_rdp_play reinstall" user_verdict p_status run_left
proof unfold_locales
  fix i s
  show "p_status (user_rdp_play reinstall i s) = (case user_verdict i of Some v \<Rightarrow> v | None \<Rightarrow> p_status s)"
    by (cases i rule: user_verdict.cases)
      (auto simp: user_rdp_view.verdict_law stop_simps split: option.splits)
  show "run_left (user_rdp_play reinstall i s) = run_left s"
    by (cases i) (auto simp: event_left [OF user_rdp_view.control_law] stop_simps split: option.splits)
qed

interpretation gate_run: played_run "gate_play r numStr" told_verdict p_status run_left
proof unfold_locales
  fix i s
  show "p_status (gate_play r numStr i s) = (case told_verdict i of Some v \<Rightarrow> v | None \<Rightarrow> p_status s)"
    by (cases i) (auto simp: gate_view.verdict_law stop_simps split: option.splits)
  show "run_left (gate_play r numStr i s) = run_left s"
    by (cases i) (auto simp: event_left [OF gate_view.control_law] stop_simps split: option.splits)
qed

text \<open>On the page of a software, stopping aborts nothing.\<close>

interpretation single_run: played_run "single_play numStr" told_verdict p_status
  "\<lambda>s. (run_left s, p_aborted s)"
proof unfold_locales
  fix i s
  show "p_status (single_play numStr i s) = (case told_verdict i of Some v \<Rightarrow> v | None \<Rightarrow> p_status s)"
    by (cases i) (auto simp: single_view.verdict_law stop_simps split: option.splits)
  show "(run_left (single_play numStr i s), p_aborted (single_play numStr i s)) = (run_left s, p_aborted s)"
    by (cases i) (auto simp: event_left [OF single_view.control_law] stop_simps split: option.splits)
qed

text \<open>A panel no run of which is under way, and what a run makes of the status when it ends: a
  stream that breaks off without a verdict, or that is aborted without one, leaves a status that
  depends on the page; a connection that fails is a failure.\<close>

definition at_rest :: "'a panel_scheme \<Rightarrow> bool" where
  "at_rest p \<longleftrightarrow> \<not> p_installing p \<and> p_runs p = [] \<and> p_next p \<notin> set (p_aborted p) \<and>
     p_ctl p \<noteq> Some (p_next p)"

definition break_as :: "install_status \<Rightarrow> install_status \<Rightarrow> install_status" where
  "break_as d v = (if v = Running then d else v)"

definition run_shows ::
  "install_status \<Rightarrow> install_status \<Rightarrow> bool \<Rightarrow> err option \<Rightarrow> install_status \<Rightarrow> install_status" where
  "run_shows broken stopped aborted result v =
     (case result of None \<Rightarrow> break_as broken v
      | Some e \<Rightarrow> if aborted then break_as stopped v else Failed)"

definition settled_as :: "install_status \<Rightarrow> 'a panel_scheme \<Rightarrow> bool" where
  "settled_as v p \<longleftrightarrow> p_status p = v \<and> \<not> p_installing p \<and> p_runs p = []"

lemmas start_simps =
  open_run_def abort_current_def fresh_terminal_def appendLine_def at_rest_def run_left_def Let_def

lemma vnc_started:
  "at_rest s \<Longrightarrow> let t = vnc_startInstall u s in
     p_status t = Running \<and> run_left t = (True, [(p_next s, None)])"
  by (auto simp: vnc_startInstall_def start_simps split: option.splits)

lemma rdp_started:
  "at_rest s \<Longrightarrow> let t = rdp_startInstall False s in
     p_status t = Running \<and> run_left t = (True, [(p_next s, None)])"
  by (auto simp: rdp_startInstall_def start_simps split: option.splits)

lemma user_rdp_started:
  "at_rest s \<Longrightarrow> let t = user_rdp_start reinstall s in
     p_status t = Running \<and> run_left t = (False, [(p_next s, None)])"
  by (auto simp: user_rdp_start_def start_simps split: option.splits)

lemma gate_started:
  "at_rest s \<Longrightarrow> gate_softwareId r \<noteq> [] \<Longrightarrow> let t = gate_startInstall r s in
     p_status t = Running \<and> run_left t = (True, [(p_next s, None)])"
  by (auto simp: gate_startInstall_def start_simps split: option.splits)

lemma gate_attached_run:
  "at_rest s \<Longrightarrow> g_attached s = None \<Longrightarrow> j \<noteq> [] \<Longrightarrow> let t = gate_attachToJob j s in
     p_status t = Running \<and> run_left t = (True, [(p_next s, Some j)])"
  by (auto simp: gate_attachToJob_def start_simps split: option.splits)

lemma single_started:
  "at_rest s \<Longrightarrow> sp_id v \<noteq> [] \<Longrightarrow> let t = single_startInstall v s in
     p_status t = Running \<and> run_left t = (True, [(p_next s, None)]) \<and> p_next s \<notin> set (p_aborted t)"
  by (auto simp: single_startInstall_def start_simps split: option.splits)

lemma single_resumed:
  "at_rest s \<Longrightarrow> jn_status job = ''running'' \<Longrightarrow> let t = single_restore (Inr (Some job)) s in
     p_status t = Running \<and> run_left t = (True, [(p_next s, Some (jn_id job))]) \<and>
     p_next s \<notin> set (p_aborted t)"
  by (simp add: single_restore_def statusFromJob_def at_rest_def run_left_def Let_def)

lemmas end_simps =
  run_shows_def settled_as_def break_as_def panel_simps close_run_def idle_flags_def run_left_def Let_def

lemma stream_end_settles:
  "run_left t = (b, [(c, j)]) \<Longrightarrow> p_status t = v \<Longrightarrow>
   settled_as (run_shows Success Cancelled (c \<in> set (p_aborted t)) result v) (stream_end numStr f c result t)"
  by (auto simp: stream_end_def end_simps split: option.splits)

lemma user_end_settles:
  "run_left t = (False, [(c, j)]) \<Longrightarrow> p_status t = v \<Longrightarrow>
   settled_as (run_shows Success Cancelled (c \<in> set (p_aborted t)) result v) (user_rdp_end c result t)"
  by (auto simp: user_rdp_end_def end_simps split: option.splits)

lemma gate_end_settles:
  "run_left t = (b, [(c, j)]) \<Longrightarrow> p_status t = v \<Longrightarrow>
   settled_as (run_shows Running Cancelled (c \<in> set (p_aborted t)) result v) (gate_install_end numStr c result t)"
  "run_left t = (b, [(c, j)]) \<Longrightarrow> p_status t = v \<Longrightarrow>
   settled_as (run_shows Running Cancelled (c \<in> set (p_aborted t)) result v) (gate_attach_end numStr c k result t)"
  by (auto simp: gate_install_end_def gate_attach_end_def gate_run_failed_def end_simps split: option.splits)

lemma single_end_settles:
  "run_left t = (b, [(c, j)]) \<Longrightarrow> p_status t = v \<Longrightarrow>
   settled_as (run_shows Success Running (c \<in> set (p_aborted t)) result v) (single_install_end numStr c result t)"
  by (auto simp: single_install_end_def drop_controller_def end_simps split: option.splits)

text \<open>The end of a resumed stream: told to its end it leaves the status that was told; lost, the
  page asks for the job again, once.\<close>

definition single_resume_end ::
  "(rat \<Rightarrow> string) \<Rightarrow> nat \<Rightarrow> err option \<Rightarrow> (err, job_snapshot option) sum \<Rightarrow> single \<Rightarrow> single" where
  "single_resume_end numStr c result again s =
     (let t = single_attach_end numStr c result s in
      if p_runs t = [] then t else single_attach_again c again t)"

definition asked_again :: "(err, job_snapshot option) sum \<Rightarrow> single \<Rightarrow> bool" where
  "asked_again again s \<longleftrightarrow> p_runs s = [] \<and>
     (case again of
        Inr (Some job) \<Rightarrow>
          p_status s = statusFromJob (jn_status job) \<and> (p_installing s \<longleftrightarrow> jn_status job = ''running'')
      | _ \<Rightarrow> p_status s = Failed \<and> \<not> p_installing s)"

lemma resume_settles:
  assumes "run_left t = (b, [(c, j)])" "c \<notin> set (p_aborted t)" "p_status t = v"
  shows "case result of
      None \<Rightarrow> settled_as v (single_resume_end numStr c result again t)
    | Some e \<Rightarrow> asked_again again (single_resume_end numStr c result again t)"
  using assms
  by (cases again)
    (auto simp: single_resume_end_def single_attach_end_def single_attach_again_def drop_controller_def
      asked_again_def end_simps split: option.splits)

section \<open>Installations the page only polls for\<close>

text \<open>One poll, answered from the server's record.\<close>

definition vnc_poll :: "activeInstall \<Rightarrow> vnc_session \<Rightarrow> vnc_session" where
  "vnc_poll a s = vnc_hydrate (Some (GetActiveInstall (Some a))) s"

definition job_running :: "string \<Rightarrow> activeInstall \<Rightarrow> bool" where
  "job_running j a \<longleftrightarrow> ai_jobID a = j \<and> ai_status a = ''running''"

definition job_finished :: "string \<Rightarrow> activeInstall \<Rightarrow> bool" where
  "job_finished j a \<longleftrightarrow> ai_jobID a = j \<and> ai_status a \<in> {''success'', ''error'', ''cancelled''}"

lemma bg_keeps_running:
  "job_running j a \<Longrightarrow> job_running j (bg_queue_line l a)"
  "job_running j a \<Longrightarrow> job_running j (bg_installing a)"
  "job_running j a \<Longrightarrow> job_running j (ai_append stream text a)"
  "job_running j (bg_begin j auto)"
  by (simp_all add: job_running_def bg_queue_line_def bg_installing_def bg_begin_def ai_append_def
      ai_setMessage_def ai_setPhase_def Let_def)

lemma bg_end_finished: "job_running j a \<Longrightarrow> job_finished j (bg_end e a)"
  by (auto simp: job_running_def job_finished_def bg_end_def ai_finish_def split: script_end.splits)

text \<open>What a poll shows while the job runs.\<close>

definition shows_running :: "string \<Rightarrow> term_line list \<Rightarrow> vnc_session \<Rightarrow> bool" where
  "shows_running j ls s \<longleftrightarrow>
     p_installing s \<and> p_status s = Running \<and> p_lines s = ls \<and> p_job s = Some j \<and>
     v_hydratedJobId s = Some j"

lemma poll_running:
  "j \<noteq> [] \<Longrightarrow> job_running j a \<Longrightarrow>
     shows_running j (snapshot_lines (GetActiveInstall (Some a))) (vnc_poll a s)"
  by (simp add: vnc_poll_def vnc_hydrate_def GetActiveInstall_def job_running_def shows_running_def
      snapshot_running_def snapshot_status_def)

lemma poll_finished:
  "j \<noteq> [] \<Longrightarrow> job_finished j a \<Longrightarrow> v_hydratedJobId s = Some j \<Longrightarrow> vnc_poll a s = s"
  by (auto simp: vnc_poll_def vnc_hydrate_def GetActiveInstall_def job_finished_def
      snapshot_running_def)

lemma polls_finished:
  "j \<noteq> [] \<Longrightarrow> list_all (job_finished j) later \<Longrightarrow> v_hydratedJobId s = Some j \<Longrightarrow>
     fold vnc_poll later s = s"
  by (induction later) (simp_all add: poll_finished)

lemma shown_running_blocks:
  "shows_running j ls s \<Longrightarrow> vnc_startInstall u s = s"
  "shows_running j ls s \<Longrightarrow> vnc_auto_start missing can active s = s"
  by (simp_all add: shows_running_def vnc_startInstall_def vnc_auto_start_def)

text \<open>A page of a software whose stream is lost while the job runs.\<close>

definition stranded :: "single \<Rightarrow> bool" where
  "stranded s \<longleftrightarrow> p_installing s \<and> p_runs s = [] \<and> \<not> s_restoring s"

lemma stranded_step: "stranded s \<Longrightarrow> stranded (single_step v numStr i s)"
  by (cases i)
    (auto simp: stranded_def single_startInstall_def single_handleCancel_def appendLine_def
      single_cancel_answer_def hideTerminalSuccess_def single_uninstall_begin_def
      single_uninstall_end_def invalidateQueries_def notify_def Let_def split: option.splits sum.splits)

interpretation stranded_page: state_machine "single_step v numStr" stranded
  by unfold_locales (rule stranded_step)

section \<open>Followed logs stay bounded\<close>

definition log_bounded :: "log_view \<Rightarrow> bool" where
  "log_bounded s \<longleftrightarrow> length (lg_lines s) \<le> log_lines_max"

lemma log_append_bounded: "log_bounded (log_append stream text s)"
  by (simp add: log_bounded_def log_append_def log_lines_max_def Let_def)

lemma log_append_suffix: "\<exists>k. lg_lines (log_append stream text s) = drop k (lg_lines s) @ [(stream, text)]"
  by (rule exI [of _ "Suc (length (lg_lines s)) - log_lines_max"])
    (simp add: log_append_def log_lines_max_def Let_def)

lemma log_event_bounded: "log_bounded s \<Longrightarrow> log_bounded (log_onEvent ev s)"
  by (auto simp: log_onEvent_def log_append_bounded Let_def split: event_type.splits)
    (simp_all add: log_bounded_def)

section \<open>Properties\<close>

definition demo_event :: "event_type \<Rightarrow> string \<Rightarrow> bool \<Rightarrow> setup_event" where
  "demo_event t m ok =
     \<lparr>ev_type = t, ev_job = Some ''j1'', ev_line = Some m, ev_stream = None, ev_message = Some m,
      ev_success = ok, ev_name = None, ev_version = None, ev_url = None, ev_path = None,
      ev_unit = None, ev_data = None\<rparr>"

definition demo_runtime :: runtime_status where
  "demo_runtime = \<lparr>rs_software_id = Some ''code'', rs_software_name = None, rs_cli_command = None\<rparr>"

definition demo_software :: software_page where
  "demo_software = \<lparr>sp_id = ''code'', sp_hasUpdate = False, sp_isInstalled = False, sp_canUninstall = False\<rparr>"

text \<open>C5: Whatever the queue of installations reports, the user clicks and the streams deliver, the
  VS Code page follows at most one job: a stream is open exactly while its flag \<open>installing\<close> is set,
  with which it refuses to start or attach to another; it is the stream of the job the page is
  attached to, and its controller is the one that cancelling aborts. The status that is shown is
  another matter: it is Running without a stream while an entry of the queue waits, and after a
  stream has broken off without an outcome.\<close>

theorem gate_follows_one_job:
  "let s = fold (gate_step r numStr) inputs new_gate in
   p_runs s = (case p_ctl s of
       Some c \<Rightarrow> if p_installing s then [(c, g_attached s)] else []
     | None \<Rightarrow> []) \<and>
   (p_runs s \<noteq> [] \<longleftrightarrow> p_installing s)"
proof -
  have "gate_inv (fold (gate_step r numStr) inputs new_gate)"
    using new_gate_inv by (rule gate_machine.fold_inv)
  then show ?thesis unfolding Let_def by (rule gate_inv_cases) (simp_all split: option.split)
qed

lemma run_outcomes:
  assumes "at_rest s" "at_rest p" "at_rest w" "at_rest g"
    and "sp_id v \<noteq> []" "gate_softwareId r \<noteq> []" "g_attached g = None" "j \<noteq> []"
    and "jn_status job = ''running''"
  shows "let t = fold (vnc_play numStr u) items (vnc_startInstall u s) in
      settled_as (run_shows Success Cancelled (p_next s \<in> set (p_aborted t)) result
          (last_verdict told_verdict Running items))
        (vnc_install_end numStr (p_next s) result t)" (is ?settings)
    and "let t = fold (rdp_play numStr) items (rdp_startInstall False p) in
      settled_as (run_shows Success Cancelled (p_next p \<in> set (p_aborted t)) result
          (last_verdict told_verdict Running items))
        (rdp_install_end numStr (p_next p) result t)" (is ?rdp)
    and "let t = fold (user_rdp_play reinstall) items (user_rdp_start reinstall p) in
      settled_as (run_shows Success Cancelled (p_next p \<in> set (p_aborted t)) result
          (last_verdict user_verdict Running items))
        (user_rdp_end (p_next p) result t)" (is ?user)
    and "let t = fold (single_play numStr) items (single_startInstall v w) in
      settled_as (run_shows Success Running False result (last_verdict told_verdict Running items))
        (single_install_end numStr (p_next w) result t)" (is ?single)
    and "let t = fold (single_play numStr) items (single_restore (Inr (Some job)) w);
             t' = single_resume_end numStr (p_next w) result again t
         in case result of
              None \<Rightarrow> settled_as (last_verdict told_verdict Running items) t'
            | Some e \<Rightarrow> asked_again again t'" (is ?resumed)
    and "let t = fold (gate_play r numStr) items (gate_startInstall r g) in
      settled_as (run_shows Running Cancelled (p_next g \<in> set (p_aborted t)) result
          (last_verdict told_verdict Running items))
        (gate_install_end numStr (p_next g) result t)" (is ?gate)
    and "let t = fold (gate_play r numStr) items (gate_attachToJob j g) in
      settled_as (run_shows Running Cancelled (p_next g \<in> set (p_aborted t)) result
          (last_verdict told_verdict Running items))
        (gate_attach_end numStr (p_next g) j result t)" (is ?attached)
proof -
  show ?settings
    using vnc_started [OF assms(1), of u] vnc_run.played [of numStr u items "vnc_startInstall u s"]
    unfolding vnc_install_end_def Let_def by (intro stream_end_settles) simp_all
  show ?rdp
    using rdp_started [OF assms(2)] rdp_run.played [of numStr items "rdp_startInstall False p"]
    unfolding rdp_install_end_def Let_def by (intro stream_end_settles) simp_all
  show ?user
    using user_rdp_started [OF assms(2), of reinstall]
      user_rdp_run.played [of reinstall items "user_rdp_start reinstall p"]
    unfolding Let_def by (intro user_end_settles) simp_all
  show ?single
    using single_started [OF assms(3,5)] single_run.played [of numStr items "single_startInstall v w"]
      single_end_settles [of "fold (single_play numStr) items (single_startInstall v w)"]
    by (simp add: Let_def)
  show ?resumed
    using single_resumed [OF assms(3,9)]
      single_run.played [of numStr items "single_restore (Inr (Some job)) w"]
    unfolding Let_def by (intro resume_settles) simp_all
  show ?gate
    using gate_started [OF assms(4,6)] gate_run.played [of r numStr items "gate_startInstall r g"]
    unfolding Let_def by (intro gate_end_settles) simp_all
  show ?attached
    using gate_attached_run [OF assms(4,7,8)] gate_run.played [of r numStr items "gate_attachToJob j g"]
    unfolding Let_def by (intro gate_end_settles) simp_all
qed



text \<open>C3: A setup that the server runs in the background is followed by polling: while it runs, the
  terminal shows exactly the server's lines. But no later poll shows that it has finished: the page
  stays with the lines of the last poll before, shows the setup as running, and refuses to start
  another one.\<close>

theorem polled_setup_never_ends:
  assumes "j \<noteq> []" "polls \<noteq> []" "list_all (job_running j) polls" "list_all (job_finished j) later"
  shows "let s' = fold vnc_poll (polls @ later) s in
    shows_running j (snapshot_lines (GetActiveInstall (Some (last polls)))) s' \<and>
    vnc_startInstall asUpdate s' = s' \<and> vnc_auto_start missing can active s' = s'"
proof -
  obtain ps a where p: "polls = ps @ [a]" using assms(2) by (metis append_butlast_last_id)
  then have "job_running j a" using assms(3) by simp
  note a = poll_running [OF assms(1) this, of "fold vnc_poll ps s"]
  then have "fold vnc_poll later (vnc_poll a (fold vnc_poll ps s)) = vnc_poll a (fold vnc_poll ps s)"
    using polls_finished [OF assms(1) assms(4)] by (simp add: shows_running_def)
  with a show ?thesis by (simp add: p shown_running_blocks [OF a] Let_def)
qed

theorem polled_setup_never_ends_witness:
  "let a = bg_installing (bg_begin ''j1'' True); s' = fold vnc_poll [bg_begin ''j1'' True, a, bg_end ScriptDone a] new_vnc_session
   in shows_running ''j1'' (snapshot_lines (GetActiveInstall (Some a))) s' \<and>
      vnc_startInstall False s' = s' \<and> vnc_auto_start True True None s' = s'"
proof -
  have r: "job_running ''j1'' (bg_begin ''j1'' True)"
    "job_running ''j1'' (bg_installing (bg_begin ''j1'' True))"
    by (intro bg_keeps_running)+
  show ?thesis
    using polled_setup_never_ends [of "''j1''" "[bg_begin ''j1'' True, bg_installing (bg_begin ''j1'' True)]"
        "[bg_end ScriptDone (bg_installing (bg_begin ''j1'' True))]" new_vnc_session False True True None]
      r bg_end_finished [OF r(2)]
    by (simp add: Let_def)
qed

text \<open>A page that has lost the stream of a job which still runs never leaves that state: no stream
  is open, nothing it does opens one, and it shows the installation as under way for good.\<close>

lemma lost_stream_never_resumed:
  assumes "p_runs s = [(c, Some j)]" "\<not> s_restoring s" "jn_status job = ''running''"
  shows "stranded (fold (single_step v numStr) inputs (single_attach_again c (Inr (Some job)) s))"
proof (rule stranded_page.fold_inv)
  show "stranded (single_attach_again c (Inr (Some job)) s)"
    using assms by (simp add: single_attach_again_def stranded_def close_run_def drop_controller_def)
qed

text \<open>The timer that hides the terminal after a success is not cancelled by a new installation: it
  then hides the terminal of the new one, and the cancel button has no job to name.\<close>

lemma hide_timer_forgets_job:
  assumes "p_installing s" "0 < s_hide_timers s"
  shows "let s' = single_step v numStr SingleHideTimer s in
    p_installing s' \<and> p_runs s' = p_runs s \<and> \<not> p_open s' \<and> p_status s' = Idle \<and>
    p_requests (single_step v numStr SingleCancel s') = p_requests s"
  using assms by (simp add: hideTerminalSuccess_def single_handleCancel_def appendLine_def)

end
