(* ===== verification/Module_Api.thy ===== *)
theory Module_Api
  imports Docker_Api Sse_Stream
begin

text \<open>
  The requests of the other modules: sign-in, settings, softwares and packages, remote desktop,
  users and their keys, dashboard, VS Code workspaces, reverse proxy. As in \<open>Docker_Api\<close>, one
  definition per request function, its arguments first and the request it sends as the result; a
  request body is a value, an optional argument that is left out is \<open>None\<close>.
\<close>

text \<open>\<open>x ?? ""\<close> and an entry that is there only when the value is not empty.\<close>

definition nonempty_arg :: "string option \<Rightarrow> string" where
  "nonempty_arg x = (case x of Some s \<Rightarrow> s | None \<Rightarrow> [])"

definition field_if :: "string \<Rightarrow> string \<Rightarrow> obj" where
  "field_if k v = (if v \<noteq> [] then [(k, JStr v)] else [])"


section \<open>Sign-in\<close>

text \<open>\<open>modules/authorization/pages/sign-in/api/index.ts\<close>\<close>

definition BASE_URL :: string where "BASE_URL = ''/authorization''"

definition getBranding :: api_request where
  "getBranding =
     request ''get'' (BASE_URL @ ''/branding'')"

definition signIn_request :: "jv \<Rightarrow> api_request" where
  "signIn_request data =
     with_data data (request ''post'' (BASE_URL @ ''/signin''))"

definition localSignIn :: api_request where
  "localSignIn =
     request ''post'' (BASE_URL @ ''/local-signin'')"

text \<open>The request with its headers and the mark that it is a refresh.\<close>

definition check_request :: "string \<Rightarrow> api_request \<times> (string \<times> string) list \<times> bool" where
  "check_request refreshToken =
     (with_data (JObj [(''refresh_token'', JStr refreshToken)]) (request ''post'' (BASE_URL @ ''/check'')),
      [(''accept'', ''application/json''), (REQUEST_HEADER_AUTH_KEY, TOKEN_TYPE @ refreshToken)], True)"

section \<open>Settings\<close>

text \<open>\<open>modules/settings/pages/options/api/index.ts\<close>\<close>

definition SETTINGS_OPTIONS_BASE :: string where
  "SETTINGS_OPTIONS_BASE = ''/settings/options''"

definition listOptions :: api_request where
  "listOptions =
     request ''get'' SETTINGS_OPTIONS_BASE"

definition getOption :: "string \<Rightarrow> api_request" where
  "getOption i =
     request ''get'' (SETTINGS_OPTIONS_BASE @ ''/'' @ i)"

definition updateOption :: "string \<Rightarrow> jv \<Rightarrow> api_request" where
  "updateOption i input =
     with_data input (request ''put'' (SETTINGS_OPTIONS_BASE @ ''/'' @ i))"

definition deleteOption :: "string \<Rightarrow> api_request" where
  "deleteOption i =
     request ''delete'' (SETTINGS_OPTIONS_BASE @ ''/'' @ i)"

definition createOption :: "string \<Rightarrow> jv \<Rightarrow> api_request" where
  "createOption name value =
     with_data (JObj [(''name'', JStr name), (''value'', value)]) (request ''post'' SETTINGS_OPTIONS_BASE)"

text \<open>\<open>modules/settings/pages/general/api/index.ts\<close>\<close>

definition SETTINGS_GENERAL_BASE :: string where
  "SETTINGS_GENERAL_BASE = ''/settings/general''"

definition getGeneralSettings :: api_request where
  "getGeneralSettings =
     request ''get'' SETTINGS_GENERAL_BASE"

definition updateModuleSettings :: "jv \<Rightarrow> api_request" where
  "updateModuleSettings input =
     with_data input (request ''put'' (SETTINGS_GENERAL_BASE @ ''/modules''))"

definition updateGeneralSettings :: "string \<Rightarrow> string \<Rightarrow> api_request" where
  "updateGeneralSettings name description =
     with_data (JObj [(''workspace_name'', JStr name), (''workspace_description'', JStr description)])
       (request ''put'' SETTINGS_GENERAL_BASE)"

text \<open>\<open>modules/settings/pages/update/api/index.ts\<close>\<close>

definition SETTINGS_UPDATE_BASE :: string where
  "SETTINGS_UPDATE_BASE = ''/settings/update''"

definition getUpdateStatus :: api_request where
  "getUpdateStatus =
     request ''get'' (SETTINGS_UPDATE_BASE @ ''/status'')"

definition checkForUpdates :: api_request where
  "checkForUpdates =
     request ''post'' (SETTINGS_UPDATE_BASE @ ''/check'')"

definition listUpdateReleases :: api_request where
  "listUpdateReleases =
     request ''get'' (SETTINGS_UPDATE_BASE @ ''/releases'')"

text \<open>With the time-out of the request, in milliseconds.\<close>

definition applyUpdate :: "string \<Rightarrow> bool \<Rightarrow> api_request \<times> nat" where
  "applyUpdate version force =
     (with_data (JObj [(''version'', JStr version), (''force'', JBool force)])
        (request ''post'' (SETTINGS_UPDATE_BASE @ ''/apply'')), 900000)"

text \<open>\<open>modules/settings/pages/environments/api/index.ts\<close>\<close>

definition SETTINGS_ENV_BASE :: string where
  "SETTINGS_ENV_BASE = ''/settings/environments''"

definition getEnvironment :: "string \<Rightarrow> api_request" where
  "getEnvironment i =
     request ''get'' (SETTINGS_ENV_BASE @ ''/'' @ i)"

definition updateEnvironment :: "string \<Rightarrow> jv \<Rightarrow> api_request" where
  "updateEnvironment i input =
     with_data input (request ''put'' (SETTINGS_ENV_BASE @ ''/'' @ i))"

definition deleteEnvironment :: "string \<Rightarrow> api_request" where
  "deleteEnvironment i =
     request ''delete'' (SETTINGS_ENV_BASE @ ''/'' @ i)"

definition listEnvironments :: "string option \<Rightarrow> api_request" where
  "listEnvironments grp =
     with_params (case nonempty_arg grp of [] \<Rightarrow> None | g \<Rightarrow> Some [(''group'', JStr g)])
       (request ''get'' SETTINGS_ENV_BASE)"

definition createEnvironment ::
  "string \<Rightarrow> string \<Rightarrow> string option \<Rightarrow> bool option \<Rightarrow> bool option \<Rightarrow> bool option \<Rightarrow> api_request" where
  "createEnvironment name value grp secret disabled textarea =
     with_data (JObj [(''name'', JStr name), (''value'', JStr value), (''group'', JStr (nonempty_arg grp)),
         (''is_secret'', JBool (secret = Some True)), (''is_disabled'', JBool (disabled = Some True)),
         (''is_textarea'', JBool (textarea = Some True))])
       (request ''post'' SETTINGS_ENV_BASE)"

text \<open>\<open>modules/settings/pages/mcp/api/index.ts\<close>\<close>

definition SETTINGS_MCP_STANDALONE_BASE :: string where
  "SETTINGS_MCP_STANDALONE_BASE = ''/settings/mcp/standalone''"

definition SETTINGS_MCP_ADDRESSES_BASE :: string where
  "SETTINGS_MCP_ADDRESSES_BASE = ''/settings/mcp/addresses''"

definition SETTINGS_MCP_KEYS_BASE :: string where
  "SETTINGS_MCP_KEYS_BASE = ''/settings/mcp/keys''"

definition getMcpStandalone :: api_request where
  "getMcpStandalone =
     request ''get'' SETTINGS_MCP_STANDALONE_BASE"

definition updateMcpStandalone :: "jv \<Rightarrow> api_request" where
  "updateMcpStandalone input =
     with_data input (request ''put'' SETTINGS_MCP_STANDALONE_BASE)"

definition listMcpBindAddresses :: api_request where
  "listMcpBindAddresses =
     request ''get'' SETTINGS_MCP_ADDRESSES_BASE"

definition listMcpKeys :: api_request where
  "listMcpKeys =
     request ''get'' SETTINGS_MCP_KEYS_BASE"

definition getMcpKey :: "string \<Rightarrow> api_request" where
  "getMcpKey i =
     request ''get'' (SETTINGS_MCP_KEYS_BASE @ ''/'' @ i)"

definition updateMcpKey :: "string \<Rightarrow> jv \<Rightarrow> api_request" where
  "updateMcpKey i input =
     with_data input (request ''put'' (SETTINGS_MCP_KEYS_BASE @ ''/'' @ i))"

definition revokeMcpKey :: "string \<Rightarrow> api_request" where
  "revokeMcpKey i =
     request ''post'' (SETTINGS_MCP_KEYS_BASE @ ''/'' @ i @ ''/revoke'')"

definition deleteMcpKey :: "string \<Rightarrow> api_request" where
  "deleteMcpKey i =
     request ''delete'' (SETTINGS_MCP_KEYS_BASE @ ''/'' @ i)"

definition createMcpKey :: "string \<Rightarrow> string option \<Rightarrow> nat option \<Rightarrow> api_request" where
  "createMcpKey name description days =
     with_data (JObj [(''name'', JStr name), (''description'', JStr (nonempty_arg description)),
         (''expires_in_days'', JNum (of_nat (case days of Some d \<Rightarrow> d | None \<Rightarrow> 0)))])
       (request ''post'' SETTINGS_MCP_KEYS_BASE)"

section \<open>Softwares\<close>

text \<open>\<open>modules/softwares/pages/remotepkg/api/index.ts\<close>\<close>

definition REMOTEPKG_LIST_BASE :: string where
  "REMOTEPKG_LIST_BASE = ''/softwares/remotepkg/list''"

definition REMOTEPKG_PACKAGES_BASE :: string where
  "REMOTEPKG_PACKAGES_BASE = ''/softwares/remotepkg/packages''"

definition REMOTEPKG_BASE :: string where
  "REMOTEPKG_BASE = ''/softwares/remotepkg''"

definition createRegistry :: "jv \<Rightarrow> api_request" where
  "createRegistry data =
     with_data data (request ''post'' REMOTEPKG_BASE)"

definition updateRegistry :: "string \<Rightarrow> jv \<Rightarrow> api_request" where
  "updateRegistry i data =
     with_data data (request ''put'' (REMOTEPKG_BASE @ ''/'' @ i))"

definition deleteRegistry :: "string \<Rightarrow> api_request" where
  "deleteRegistry i =
     request ''delete'' (REMOTEPKG_BASE @ ''/'' @ i)"

definition getRegistriesList :: "string \<Rightarrow> api_request" where
  "getRegistriesList q =
     with_params (if trim q \<noteq> [] then Some [(''q'', JStr (trim q))] else None)
       (request ''get'' REMOTEPKG_LIST_BASE)"

definition getRemotePackages :: "string option \<Rightarrow> string option \<Rightarrow> api_request" where
  "getRemotePackages q packageId =
     with_params (Some (field_if ''q'' (trim (nonempty_arg q)) @ field_if ''package_id'' (nonempty_arg packageId)))
       (request ''get'' REMOTEPKG_PACKAGES_BASE)"

text \<open>\<open>modules/softwares/pages/package/api/index.ts\<close>\<close>

definition PACKAGE_BASE :: string where
  "PACKAGE_BASE = ''/softwares/package''"

definition getSoftwarePackage :: "string \<Rightarrow> api_request" where
  "getSoftwarePackage i =
     request ''get'' (PACKAGE_BASE @ ''/'' @ i)"

definition updateSoftwarePackage :: "string \<Rightarrow> jv \<Rightarrow> api_request" where
  "updateSoftwarePackage i data =
     with_data data (request ''put'' (PACKAGE_BASE @ ''/'' @ i))"

definition createSoftwareVersion :: "string \<Rightarrow> jv \<Rightarrow> api_request" where
  "createSoftwareVersion softwareId data =
     with_data data (request ''post'' (PACKAGE_BASE @ ''/'' @ softwareId @ ''/versions''))"

definition updateSoftwareVersion :: "string \<Rightarrow> string \<Rightarrow> jv \<Rightarrow>
  api_request" where
  "updateSoftwareVersion softwareId versionId data =
     with_data data (request ''put'' (PACKAGE_BASE @ ''/'' @ softwareId @ ''/versions/''
       @ versionId))"

definition deleteSoftwareVersion :: "string \<Rightarrow> string \<Rightarrow> api_request" where
  "deleteSoftwareVersion softwareId versionId =
     request ''delete'' (PACKAGE_BASE @ ''/'' @ softwareId @ ''/versions/'' @ versionId)"

text \<open>\<open>modules/softwares/pages/list/api/index.ts\<close>\<close>

definition SOFTWARES_SINGLE_BASE :: string where "SOFTWARES_SINGLE_BASE = ''/softwares/single''"

definition SOFTWARES_LIST_BASE :: string where
  "SOFTWARES_LIST_BASE = ''/softwares/list''"

definition SOFTWARES_SERVICE_BASE :: string where
  "SOFTWARES_SERVICE_BASE = ''/softwares/service''"

definition controlSoftwareService :: "string \<Rightarrow> string \<Rightarrow> api_request" where
  "controlSoftwareService i action =
     request ''post'' (SOFTWARES_SERVICE_BASE @ ''/'' @ i @ ''/'' @ action)"

definition getSoftwareServiceStatus :: "string \<Rightarrow> api_request" where
  "getSoftwareServiceStatus i =
     request ''get'' (SOFTWARES_SERVICE_BASE @ ''/'' @ i @ ''/status'')"

definition getSoftwareServiceLogs :: "string \<Rightarrow> nat \<Rightarrow> api_request" where
  "getSoftwareServiceLogs i lines =
     with_params (Some [(''lines'', JNum (of_nat lines))])
       (request ''get'' (SOFTWARES_SERVICE_BASE @ ''/'' @ i @ ''/logs''))"

definition enqueueSoftwareActions :: "string \<Rightarrow> string list \<Rightarrow> api_request"
  where
  "enqueueSoftwareActions action softwareIds =
     with_data (JObj [(''action'', JStr action), (''software_ids'', JArr (map JStr
       softwareIds))]) (request ''post'' (SOFTWARES_INSTALL_BASE @ ''/queue''))"

definition getSoftwareQueue :: api_request where
  "getSoftwareQueue =
     request ''get'' (SOFTWARES_INSTALL_BASE @ ''/queue'')"

text \<open>The query of the catalogue, with its defaults, and the request that carries it.\<close>

record softwares_query =
  sq_page :: nat
  sq_limit :: nat
  sq_q :: string
  sq_category :: string
  sq_status :: string
  sq_sort :: string
  sq_source :: string
  sq_refresh :: bool

definition default_softwares_query :: softwares_query where
  "default_softwares_query = \<lparr>sq_page = 1, sq_limit = 12, sq_q = [], sq_category = ''all'',
     sq_status = ''all'', sq_sort = ''order'', sq_source = ''local'', sq_refresh = False\<rparr>"

text \<open>An entry unless the value is empty or the default.\<close>

definition field_unless :: "string \<Rightarrow> string \<Rightarrow> string \<Rightarrow> obj" where
  "field_unless k d v = (if v \<noteq> [] \<and> v \<noteq> d then [(k, JStr v)] else [])"

definition wantsRemote :: "softwares_query \<Rightarrow> bool" where
  "wantsRemote s \<longleftrightarrow> sq_refresh s \<or> trim (sq_q s) \<noteq> [] \<or> sq_source s = ''remote'' \<or> sq_source s = ''all''"

definition getSoftwaresList :: "softwares_query \<Rightarrow> api_request" where
  "getSoftwaresList s =
     with_params (Some ([(''page'', JNum (of_nat (sq_page s))), (''limit'', JNum (of_nat (sq_limit s))),
         (''source'', JStr (sq_source s))] @ field_if ''q'' (trim (sq_q s)) @
         field_unless ''category'' ''all'' (sq_category s) @ field_unless ''status'' ''all'' (sq_status s) @
         field_unless ''sort'' ''order'' (sq_sort s) @
         (if wantsRemote s then [(''refresh'', JNum 1)] else [])))
       (request ''get'' SOFTWARES_LIST_BASE)"

definition importRemoteSoftware :: "string \<Rightarrow> string option \<Rightarrow> string option \<Rightarrow> api_request" where
  "importRemoteSoftware name packageId rf =
     with_data (JObj ([(''name'', JStr name)] @ field_if ''package_id'' (nonempty_arg packageId) @
         field_if ''ref'' (nonempty_arg rf)))
       (request ''post'' ''/softwares/package/import'')"

definition retrySoftwareQueueItem :: "string option \<Rightarrow> string \<Rightarrow> string option \<Rightarrow> api_request" where
  "retrySoftwareQueueItem i softwareId action =
     with_data (JObj (field_if ''id'' (nonempty_arg i) @ [(''software_id'', JStr softwareId),
         (''action'', JStr (if nonempty_arg action \<noteq> [] then nonempty_arg action else ''install''))]))
       (request ''post'' (SOFTWARES_INSTALL_BASE @ ''/queue/retry''))"

definition dismissSoftwareQueueItem :: "string option \<Rightarrow> string option \<Rightarrow> api_request" where
  "dismissSoftwareQueueItem i softwareId =
     with_data (JObj (field_if ''id'' (nonempty_arg i) @ field_if ''software_id'' (nonempty_arg softwareId)))
       (request ''post'' (SOFTWARES_INSTALL_BASE @ ''/queue/dismiss''))"

datatype software_status =
  SwInstalling | SwUpdating | SwUninstalled | SwMissing | SwUpdateAvailable | SwInstalled | SwNotInstalled

definition softwareInstallStatus ::
  "bool \<Rightarrow> bool \<Rightarrow> bool \<Rightarrow> bool \<Rightarrow> string option \<Rightarrow> software_status" where
  "softwareInstallStatus isInstalled hasUpdate osMissing uninstalled busy =
     (if busy = Some ''installing'' then SwInstalling
      else if busy = Some ''updating'' then SwUpdating
      else if uninstalled then SwUninstalled
      else if isInstalled \<and> osMissing then SwMissing
      else if hasUpdate then SwUpdateAvailable
      else if isInstalled then SwInstalled
      else SwNotInstalled)"

text \<open>\<open>modules/softwares/pages/single/api/index.ts\<close>\<close>

definition installSoftware :: "string \<Rightarrow> api_request" where
  "installSoftware i =
     request ''post'' (SOFTWARES_INSTALL_BASE @ ''/'' @ i)"

definition getLatestInstallJob :: "string \<Rightarrow> api_request" where
  "getLatestInstallJob softwareId =
     request ''get'' (SOFTWARES_INSTALL_BASE @ ''/'' @ softwareId @ ''/job'')"

definition cancelInstallJob :: "string \<Rightarrow> api_request" where
  "cancelInstallJob jobId =
     request ''post'' (SOFTWARES_INSTALL_BASE @ ''/jobs/'' @ jobId @ ''/cancel'')"

definition getSoftwareSingle :: "string \<Rightarrow> bool option \<Rightarrow> api_request" where
  "getSoftwareSingle i sync =
     with_params (Some [(''sync'', JNum (if sync \<noteq> Some False then 1 else 0))])
       (request ''get'' (SOFTWARES_SINGLE_BASE @ ''/'' @ i))"

text \<open>\<open>modules/brew/pages/api/index.ts\<close>\<close>

definition BREW_BASE :: string where
  "BREW_BASE = ''/brew''"

definition getBrewStatus :: api_request where
  "getBrewStatus =
     request ''get'' (BREW_BASE @ ''/status'')"

definition startBrewBootstrap :: api_request where
  "startBrewBootstrap =
     request ''post'' (BREW_BASE @ ''/bootstrap'')"

definition getBrewInstalled :: api_request where
  "getBrewInstalled =
     request ''get'' (BREW_BASE @ ''/installed'')"

definition getBrewJob :: "string \<Rightarrow> api_request" where
  "getBrewJob i =
     request ''get'' (BREW_BASE @ ''/jobs/'' @ encodeURIComponent i)"

definition switchPackageManager :: "string \<Rightarrow> string \<Rightarrow> api_request" where
  "switchPackageManager softwareId target =
     with_data (JObj [(''software_id'', JStr softwareId), (''target'', JStr target)])
       (request ''post'' (BREW_BASE @ ''/switch''))"

definition getBrewFormulae :: "obj \<Rightarrow> api_request" where
  "getBrewFormulae params = with_params (Some params) (request ''get'' (BREW_BASE @ ''/formulae''))"

definition getBrewFormula :: "string \<Rightarrow> string option \<Rightarrow> api_request" where
  "getBrewFormula name kind =
     with_params (case nonempty_arg kind of [] \<Rightarrow> None | k \<Rightarrow> Some [(''kind'', JStr k)])
       (request ''get'' (BREW_BASE @ ''/formulae/'' @ encodeURIComponent name))"

definition checkBrewUpdates :: "bool option \<Rightarrow> api_request" where
  "checkBrewUpdates upgrade =
     with_data (JObj [(''upgrade'', JBool (upgrade \<noteq> Some False))])
       (request ''post'' (BREW_BASE @ ''/check-updates''))"

definition getBrewAnalytics :: "nat \<Rightarrow> api_request" where
  "getBrewAnalytics days = request ''get'' (BREW_BASE @ ''/analytics/install/'' @ show_nat days)"

definition runBrewAction :: "string \<Rightarrow> string list \<Rightarrow> string option \<Rightarrow> api_request" where
  "runBrewAction action names kind =
     with_data (JObj [(''action'', JStr action), (''names'', JArr (map JStr names)),
         (''kind'', (case kind of Some k \<Rightarrow> JStr k | None \<Rightarrow> JUndef))])
       (request ''post'' (BREW_BASE @ ''/actions''))"

section \<open>Remote desktop\<close>

text \<open>\<open>modules/vnc-novnc/pages/settings/api/index.ts\<close>\<close>

definition detectVncSetup :: api_request where
  "detectVncSetup =
     request ''get'' (VNC_SETUP_BASE @ ''/detect'')"

definition getVncSetupStatus :: api_request where
  "getVncSetupStatus =
     request ''get'' (VNC_SETUP_BASE @ ''/status'')"

definition cancelVncSetupJob :: "string \<Rightarrow> api_request" where
  "cancelVncSetupJob jobId =
     request ''post'' (VNC_SETUP_BASE @ ''/jobs/'' @ jobId @ ''/cancel'')"

definition getVncServiceStatus :: api_request where
  "getVncServiceStatus =
     request ''get'' (VNC_SERVICE_BASE @ ''/status'')"

definition startVncService :: api_request where
  "startVncService =
     request ''post'' (VNC_SERVICE_BASE @ ''/start'')"

definition stopVncService :: api_request where
  "stopVncService =
     request ''post'' (VNC_SERVICE_BASE @ ''/stop'')"

definition getRdpSetupStatus :: api_request where
  "getRdpSetupStatus =
     request ''get'' (RDP_SETUP_BASE @ ''/status'')"

definition cancelRdpSetupJob :: "string \<Rightarrow> api_request" where
  "cancelRdpSetupJob jobId =
     request ''post'' (RDP_SETUP_BASE @ ''/jobs/'' @ jobId @ ''/cancel'')"

text \<open>\<open>modules/vnc-novnc/pages/logs/api/index.ts\<close>\<close>

definition getVncServiceLogSnapshot :: api_request where
  "getVncServiceLogSnapshot =
     request ''get'' (VNC_SERVICE_BASE @ ''/logs'')"

section \<open>Users\<close>

text \<open>\<open>modules/users/pages/list/api/index.ts\<close>\<close>

definition USERS_LIST_BASE :: string where
  "USERS_LIST_BASE = ''/users/list''"

definition USERS_SINGLE_BASE :: string where
  "USERS_SINGLE_BASE = ''/users/single''"

definition getUsersList :: api_request where
  "getUsersList =
     request ''get'' USERS_LIST_BASE"

definition getUserFormOptions :: api_request where
  "getUserFormOptions =
     request ''get'' (USERS_LIST_BASE @ ''/options'')"

definition getUser :: "string \<Rightarrow> api_request" where
  "getUser i =
     request ''get'' (USERS_SINGLE_BASE @ ''/'' @ i)"

definition createUser :: "jv \<Rightarrow> api_request" where
  "createUser body =
     with_data body (request ''post'' USERS_SINGLE_BASE)"

definition updateUser :: "string \<Rightarrow> jv \<Rightarrow> api_request" where
  "updateUser i body =
     with_data body (request ''put'' (USERS_SINGLE_BASE @ ''/'' @ i))"

definition setPanelPassword :: "string \<Rightarrow> string \<Rightarrow> api_request" where
  "setPanelPassword i password =
     with_data (JObj [(''password'', JStr password)])
       (request ''post'' (USERS_SINGLE_BASE @ ''/'' @ i @ ''/password''))"

definition provisionLinux :: "string \<Rightarrow> jv \<Rightarrow> api_request" where
  "provisionLinux i body =
     with_data body (request ''post'' (USERS_SINGLE_BASE @ ''/'' @ i @ ''/linux''))"

definition updateLinux :: "string \<Rightarrow> jv \<Rightarrow> api_request" where
  "updateLinux i body =
     with_data body (request ''put'' (USERS_SINGLE_BASE @ ''/'' @ i @ ''/linux''))"

definition setLinuxGroups :: "string \<Rightarrow> string list \<Rightarrow> api_request" where
  "setLinuxGroups i groups =
     with_data (JObj [(''groups'', JArr (map JStr groups))])
       (request ''post'' (USERS_SINGLE_BASE @ ''/'' @ i @ ''/linux/groups''))"

definition setLinuxPassword :: "string \<Rightarrow> string \<Rightarrow> api_request" where
  "setLinuxPassword i password =
     with_data (JObj [(''password'', JStr password)])
       (request ''post'' (USERS_SINGLE_BASE @ ''/'' @ i @ ''/linux/password''))"

definition lockLinux :: "string \<Rightarrow> api_request" where
  "lockLinux i =
     request ''post'' (USERS_SINGLE_BASE @ ''/'' @ i @ ''/linux/lock'')"

definition unlockLinux :: "string \<Rightarrow> api_request" where
  "unlockLinux i =
     request ''post'' (USERS_SINGLE_BASE @ ''/'' @ i @ ''/linux/unlock'')"

definition list_createVncProfile :: "string \<Rightarrow> jv \<Rightarrow> api_request" where
  "list_createVncProfile i body =
     with_data body (request ''post'' (USERS_SINGLE_BASE @ ''/'' @ i @ ''/vnc''))"

definition list_startVncProfile :: "string \<Rightarrow> api_request" where
  "list_startVncProfile i =
     request ''post'' (USERS_SINGLE_BASE @ ''/'' @ i @ ''/vnc/start'')"

definition list_stopVncProfile :: "string \<Rightarrow> api_request" where
  "list_stopVncProfile i =
     request ''post'' (USERS_SINGLE_BASE @ ''/'' @ i @ ''/vnc/stop'')"

definition deleteUser :: "string \<Rightarrow> bool \<Rightarrow> bool \<Rightarrow> api_request" where
  "deleteUser i deleteLinux removeHome =
     (let qs = js_join ''&'' ((if deleteLinux then [''delete_linux=true''] else []) @
                 (if removeHome then [''remove_home=true''] else []))
      in request ''delete'' (USERS_SINGLE_BASE @ ''/'' @ i @ (if qs \<noteq> [] then ''?'' @ qs else [])))"

text \<open>\<open>modules/users/pages/single/keys/api/index.ts\<close>\<close>

definition keysBase :: "string \<Rightarrow> string" where
  "keysBase userId = USERS_SINGLE_BASE @ ''/'' @ userId @ ''/keys''"

definition getUserKeys :: "string \<Rightarrow> bool \<Rightarrow> api_request" where
  "getUserKeys userId includePrivate =
     request ''get'' (keysBase userId @ (if includePrivate then ''?include_private=1'' else []))"

definition addAuthorizedKey :: "string \<Rightarrow> jv \<Rightarrow> api_request" where
  "addAuthorizedKey userId body = with_data body (request ''post'' (keysBase userId @ ''/authorized''))"

definition removeAuthorizedKey :: "string \<Rightarrow> nat \<Rightarrow> api_request" where
  "removeAuthorizedKey userId idx =
     request ''delete'' (keysBase userId @ ''/authorized/'' @ show_nat idx)"

definition generateIdentityKey :: "string \<Rightarrow> jv \<Rightarrow> api_request" where
  "generateIdentityKey userId body = with_data body (request ''post'' (keysBase userId @ ''/identity''))"

definition deleteIdentityKey :: "string \<Rightarrow> api_request" where
  "deleteIdentityKey userId = request ''delete'' (keysBase userId @ ''/identity'')"

definition authorizeIdentityKey :: "string \<Rightarrow> api_request" where
  "authorizeIdentityKey userId = request ''post'' (keysBase userId @ ''/identity/authorize'')"

definition listSSHSessions :: "string \<Rightarrow> api_request" where
  "listSSHSessions userId = request ''get'' (keysBase userId @ ''/sessions'')"

definition killSSHSession :: "string \<Rightarrow> string \<Rightarrow> api_request" where
  "killSSHSession userId sessionId =
     request ''delete'' (keysBase userId @ ''/sessions/'' @ encodeURIComponent sessionId)"

text \<open>\<open>modules/users/pages/single/vnc/api/index.ts\<close>\<close>

definition getVncProfile :: "string \<Rightarrow> api_request" where
  "getVncProfile userId =
     request ''get'' (USERS_SINGLE_BASE @ ''/'' @ userId @ ''/vnc'')"

definition listVncBindAddresses :: "string \<Rightarrow> api_request" where
  "listVncBindAddresses userId =
     request ''get'' (USERS_SINGLE_BASE @ ''/'' @ userId @ ''/vnc/addresses'')"

definition createVncProfile :: "string \<Rightarrow> jv \<Rightarrow> api_request" where
  "createVncProfile userId body =
     with_data body (request ''post'' (USERS_SINGLE_BASE @ ''/'' @ userId @ ''/vnc''))"

definition updateVncProfile :: "string \<Rightarrow> jv \<Rightarrow> api_request" where
  "updateVncProfile userId body =
     with_data body (request ''put'' (USERS_SINGLE_BASE @ ''/'' @ userId @ ''/vnc''))"

definition setVncPassword :: "string \<Rightarrow> string \<Rightarrow> api_request" where
  "setVncPassword userId vnc_password =
     with_data (JObj [(''vnc_password'', JStr vnc_password)])
       (request ''post'' (USERS_SINGLE_BASE @ ''/'' @ userId @ ''/vnc/password''))"

definition startVncProfile :: "string \<Rightarrow> api_request" where
  "startVncProfile userId =
     request ''post'' (USERS_SINGLE_BASE @ ''/'' @ userId @ ''/vnc/start'')"

definition stopVncProfile :: "string \<Rightarrow> api_request" where
  "stopVncProfile userId =
     request ''post'' (USERS_SINGLE_BASE @ ''/'' @ userId @ ''/vnc/stop'')"

definition resetVncWallpaper :: "string \<Rightarrow> api_request" where
  "resetVncWallpaper userId =
     request ''delete'' (USERS_SINGLE_BASE @ ''/'' @ userId @ ''/vnc/wallpaper'')"

text \<open>\<open>modules/users/pages/single/vnc/rdp-api.ts\<close>\<close>

definition user_getRdpSetupStatus :: api_request where
  "user_getRdpSetupStatus =
     request ''get'' (RDP_SETUP_BASE @ ''/status'')"

definition user_cancelRdpSetupJob :: "string \<Rightarrow> api_request" where
  "user_cancelRdpSetupJob jobId =
     request ''post'' (RDP_SETUP_BASE @ ''/jobs/'' @ jobId @ ''/cancel'')"

definition getUserRdp :: "string \<Rightarrow> api_request" where
  "getUserRdp userId =
     request ''get'' (USERS_SINGLE_BASE @ ''/'' @ userId @ ''/rdp'')"

definition updateUserRdp :: "string \<Rightarrow> jv \<Rightarrow> api_request" where
  "updateUserRdp userId body =
     with_data body (request ''put'' (USERS_SINGLE_BASE @ ''/'' @ userId @ ''/rdp''))"

definition disableUserRdp :: "string \<Rightarrow> api_request" where
  "disableUserRdp userId =
     request ''post'' (USERS_SINGLE_BASE @ ''/'' @ userId @ ''/rdp/disable'')"

definition startUserRdp :: "string \<Rightarrow> api_request" where
  "startUserRdp userId =
     request ''post'' (USERS_SINGLE_BASE @ ''/'' @ userId @ ''/rdp/start'')"

definition stopUserRdp :: "string \<Rightarrow> api_request" where
  "stopUserRdp userId =
     request ''post'' (USERS_SINGLE_BASE @ ''/'' @ userId @ ''/rdp/stop'')"

definition enableUserRdp :: "string \<Rightarrow> jv option \<Rightarrow> api_request" where
  "enableUserRdp userId body =
     with_data (case body of Some b \<Rightarrow> b | None \<Rightarrow> JObj [])
       (request ''post'' (USERS_SINGLE_BASE @ ''/'' @ userId @ ''/rdp/enable''))"

section \<open>Dashboard\<close>

text \<open>\<open>modules/dashboard/api/index.ts\<close>\<close>

definition DASHBOARD_METRICS_BASE :: string where
  "DASHBOARD_METRICS_BASE = ''/dashboard/metrics''"

definition DASHBOARD_TOOLS_BASE :: string where
  "DASHBOARD_TOOLS_BASE = ''/dashboard/tools''"

definition DASHBOARD_PROCESSES_BASE :: string where
  "DASHBOARD_PROCESSES_BASE = ''/dashboard/processes''"

definition getDashboardMetrics :: api_request where
  "getDashboardMetrics =
     request ''get'' DASHBOARD_METRICS_BASE"

definition getDashboardTools :: api_request where
  "getDashboardTools =
     request ''get'' DASHBOARD_TOOLS_BASE"

definition getDashboardProcesses :: "nat \<Rightarrow> api_request" where
  "getDashboardProcesses limit =
     with_params (Some [(''limit'', JNum (of_nat limit))])
       (request ''get'' DASHBOARD_PROCESSES_BASE)"

definition killDashboardProcess :: "nat \<Rightarrow> bool \<Rightarrow> api_request" where
  "killDashboardProcess pid force =
     with_params (if force then Some [(''force'', JStr ''1'')] else None)
       (request ''post'' (DASHBOARD_PROCESSES_BASE @ ''/'' @ show_nat pid @ ''/kill''))"

section \<open>VS Code workspaces\<close>

text \<open>\<open>modules/vscode/pages/list/api/index.ts\<close>\<close>

definition VSCODE_SESSIONS_LIST_BASE :: string where
  "VSCODE_SESSIONS_LIST_BASE = ''/vscode/list''"

definition getCodeserverStatus :: api_request where
  "getCodeserverStatus =
     request ''get'' (VSCODE_SESSIONS_LIST_BASE @ ''/status'')"

definition getAvailableUsers :: api_request where
  "getAvailableUsers =
     request ''get'' (VSCODE_SESSIONS_LIST_BASE @ ''/available-users'')"

definition createCodeserverSession :: "jv \<Rightarrow> api_request" where
  "createCodeserverSession body =
     with_data body (request ''post'' VSCODE_SESSIONS_SINGLE_BASE)"

definition updateCodeserverSession :: "string \<Rightarrow> jv \<Rightarrow> api_request" where
  "updateCodeserverSession i body =
     with_data body (request ''put'' (VSCODE_SESSIONS_SINGLE_BASE @ ''/'' @ i))"

definition deleteCodeserverSession :: "string \<Rightarrow> api_request" where
  "deleteCodeserverSession i =
     request ''delete'' (VSCODE_SESSIONS_SINGLE_BASE @ ''/'' @ i)"

definition disableCodeserverSession :: "string \<Rightarrow> api_request" where
  "disableCodeserverSession i =
     request ''post'' (VSCODE_SESSIONS_SINGLE_BASE @ ''/'' @ i @ ''/disable'')"

definition enableCodeserverSession :: "string \<Rightarrow> api_request" where
  "enableCodeserverSession i =
     request ''post'' (VSCODE_SESSIONS_SINGLE_BASE @ ''/'' @ i @ ''/enable'')"

definition openCodeserverSession :: "string \<Rightarrow> api_request" where
  "openCodeserverSession i =
     request ''post'' (VSCODE_SESSIONS_SINGLE_BASE @ ''/'' @ i @ ''/open'')"

definition browseCodeserverPaths :: "string \<Rightarrow> string option \<Rightarrow> api_request" where
  "browseCodeserverPaths path userId =
     with_params (Some ([(''path'', JStr (if trim path \<noteq> [] then trim path else ''/workspace''))] @
         field_if ''user_id'' (trim (nonempty_arg userId))))
       (request ''get'' (VSCODE_SESSIONS_LIST_BASE @ ''/paths''))"

definition getCodeserverSessionsList :: "bool \<Rightarrow> api_request" where
  "getCodeserverSessionsList mine =
     with_params (if mine then Some [(''mine'', JStr ''1'')] else None)
       (request ''get'' VSCODE_SESSIONS_LIST_BASE)"

definition openCodeserverEditor :: "string option \<Rightarrow> string option \<Rightarrow> api_request" where
  "openCodeserverEditor path shellSessionId =
     with_data (JObj (field_if ''path'' (trim (nonempty_arg path)) @
         field_if ''shell_session_id'' (trim (nonempty_arg shellSessionId))))
       (request ''post'' (VSCODE_SESSIONS_SINGLE_BASE @ ''/open-editor''))"

section \<open>Reverse proxy\<close>

text \<open>\<open>modules/proxymanager/pages/_shared/api.ts\<close>\<close>

definition PROXY_SETTINGS_BASE :: string where
  "PROXY_SETTINGS_BASE = ''/proxymanager/settings''"

definition PROXY_HOSTS_LIST :: string where
  "PROXY_HOSTS_LIST = ''/proxymanager/hosts/list''"

definition PROXY_HOSTS_SINGLE :: string where
  "PROXY_HOSTS_SINGLE = ''/proxymanager/hosts/single''"

definition PROXY_CERTS_LIST :: string where
  "PROXY_CERTS_LIST = ''/proxymanager/certificates/list''"

definition PROXY_CERTS_SINGLE :: string where
  "PROXY_CERTS_SINGLE = ''/proxymanager/certificates/single''"

definition PROXY_REDIRECTS_LIST :: string where
  "PROXY_REDIRECTS_LIST = ''/proxymanager/redirects/list''"

definition PROXY_REDIRECTS_SINGLE :: string where
  "PROXY_REDIRECTS_SINGLE = ''/proxymanager/redirects/single''"

definition PROXY_APPLY_BASE :: string where
  "PROXY_APPLY_BASE = ''/proxymanager/apply''"

definition PROXY_LOGS_BASE :: string where
  "PROXY_LOGS_BASE = ''/proxymanager/logs''"

definition getProxySettings :: api_request where
  "getProxySettings =
     request ''get'' PROXY_SETTINGS_BASE"

definition updateProxySettings :: "jv \<Rightarrow> api_request" where
  "updateProxySettings body =
     with_data body (request ''put'' PROXY_SETTINGS_BASE)"

definition getProxyRuntime :: api_request where
  "getProxyRuntime =
     request ''get'' (PROXY_SETTINGS_BASE @ ''/runtime'')"

definition getProxyStatus :: api_request where
  "getProxyStatus =
     request ''get'' (PROXY_APPLY_BASE @ ''/status'')"

definition applyProxy :: api_request where
  "applyProxy =
     request ''post'' PROXY_APPLY_BASE"

definition previewProxy :: api_request where
  "previewProxy =
     request ''get'' (PROXY_APPLY_BASE @ ''/preview'')"

definition listProxyRuns :: api_request where
  "listProxyRuns =
     request ''get'' (PROXY_APPLY_BASE @ ''/runs'')"

definition listProxyHosts :: api_request where
  "listProxyHosts =
     request ''get'' PROXY_HOSTS_LIST"

definition createProxyHost :: "jv \<Rightarrow> api_request" where
  "createProxyHost body =
     with_data body (request ''post'' PROXY_HOSTS_SINGLE)"

definition updateProxyHost :: "string \<Rightarrow> jv \<Rightarrow> api_request" where
  "updateProxyHost i body =
     with_data body (request ''put'' (PROXY_HOSTS_SINGLE @ ''/'' @ i))"

definition deleteProxyHost :: "string \<Rightarrow> api_request" where
  "deleteProxyHost i =
     request ''delete'' (PROXY_HOSTS_SINGLE @ ''/'' @ i)"

definition listProxyCertificates :: api_request where
  "listProxyCertificates =
     request ''get'' PROXY_CERTS_LIST"

definition createProxyCertificate :: "jv \<Rightarrow> api_request" where
  "createProxyCertificate body =
     with_data body (request ''post'' PROXY_CERTS_SINGLE)"

definition updateProxyCertificate :: "string \<Rightarrow> jv \<Rightarrow> api_request" where
  "updateProxyCertificate i body =
     with_data body (request ''put'' (PROXY_CERTS_SINGLE @ ''/'' @ i))"

definition deleteProxyCertificate :: "string \<Rightarrow> api_request" where
  "deleteProxyCertificate i =
     request ''delete'' (PROXY_CERTS_SINGLE @ ''/'' @ i)"

definition listProxyRedirects :: api_request where
  "listProxyRedirects =
     request ''get'' PROXY_REDIRECTS_LIST"

definition createProxyRedirect :: "jv \<Rightarrow> api_request" where
  "createProxyRedirect body =
     with_data body (request ''post'' PROXY_REDIRECTS_SINGLE)"

definition updateProxyRedirect :: "string \<Rightarrow> jv \<Rightarrow> api_request" where
  "updateProxyRedirect i body =
     with_data body (request ''put'' (PROXY_REDIRECTS_SINGLE @ ''/'' @ i))"

definition deleteProxyRedirect :: "string \<Rightarrow> api_request" where
  "deleteProxyRedirect i =
     request ''delete'' (PROXY_REDIRECTS_SINGLE @ ''/'' @ i)"

definition getProxyLogs :: "nat \<Rightarrow> api_request" where
  "getProxyLogs tail =
     with_params (Some [(''tail'', JStr (show_nat tail))]) (request ''get'' PROXY_LOGS_BASE)"

section \<open>Addresses\<close>

text \<open>The names that are put into a path are encoded where they can hold any character, so a request
  about one object cannot address another.\<close>

lemma session_address:
  "rq_url (killSSHSession u s) = rq_url (killSSHSession u s') \<longleftrightarrow> s = s'"
  by (simp add: killSSHSession_def encodeURIComponent_inj)

lemma formula_address:
  "rq_url (getBrewFormula n k) = rq_url (getBrewFormula n' k') \<longleftrightarrow> n = n'"
  by (simp add: getBrewFormula_def with_params_def encodeURIComponent_inj)

lemma brew_job_address: "rq_url (getBrewJob i) = rq_url (getBrewJob j) \<longleftrightarrow> i = j"
  by (simp add: getBrewJob_def encodeURIComponent_inj)

text \<open>Deleting a user sends the two options exactly when they are asked for.\<close>

lemma delete_user_options:
  "rq_url (deleteUser i d h) = USERS_SINGLE_BASE @ ''/'' @ i @
     (if d \<and> h then ''?delete_linux=true&remove_home=true''
      else if d then ''?delete_linux=true'' else if h then ''?remove_home=true'' else [])"
  by (simp add: deleteUser_def Let_def)

lemma field_if_lookup [simp]: "map_of (field_if k v) k = (if v \<noteq> [] then Some (JStr v) else None)"
  by (simp add: field_if_def)

end
