(* ===== verification/Software_Catalog.thy ===== *)
theory Software_Catalog
  imports Module_Api "HOL-Library.Multiset" "HOL-Library.List_Lexorder" "HOL-Library.Char_ord"
begin

text \<open>
  The catalogue of softwares, from the page to the server: the page with its filters and its search
  field (\<open>softwares/pages/list/index.tsx\<close>), the selection and the bulk operations
  (\<open>softwares/components/software-catalog.tsx\<close>), the page of installed softwares
  (\<open>softwares/pages/installed/index.tsx\<close>) and the handler that answers
  (\<open>modules/softwares/list/list.go\<close>). What the database search and the remote registries return for
  a query is a parameter: \<open>rows q\<close> are the entries of the host's catalogue that match \<open>q\<close>, after
  \<open>enrichSoftwareForHost\<close>; \<open>remotes q\<close> those of the registries that suit the host and match.
\<close>

section \<open>Entries\<close>

record cat_item =
  ci_id :: string
  ci_name :: string
  ci_category :: string
  ci_order :: int
  ci_updated :: string
  ci_installed :: bool
  ci_uninstalled :: bool
  ci_hasUpdate :: bool
  ci_canUninstall :: bool
  ci_osMissing :: bool
  ci_source :: string
  ci_remote :: bool
  ci_package :: string
  ci_manager :: string

definition go_lower :: "string \<Rightarrow> string" where
  "go_lower s = map js_lower s"

definition equalFold :: "string \<Rightarrow> string \<Rightarrow> bool" where
  "equalFold a b \<longleftrightarrow> go_lower a = go_lower b"

text \<open>The order of strings in Go, byte by byte in UTF-8, which is that of the code points.\<close>

definition go_less :: "string \<Rightarrow> string \<Rightarrow> bool" where
  "go_less a b \<longleftrightarrow> map code_point a < map code_point b"

section \<open>The handler of the list\<close>

subsection \<open>Its query\<close>

text \<open>A parameter as the text of the query string; absent is empty.\<close>

definition param_text :: "api_request \<Rightarrow> string \<Rightarrow> string" where
  "param_text r k =
     (case rq_params r of
        None \<Rightarrow> []
      | Some ps \<Rightarrow>
          (case map_of ps k of
             Some (JStr s) \<Rightarrow> s
           | Some (JNum n) \<Rightarrow> show_int \<lfloor>n\<rfloor>
           | _ \<Rightarrow> []))"

text \<open>\<open>strconv.Atoi\<close>: an optional sign and decimal digits, in 64 bits.\<close>

primrec atoi_digits :: "int \<Rightarrow> string \<Rightarrow> int option" where
  "atoi_digits acc [] = Some acc"
| "atoi_digits acc (c # cs) =
     (if 48 \<le> char_code c \<and> char_code c \<le> 57
      then atoi_digits (10 * acc + int (char_code c - 48)) cs else None)"

definition int64 :: "int \<Rightarrow> bool" where
  "int64 n \<longleftrightarrow> - (2 ^ 63) \<le> n \<and> n < 2 ^ 63"

definition atoi :: "string \<Rightarrow> int option" where
  "atoi s =
     (let neg = starts_with s ''-'';
          ds = (if neg \<or> starts_with s ''+'' then tl s else s)
      in if ds = [] then None
         else case atoi_digits 0 ds of
           None \<Rightarrow> None
         | Some n \<Rightarrow> (let n = (if neg then - n else n) in if int64 n then Some n else None))"

definition queryInt :: "api_request \<Rightarrow> string \<Rightarrow> int \<Rightarrow> int" where
  "queryInt r k fallback =
     (let raw = trim (param_text r k) in
      if raw = [] then fallback
      else case atoi raw of Some n \<Rightarrow> n | None \<Rightarrow> fallback)"

subsection \<open>Entries of the registries\<close>

definition name_key :: "cat_item \<Rightarrow> string" where
  "name_key i = go_lower (trim (ci_name i))"

text \<open>\<open>localByName\<close>: the index of the last local entry of that name.\<close>

primrec last_index :: "(cat_item \<Rightarrow> bool) \<Rightarrow> nat \<Rightarrow> cat_item list \<Rightarrow> nat option" where
  "last_index p n [] = None"
| "last_index p n (x # xs) =
     (case last_index p (Suc n) xs of
        Some k \<Rightarrow> Some k
      | None \<Rightarrow> if p x then Some n else None)"

definition merge_entry :: "cat_item list \<Rightarrow> cat_item \<Rightarrow> cat_item list \<Rightarrow> cat_item list" where
  "merge_entry locals e out =
     (case last_index (\<lambda>i. name_key i = name_key e) 0 locals of
        Some k \<Rightarrow> out[k := (out ! k)\<lparr>ci_source := ''both'',
             ci_package := (if ci_package (out ! k) = [] then ci_package e else ci_package (out ! k))\<rparr>]
      | None \<Rightarrow> out @ [e])"

definition merge_remotes :: "cat_item list \<Rightarrow> cat_item list \<Rightarrow> cat_item list" where
  "merge_remotes locals remotes = fold (merge_entry locals) remotes locals"

subsection \<open>Facets, filters and sorting\<close>

definition facet_name :: "cat_item \<Rightarrow> string" where
  "facet_name i = (if trim (ci_category i) = [] then ''Other'' else trim (ci_category i))"

text \<open>The counts of the categories, in the order in which they are met; the display order of
  names that differ only in case is that of a Go map and not modelled.\<close>

definition facet_counts :: "cat_item list \<Rightarrow> (string \<times> nat) list" where
  "facet_counts items =
     map (\<lambda>c. (c, length (filter (\<lambda>i. facet_name i = c) items))) (remdups (map facet_name items))"

definition category_filter :: "string \<Rightarrow> cat_item list \<Rightarrow> cat_item list" where
  "category_filter category items =
     (if category \<noteq> [] \<and> \<not> equalFold category ''all''
      then filter (\<lambda>i. equalFold (trim (ci_category i)) category) items else items)"

definition source_filter :: "string \<Rightarrow> string \<Rightarrow> cat_item list \<Rightarrow> cat_item list" where
  "source_filter sourceFilter q items =
     (if sourceFilter = ''local'' \<and> q = [] then filter (\<lambda>i. \<not> ci_remote i) items
      else if sourceFilter = ''remote'' then filter (\<lambda>i. ci_remote i \<or> ci_source i = ''both'') items
      else items)"

definition status_keeps :: "string \<Rightarrow> cat_item \<Rightarrow> bool" where
  "status_keeps status i =
     (if status = ''installed'' then ci_installed i \<and> \<not> ci_uninstalled i
      else if status = ''uninstalled'' then ci_uninstalled i
      else if status = ''update_available'' then ci_hasUpdate i \<and> \<not> ci_uninstalled i
      else if status = ''not_installed'' then \<not> ci_installed i \<and> \<not> ci_uninstalled i
      else True)"

definition status_filter :: "string \<Rightarrow> cat_item list \<Rightarrow> cat_item list" where
  "status_filter status items =
     (if status \<noteq> [] \<and> status \<noteq> ''all'' then filter (status_keeps status) items else items)"

definition item_less :: "string \<Rightarrow> cat_item \<Rightarrow> cat_item \<Rightarrow> bool" where
  "item_less sortKey a b =
     (let by_name = go_less (go_lower (ci_name a)) (go_lower (ci_name b)) in
      if sortKey = ''name'' then by_name
      else if sortKey = ''category''
      then (if ci_category a \<noteq> ci_category b then go_less (go_lower (ci_category a)) (go_lower (ci_category b))
            else by_name)
      else if sortKey = ''recent''
      then (if ci_updated a \<noteq> ci_updated b then go_less (ci_updated b) (ci_updated a) else by_name)
      else (if ci_order a \<noteq> ci_order b then ci_order a < ci_order b else by_name))"

text \<open>
  \<open>sort.SliceStable\<close> as the insertion sort it starts with: each element moves left past the elements
  it is less than. The prefix already sorted is kept reversed. Where the comparison is a strict weak
  order, as the documentation of \<open>sort\<close> asks, the stable result is unique and this is it. The order
  by category is none where categories differ in case only; there the result is unspecified, and
  nothing but its being a permutation is used.
\<close>

primrec ins_back :: "('a \<Rightarrow> 'a \<Rightarrow> bool) \<Rightarrow> 'a \<Rightarrow> 'a list \<Rightarrow> 'a list" where
  "ins_back lt x [] = [x]"
| "ins_back lt x (y # ys) = (if lt x y then y # ins_back lt x ys else x # y # ys)"

definition slice_stable :: "('a \<Rightarrow> 'a \<Rightarrow> bool) \<Rightarrow> 'a list \<Rightarrow> 'a list" where
  "slice_stable lt xs = rev (foldl (\<lambda>acc x. ins_back lt x acc) [] xs)"

definition sortSoftwareItems :: "string \<Rightarrow> cat_item list \<Rightarrow> cat_item list" where
  "sortSoftwareItems sortKey items = slice_stable (item_less sortKey) items"

subsection \<open>The answer\<close>

record list_answer =
  la_items :: "cat_item list"
  la_page :: int
  la_limit :: int
  la_total :: nat
  la_total_pages :: int
  la_facets :: "(string \<times> nat) list"

definition page_count :: "nat \<Rightarrow> int \<Rightarrow> int" where
  "page_count n limit = max ((int n + limit - 1) div limit) 1"

definition page_slice :: "int \<Rightarrow> int \<Rightarrow> 'a list \<Rightarrow> 'a list" where
  "page_slice page limit out =
     (let start = min ((page - 1) * limit) (int (length out));
          stop = min (start + limit) (int (length out))
      in take (nat (stop - start)) (drop (nat start) out))"

definition or_default :: "string \<Rightarrow> string \<Rightarrow> string" where
  "or_default s d = (if s = [] then d else s)"

definition GetSoftwaresListAPI ::
  "(string \<Rightarrow> cat_item list) \<Rightarrow> (string \<Rightarrow> cat_item list) \<Rightarrow> api_request \<Rightarrow> list_answer" where
  "GetSoftwaresListAPI rows remotes r =
     (let page = max 1 (queryInt r ''page'' 1);
          limit = queryInt r ''limit'' 12;
          limit = (if limit < 1 then 12 else limit);
          limit = min limit 100;
          q = trim (param_text r ''q'');
          category = trim (param_text r ''category'');
          status = go_lower (trim (param_text r ''status''));
          sortKey = or_default (go_lower (trim (param_text r ''sort''))) ''order'';
          sourceFilter = or_default (go_lower (trim (param_text r ''source''))) ''local'';
          wantRemote = (q \<noteq> [] \<or> sourceFilter = ''all'' \<or> sourceFilter = ''remote'');
          out = (if wantRemote then merge_remotes (rows q) (remotes q) else rows q);
          facets = facet_counts out;
          out = sortSoftwareItems sortKey (status_filter status (source_filter sourceFilter q
                  (category_filter category out)));
          totalPages = page_count (length out) limit;
          page = min page totalPages
      in \<lparr>la_items = page_slice page limit out, la_page = page, la_limit = limit,
          la_total = length out, la_total_pages = totalPages, la_facets = facets\<rparr>)"

section \<open>The page\<close>

record catalog_filters =
  cf_q :: string
  cf_category :: string
  cf_status :: string
  cf_sort :: string
  cf_source :: string
  cf_page :: int
  cf_limit :: int

definition STATUS_VALUES :: "string list" where
  "STATUS_VALUES = [''all'', ''installed'', ''update_available'', ''not_installed'']"

definition SORT_VALUES :: "string list" where
  "SORT_VALUES = [''order'', ''name'', ''category'', ''recent'']"

definition SOURCE_VALUES :: "string list" where
  "SOURCE_VALUES = [''local'', ''all'', ''remote'']"

definition LIMIT_VALUES :: "int list" where
  "LIMIT_VALUES = [8, 12, 24, 48]"

definition default_filters :: catalog_filters where
  "default_filters = \<lparr>cf_q = [], cf_category = ''all'', cf_status = ''all'', cf_sort = ''order'',
     cf_source = ''local'', cf_page = 1, cf_limit = 12\<rparr>"

text \<open>What the URL's filters are limited to.\<close>

definition catalogFilters :: "catalog_filters \<Rightarrow> catalog_filters" where
  "catalogFilters f = f\<lparr>cf_page := max 1 (cf_page f),
     cf_limit := (if cf_limit f \<in> set LIMIT_VALUES then cf_limit f else 12)\<rparr>"

definition list_query :: "catalog_filters \<Rightarrow> softwares_query" where
  "list_query f = \<lparr>sq_page = nat (cf_page f), sq_limit = nat (cf_limit f), sq_q = cf_q f,
     sq_category = cf_category f, sq_status = cf_status f, sq_sort = cf_sort f,
     sq_source = cf_source f,
     sq_refresh = (trim (cf_q f) \<noteq> [] \<or> cf_source f = ''remote'' \<or> cf_source f = ''all'')\<rparr>"

definition list_request :: "catalog_filters \<Rightarrow> api_request" where
  "list_request f = getSoftwaresList (list_query (catalogFilters f))"

text \<open>A change of some of the filters; \<open>Object.keys(patch).length\<close> is the number of fields given.\<close>

record filter_patch =
  fp_q :: "string option"
  fp_category :: "string option"
  fp_status :: "string option"
  fp_sort :: "string option"
  fp_source :: "string option"
  fp_page :: "int option"
  fp_limit :: "int option"

definition no_patch :: filter_patch where
  "no_patch = \<lparr>fp_q = None, fp_category = None, fp_status = None, fp_sort = None,
     fp_source = None, fp_page = None, fp_limit = None\<rparr>"

definition given :: "'a option \<Rightarrow> nat" where
  "given x = (if x = None then 0 else 1)"

definition patch_keys :: "filter_patch \<Rightarrow> nat" where
  "patch_keys p = given (fp_q p) + given (fp_category p) + given (fp_status p) + given (fp_sort p) +
     given (fp_source p) + given (fp_page p) + given (fp_limit p)"

definition take_new :: "'a option \<Rightarrow> 'a \<Rightarrow> 'a" where
  "take_new x old = (case x of Some v \<Rightarrow> v | None \<Rightarrow> old)"

definition apply_patch :: "filter_patch \<Rightarrow> catalog_filters \<Rightarrow> catalog_filters" where
  "apply_patch p f = \<lparr>cf_q = take_new (fp_q p) (cf_q f),
     cf_category = take_new (fp_category p) (cf_category f),
     cf_status = take_new (fp_status p) (cf_status f), cf_sort = take_new (fp_sort p) (cf_sort f),
     cf_source = take_new (fp_source p) (cf_source f), cf_page = take_new (fp_page p) (cf_page f),
     cf_limit = take_new (fp_limit p) (cf_limit f)\<rparr>"

text \<open>The state of the page: the filters of the URL, the text of the search field, the pending
  timer of the debounced search, and the filters it has asked the server for.\<close>

record catalog_page =
  cp_filters :: catalog_filters
  cp_draft :: string
  cp_timer :: "string option"
  cp_asked :: "catalog_filters list"

text \<open>After new filters: the draft follows a changed \<open>q\<close>, the effect sets or clears the timer, and
  a query with a new key is sent.\<close>

definition search_effect :: "catalog_page \<Rightarrow> catalog_page" where
  "search_effect s =
     s\<lparr>cp_timer := (if cp_draft s = cf_q (cp_filters s) then None else Some (cp_draft s))\<rparr>"

definition setFilters :: "catalog_filters \<Rightarrow> catalog_page \<Rightarrow> catalog_page" where
  "setFilters f s =
     (let s' = s\<lparr>cp_filters := f,
                 cp_draft := (if cf_q f \<noteq> cf_q (cp_filters s) then cf_q f else cp_draft s),
                 cp_asked := (if catalogFilters f \<noteq> catalogFilters (cp_filters s)
                              then cp_asked s @ [catalogFilters f] else cp_asked s)\<rparr>
      in search_effect s')"

definition setQDraft :: "string \<Rightarrow> catalog_page \<Rightarrow> catalog_page" where
  "setQDraft q s = search_effect (s\<lparr>cp_draft := q\<rparr>)"

definition search_timer :: "catalog_page \<Rightarrow> catalog_page" where
  "search_timer s =
     (case cp_timer s of
        None \<Rightarrow> s
      | Some q \<Rightarrow> setFilters ((cp_filters s)\<lparr>cf_q := trim q, cf_page := 1\<rparr>) (s\<lparr>cp_timer := None\<rparr>))"

definition onFiltersChange :: "filter_patch \<Rightarrow> catalog_page \<Rightarrow> catalog_page" where
  "onFiltersChange p s =
     (let s' = (case fp_q p of Some q \<Rightarrow> setQDraft q s | None \<Rightarrow> s) in
      if fp_q p \<noteq> None \<and> patch_keys p = 1 then s'
      else setFilters ((apply_patch p (cp_filters s))
             \<lparr>cf_q := take_new (fp_q p) (cp_draft s),
              cf_page := (case fp_page p of Some n \<Rightarrow> n
                | None \<Rightarrow> if fp_q p \<noteq> None then 1 else cf_page (catalogFilters (cp_filters s)))\<rparr>) s')"

text \<open>The controls of the catalogue.\<close>

definition type_search :: "string \<Rightarrow> catalog_page \<Rightarrow> catalog_page" where
  "type_search v = onFiltersChange (no_patch\<lparr>fp_q := Some v, fp_page := Some 1\<rparr>)"

definition choose_category :: "string \<Rightarrow> catalog_page \<Rightarrow> catalog_page" where
  "choose_category v = onFiltersChange
     (no_patch\<lparr>fp_category := Some (if v \<noteq> [] then v else ''all''), fp_page := Some 1\<rparr>)"

definition choose_status :: "string \<Rightarrow> catalog_page \<Rightarrow> catalog_page" where
  "choose_status v = onFiltersChange (no_patch\<lparr>fp_status := Some v, fp_page := Some 1\<rparr>)"

definition choose_source :: "string \<Rightarrow> catalog_page \<Rightarrow> catalog_page" where
  "choose_source v = onFiltersChange (no_patch\<lparr>fp_source := Some v, fp_page := Some 1\<rparr>)"

definition choose_limit :: "int \<Rightarrow> catalog_page \<Rightarrow> catalog_page" where
  "choose_limit n = onFiltersChange (no_patch\<lparr>fp_limit := Some n, fp_page := Some 1\<rparr>)"

definition clearFilters :: "catalog_page \<Rightarrow> catalog_page" where
  "clearFilters = onFiltersChange (no_patch\<lparr>fp_q := Some [], fp_category := Some ''all'',
     fp_status := Some ''all'', fp_source := Some ''local'', fp_page := Some 1\<rparr>)"

text \<open>The pager, with the page that the answer shows.\<close>

definition shown_page :: "list_answer \<Rightarrow> int" where
  "shown_page a = min (max 1 (la_page a)) (max 1 (la_total_pages a))"

definition goto_prev :: "list_answer \<Rightarrow> catalog_page \<Rightarrow> catalog_page" where
  "goto_prev a s = (if shown_page a \<le> 1 then s
     else onFiltersChange (no_patch\<lparr>fp_page := Some (shown_page a - 1)\<rparr>) s)"

definition goto_next :: "list_answer \<Rightarrow> catalog_page \<Rightarrow> catalog_page" where
  "goto_next a s = (if max 1 (la_total_pages a) \<le> shown_page a then s
     else onFiltersChange (no_patch\<lparr>fp_page := Some (shown_page a + 1)\<rparr>) s)"

section \<open>Selection and bulk operations\<close>

record selection_state =
  sel_ids :: "string list"
  sel_key :: "string list"

text \<open>A rendering with new entries drops what has left the page.\<close>

definition sel_render :: "cat_item list \<Rightarrow> selection_state \<Rightarrow> selection_state" where
  "sel_render items s =
     (let key = map ci_id items in
      if key = sel_key s then s
      else s\<lparr>sel_key := key, sel_ids := filter (\<lambda>i. i \<in> set key) (sel_ids s)\<rparr>)"

definition toggleSelected :: "string \<Rightarrow> bool option \<Rightarrow> selection_state \<Rightarrow> selection_state" where
  "toggleSelected i nxt s =
     (let checked = (case nxt of Some b \<Rightarrow> b | None \<Rightarrow> i \<notin> set (sel_ids s)) in
      s\<lparr>sel_ids := (if checked then List.insert i (sel_ids s) else removeAll i (sel_ids s))\<rparr>)"

definition toggleSelectAll :: "cat_item list \<Rightarrow> selection_state \<Rightarrow> selection_state" where
  "toggleSelectAll items s =
     (if items \<noteq> [] \<and> (\<forall>i \<in> set items. ci_id i \<in> set (sel_ids s)) then s\<lparr>sel_ids := []\<rparr>
      else s\<lparr>sel_ids := remdups (map ci_id items)\<rparr>)"

datatype queue_action = QInstall | QUpdate | QUninstall

definition bulk_targets :: "queue_action \<Rightarrow> cat_item list \<Rightarrow> selection_state \<Rightarrow> cat_item list" where
  "bulk_targets action items s =
     (let selected = filter (\<lambda>i. ci_id i \<in> set (sel_ids s)) items in
      case action of
        QInstall \<Rightarrow> filter (\<lambda>i. \<not> ci_installed i) selected
      | QUpdate \<Rightarrow> filter ci_hasUpdate selected
      | QUninstall \<Rightarrow> filter (\<lambda>i. ci_installed i \<and> ci_canUninstall i \<and> ci_manager i \<noteq> ''brew'') selected)"

text \<open>The mutation: remote entries are imported first, one by one; \<open>imported\<close> is the identifier
  that the import answers, \<open>None\<close> when it fails, which ends the operation.\<close>

primrec bulk_ids ::
  "queue_action \<Rightarrow> (cat_item \<Rightarrow> string option) \<Rightarrow> cat_item list \<Rightarrow> string list option" where
  "bulk_ids action imported [] = Some []"
| "bulk_ids action imported (i # is) =
     (if ci_remote i
      then if action \<noteq> QInstall then bulk_ids action imported is
           else case imported i of
             None \<Rightarrow> None
           | Some j \<Rightarrow> map_option ((#) j) (bulk_ids action imported is)
      else map_option ((#) (ci_id i)) (bulk_ids action imported is))"

definition queue_name :: "queue_action \<Rightarrow> string" where
  "queue_name a = (case a of QInstall \<Rightarrow> ''install'' | QUpdate \<Rightarrow> ''update'' | QUninstall \<Rightarrow> ''uninstall'')"

definition bulk_request ::
  "queue_action \<Rightarrow> (cat_item \<Rightarrow> string option) \<Rightarrow> cat_item list \<Rightarrow> api_request option" where
  "bulk_request action imported items =
     (case bulk_ids action imported items of
        None \<Rightarrow> None
      | Some ids \<Rightarrow> if ids = [] then None else Some (enqueueSoftwareActions (queue_name action) ids))"

section \<open>The page of installed softwares\<close>

definition installed_request :: api_request where
  "installed_request = getSoftwaresList (default_softwares_query
     \<lparr>sq_page := 1, sq_limit := 100, sq_status := ''all'', sq_sort := ''name''\<rparr>)"

definition shown_installed :: "string list \<Rightarrow> cat_item list \<Rightarrow> cat_item list" where
  "shown_installed queueRelevantIds items =
     filter (\<lambda>i. ci_installed i \<or> ci_uninstalled i \<or> ci_osMissing i \<or> ci_id i \<in> set queueRelevantIds)
       items"

definition updates_found :: "cat_item list \<Rightarrow> nat" where
  "updates_found shown = length (filter (\<lambda>i. ci_hasUpdate i \<and> \<not> ci_osMissing i \<and> \<not> ci_uninstalled i) shown)"

definition update_message :: "nat \<Rightarrow> string" where
  "update_message n =
     (if n = 0 then ''All installed software is up to date''
      else if n = 1 then ''1 update available'' else show_nat n @ '' updates available'')"

section \<open>Lemmas\<close>

subsection \<open>Reading the query\<close>

lemma atoi_digits_append:
  "atoi_digits acc (a @ b) = (case atoi_digits acc a of None \<Rightarrow> None | Some n \<Rightarrow> atoi_digits n b)"
  by (induction a arbitrary: acc) auto

lemma atoi_show_nat: "atoi_digits 0 (show_nat n) = Some (int n)"
proof (induction n rule: show_nat.induct)
  case (1 n)
  show ?case
  proof (cases "n < 10")
    case True
    then show ?thesis by (simp add: show_nat.simps [of n] char_code_def)
  next
    case False
    then have "atoi_digits 0 (show_nat (n div 10)) = Some (int (n div 10))" using 1 by simp
    moreover have "n mod 10 \<le> 9" "10 * int (n div 10) + int (n mod 10) = int n"
      by presburger+
    ultimately show ?thesis
      using False by (simp add: show_nat.simps [of n] atoi_digits_append char_code_def)
  qed
qed

lemma show_nat_unsigned: "\<not> starts_with (show_nat n) ''-''" "\<not> starts_with (show_nat n) ''+''"
proof -
  obtain c cs where s: "show_nat n = c # cs" by (cases "show_nat n") auto
  then have "48 \<le> char_code c" using show_nat_digits [of c n] by simp
  then show "\<not> starts_with (show_nat n) ''-''" "\<not> starts_with (show_nat n) ''+''"
    by (auto simp: s starts_with_def char_code_def)
qed

lemma atoi_nat: "int n < 2 ^ 63 \<Longrightarrow> atoi (show_nat n) = Some (int n)"
  by (simp add: atoi_def atoi_show_nat show_nat_unsigned int64_def Let_def)

lemma list_fields [simp]:
  "field_if k v = (if v \<noteq> [] then [(k, JStr v)] else [])"
  "field_unless k d v = (if v \<noteq> [] \<and> v \<noteq> d then [(k, JStr v)] else [])"
  by (simp_all add: field_if_def field_unless_def)

lemma query_texts:
  "param_text (getSoftwaresList s) ''page'' = show_nat (sq_page s)"
  "param_text (getSoftwaresList s) ''limit'' = show_nat (sq_limit s)"
  "param_text (getSoftwaresList s) ''source'' = sq_source s"
  "param_text (getSoftwaresList s) ''q'' = trim (sq_q s)"
  "param_text (getSoftwaresList s) ''category'' = (if sq_category s = ''all'' then [] else sq_category s)"
  "param_text (getSoftwaresList s) ''status'' = (if sq_status s = ''all'' then [] else sq_status s)"
  "param_text (getSoftwaresList s) ''sort'' = (if sq_sort s = ''order'' then [] else sq_sort s)"
  by (simp_all add: param_text_def getSoftwaresList_def with_params_def show_int_def)

lemma query_int:
  "int n < 2 ^ 63 \<Longrightarrow> param_text r k = show_nat n \<Longrightarrow> queryInt r k d = int n"
  by (simp add: queryInt_def atoi_nat)

subsection \<open>Sorting\<close>

lemma ins_back_mset [simp]: "mset (ins_back lt x ys) = add_mset x (mset ys)"
  by (induction ys) auto

lemma slice_stable_mset: "mset (slice_stable lt xs) = mset xs"
proof -
  have "mset (foldl (\<lambda>acc x. ins_back lt x acc) ys xs) = mset ys + mset xs" for ys
    by (induction xs arbitrary: ys) auto
  then show ?thesis by (simp add: slice_stable_def)
qed

lemma slice_stable_length [simp]: "length (slice_stable lt xs) = length xs"
  using slice_stable_mset [of lt xs] by (metis size_mset)

lemma slice_stable_set [simp]: "set (slice_stable lt xs) = set xs"
  using slice_stable_mset [of lt xs] by (metis set_mset_mset)

text \<open>Elements none of which is less than another keep their order.\<close>

lemma slice_stable_id:
  assumes "\<forall>a \<in> set xs. \<forall>b \<in> set xs. \<not> lt a b"
  shows "slice_stable lt xs = xs"
proof -
  have "set ys \<subseteq> set xs \<Longrightarrow> set zs \<subseteq> set xs \<Longrightarrow>
      foldl (\<lambda>acc x. ins_back lt x acc) (rev ys) zs = rev (ys @ zs)" for ys zs
  proof (induction zs arbitrary: ys)
    case (Cons z zs)
    have "ins_back lt z (rev ys) = rev (ys @ [z])"
      using Cons.prems assms by (cases "rev ys") (auto simp: rev_swap)
    then show ?case using Cons.IH [of "ys @ [z]"] Cons.prems by simp
  qed simp
  from this [of "[]" xs] show ?thesis by (simp add: slice_stable_def)
qed

lemma sort_items [simp]:
  "length (sortSoftwareItems k xs) = length xs" "set (sortSoftwareItems k xs) = set xs"
  by (simp_all add: sortSoftwareItems_def)

text \<open>The names are sorted when they are what is sorted by.\<close>

lemma ins_back_sorted:
  assumes "sorted_wrt (\<lambda>a b. f b \<le> f a) ys"
  shows "sorted_wrt (\<lambda>a b. (f b :: 'k::linorder) \<le> f a) (ins_back (\<lambda>a b. f a < f b) x ys)"
proof -
  have "set (ins_back (\<lambda>a b. f a < f b) x ys) = insert x (set ys)" for x ys
    by (metis ins_back_mset set_mset_add_mset_insert set_mset_mset)
  with assms show ?thesis by (induction ys) (auto simp: not_less intro: order_trans)
qed

text \<open>Categories that differ in case only are neither equal nor ordered.\<close>

lemma category_order_not_weak:
  assumes "ci_category a = ''Dev''" "ci_category b = ''dev''" "ci_category c = ''Dev''"
    "go_less (go_lower (ci_name c)) (go_lower (ci_name a))"
  shows "\<not> item_less ''category'' a b \<and> \<not> item_less ''category'' b a \<and>
    \<not> item_less ''category'' b c \<and> \<not> item_less ''category'' c b \<and> item_less ''category'' c a"
proof -
  have "go_lower ''Dev'' = go_lower ''dev''" by code_simp
  then show ?thesis using assms by (simp add: item_less_def go_less_def)
qed

lemma sorted_by_name:
  "sorted (map (map code_point \<circ> go_lower \<circ> ci_name) (sortSoftwareItems ''name'' xs))"
proof -
  let ?f = "\<lambda>i. map code_point (go_lower (ci_name i))"
  have l: "item_less ''name'' = (\<lambda>a b. ?f a < ?f b)" by (simp add: fun_eq_iff item_less_def go_less_def)
  have "sorted_wrt (\<lambda>a b. ?f b \<le> ?f a) ys \<Longrightarrow>
      sorted_wrt (\<lambda>a b. ?f b \<le> ?f a) (foldl (\<lambda>acc x. ins_back (\<lambda>a b. ?f a < ?f b) x acc) ys xs)" for ys
    by (induction xs arbitrary: ys) (simp_all add: ins_back_sorted)
  from this [of "[]"] show ?thesis
    by (simp add: sortSoftwareItems_def slice_stable_def l sorted_map sorted_wrt_rev)
qed

subsection \<open>Pages\<close>

lemma page_slice_take_drop:
  assumes "1 \<le> limit" "1 \<le> page"
  shows "page_slice page limit out = take (nat limit) (drop (nat ((page - 1) * limit)) out)"
proof -
  have "0 \<le> (page - 1) * limit" using assms by simp
  moreover from this have "nat ((page - 1) * limit + limit) - nat ((page - 1) * limit) = nat limit"
    using assms by (simp add: nat_add_distrib)
  ultimately show ?thesis
    using assms by (auto simp: page_slice_def Let_def min_def nat_diff_distrib)
qed

lemma concat_slices:
  "concat (map (\<lambda>k. take n (drop (k * n) xs)) [0..<m]) = take (m * n) xs"
proof (induction m)
  case (Suc m)
  have "take (Suc m * n) xs = take (m * n) xs @ take n (drop (m * n) xs)"
    using take_add [of "m * n" n xs] by (simp add: add.commute)
  with Suc show ?case by simp
qed simp

lemma int_pages: "[1..int m] = map (\<lambda>k. int k + 1) [0..<m]"
  by (induction m) (simp_all add: upto_rec2 add.commute)

lemma pages_cover:
  assumes "1 \<le> limit"
  shows "concat (map (\<lambda>p. page_slice p limit out) [1..page_count (length out) limit]) = out"
proof -
  define m where "m = nat (page_count (length out) limit)"
  have pos: "1 \<le> page_count (length out) limit" by (simp add: page_count_def)
  then have n: "page_count (length out) limit = int m" by (simp add: m_def)
  have "int (length out) \<le> ((int (length out) + limit - 1) div limit) * limit"
    using assms by (smt (verit) div_mult_mod_eq pos_mod_bound)
  also have "\<dots> \<le> int m * limit"
    using assms n [symmetric] by (simp add: page_count_def)
  finally have "length out \<le> m * nat limit"
    using assms by (metis int_ops(7) nat_0_le of_nat_le_iff order_trans zero_le_one)
  moreover have "map (\<lambda>p. page_slice p limit out) [1..int m] =
      map (\<lambda>k. take (nat limit) (drop (k * nat limit) out)) [0..<m]"
    using assms by (simp add: int_pages page_slice_take_drop nat_mult_distrib)
  ultimately show ?thesis by (simp add: n concat_slices)
qed

section \<open>What the page lists\<close>

definition wanted :: "catalog_filters \<Rightarrow> cat_item \<Rightarrow> bool" where
  "wanted f i \<longleftrightarrow>
     (let c = trim (cf_category f); q = trim (cf_q f) in
      (c \<noteq> [] \<and> \<not> equalFold c ''all'' \<longrightarrow> equalFold (trim (ci_category i)) c) \<and>
      (cf_source f = ''local'' \<and> q = [] \<longrightarrow> \<not> ci_remote i) \<and>
      (cf_source f = ''remote'' \<longrightarrow> ci_remote i \<or> ci_source i = ''both'') \<and>
      (cf_status f \<noteq> ''all'' \<longrightarrow> status_keeps (cf_status f) i))"

definition catalog_listing ::
  "(string \<Rightarrow> cat_item list) \<Rightarrow> (string \<Rightarrow> cat_item list) \<Rightarrow> catalog_filters \<Rightarrow> cat_item list" where
  "catalog_listing rows remotes f =
     (let q = trim (cf_q f) in
      sortSoftwareItems (cf_sort f) (filter (wanted f)
        (if q \<noteq> [] \<or> cf_source f = ''all'' \<or> cf_source f = ''remote''
         then merge_remotes (rows q) (remotes q) else rows q)))"

definition valid_filters :: "catalog_filters \<Rightarrow> bool" where
  "valid_filters f \<longleftrightarrow> cf_status f \<in> set STATUS_VALUES \<and> cf_sort f \<in> set SORT_VALUES \<and>
     cf_source f \<in> set SOURCE_VALUES"

lemma trim_const [simp]:
  "trim ''all'' = ''all''" "trim ''installed'' = ''installed''"
  "trim ''update_available'' = ''update_available''" "trim ''not_installed'' = ''not_installed''"
  "trim ''name'' = ''name''" "trim ''category'' = ''category''" "trim ''recent'' = ''recent''"
  "trim ''local'' = ''local''" "trim ''remote'' = ''remote''" "trim ''order'' = ''order''"
  "trim [] = []"
  by code_simp+

lemma lower_const [simp]:
  "go_lower ''all'' = ''all''" "go_lower ''installed'' = ''installed''"
  "go_lower ''update_available'' = ''update_available''"
  "go_lower ''not_installed'' = ''not_installed''" "go_lower ''name'' = ''name''"
  "go_lower ''category'' = ''category''" "go_lower ''recent'' = ''recent''"
  "go_lower ''local'' = ''local''" "go_lower ''remote'' = ''remote''"
  "go_lower ''order'' = ''order''" "go_lower [] = []"
  by code_simp+

lemma all_values:
  "valid_filters f \<Longrightarrow>
     go_lower (trim (if cf_status f = ''all'' then [] else cf_status f)) =
       (if cf_status f = ''all'' then [] else cf_status f) \<and>
     or_default (go_lower (trim (if cf_sort f = ''order'' then [] else cf_sort f))) ''order'' = cf_sort f \<and>
     or_default (go_lower (trim (cf_source f))) ''local'' = cf_source f \<and> cf_status f \<noteq> []"
  by (auto simp: valid_filters_def STATUS_VALUES_def SORT_VALUES_def SOURCE_VALUES_def or_default_def)

lemma filters_wanted:
  "status_filter (if cf_status f = ''all'' then [] else cf_status f)
     (source_filter (cf_source f) (trim (cf_q f))
       (category_filter (trim (if cf_category f = ''all'' then [] else cf_category f)) xs)) =
   filter (wanted f) xs" if "cf_status f \<noteq> []"
proof -
  have "category_filter (trim (if cf_category f = ''all'' then [] else cf_category f)) xs =
      filter (\<lambda>i. let c = trim (cf_category f) in
        c \<noteq> [] \<and> \<not> equalFold c ''all'' \<longrightarrow> equalFold (trim (ci_category i)) c) xs"
    by (auto simp: category_filter_def equalFold_def Let_def)
  then show ?thesis
    using that by (auto simp: status_filter_def source_filter_def wanted_def Let_def conj_comms
        intro!: filter_cong)
qed

lemma list_request_texts:
  "param_text (list_request f) ''page'' = show_nat (nat (cf_page (catalogFilters f)))"
  "param_text (list_request f) ''limit'' = show_nat (nat (cf_limit (catalogFilters f)))"
  "param_text (list_request f) ''source'' = cf_source f"
  "param_text (list_request f) ''q'' = trim (cf_q f)"
  "param_text (list_request f) ''category'' = (if cf_category f = ''all'' then [] else cf_category f)"
  "param_text (list_request f) ''status'' = (if cf_status f = ''all'' then [] else cf_status f)"
  "param_text (list_request f) ''sort'' = (if cf_sort f = ''order'' then [] else cf_sort f)"
  by (simp_all add: list_request_def query_texts list_query_def catalogFilters_def)

lemma limit_value: "1 \<le> cf_limit (catalogFilters f) \<and> cf_limit (catalogFilters f) \<le> 48"
  by (auto simp: catalogFilters_def LIMIT_VALUES_def)

lemma limit_read: "queryInt (list_request f) ''limit'' d = cf_limit (catalogFilters f)"
  using limit_value [of f] query_int [OF _ list_request_texts(2), of f d] by simp

lemma page_read:
  "cf_page f < 2 ^ 63 \<Longrightarrow> queryInt (list_request f) ''page'' d = max 1 (cf_page f)"
  using query_int [OF _ list_request_texts(1), of f d] by (simp add: catalogFilters_def)

text \<open>The answer to one page of the listing.\<close>

lemma list_answer:
  assumes "valid_filters f" "cf_page f < 2 ^ 63"
  shows "let out = catalog_listing rows remotes f; L = cf_limit (catalogFilters f);
             n = page_count (length out) L; a = GetSoftwaresListAPI rows remotes (list_request f)
         in la_items a = page_slice (min (max 1 (cf_page f)) n) L out \<and> la_total a = length out \<and>
            la_total_pages a = n \<and> la_page a = min (max 1 (cf_page f)) n"
proof -
  note v = all_values [OF assms(1)]
  then have "cf_status f \<noteq> []" by simp
  note w = filters_wanted [OF this]
  have l: "min (if cf_limit (catalogFilters f) < 1 then 12 else cf_limit (catalogFilters f)) 100 =
      cf_limit (catalogFilters f)" using limit_value [of f] by simp
  show ?thesis
    unfolding GetSoftwaresListAPI_def Let_def list_request_texts limit_read page_read [OF assms(2)] l
    using v \<open>cf_status f \<noteq> []\<close>
    by (simp add: w catalog_listing_def Let_def trim_trim)
qed

lemma wanted_page [simp]: "wanted (f\<lparr>cf_page := p\<rparr>) = wanted f"
  by (simp add: fun_eq_iff wanted_def)

lemma list_answer_clamped:
  assumes "valid_filters f" "1 \<le> p" "p \<le> page_count (length (catalog_listing rows remotes f)) L"
    and "L = cf_limit (catalogFilters f)" "int (length (catalog_listing rows remotes f)) < 2 ^ 63"
  shows "la_items (GetSoftwaresListAPI rows remotes (list_request (f\<lparr>cf_page := p\<rparr>))) =
    page_slice p L (catalog_listing rows remotes f)"
proof -
  let ?out = "catalog_listing rows remotes f"
  have same: "catalog_listing rows remotes (f\<lparr>cf_page := p\<rparr>) = ?out" "valid_filters (f\<lparr>cf_page := p\<rparr>)"
    "cf_limit (catalogFilters (f\<lparr>cf_page := p\<rparr>)) = L"
    using assms by (simp_all add: catalog_listing_def valid_filters_def catalogFilters_def)
  have L: "1 \<le> L" using limit_value assms(4) by simp
  then have "int (length ?out) + L - 1 \<le> max 1 (int (length ?out)) * L + (L - 1)"
    using mult_left_mono [of 1 L "max 1 (int (length ?out))"] by linarith
  then have "(int (length ?out) + L - 1) div L \<le> (max 1 (int (length ?out)) * L + (L - 1)) div L"
    using L by (intro zdiv_mono1) auto
  also have "\<dots> = max 1 (int (length ?out))" using L by simp
  finally have "(int (length ?out) + L - 1) div L \<le> max 1 (int (length ?out))" .
  then have "p < 2 ^ 63" using assms by (simp add: page_count_def)
  then show ?thesis
    using list_answer [OF same(2), of rows remotes] assms(2,3) by (simp add: same Let_def)
qed

section \<open>The search field\<close>

text \<open>A page at rest: the field shows the query of the filters.\<close>

definition search_rest :: "catalog_page \<Rightarrow> bool" where
  "search_rest s \<longleftrightarrow> cp_draft s = cf_q (cp_filters s) \<and> cp_timer s = None"

lemma type_search_step:
  "search_rest s \<Longrightarrow> v \<noteq> cf_q (cp_filters s) \<Longrightarrow>
   let s' = type_search v s in
     search_rest s' \<and> cp_filters s' = (cp_filters s)\<lparr>cf_q := v, cf_page := 1\<rparr> \<and>
     cp_asked s' = cp_asked s @ [catalogFilters ((cp_filters s)\<lparr>cf_q := v, cf_page := 1\<rparr>)]"
  by (auto simp: type_search_def onFiltersChange_def no_patch_def patch_keys_def given_def
      setQDraft_def search_effect_def setFilters_def apply_patch_def take_new_def search_rest_def
      catalogFilters_def Let_def dest: arg_cong [of _ _ cf_q])

lemma type_search_run:
  "search_rest s \<Longrightarrow> distinct_adj (cf_q (cp_filters s) # vs) \<Longrightarrow>
   cp_asked (fold type_search vs s) =
     cp_asked s @ map (\<lambda>v. catalogFilters ((cp_filters s)\<lparr>cf_q := v, cf_page := 1\<rparr>)) vs"
proof (induction vs arbitrary: s)
  case (Cons v vs)
  then have "v \<noteq> cf_q (cp_filters s)" by auto
  note st = type_search_step [OF Cons.prems(1) this, unfolded Let_def]
  then show ?case using Cons.IH [of "type_search v s"] Cons.prems by simp
qed simp

section \<open>Selection\<close>

definition selection_ok :: "cat_item list \<Rightarrow> selection_state \<Rightarrow> bool" where
  "selection_ok items s \<longleftrightarrow> sel_key s = map ci_id items \<and> set (sel_ids s) \<subseteq> set (map ci_id items)"

lemma selection_render: "sel_key s = map ci_id items' \<Longrightarrow> selection_ok items' s \<Longrightarrow>
  selection_ok items (sel_render items s)"
  by (auto simp: selection_ok_def sel_render_def Let_def) (metis imageI image_set subsetD)

lemma selection_toggle:
  "selection_ok items s \<Longrightarrow> i \<in> set (map ci_id items) \<Longrightarrow> selection_ok items (toggleSelected i b s)"
  "selection_ok items s \<Longrightarrow> selection_ok items (toggleSelectAll items s)"
  by (auto simp: selection_ok_def toggleSelected_def toggleSelectAll_def Let_def split: option.splits)

text \<open>What a bulk operation sends: the identifiers of its targets in the order of the listing, an
  imported one for a remote entry, which only an installation takes.\<close>

lemma bulk_ids_installs:
  "\<forall>i \<in> set items. ci_remote i \<longrightarrow> imported i \<noteq> None \<Longrightarrow>
   bulk_ids QInstall imported items =
     Some (map (\<lambda>i. if ci_remote i then the (imported i) else ci_id i) items)"
  by (induction items) auto

lemma bulk_ids_others:
  "action \<noteq> QInstall \<Longrightarrow>
   bulk_ids action imported items = Some (map ci_id (filter (\<lambda>i. \<not> ci_remote i) items))"
  by (induction items) auto

section \<open>Properties\<close>

definition demo_item :: "string \<Rightarrow> cat_item" where
  "demo_item n = \<lparr>ci_id = n, ci_name = n, ci_category = ''Tools'', ci_order = 0, ci_updated = [],
     ci_installed = False, ci_uninstalled = False, ci_hasUpdate = False, ci_canUninstall = False,
     ci_osMissing = False, ci_source = ''local'', ci_remote = False, ci_package = [], ci_manager = []\<rparr>"

text \<open>C6: From the filters in the URL through the request to the handler and back: paging through the
  catalogue lists exactly the entries that the filters ask for, each once and in the chosen order,
  on pages of at most the chosen size; the total is their number.\<close>

theorem catalogue_paging_exact:
  assumes "valid_filters f" "int (length (catalog_listing rows remotes f)) < 2 ^ 63"
  shows "let out = catalog_listing rows remotes f;
             ask = (\<lambda>p. GetSoftwaresListAPI rows remotes (list_request (f\<lparr>cf_page := p\<rparr>)))
         in concat (map (\<lambda>p. la_items (ask p)) [1..la_total_pages (ask 1)]) = out \<and>
            la_total (ask 1) = length out \<and>
            list_all (\<lambda>p. length (la_items (ask p)) \<le> nat (cf_limit (catalogFilters f)))
              [1..la_total_pages (ask 1)]"
proof -
  let ?out = "catalog_listing rows remotes f" and ?L = "cf_limit (catalogFilters f)"
  let ?ask = "\<lambda>p. GetSoftwaresListAPI rows remotes (list_request (f\<lparr>cf_page := p\<rparr>))"
  let ?n = "page_count (length ?out) ?L"
  have "valid_filters (f\<lparr>cf_page := 1\<rparr>)" using assms(1) by (simp add: valid_filters_def)
  from list_answer [OF this, of rows remotes] have n: "la_total_pages (?ask 1) = ?n"
    and t: "la_total (?ask 1) = length ?out"
    by (simp_all add: Let_def catalog_listing_def catalogFilters_def)
  have i: "la_items (?ask p) = page_slice p ?L ?out" if "p \<in> set [1..?n]" for p
    using that assms by (intro list_answer_clamped) auto
  have "concat (map (\<lambda>p. la_items (?ask p)) [1..?n]) =
      concat (map (\<lambda>p. page_slice p ?L ?out) [1..?n])"
    using i by (metis (no_types, lifting) map_cong)
  also have "\<dots> = ?out" using limit_value by (intro pages_cover) simp
  finally show ?thesis
    using i limit_value [of f] by (auto simp: n t Let_def list_all_iff page_slice_take_drop)
qed

theorem catalogue_paging_exact_witness:
  "let rows = (\<lambda>q. [demo_item ''b'', demo_item ''a'']); f = default_filters\<lparr>cf_sort := ''name''\<rparr>;
       out = catalog_listing rows (\<lambda>q. []) f;
       ask = (\<lambda>p. GetSoftwaresListAPI rows (\<lambda>q. []) (list_request (f\<lparr>cf_page := p\<rparr>)))
   in concat (map (\<lambda>p. la_items (ask p)) [1..la_total_pages (ask 1)]) = out \<and>
      la_total (ask 1) = length out \<and>
      list_all (\<lambda>p. length (la_items (ask p)) \<le> nat (cf_limit (catalogFilters f)))
        [1..la_total_pages (ask 1)]"
proof -
  let ?f = "default_filters\<lparr>cf_sort := ''name''\<rparr>" and ?rows = "\<lambda>q. [demo_item ''b'', demo_item ''a'']"
  have "valid_filters ?f" by code_simp
  moreover have "length (catalog_listing ?rows (\<lambda>q. []) ?f) \<le> 2"
    by (simp add: catalog_listing_def default_filters_def)
  then have "int (length (catalog_listing ?rows (\<lambda>q. []) ?f)) \<le> 2" by simp
  then have "int (length (catalog_listing ?rows (\<lambda>q. []) ?f)) < 2 ^ 63"
    by (rule le_less_trans) simp
  ultimately show ?thesis
    unfolding Let_def by (rule catalogue_paging_exact [unfolded Let_def])
qed

text \<open>C7: The page of installed softwares asks for the first hundred entries of the whole catalogue by
  name and filters them itself. So when no installed software with an update is among those, it
  tells that everything is up to date, whatever else is installed.\<close>

theorem installed_page_first_hundred:
  assumes "list_all (\<lambda>i. \<not> ci_hasUpdate i)
    (take 100 (sortSoftwareItems ''name'' (filter (\<lambda>i. \<not> ci_remote i) (rows []))))"
  shows "let a = GetSoftwaresListAPI rows remotes installed_request;
             shown = shown_installed queued (la_items a)
         in shown = shown_installed queued
              (take 100 (sortSoftwareItems ''name'' (filter (\<lambda>i. \<not> ci_remote i) (rows [])))) \<and>
            update_message (updates_found shown) = ''All installed software is up to date''"
proof -
  let ?out = "sortSoftwareItems ''name'' (filter (\<lambda>i. \<not> ci_remote i) (rows []))"
  have t: "param_text installed_request ''q'' = []" "param_text installed_request ''category'' = []"
    "param_text installed_request ''status'' = []" "param_text installed_request ''sort'' = ''name''"
    "param_text installed_request ''source'' = ''local''"
    by (simp_all add: installed_request_def query_texts default_softwares_query_def)
  have p: "queryInt installed_request ''page'' 1 = 1" "queryInt installed_request ''limit'' 12 = 100"
    using query_int [of 1 installed_request "''page''" 1] query_int [of 100 installed_request "''limit''" 12]
    by (simp_all add: installed_request_def query_texts default_softwares_query_def)
  have k: "or_default ''name'' ''order'' = ''name''" "or_default ''local'' ''local'' = ''local''"
    by (simp_all add: or_default_def)
  have o: "status_filter [] (source_filter ''local'' [] (category_filter [] xs)) =
      filter (\<lambda>i. \<not> ci_remote i) xs" for xs
    by (simp add: category_filter_def source_filter_def status_filter_def)
  have m: "min (max 1 1) (page_count n 100) = 1" for n by (simp add: page_count_def)
  have "la_items (GetSoftwaresListAPI rows remotes installed_request) = page_slice 1 100 ?out"
    unfolding GetSoftwaresListAPI_def Let_def t p trim_const lower_const k by (simp add: o m [simplified])
  then have "la_items (GetSoftwaresListAPI rows remotes installed_request) = take 100 ?out"
    by (simp add: page_slice_take_drop)
  moreover have "updates_found (shown_installed queued (take 100 ?out)) = 0"
    using assms by (auto simp: updates_found_def shown_installed_def list_all_iff filter_empty_conv)
  ultimately show ?thesis by (simp add: update_message_def Let_def)
qed

text \<open>A hundred and one softwares of one name, the last of which is installed and has an update.\<close>

definition demo_catalogue :: "string \<Rightarrow> cat_item list" where
  "demo_catalogue q = replicate 100 (demo_item ''a'') @
     [(demo_item ''a'')\<lparr>ci_installed := True, ci_hasUpdate := True\<rparr>]"

theorem installed_page_first_hundred_witness:
  "\<exists>i \<in> set (demo_catalogue []). ci_installed i \<and> ci_hasUpdate i \<and>
     update_message (updates_found (shown_installed []
       (la_items (GetSoftwaresListAPI demo_catalogue demo_catalogue installed_request)))) =
     ''All installed software is up to date''"
proof -
  let ?i = "(demo_item ''a'')\<lparr>ci_installed := True, ci_hasUpdate := True\<rparr>"
  have "sortSoftwareItems ''name'' (demo_catalogue []) = demo_catalogue []"
    unfolding sortSoftwareItems_def
    by (rule slice_stable_id) (auto simp: demo_catalogue_def demo_item_def item_less_def go_less_def)
  moreover have "filter (\<lambda>i. \<not> ci_remote i) (demo_catalogue []) = demo_catalogue []"
    by (simp add: demo_catalogue_def demo_item_def)
  ultimately have "list_all (\<lambda>i. \<not> ci_hasUpdate i)
      (take 100 (sortSoftwareItems ''name'' (filter (\<lambda>i. \<not> ci_remote i) (demo_catalogue []))))"
    by (auto simp: demo_catalogue_def demo_item_def list_all_iff)
  from installed_page_first_hundred [of demo_catalogue, OF this, of demo_catalogue "[]"]
  have "update_message (updates_found (shown_installed []
      (la_items (GetSoftwaresListAPI demo_catalogue demo_catalogue installed_request)))) =
      ''All installed software is up to date''" unfolding Let_def by (rule conjunct2)
  then show ?thesis by (intro bexI [of _ ?i]) (auto simp: demo_catalogue_def)
qed

text \<open>Entries without a category are counted under Other, but choosing Other lists none of them.\<close>

lemma other_facet_lists_no_blank:
  "filter (\<lambda>i. trim (ci_category i) = []) (category_filter ''Other'' items) = [] \<and>
   map_of (facet_counts items) ''Other'' =
     (let n = length (filter (\<lambda>i. trim (ci_category i) = [] \<or> trim (ci_category i) = ''Other'') items)
      in if n = 0 then None else Some n)"
proof
  have "go_lower ''Other'' = ''other''" by code_simp
  then show "filter (\<lambda>i. trim (ci_category i) = []) (category_filter ''Other'' items) = []"
    by (auto simp: category_filter_def equalFold_def filter_empty_conv)
next
  have f: "facet_name i = ''Other'' \<longleftrightarrow> trim (ci_category i) = [] \<or> trim (ci_category i) = ''Other''" for i
    by (simp add: facet_name_def)
  have "map_of (map (\<lambda>c. (c, g c)) cs) k = (if k \<in> set cs then Some (g k) else None)"
    for g :: "string \<Rightarrow> nat" and cs k by (induction cs) auto
  then show "map_of (facet_counts items) ''Other'' =
     (let n = length (filter (\<lambda>i. trim (ci_category i) = [] \<or> trim (ci_category i) = ''Other'') items)
      in if n = 0 then None else Some n)"
    unfolding facet_counts_def f [symmetric] Let_def
    by (auto simp: filter_empty_conv image_iff dest: sym)
qed

text \<open>The search field is not debounced: each text that is typed into it is asked for at once, as
  a query of its own.\<close>

theorem search_asks_every_keystroke:
  assumes "search_rest s" "distinct_adj (cf_q (cp_filters s) # typed)"
  shows "cp_asked (fold type_search typed s) =
    cp_asked s @ map (\<lambda>v. catalogFilters ((cp_filters s)\<lparr>cf_q := v, cf_page := 1\<rparr>)) typed"
  using assms by (rule type_search_run)

theorem search_asks_every_keystroke_witness:
  "let s = \<lparr>cp_filters = default_filters, cp_draft = [], cp_timer = None, cp_asked = []\<rparr> in
   map cf_q (cp_asked (fold type_search [''n'', ''no'', ''nod'', ''node''] s)) =
     [''n'', ''no'', ''nod'', ''node'']"
  unfolding Let_def
  by (subst search_asks_every_keystroke) (simp_all add: search_rest_def default_filters_def catalogFilters_def)

end
