(* ===== verification/Workspaces.thy ===== *)
theory Workspaces
  imports Install_Jobs Module_Api
begin

text \<open>
  The VS Code page, \<open>vscode/pages/list/index.tsx\<close>: the list of workspaces and its search, opening a
  workspace, the dialogs that create, edit and start one, and the choice of its folder
  (\<open>folder-select-dialog.tsx\<close>, \<open>path-picker.tsx\<close>). The dialogs follow a stream of events as the pages
  of \<open>Install_Jobs\<close> do and use the same panel. The layout is not modelled.
\<close>

section \<open>Folders\<close>

definition slash :: char where "slash = CHR ''/''"

text \<open>\<open>replace(/\/+/g, "/")\<close>\<close>

fun squeezeSlashes :: "string \<Rightarrow> string" where
  "squeezeSlashes [] = []"
| "squeezeSlashes [c] = [c]"
| "squeezeSlashes (c # d # cs) = (if c = slash \<and> d = slash then squeezeSlashes (d # cs) else c # squeezeSlashes (d # cs))"

definition ws_normalizePath :: "string \<Rightarrow> string" where
  "ws_normalizePath raw =
     (let trimmed = trim raw in
      if trimmed = [] then ''/workspace''
      else let withSlash = (if starts_with trimmed [slash] then trimmed else slash # trimmed);
               clean = squeezeSlashes withSlash
           in if 1 < length clean \<and> last clean = slash then butlast clean
              else if clean \<noteq> [] then clean else ''/workspace'')"

definition toBrowseApiPath :: "string \<Rightarrow> string" where
  "toBrowseApiPath path =
     (let clean = ws_normalizePath path in if clean = [slash] then [slash] else clean @ [slash])"

text \<open>\<open>replace(/\/+$/, "")\<close>\<close>

definition trimSlashes :: "string \<Rightarrow> string" where
  "trimSlashes s = rev (dropWhile (\<lambda>c. c = slash) (rev s))"

definition folder_parts :: "string \<Rightarrow> string list" where
  "folder_parts s = filter (\<lambda>p. p \<noteq> []) (js_split [slash] s)"

type_synonym crumb = "string \<times> string"

definition splitCrumbs :: "string \<Rightarrow> crumb list" where
  "splitCrumbs path =
     (let clean = (if path = [slash] then [slash] else trimSlashes path) in
      if clean = [slash] then [([slash], [slash])]
      else fst (foldl (\<lambda>(crumbs, acc) part. let acc = acc @ slash # part
                         in (crumbs @ [(part, acc)], acc))
                 ([([slash], [slash])], []) (folder_parts clean)))"

definition last_slash :: "string \<Rightarrow> nat option" where
  "last_slash s = (if slash \<in> set s then Some (length s - 1 - length (takeWhile (\<lambda>c. c \<noteq> slash) (rev s)))
     else None)"

definition parentOf :: "string \<Rightarrow> string" where
  "parentOf path =
     (let clean = ws_normalizePath path in
      if clean = [slash] then [slash]
      else case last_slash clean of
        None \<Rightarrow> [slash]
      | Some i \<Rightarrow> if i = 0 then [slash] else if take i clean \<noteq> [] then take i clean else [slash])"

text \<open>The dialog: the folder that is browsed and the text of its field, which is browsed once it
  has rested for half a second. The effect on the rested text also runs when the dialog opens, with
  the text that rested last.\<close>

record folder_dialog =
  fd_open :: bool
  fd_browse :: string
  fd_draft :: string
  fd_debounced :: string

definition fd_effect :: "folder_dialog \<Rightarrow> folder_dialog" where
  "fd_effect s = (if fd_open s then s\<lparr>fd_browse := ws_normalizePath (fd_debounced s)\<rparr> else s)"

definition fd_show :: "bool \<Rightarrow> string \<Rightarrow> folder_dialog \<Rightarrow> folder_dialog" where
  "fd_show opn initialPath s =
     (if opn = fd_open s then s
      else if opn
      then let start = ws_normalizePath (if initialPath \<noteq> [] then initialPath else ''/workspace'')
           in fd_effect (s\<lparr>fd_open := True, fd_browse := start, fd_draft := start\<rparr>)
      else s\<lparr>fd_open := False\<rparr>)"

definition fd_settle :: "folder_dialog \<Rightarrow> folder_dialog" where
  "fd_settle s =
     (if fd_debounced s = fd_draft s then s else fd_effect (s\<lparr>fd_debounced := fd_draft s\<rparr>))"

definition fd_goTo :: "string \<Rightarrow> folder_dialog \<Rightarrow> folder_dialog" where
  "fd_goTo nxt s = (let p = ws_normalizePath nxt in s\<lparr>fd_draft := p, fd_browse := p\<rparr>)"

definition fd_commit :: "folder_dialog \<Rightarrow> folder_dialog" where
  "fd_commit s = fd_goTo (fd_draft s) s"

definition fd_request :: "string option \<Rightarrow> folder_dialog \<Rightarrow> api_request" where
  "fd_request userId s = browseCodeserverPaths (toBrowseApiPath (fd_browse s)) userId"

definition fd_confirm :: "folder_dialog \<Rightarrow> string \<times> folder_dialog" where
  "fd_confirm s = (ws_normalizePath (fd_draft s), s\<lparr>fd_open := False\<rparr>)"

section \<open>The list\<close>

record workspace =
  w_id :: string
  w_user_id :: string
  w_username :: string
  w_email :: string
  w_full_name :: string
  w_name :: string
  w_status :: string
  w_path :: string
  w_live :: bool
  w_connect_url :: string

definition isAdminUser :: "string list option \<Rightarrow> bool" where
  "isAdminUser roles =
     (case roles of None \<Rightarrow> False
      | Some rs \<Rightarrow> \<exists>r \<in> set rs. map js_lower (takeWhile (\<lambda>c. c \<noteq> CHR '':'') r) = ''admin'')"

definition folderBasename :: "string \<Rightarrow> string" where
  "folderBasename path =
     (let clean = trimSlashes path in
      if clean = [] then ''workspace''
      else let b = last (js_split [slash] clean) in if b \<noteq> [] then b else ''workspace'')"

definition workspaceTitle :: "workspace \<Rightarrow> string" where
  "workspaceTitle w =
     (if trim (w_name w) \<noteq> [] then trim (w_name w)
      else if folderBasename (w_path w) \<noteq> [] then folderBasename (w_path w) else ''workspace'')"

definition sessionMatchesQuery :: "workspace \<Rightarrow> string \<Rightarrow> bool" where
  "sessionMatchesQuery w query =
     (query = [] \<or>
      str_includes (map js_lower (js_join '' '' (filter (\<lambda>x. x \<noteq> [])
        [w_name w, w_full_name w, w_username w, w_email w, w_status w, w_path w]))) query)"

definition myRows :: "string option \<Rightarrow> workspace list \<Rightarrow> workspace list" where
  "myRows userId rows =
     (case userId of Some u \<Rightarrow> if u \<noteq> [] then filter (\<lambda>w. w_user_id w = u) rows else rows
      | None \<Rightarrow> rows)"

definition filteredAdminRows :: "string \<Rightarrow> workspace list \<Rightarrow> workspace list" where
  "filteredAdminRows search rows =
     filter (\<lambda>w. sessionMatchesQuery w (map js_lower (trim search))) rows"

text \<open>Opening: a workspace that does not run is started first. The result is the request log, the
  notices, and the address that is opened in a new window.\<close>

record open_result =
  or_requests :: "string list"
  or_notices :: "notice list"
  or_opened :: "string option"

definition reactivated :: "setup_event list \<Rightarrow> bool \<times> string" where
  "reactivated evs =
     fold (\<lambda>ev (ok, url). if ev_type ev = EvDone
             then (ev_success ev, js_or (ev_url ev) url) else (ok, url)) evs (False, [])"

definition open_failed :: "(rat \<Rightarrow> string) \<Rightarrow> err \<Rightarrow> notice" where
  "open_failed numStr e = Went_wrong (getRequestErrorMessage numStr e ''Failed to open workspace'')"

definition stream_errors :: "setup_event list \<Rightarrow> notice list" where
  "stream_errors evs = List.map_filter (\<lambda>ev. case (ev_type ev, nonempty_text (ev_message ev)) of
      (EvError, Some m) \<Rightarrow> Some (Went_wrong m) | _ \<Rightarrow> None) evs"

definition finish_open ::
  "(rat \<Rightarrow> string) \<Rightarrow> workspace \<Rightarrow> string \<Rightarrow> (err, string option \<times> string option) sum \<Rightarrow> open_result \<Rightarrow> open_result" where
  "finish_open numStr w connectURL answer r =
     (let r = r\<lparr>or_requests := or_requests r @ [rq_url (openCodeserverSession (w_id w))]\<rparr> in
      case answer of
        Inl e \<Rightarrow> r\<lparr>or_notices := or_notices r @ [open_failed numStr e]\<rparr>
      | Inr (url, message) \<Rightarrow>
          let connectURL = js_or url connectURL in
          if connectURL = [] then r\<lparr>or_notices := or_notices r @ [Went_wrong ''No connect URL available'']\<rparr>
          else r\<lparr>or_notices := or_notices r @ [Succeeded (js_or message ''Opening VS Code'')],
                 or_opened := Some connectURL\<rparr>)"

definition openWorkspace ::
  "(rat \<Rightarrow> string) \<Rightarrow> workspace \<Rightarrow> setup_event outcome \<Rightarrow>
    (err, string option \<times> string option) sum \<Rightarrow> open_result" where
  "openWorkspace numStr w started answer =
     (if w_live w
      then finish_open numStr w (w_connect_url w) answer \<lparr>or_requests = [], or_notices = [], or_opened = None\<rparr>
      else
        let r = \<lparr>or_requests = [VSCODE_SESSIONS_SINGLE_BASE @ ''/'' @ w_id w @ ''/reactivate/stream''], or_notices = stream_errors (fst started), or_opened = None\<rparr>
        in case snd started of
            Some m \<Rightarrow> r\<lparr>or_notices := or_notices r @ [open_failed numStr (PlainErr m)]\<rparr>
          | None \<Rightarrow>
              let (ok, url) = reactivated (fst started) in
              if \<not> ok then r\<lparr>or_notices := or_notices r @ [Went_wrong ''Failed to start workspace'']\<rparr>
              else finish_open numStr w (js_or (Some url) (w_connect_url w)) answer r)"

section \<open>The dialog that starts a workspace\<close>

datatype dialog_phase = PhIdle | PhForm | PhRunning | PhSuccess | PhError

record ws_dialog = panel +
  d_phase :: dialog_phase
  d_connectURL :: string
  d_startedFor :: "string option"
  d_shown :: bool
  d_done :: nat
  d_created :: "string option"

definition new_dialog :: "dialog_phase \<Rightarrow> ws_dialog" where
  "new_dialog ph = panel.extend new_panel
     \<lparr>d_phase = ph, d_connectURL = [], d_startedFor = None, d_shown = False, d_done = 0, d_created = None\<rparr>"

definition set_phase :: "dialog_phase \<Rightarrow> install_status \<Rightarrow> ws_dialog \<Rightarrow> ws_dialog" where
  "set_phase ph st s = (set_status st s)\<lparr>d_phase := ph\<rparr>"

definition set_url :: "string option \<Rightarrow> ws_dialog \<Rightarrow> ws_dialog" where
  "set_url url s = (case nonempty_text url of Some u \<Rightarrow> s\<lparr>d_connectURL := u\<rparr> | None \<Rightarrow> s)"

definition start_dialog :: "string option \<Rightarrow> ws_dialog \<Rightarrow> ws_dialog" where
  "start_dialog target s =
     appendLine SystemLine (''Connecting'' @ dots)
       ((set_phase PhRunning Running (open_run target s))\<lparr>p_lines := [], d_connectURL := []\<rparr>)"

text \<open>The effect on \<open>open\<close> and \<open>session\<close>: it starts the workspace once for each one shown.\<close>

definition re_effect :: "workspace \<Rightarrow> ws_dialog \<Rightarrow> ws_dialog" where
  "re_effect w s =
     (let s = s\<lparr>d_shown := True\<rparr> in
      if d_startedFor s = Some (w_id w) then s
      else start_dialog (Some (w_id w)) (s\<lparr>d_startedFor := Some (w_id w)\<rparr>))"

definition re_reset :: "ws_dialog \<Rightarrow> ws_dialog" where
  "re_reset s = (set_phase PhIdle Idle (abort_current s))
     \<lparr>p_ctl := None, d_startedFor := None, p_lines := [], d_connectURL := []\<rparr>"

text \<open>Closing: the button, the cross, the escape key and a click outside, all refused while running.\<close>

definition re_close :: "ws_dialog \<Rightarrow> ws_dialog" where
  "re_close s = (if d_phase s = PhRunning then s else re_reset (s\<lparr>d_shown := False\<rparr>))"

definition re_onEvent :: "setup_event \<Rightarrow> ws_dialog \<Rightarrow> ws_dialog" where
  "re_onEvent ev s =
     (case ev_type ev of
        EvStart \<Rightarrow> appendLine SystemLine (js_or (ev_message ev) (''Starting'' @ dots)) s
      | EvSystem \<Rightarrow> append_nonempty SystemLine (ev_line ev) s
      | EvLog \<Rightarrow> append_nonempty (log_stream (ev_stream ev)) (ev_line ev) s
      | EvError \<Rightarrow> notify (Went_wrong (js_or (ev_message ev) ''Failed to start workspace''))
          (appendLine Stderr (js_or (ev_message ev) ''Failed'') (set_phase PhError Failed s))
      | EvDone \<Rightarrow>
          if ev_success ev
          then let s = set_url (ev_url ev) (set_phase PhSuccess Success s);
                   s = notify (Succeeded (js_or (ev_message ev) ''Workspace ready''))
                         (appendLine SystemLine (js_or (ev_message ev) ''Ready'') s)
               in s\<lparr>d_done := Suc (d_done s)\<rparr>
          else notify (Went_wrong (js_or (ev_message ev) ''Failed to start workspace''))
            (appendLine Stderr (js_or (ev_message ev) ''Failed'') (set_phase PhError Failed s))
      | _ \<Rightarrow> s)"

definition re_end :: "(rat \<Rightarrow> string) \<Rightarrow> nat \<Rightarrow> err option \<Rightarrow> ws_dialog \<Rightarrow> ws_dialog" where
  "re_end numStr c result s =
     close_run c
       (case result of
          None \<Rightarrow> s
        | Some e \<Rightarrow>
            if c \<in> set (p_aborted s) then s
            else let message = getRequestErrorMessage numStr e ''Failed to start workspace''
                 in notify (Went_wrong message) (appendLine Stderr message (set_phase PhError Failed s)))"

section \<open>The dialog that creates a workspace\<close>

record create_form =
  c_user :: "string option"
  c_name :: string
  c_path :: string
  c_clone :: bool
  c_repo :: string
  c_branch :: string
  c_token :: string
  c_name_touched :: bool

text \<open>The form once the effect on the folder has run for the first time.\<close>

definition new_form :: create_form where
  "new_form = \<lparr>c_user = None, c_name = folderBasename ''/workspace'', c_path = ''/workspace'', c_clone = False, c_repo = [],
     c_branch = ''main'', c_token = [], c_name_touched = False\<rparr>"

text \<open>A new folder renames the workspace until a name has been typed.\<close>

definition set_path :: "string \<Rightarrow> create_form \<Rightarrow> create_form" where
  "set_path p f =
     (let f' = f\<lparr>c_path := p\<rparr> in
      if c_name_touched f \<or> p = c_path f then f' else f'\<lparr>c_name := folderBasename p\<rparr>)"

definition create_target :: "bool \<Rightarrow> string option \<Rightarrow> create_form \<Rightarrow> string option" where
  "create_target isAdmin currentUserId f = nonempty_text (if isAdmin then c_user f else currentUserId)"

definition workspace_body :: "string \<Rightarrow> create_form \<Rightarrow> obj" where
  "workspace_body target f =
     [(''user_id'', JStr target),
      (''name'', JStr (if trim (c_name f) \<noteq> [] then trim (c_name f) else folderBasename (c_path f))),
      (''path'', JStr (if trim (c_path f) \<noteq> [] then trim (c_path f) else ''/workspace'')),
      (''status'', JStr ''active'')] @
     (if c_clone f \<and> trim (c_repo f) \<noteq> []
      then [(''git_repo'', JStr (trim (c_repo f))),
            (''git_branch'', truthy_str (Some (trim (c_branch f)))),
            (''git_token'', truthy_str (Some (trim (c_token f))))]
      else [])"

text \<open>The click, with the body that is sent.\<close>

definition startCreate ::
  "bool \<Rightarrow> string option \<Rightarrow> create_form \<Rightarrow> ws_dialog \<Rightarrow> ws_dialog \<times> obj option" where
  "startCreate isAdmin currentUserId f s =
     (case create_target isAdmin currentUserId f of
        None \<Rightarrow> (s, None)
      | Some target \<Rightarrow>
          if d_phase s = PhRunning then (s, None)
          else if c_clone f \<and> trim (c_repo f) = []
          then (notify (Went_wrong ''Enter a git repository URL'') s, None)
          else (start_dialog None (s\<lparr>d_created := None\<rparr>), Some (workspace_body target f)))"

definition create_onEvent :: "setup_event \<Rightarrow> ws_dialog \<Rightarrow> ws_dialog" where
  "create_onEvent ev s =
     (case ev_type ev of
        EvStart \<Rightarrow> appendLine SystemLine (js_or (ev_message ev) (''Starting'' @ dots)) s
      | EvSystem \<Rightarrow> append_nonempty SystemLine (ev_line ev) s
      | EvLog \<Rightarrow> append_nonempty (log_stream (ev_stream ev)) (ev_line ev) s
      | EvError \<Rightarrow> notify (Went_wrong (js_or (ev_message ev) ''Failed to create workspace''))
          (appendLine Stderr (js_or (ev_message ev) ''Create failed'') (set_phase PhError Failed s))
      | EvDone \<Rightarrow>
          if ev_success ev
          then let s = set_phase PhSuccess Success s;
                   s = (case ev_data ev of Some d \<Rightarrow> s\<lparr>d_created := Some d\<rparr> | None \<Rightarrow> s);
                   s = set_url (ev_url ev) s;
                   s = notify (Succeeded (js_or (ev_message ev) ''Workspace created''))
                         (appendLine SystemLine (js_or (ev_message ev) ''Workspace created successfully'') s)
               in s\<lparr>d_done := Suc (d_done s)\<rparr>
          else notify (Went_wrong (js_or (ev_message ev) ''Failed to create workspace''))
            (appendLine Stderr (js_or (ev_message ev) ''Create failed'') (set_phase PhError Failed s))
      | _ \<Rightarrow> s)"

definition create_end :: "(rat \<Rightarrow> string) \<Rightarrow> nat \<Rightarrow> err option \<Rightarrow> ws_dialog \<Rightarrow> ws_dialog" where
  "create_end numStr c result s =
     close_run c
       (case result of
          None \<Rightarrow> s
        | Some e \<Rightarrow>
            if c \<in> set (p_aborted s) then set_phase PhForm Cancelled s
            else let message = getRequestErrorMessage numStr e ''Failed to create workspace''
                 in notify (Went_wrong message) (appendLine Stderr message (set_phase PhError Failed s)))"

definition create_reset :: "ws_dialog \<Rightarrow> ws_dialog" where
  "create_reset s = (set_phase PhForm Idle (abort_current s))
     \<lparr>p_ctl := None, p_lines := [], d_created := None, d_connectURL := []\<rparr>"

definition create_close :: "ws_dialog \<Rightarrow> ws_dialog" where
  "create_close s = (if d_phase s = PhRunning then s else create_reset (s\<lparr>d_shown := False\<rparr>))"

text \<open>What the button that opens the created workspace opens; \<open>created\<close> is its identifier.\<close>

definition openSession :: "string option \<Rightarrow> ws_dialog \<Rightarrow> string option" where
  "openSession created_url s =
     (let url = (if d_connectURL s \<noteq> [] then d_connectURL s
                 else js_or created_url
                   (case nonempty_text (d_created s) of
                      Some i \<Rightarrow> ''/codeserver/'' @ i @ ''/'' | None \<Rightarrow> []))
      in if url = [] then None else Some url)"

definition canCreate :: "bool \<Rightarrow> string option \<Rightarrow> create_form \<Rightarrow> ws_dialog \<Rightarrow> bool" where
  "canCreate isAdmin currentUserId f s \<longleftrightarrow>
     create_target isAdmin currentUserId f \<noteq> None \<and> trim (c_path f) \<noteq> [] \<and>
     (\<not> c_clone f \<or> trim (c_repo f) \<noteq> []) \<and> d_phase s \<noteq> PhRunning \<and> d_phase s \<noteq> PhSuccess"

section \<open>The dialog that edits a workspace\<close>

definition edit_form :: "workspace \<Rightarrow> string \<times> string" where
  "edit_form w =
     (if w_name w \<noteq> [] then w_name w else folderBasename (w_path w),
      if w_path w \<noteq> [] then w_path w else ''/workspace'')"

definition edit_body :: "string \<times> string \<Rightarrow> obj" where
  "edit_body f = (case f of (name, path) \<Rightarrow>
     [(''name'', JStr (if trim name \<noteq> [] then trim name else folderBasename path)),
      (''path'', JStr (if trim path \<noteq> [] then trim path else ''/workspace''))])"

section \<open>Lemmas on folders\<close>

text \<open>A path written from its parts.\<close>

definition absolute :: "string list \<Rightarrow> string" where
  "absolute ps = concat (map ((#) slash) ps)"

definition plain_part :: "string \<Rightarrow> bool" where
  "plain_part p \<longleftrightarrow> p \<noteq> [] \<and> slash \<notin> set p"

lemma absolute_simps [simp]:
  "absolute [] = []" "absolute (p # ps) = slash # p @ absolute ps"
  "absolute (ps @ qs) = absolute ps @ absolute qs"
  by (simp_all add: absolute_def)

lemma absolute_eq_Nil [simp]: "absolute ps = [] \<longleftrightarrow> ps = []"
  by (cases ps) simp_all

lemma parts_split: "slash \<notin> set w \<Longrightarrow>
  folder_parts (w @ slash # r) = (if w = [] then folder_parts r else w # folder_parts r)"
  by (simp add: folder_parts_def js_split_char_append)

lemma parts_lead [simp]: "folder_parts (slash # r) = folder_parts r"
  using parts_split [of "[]"] by simp

lemma parts_free: "slash \<notin> set w \<Longrightarrow> folder_parts w = (if w = [] then [] else [w])"
  by (simp add: folder_parts_def js_split_char_free)

lemma parts_plain: "p \<in> set (folder_parts s) \<Longrightarrow> plain_part p"
  by (auto simp: folder_parts_def plain_part_def dest: js_split_char_pieces)

lemma parts_absolute: "\<forall>p \<in> set ps. plain_part p \<Longrightarrow> folder_parts (absolute ps) = ps"
proof -
  have "\<forall>p \<in> set ps. plain_part p \<Longrightarrow> slash \<notin> set w \<Longrightarrow>
      folder_parts (w @ absolute ps) = (if w = [] then ps else w # ps)" for w
  proof (induction ps arbitrary: w)
    case Nil
    then show ?case by (simp add: parts_free)
  next
    case (Cons p ps)
    then show ?case by (auto simp: parts_split plain_part_def)
  qed
  from this [of "[]"] show "\<forall>p \<in> set ps. plain_part p \<Longrightarrow> ?thesis" by simp
qed

lemma squeezeSlashes_free: "slash \<notin> set w \<Longrightarrow> squeezeSlashes (c # w @ slash # r) = c # w @ squeezeSlashes (slash # r)"
  if "w \<noteq> []" for w
  using that
proof (induction w arbitrary: c)
  case (Cons d w)
  then show ?case by (cases w) auto
qed simp

lemma squeeze_word: "slash \<notin> set w \<Longrightarrow> squeezeSlashes (c # w) = c # w"
proof (induction w arbitrary: c)
  case (Cons d w)
  then show ?case by auto
qed simp

lemma squeeze_absolute:
  "squeezeSlashes (slash # s) =
     absolute (folder_parts s) @ (if s = [] \<or> last s = slash then [slash] else [])"
proof (induction "length s" arbitrary: s rule: less_induct)
  case less
  show ?case
  proof (cases "slash \<in> set s")
    case False
    then have "s = [] \<or> last s \<noteq> slash" using last_in_set by metis
    then show ?thesis using False by (auto simp: squeeze_word parts_free)
  next
    case True
    then obtain w r where s: "s = w @ slash # r" "slash \<notin> set w"
      by (metis split_list_first)
    then have "squeezeSlashes (slash # r) =
        absolute (folder_parts r) @ (if r = [] \<or> last r = slash then [slash] else [])"
      using less by simp
    then show ?thesis using s by (cases "w = []") (auto simp: squeezeSlashes_free parts_split)
  qed
qed

lemma absolute_last: "\<forall>p \<in> set ps. plain_part p \<Longrightarrow> ps \<noteq> [] \<Longrightarrow> last (absolute ps) \<noteq> slash"
proof (induction ps rule: rev_induct)
  case (snoc p ps)
  then have "last p \<noteq> slash" using last_in_set [of p] by (fastforce simp: plain_part_def)
  then show ?case using snoc.prems by (auto simp: plain_part_def)
qed simp

lemma parts_at_slash: "folder_parts (a @ slash # b) = folder_parts a @ folder_parts b"
  by (simp add: folder_parts_def js_split_char_at)

lemma parts_empty: "folder_parts u = [] \<Longrightarrow> u \<noteq> [] \<Longrightarrow> last u = slash"
proof (cases "slash \<in> set u")
  case True
  then obtain a b where "u = a @ slash # b" "slash \<notin> set b" by (metis split_list_last)
  then show "folder_parts u = [] \<Longrightarrow> ?thesis" by (auto simp: parts_at_slash parts_free split: if_splits)
qed (simp add: parts_free)

definition rooted :: "string list \<Rightarrow> string" where
  "rooted ps = (if ps = [] then [slash] else absolute ps)"

lemma drop_first_slash: "starts_with t [slash] \<Longrightarrow> \<exists>u. t = slash # u"
  by (cases t) (auto simp: starts_with_def)

text \<open>What normalising does, in terms of parts.\<close>

lemma normalize_parts:
  "ws_normalizePath raw = (if trim raw = [] then ''/workspace'' else rooted (folder_parts (trim raw)))"
proof (cases "trim raw = []")
  case False
  define u where "u = (if starts_with (trim raw) [slash] then tl (trim raw) else trim raw)"
  have w: "(if starts_with (trim raw) [slash] then trim raw else slash # trim raw) = slash # u"
    using drop_first_slash [of "trim raw"] by (auto simp: u_def)
  have p: "folder_parts (trim raw) = folder_parts u"
    using drop_first_slash [of "trim raw"] parts_split [of "[]" "tl (trim raw)"] by (auto simp: u_def)
  have l: "last (absolute (folder_parts u)) \<noteq> slash" if "folder_parts u \<noteq> []"
    using that by (intro absolute_last) (auto dest: parts_plain)
  show ?thesis
    using l False parts_empty [of u] unfolding ws_normalizePath_def Let_def w squeeze_absolute p
    by (auto simp: rooted_def butlast_append)
qed (simp add: ws_normalizePath_def Let_def)

lemma rooted_not_Nil [simp]: "rooted ps \<noteq> []"
  by (simp add: rooted_def)

lemma parts_rooted: "\<forall>p \<in> set ps. plain_part p \<Longrightarrow> folder_parts (rooted ps) = ps"
  using parts_split [of "[]" "[]"] parts_free [of "[]"] by (auto simp: rooted_def parts_absolute)

lemma strip_rooted: "\<forall>p \<in> set ps. plain_part p \<Longrightarrow> ps \<noteq> [] \<Longrightarrow> trimSlashes (rooted ps) = rooted ps"
proof -
  assume a: "\<forall>p \<in> set ps. plain_part p" "ps \<noteq> []"
  then have "hd (rev (absolute ps)) \<noteq> slash" using absolute_last by (simp add: hd_rev)
  then show ?thesis using a
    by (cases "rev (absolute ps)") (auto simp: trimSlashes_def rooted_def)
qed

lemma rooted_slash: "\<forall>p \<in> set ps. plain_part p \<Longrightarrow> rooted ps = [slash] \<longleftrightarrow> ps = []"
  by (cases ps) (auto simp: rooted_def plain_part_def)

lemma crumbs_fold:
  "foldl (\<lambda>(crumbs, acc) part. (crumbs @ [(part, acc @ slash # part)], acc @ slash # part)) (cs, a) ps =
     (cs @ map (\<lambda>k. (ps ! k, a @ absolute (take (Suc k) ps))) [0..<length ps], a @ absolute ps)"
proof (induction ps rule: rev_induct)
  case (snoc p ps)
  have "map (\<lambda>k. ((ps @ [p]) ! k, a @ absolute (take (Suc k) (ps @ [p])))) [0..<length ps] =
      map (\<lambda>k. (ps ! k, a @ absolute (take (Suc k) ps))) [0..<length ps]"
    by (auto simp: nth_append)
  with snoc show ?case by simp
qed simp

lemma upt_from_zero: "[0..<Suc n] = 0 # map Suc [0..<n]"
  by (simp add: upt_conv_Cons map_Suc_upt del: upt_Suc)

text \<open>The crumbs of a path are the root and its prefixes.\<close>

lemma crumb_paths:
  assumes "\<forall>p \<in> set ps. plain_part p"
  shows "map snd (splitCrumbs (rooted ps)) = map (\<lambda>k. rooted (take k ps)) [0..<Suc (length ps)]"
proof (cases "ps = []")
  case False
  have "map snd (splitCrumbs (rooted ps)) = [slash] # map (\<lambda>k. absolute (take (Suc k) ps)) [0..<length ps]"
    using assms False by (simp add: splitCrumbs_def strip_rooted rooted_slash parts_rooted crumbs_fold
        Let_def comp_def)
  also have "\<dots> = map (\<lambda>k. rooted (take k ps)) (0 # map Suc [0..<length ps])"
    using False by (auto simp: rooted_def)
  finally show ?thesis by (simp only: upt_from_zero)
qed (simp add: rooted_def splitCrumbs_def Let_def)

lemma last_slash_absolute:
  "plain_part p \<Longrightarrow> last_slash (absolute ps @ slash # p) = Some (length (absolute ps))"
proof -
  assume p: "plain_part p"
  then have "takeWhile (\<lambda>c. c \<noteq> slash) (rev p @ slash # rev (absolute ps)) = rev p"
    by (subst takeWhile_append2) (auto simp: plain_part_def)
  then show ?thesis by (simp add: last_slash_def)
qed

lemma parent_rooted:
  assumes "\<forall>p \<in> set ps. plain_part p" "ws_normalizePath (rooted ps) = rooted ps"
  shows "parentOf (rooted ps) = rooted (butlast ps)"
proof (cases ps rule: rev_cases)
  case (snoc qs q)
  then have "last_slash (rooted ps) = Some (length (absolute qs))"
    using assms last_slash_absolute [of q qs] by (simp add: rooted_def)
  moreover have "rooted ps \<noteq> [slash]" using assms rooted_slash snoc by simp
  ultimately show ?thesis
    using assms snoc by (auto simp: parentOf_def Let_def rooted_def)
qed (use assms in \<open>simp add: parentOf_def Let_def rooted_def\<close>)

lemma absolute_tight:
  "\<forall>p \<in> set ps. plain_part p \<and> tight p \<Longrightarrow> tight (rooted ps)"
proof (cases ps rule: rev_cases)
  case (snoc qs q)
  assume "\<forall>p \<in> set ps. plain_part p \<and> tight p"
  then have "hd (absolute ps) = slash" "last (absolute ps) = last q" "q \<noteq> []" "tight q"
    using snoc by (auto simp: plain_part_def) (cases qs; simp)
  then show ?thesis using snoc by (auto simp: tight_def rooted_def slash_def js_ws_def)
qed (simp add: rooted_def tight_def slash_def js_ws_def)

lemma normalize_rooted:
  "\<forall>p \<in> set ps. plain_part p \<and> tight p \<Longrightarrow> ws_normalizePath (rooted ps) = rooted ps"
  using trim_id [OF absolute_tight, of ps] by (simp add: normalize_parts parts_rooted)

lemma js_ws_slash: "\<not> js_ws slash"
  by (simp add: slash_def js_ws_def)

text \<open>Normalising a path again takes white space off its end, and a last part that is blank.\<close>

lemma normalize_snoc:
  assumes "\<forall>p \<in> set (qs @ [q]). plain_part p"
  shows "ws_normalizePath (rooted (qs @ [q])) =
    rooted (qs @ (if trim_end q = [] then [] else [trim_end q]))"
proof -
  have "set (trim_end q) \<subseteq> set q" using trim_end_suffix [of q] by (metis Un_upper1 set_append)
  then have free: "slash \<notin> set (trim_end q)" using assms by (auto simp: plain_part_def)
  have "absolute qs @ slash # q = slash # (tl (absolute qs @ slash # q))"
    by (cases qs) simp_all
  then have "trim_start (absolute qs @ slash # q) = absolute qs @ slash # q"
    by (metis js_ws_slash list.sel(1) trim_start_id)
  then have t: "trim (rooted (qs @ [q])) = absolute qs @ slash # trim_end q"
    using trim_end_mid [OF js_ws_slash] by (simp add: rooted_def trim_def)
  moreover have "folder_parts (absolute qs @ slash # trim_end q) =
      qs @ (if trim_end q = [] then [] else [trim_end q])"
    using assms by (simp add: parts_at_slash parts_absolute parts_free [OF free])
  ultimately show ?thesis by (simp add: normalize_parts)
qed

lemma normalize_again:
  assumes "\<forall>p \<in> set ps. plain_part p"
  shows "ws_normalizePath (rooted ps) = rooted ps \<longleftrightarrow> ps = [] \<or> \<not> js_ws (last (last ps))"
proof (cases ps rule: rev_cases)
  case Nil
  then show ?thesis by (simp add: rooted_def) code_simp
next
  case (snoc qs q)
  have q: "q \<noteq> []" "slash \<notin> set q" using assms snoc by (auto simp: plain_part_def)
  let ?w = "if trim_end q = [] then [] else [trim_end q]"
  have "set (trim_end q) \<subseteq> set q" using trim_end_suffix [of q] by (metis Un_upper1 set_append)
  then have "\<forall>p \<in> set (qs @ ?w). plain_part p" using assms snoc q by (auto simp: plain_part_def)
  then have "ws_normalizePath (rooted ps) = rooted ps \<longleftrightarrow> qs @ ?w = ps"
    using normalize_snoc [of qs q] assms snoc parts_rooted by metis
  also have "\<dots> \<longleftrightarrow> trim_end q = q" using snoc q by auto
  also have "\<dots> \<longleftrightarrow> \<not> js_ws (last q)"
    using q trim_end_id [of q] last_trim_end [of q] by metis
  finally show ?thesis using snoc by simp
qed

lemma parent_snoc:
  assumes "\<forall>p \<in> set (qs @ [q]). plain_part p" "trim_end q \<noteq> []"
  shows "parentOf (rooted (qs @ [q])) = rooted qs"
proof -
  let ?q = "trim_end q"
  have "set ?q \<subseteq> set q" using trim_end_suffix [of q] by (metis Un_upper1 set_append)
  then have pl: "\<forall>p \<in> set (qs @ [?q]). plain_part p" using assms by (auto simp: plain_part_def)
  have n: "ws_normalizePath (rooted (qs @ [q])) = rooted (qs @ [?q])"
    using normalize_snoc [OF assms(1)] assms(2) by simp
  then have "parentOf (rooted (qs @ [q])) = parentOf (rooted (qs @ [?q]))"
    using normalize_again [OF pl] last_trim_end [OF assms(2)] by (simp add: parentOf_def)
  also have "\<dots> = rooted qs"
    using parent_rooted [OF pl] normalize_again [OF pl] last_trim_end [OF assms(2)] by simp
  finally show ?thesis .
qed

lemma crumb_names:
  assumes "\<forall>p \<in> set ps. plain_part p"
  shows "map fst (splitCrumbs (rooted ps)) = [slash] # ps"
proof (cases "ps = []")
  case False
  then show ?thesis
    using assms by (simp add: splitCrumbs_def strip_rooted rooted_slash parts_rooted crumbs_fold
        Let_def comp_def map_nth)
qed (simp add: rooted_def splitCrumbs_def Let_def)

section \<open>Lemmas on the dialogs\<close>

text \<open>Events that close nothing for a dialog: they tell no outcome.\<close>

definition silent :: "setup_event \<Rightarrow> bool" where
  "silent ev \<longleftrightarrow> ev_type ev \<noteq> EvDone \<and> ev_type ev \<noteq> EvError"

lemmas dialog_simps = panel_simps set_phase_def set_url_def Let_def

interpretation restart_view: run_view re_onEvent p_lines run_control
  by unfold_locales
    (auto simp: dialog_simps re_onEvent_def split: event_type.splits option.splits)

interpretation create_view: run_view create_onEvent p_lines run_control
  by unfold_locales
    (auto simp: dialog_simps create_onEvent_def split: event_type.splits option.splits)

lemma re_event_phase:
  "d_phase (re_onEvent ev s) = (if silent ev then d_phase s
     else if ev_type ev = EvDone \<and> ev_success ev then PhSuccess else PhError) \<and>
   d_shown (re_onEvent ev s) = d_shown s \<and> d_startedFor (re_onEvent ev s) = d_startedFor s"
  by (auto simp: re_onEvent_def silent_def dialog_simps split: event_type.splits option.splits)

lemma create_event_phase:
  "d_phase (create_onEvent ev s) = (if silent ev then d_phase s
     else if ev_type ev = EvDone \<and> ev_success ev then PhSuccess else PhError) \<and>
   d_shown (create_onEvent ev s) = d_shown s"
  by (auto simp: create_onEvent_def silent_def dialog_simps split: event_type.splits option.splits)

lemma re_events:
  "(d_phase (fold re_onEvent evs s) = PhRunning \<longleftrightarrow> d_phase s = PhRunning \<and> list_all silent evs) \<and>
   p_aborted (fold re_onEvent evs s) = p_aborted s \<and> p_runs (fold re_onEvent evs s) = p_runs s \<and>
   d_shown (fold re_onEvent evs s) = d_shown s \<and> d_startedFor (fold re_onEvent evs s) = d_startedFor s"
proof -
  have "d_shown (fold re_onEvent evs s) = d_shown s \<and> d_startedFor (fold re_onEvent evs s) = d_startedFor s \<and>
    (d_phase (fold re_onEvent evs s) = PhRunning \<longleftrightarrow> d_phase s = PhRunning \<and> list_all silent evs)"
    by (induction evs arbitrary: s) (auto simp: re_event_phase)
  then show ?thesis using restart_view.control_kept [of evs s] by (simp add: run_control_def)
qed

lemma create_events:
  "(d_phase (fold create_onEvent evs s) = PhRunning \<longleftrightarrow> d_phase s = PhRunning \<and> list_all silent evs) \<and>
   p_aborted (fold create_onEvent evs s) = p_aborted s \<and> p_runs (fold create_onEvent evs s) = p_runs s \<and>
   d_shown (fold create_onEvent evs s) = d_shown s"
proof -
  have "d_shown (fold create_onEvent evs s) = d_shown s \<and>
    (d_phase (fold create_onEvent evs s) = PhRunning \<longleftrightarrow> d_phase s = PhRunning \<and> list_all silent evs)"
    by (induction evs arbitrary: s) (auto simp: create_event_phase)
  then show ?thesis using create_view.control_kept [of evs s] by (simp add: run_control_def)
qed

lemma new_dialog_sel:
  "d_phase (new_dialog ph) = ph" "p_aborted (new_dialog ph) = []" "p_ctl (new_dialog ph) = None"
  "p_next (new_dialog ph) = 0" "p_runs (new_dialog ph) = []" "d_startedFor (new_dialog ph) = None"
  by (simp_all add: new_dialog_def new_panel_def panel.defs)

lemma re_begun:
  "let s = re_effect w (new_dialog PhIdle) in d_phase s = PhRunning \<and> p_aborted s = [] \<and>
     p_runs s = [(0, Some (w_id w))] \<and> d_shown s \<and> d_startedFor s = Some (w_id w)"
  by (simp add: re_effect_def start_dialog_def open_run_def abort_current_def dialog_simps new_dialog_sel)

lemma create_begun:
  "startCreate isAdmin u f ((new_dialog PhForm)\<lparr>d_shown := True\<rparr>) = (s, Some b) \<Longrightarrow>
   d_phase s = PhRunning \<and> p_aborted s = [] \<and> p_runs s = [(0, None)] \<and> d_shown s"
  by (auto simp: startCreate_def start_dialog_def open_run_def abort_current_def dialog_simps
      new_dialog_sel split: option.splits if_splits)

lemma re_end_phase:
  "p_aborted s = [] \<Longrightarrow>
   (d_phase (re_end numStr c result s) = PhRunning \<longleftrightarrow> result = None \<and> d_phase s = PhRunning) \<and>
   p_runs (re_end numStr c result s) = filter (\<lambda>r. fst r \<noteq> c) (p_runs s) \<and>
   d_startedFor (re_end numStr c result s) = d_startedFor s \<and>
   d_shown (re_end numStr c result s) = d_shown s"
  by (auto simp: re_end_def close_run_def dialog_simps split: option.splits)

lemma create_end_phase:
  "p_aborted s = [] \<Longrightarrow>
   (d_phase (create_end numStr c result s) = PhRunning \<longleftrightarrow> result = None \<and> d_phase s = PhRunning) \<and>
   p_runs (create_end numStr c result s) = filter (\<lambda>r. fst r \<noteq> c) (p_runs s) \<and>
   d_shown (create_end numStr c result s) = d_shown s"
  by (auto simp: create_end_def close_run_def dialog_simps split: option.splits)

text \<open>A dialog that may be closed is.\<close>

lemma re_close_iff: "d_shown (re_close s) = (d_shown s \<and> d_phase s = PhRunning)"
  by (auto simp: re_close_def re_reset_def abort_current_def dialog_simps split: option.splits)

lemma create_close_iff: "d_shown (create_close s) = (d_shown s \<and> d_phase s = PhRunning)"
  by (auto simp: create_close_def create_reset_def abort_current_def dialog_simps split: option.splits)

section \<open>Properties\<close>

text \<open>C8: Whatever the streams of the dialog that starts a workspace and of the one that creates one
  deliver and however they end, either dialog can be closed afterwards, unless its stream broke off
  without an outcome: then nothing closes it, and no stream is left that could. The dialog that
  creates a workspace cannot be used again then either.\<close>

theorem workspace_dialog_closable:
  assumes "startCreate isAdmin u f ((new_dialog PhForm)\<lparr>d_shown := True\<rparr>) = (begun, Some body)"
  shows "let s = re_end numStr 0 result (fold re_onEvent evs (re_effect w (new_dialog PhIdle)));
             t = create_end numStr 0 result (fold create_onEvent evs begun);
             broken = (result = None \<and> list_all silent evs)
         in p_runs s = [] \<and> p_runs t = [] \<and> d_shown (re_close s) = broken \<and> d_shown (create_close t) = broken \<and>
            (broken \<longrightarrow> re_effect w s = s \<and> re_close s = s \<and> create_close t = t \<and>
               startCreate isAdmin u f t = (t, None))"
proof -
  let ?r = "fold re_onEvent evs (re_effect w (new_dialog PhIdle))"
  let ?c = "fold create_onEvent evs begun"
  note rb = re_begun [of w, unfolded Let_def] and re = re_events [of evs "re_effect w (new_dialog PhIdle)"]
  note cb = create_begun [OF assms] and ce = create_events [of evs begun]
  have "p_aborted ?r = []" "p_aborted ?c = []" using rb re cb ce by simp_all
  note r = re_end_phase [OF this(1), of numStr 0 result] and
    c = create_end_phase [OF this(2), of numStr 0 result]
  have "re_effect w (re_end numStr 0 result ?r) = re_end numStr 0 result ?r"
    using r re rb by (simp add: re_effect_def Let_def)
  moreover have "startCreate isAdmin u f t = (t, None)" if "d_phase t = PhRunning" for t
    using that assms by (auto simp: startCreate_def split: option.splits)
  ultimately show ?thesis
    using r c rb re cb ce by (auto simp: Let_def re_close_iff create_close_iff) (auto simp: re_close_def create_close_def)
qed

definition demo_form :: create_form where
  "demo_form = new_form\<lparr>c_path := ''/srv/app''\<rparr>"

definition demo_workspace :: workspace where
  "demo_workspace = \<lparr>w_id = ''w1'', w_user_id = ''u1'', w_username = ''ann'', w_email = [],
     w_full_name = [], w_name = ''App'', w_status = ''active'', w_path = ''/srv/app'', w_live = False,
     w_connect_url = []\<rparr>"

theorem workspace_dialog_closable_witness:
  "\<exists>begun body. startCreate False (Some ''u1'') demo_form ((new_dialog PhForm)\<lparr>d_shown := True\<rparr>) = (begun, Some body) \<and>
   (let s = re_end demo_num 0 None (fold re_onEvent [demo_event EvStart ''go'' True]
              (re_effect demo_workspace (new_dialog PhIdle)));
        t = create_end demo_num 0 None (fold create_onEvent [demo_event EvStart ''go'' True] begun)
    in p_runs s = [] \<and> d_shown (re_close s) \<and> create_close t = t \<and>
       \<not> d_shown (create_close (create_end demo_num 0 None
           (fold create_onEvent [demo_event EvDone ''ready'' True] begun))))"
proof -
  obtain begun body where b: "startCreate False (Some ''u1'') demo_form ((new_dialog PhForm)\<lparr>d_shown := True\<rparr>) = (begun, Some body)"
    by (simp add: startCreate_def create_target_def nonempty_text_def demo_form_def new_form_def
        new_dialog_sel)
  have "list_all silent [demo_event EvStart ''go'' True]" "\<not> list_all silent [demo_event EvDone ''ready'' True]"
    by (simp_all add: silent_def demo_event_def)
  with workspace_dialog_closable [OF b, of demo_num None "[demo_event EvStart ''go'' True]" demo_workspace]
    workspace_dialog_closable [OF b, of demo_num None "[demo_event EvDone ''ready'' True]" demo_workspace] b
  show ?thesis by (auto simp: Let_def)
qed

text \<open>C9: Whatever text names a folder, the folder dialog browses an absolute path of its non-empty
  parts, or \<open>/workspace\<close> if it is blank, and its crumbs are the root and the parts, each leading to
  the folder of the parts up to it and the last to the folder itself. Normalising the path again
  changes nothing exactly when its last part does not end in white space, and each crumb but the
  root has the one before it as its parent if no part is blank.\<close>

theorem crumbs_lead_to_folder:
  "let path = ws_normalizePath raw; paths = map snd (splitCrumbs path);
       parts = (if trim raw = [] then [''workspace''] else folder_parts (trim raw))
   in folder_parts path = parts \<and> starts_with path [slash] \<and>
      map fst (splitCrumbs path) = [slash] # parts \<and>
      paths = map (\<lambda>k. rooted (take k parts)) [0..<Suc (length parts)] \<and> last paths = path \<and>
      (ws_normalizePath path = path \<longleftrightarrow> parts = [] \<or> \<not> js_ws (last (last parts))) \<and>
      (list_all (\<lambda>p. trim p \<noteq> []) parts \<longrightarrow> map parentOf (tl paths) = butlast paths)"
proof -
  define ps where "ps = (if trim raw = [] then [''workspace''] else folder_parts (trim raw))"
  have pl: "\<forall>p \<in> set ps. plain_part p"
    by (auto simp: ps_def slash_def plain_part_def dest: parts_plain)
  have n: "ws_normalizePath raw = rooted ps"
    by (simp add: normalize_parts ps_def rooted_def slash_def)
  have parents: "map parentOf (map (\<lambda>k. rooted (take (Suc k) ps)) [0..<length ps]) =
      map (\<lambda>k. rooted (take k ps)) [0..<length ps]" if "list_all (\<lambda>p. trim p \<noteq> []) ps"
  proof -
    have "parentOf (rooted (take k ps @ [ps ! k])) = rooted (take k ps)" if "k < length ps" for k
    proof (rule parent_snoc)
      show "\<forall>p \<in> set (take k ps @ [ps ! k]). plain_part p" using pl that set_take_subset by fastforce
      have "trim (ps ! k) \<noteq> []" using \<open>list_all (\<lambda>p. trim p \<noteq> []) ps\<close> that by (simp add: list_all_length)
      then show "trim_end (ps ! k) \<noteq> []" by (auto simp: trim_Nil_iff trim_end_def)
    qed
    then show ?thesis by (simp add: take_Suc_conv_app_nth)
  qed
  moreover have "tl (map (\<lambda>k. rooted (take k ps)) [0..<Suc (length ps)]) =
      map (\<lambda>k. rooted (take (Suc k) ps)) [0..<length ps]"
    unfolding upt_from_zero by simp
  ultimately have "list_all (\<lambda>p. trim p \<noteq> []) ps \<longrightarrow>
      map parentOf (tl (map (\<lambda>k. rooted (take k ps)) [0..<Suc (length ps)])) =
      butlast (map (\<lambda>k. rooted (take k ps)) [0..<Suc (length ps)])" by simp
  moreover have "starts_with (rooted ps) [slash]"
    by (cases ps) (simp_all add: rooted_def starts_with_def)
  ultimately show ?thesis
    unfolding Let_def n crumb_paths [OF pl] crumb_names [OF pl] ps_def [symmetric] normalize_again [OF pl]
    using parts_rooted [OF pl] by simp
qed

theorem crumbs_lead_to_folder_witness:
  "let path = ws_normalizePath ''srv//app/''; paths = map snd (splitCrumbs path)
   in path = ''/srv/app'' \<and> paths = [''/'', ''/srv'', ''/srv/app''] \<and> map parentOf (tl paths) = butlast paths"
proof -
  have n: "ws_normalizePath ''srv//app/'' = ''/srv/app''" and t: "trim ''srv//app/'' \<noteq> []"
    and p: "folder_parts (trim ''srv//app/'') = [''srv'', ''app'']"
    and l: "list_all (\<lambda>p. trim p \<noteq> []) [''srv'', ''app'']"
    and m: "map (\<lambda>k. rooted (take k [''srv'', ''app''])) [0..<Suc (length [''srv'', ''app''])] =
      [''/'', ''/srv'', ''/srv/app'']"
    by code_simp+
  from crumbs_lead_to_folder [of "''srv//app/''", unfolded Let_def n if_not_P [OF t] p m] l
  show ?thesis unfolding Let_def n by blast
qed

text \<open>A folder whose name ends in a blank cannot be kept: normalising twice drops the blank, as the
  confirmed folder of the dialog does.\<close>

lemma blank_ended_folder_renamed:
  "ws_normalizePath ''/a /'' = ''/a '' \<and> ws_normalizePath (ws_normalizePath ''/a /'') = ''/a''"
  by code_simp

text \<open>A dialog that is opened first browses the folder its field rested on before, and the folder it
  was opened for once the field has rested.\<close>

lemma opened_browses_last_folder:
  "\<not> fd_open s \<Longrightarrow> fd_browse (fd_show True p s) = ws_normalizePath (fd_debounced s)"
  by (simp add: fd_show_def fd_effect_def Let_def)

lemma opened_browses_asked_folder:
  assumes "\<not> fd_open s" "p \<noteq> []" "list_all tight (folder_parts (trim p))"
    "fd_debounced s \<noteq> ws_normalizePath p"
  shows "fd_browse (fd_settle (fd_show True p s)) = ws_normalizePath p"
proof -
  have "ws_normalizePath (ws_normalizePath p) = ws_normalizePath p"
  proof (cases "trim p = []")
    case True
    then show ?thesis by (simp add: ws_normalizePath_def) code_simp
  next
    case False
    have "\<forall>q \<in> set (folder_parts (trim p)). plain_part q \<and> tight q"
      using assms(3) by (auto simp: list_all_iff dest: parts_plain)
    from normalize_rooted [OF this] normalize_parts [of p] False show ?thesis by simp
  qed
  with assms show ?thesis by (simp add: fd_settle_def fd_show_def fd_effect_def Let_def)
qed

text \<open>An unchanged edit sends the name and the folder that were shown, up to blanks at their ends.\<close>

lemma unchanged_workspace_edit:
  "tight (w_name w) \<Longrightarrow> w_name w \<noteq> [] \<Longrightarrow> tight (w_path w) \<Longrightarrow> w_path w \<noteq> [] \<Longrightarrow>
   edit_body (edit_form w) = [(''name'', JStr (w_name w)), (''path'', JStr (w_path w))]"
  by (simp add: edit_body_def edit_form_def trim_id)

text \<open>The access token of a repository is sent only with the repository it is for.\<close>

lemma token_only_with_repo:
  "map_of (workspace_body target f) ''git_token'' \<noteq> None \<Longrightarrow>
   c_clone f \<and> map_of (workspace_body target f) ''git_repo'' = Some (JStr (trim (c_repo f)))"
  by (auto simp: workspace_body_def split: if_splits)

text \<open>A workspace that does not run is opened only after the server told that it was started, and
  never without an address.\<close>

lemma opened_after_start:
  assumes "or_opened (openWorkspace numStr w started answer) = Some url"
  shows "url \<noteq> [] \<and> (\<not> w_live w \<longrightarrow> snd started = None \<and> fst (reactivated (fst started)))"
  using assms
  by (auto simp: openWorkspace_def finish_open_def js_or_def Let_def
      split: if_splits option.splits sum.splits prod.splits)

end
