(* ===== verification/Ssh_Keys.thy ===== *)
theory Ssh_Keys
  imports Software_Catalog Install_Jobs
begin

text \<open>
  The SSH keys of a user: the page \<open>users/pages/single/keys/index.tsx\<close>, the handlers of
  \<open>src/modules/users/single/keys/c.go\<close> and \<open>src/packages/linuxuser/sshkeys.go\<close>, which keep the files
  of \<open>~/.ssh\<close>. The package \<open>golang.org/x/crypto/ssh\<close> is the parameter \<open>ssh_lib\<close>. Writing and removing
  files succeeds; modes and owners are not modelled, nor is the list of SSH sessions.
\<close>

section \<open>Paths and files\<close>

text \<open>\<open>filepath.Clean\<close> and \<open>filepath.Join\<close>; the parts are kept in reverse order.\<close>

definition clean_part :: "bool \<Rightarrow> string \<Rightarrow> string list \<Rightarrow> string list" where
  "clean_part rooted p acc =
     (if p = [] \<or> p = ''.'' then acc
      else if p = ''..''
      then (case acc of q # qs \<Rightarrow> if q = ''..'' then p # acc else qs
            | [] \<Rightarrow> if rooted then [] else [p])
      else p # acc)"

definition filepath_clean :: "string \<Rightarrow> string" where
  "filepath_clean path =
     (if path = [] then ''.''
      else let rooted = starts_with path ''/'';
               parts = rev (fold (clean_part rooted) (js_split ''/'' path) [])
           in if rooted then ''/'' @ js_join ''/'' parts
              else if parts = [] then ''.'' else js_join ''/'' parts)"

definition filepath_join :: "string list \<Rightarrow> string" where
  "filepath_join elems =
     (let es = filter (\<lambda>e. e \<noteq> []) elems
      in if es = [] then [] else filepath_clean (js_join ''/'' es))"

record file_system =
  fs_files :: "string \<rightharpoonup> string"
  fs_dirs :: "string set"

definition read_file :: "file_system \<Rightarrow> string \<Rightarrow> string option" where
  "read_file fs p = fs_files fs p"

definition write_file :: "string \<Rightarrow> string \<Rightarrow> file_system \<Rightarrow> file_system" where
  "write_file p content fs = fs\<lparr>fs_files := (fs_files fs)(p \<mapsto> content)\<rparr>"

definition remove_file :: "string \<Rightarrow> file_system \<Rightarrow> file_system" where
  "remove_file p fs = fs\<lparr>fs_files := (fs_files fs)(p := None)\<rparr>"

definition fileExists :: "file_system \<Rightarrow> string \<Rightarrow> bool" where
  "fileExists fs p \<longleftrightarrow> fs_files fs p \<noteq> None"

definition dirExists :: "file_system \<Rightarrow> string \<Rightarrow> bool" where
  "dirExists fs p \<longleftrightarrow> p \<in> fs_dirs fs"

section \<open>Accounts\<close>

datatype key_error =
    No_such_user string
  | No_home_directory string
  | Public_key_required
  | Invalid_public_key
  | Already_authorized "string option"
  | No_authorized_keys
  | Invalid_key_index int
  | Rsa_bits_too_few
  | Unsupported_key_type string
  | Identity_exists string
  | Generation_failed string
  | No_identity_public_key

record account =
  ac_username :: string
  ac_home :: string
  ac_exists :: bool

text \<open>\<open>Lookup\<close>; \<open>passwd\<close> gives the home directory of the users of the system.\<close>

definition Lookup :: "(string \<rightharpoonup> string) \<Rightarrow> string \<Rightarrow> account" where
  "Lookup passwd username =
     (let u = trim username in
      if u = [] then \<lparr>ac_username = [], ac_home = [], ac_exists = False\<rparr>
      else case passwd u of
        None \<Rightarrow> \<lparr>ac_username = u, ac_home = [], ac_exists = False\<rparr>
      | Some home \<Rightarrow> \<lparr>ac_username = u, ac_home = home, ac_exists = True\<rparr>)"

definition requireAccount :: "(string \<rightharpoonup> string) \<Rightarrow> string \<Rightarrow> (key_error, account) sum" where
  "requireAccount passwd username =
     (let acc = Lookup passwd username in
      if \<not> ac_exists acc then Inl (No_such_user (trim username))
      else if trim (ac_home acc) = [] then Inl (No_home_directory (ac_username acc))
      else Inr acc)"

definition ssh_path :: "account \<Rightarrow> string" where
  "ssh_path acc = filepath_join [ac_home acc, ''.ssh'']"

definition auth_file :: "account \<Rightarrow> string" where
  "auth_file acc = filepath_join [ssh_path acc, ''authorized_keys'']"

definition ensureSSHDir :: "account \<Rightarrow> file_system \<Rightarrow> file_system" where
  "ensureSSHDir acc fs = fs\<lparr>fs_dirs := insert (ssh_path acc) (fs_dirs fs)\<rparr>"

section \<open>Reading keys\<close>

text \<open>\<open>golang.org/x/crypto/ssh\<close> and the key generators: parsing a line into key, comment and options,
  the name of a key's algorithm, its fingerprint and its line; a new pair of keys of an algorithm and
  a size, and the text of a private key, perhaps encrypted.\<close>

record ('p, 'k) ssh_lib =
  ParseAuthorizedKey :: "string \<Rightarrow> ('p \<times> string \<times> string list) option"
  key_type :: "'p \<Rightarrow> string"
  FingerprintSHA256 :: "'p \<Rightarrow> string"
  MarshalAuthorizedKey :: "'p \<Rightarrow> string"
  GenerateKey :: "string \<Rightarrow> int \<Rightarrow> (string, 'k \<times> 'p) sum"
  MarshalPrivateKey :: "'k \<Rightarrow> string \<Rightarrow> string option \<Rightarrow> (string, string) sum"

record auth_key =
  ak_index :: nat
  ak_type :: string
  ak_fingerprint :: string
  ak_comment :: string
  ak_options :: "string list"
  ak_line :: string

definition key_line :: "string \<Rightarrow> bool" where
  "key_line l \<longleftrightarrow> l \<noteq> [] \<and> \<not> starts_with l ''#''"

text \<open>The lines that count, trimmed.\<close>

definition key_lines :: "string \<Rightarrow> string list" where
  "key_lines raw = filter key_line (map trim (js_split [CHR 10] raw))"

definition authorized_entry :: "('p, 'k) ssh_lib \<Rightarrow> nat \<Rightarrow> string \<Rightarrow> auth_key" where
  "authorized_entry lib idx l =
     (case ParseAuthorizedKey lib l of
        Some (pub, comment, options) \<Rightarrow>
          \<lparr>ak_index = idx, ak_type = key_type lib pub, ak_fingerprint = FingerprintSHA256 lib pub,
           ak_comment = trim comment, ak_options = options, ak_line = l\<rparr>
      | None \<Rightarrow>
          \<lparr>ak_index = idx, ak_type = takeWhile (\<lambda>c. \<not> js_ws c) l, ak_fingerprint = [],
           ak_comment = ''(unrecognized key line)'', ak_options = [], ak_line = l\<rparr>)"

definition readAuthorizedKeys :: "('p, 'k) ssh_lib \<Rightarrow> string \<Rightarrow> auth_key list" where
  "readAuthorizedKeys lib raw = map (\<lambda>(i, l). authorized_entry lib i l) (enumerate 0 (key_lines raw))"

record identity_key =
  ik_exists :: bool
  ik_type :: string
  ik_private_path :: string
  ik_public_path :: string
  ik_public_key :: string
  ik_fingerprint :: string
  ik_comment :: string
  ik_private_key :: string
  ik_has_private :: bool
  ik_has_public :: bool

definition no_identity :: identity_key where
  "no_identity = \<lparr>ik_exists = False, ik_type = [], ik_private_path = [], ik_public_path = [],
     ik_public_key = [], ik_fingerprint = [], ik_comment = [], ik_private_key = [],
     ik_has_private = False, ik_has_public = False\<rparr>"

definition IdentityED25519 :: string where "IdentityED25519 = ''id_ed25519''"
definition IdentityRSA :: string where "IdentityRSA = ''id_rsa''"

definition guessTypeFromName :: "string \<Rightarrow> string" where
  "guessTypeFromName name =
     (if name = IdentityED25519 then ''ssh-ed25519'' else if name = IdentityRSA then ''ssh-rsa'' else [])"

definition read_public :: "('p, 'k) ssh_lib \<Rightarrow> string \<Rightarrow> identity_key \<Rightarrow> identity_key" where
  "read_public lib raw i =
     (let line = trim raw; i = i\<lparr>ik_public_key := line\<rparr>
      in case ParseAuthorizedKey lib line of
           Some (pub, comment, _) \<Rightarrow> i\<lparr>ik_type := key_type lib pub,
             ik_fingerprint := FingerprintSHA256 lib pub, ik_comment := trim comment\<rparr>
         | None \<Rightarrow> i)"

definition read_pair :: "('p, 'k) ssh_lib \<Rightarrow> file_system \<Rightarrow> string \<Rightarrow> bool \<Rightarrow> string \<Rightarrow> identity_key option" where
  "read_pair lib fs sshDir includePrivate name =
     (let privPath = filepath_join [sshDir, name];
          pubPath = privPath @ ''.pub'';
          hasPriv = fileExists fs privPath;
          hasPub = fileExists fs pubPath
      in if \<not> hasPriv \<and> \<not> hasPub then None
         else
           let i = no_identity\<lparr>ik_exists := True, ik_private_path := privPath, ik_public_path := pubPath,
                 ik_has_private := hasPriv, ik_has_public := hasPub\<rparr>;
               i = (if hasPub
                    then (case read_file fs pubPath of Some raw \<Rightarrow> read_public lib raw i | None \<Rightarrow> i)
                    else if hasPriv then i\<lparr>ik_type := guessTypeFromName name\<rparr> else i)
           in Some (if includePrivate \<and> hasPriv
                    then (case read_file fs privPath of Some raw \<Rightarrow> i\<lparr>ik_private_key := raw\<rparr> | None \<Rightarrow> i)
                    else i))"

definition readIdentity :: "('p, 'k) ssh_lib \<Rightarrow> file_system \<Rightarrow> string \<Rightarrow> bool \<Rightarrow> identity_key" where
  "readIdentity lib fs sshDir includePrivate =
     (case read_pair lib fs sshDir includePrivate IdentityED25519 of
        Some i \<Rightarrow> i
      | None \<Rightarrow>
          (case read_pair lib fs sshDir includePrivate IdentityRSA of Some i \<Rightarrow> i | None \<Rightarrow> no_identity))"

record keys_status =
  ks_username :: string
  ks_home :: string
  ks_ssh_dir :: string
  ks_dir_exists :: bool
  ks_auth_path :: string
  ks_keys :: "auth_key list"
  ks_count :: nat
  ks_identity :: identity_key

definition SSHKeys ::
  "('p, 'k) ssh_lib \<Rightarrow> (string \<rightharpoonup> string) \<Rightarrow> file_system \<Rightarrow> string \<Rightarrow> bool \<Rightarrow> (key_error, keys_status) sum" where
  "SSHKeys lib passwd fs username includePrivate =
     (let acc = Lookup passwd username in
      if \<not> ac_exists acc then Inl (No_such_user (trim username))
      else let home = trim (ac_home acc) in
           if home = [] then Inl (No_home_directory (ac_username acc))
           else
             let sshDir = filepath_join [home, ''.ssh''];
                 authPath = filepath_join [sshDir, ''authorized_keys''];
                 keys = (case read_file fs authPath of Some raw \<Rightarrow> readAuthorizedKeys lib raw | None \<Rightarrow> [])
             in Inr \<lparr>ks_username = ac_username acc, ks_home = home, ks_ssh_dir = sshDir,
                  ks_dir_exists = dirExists fs sshDir, ks_auth_path = authPath, ks_keys = keys,
                  ks_count = length keys, ks_identity = readIdentity lib fs sshDir includePrivate\<rparr>)"

section \<open>Changing keys\<close>

text \<open>\<open>strings.ReplaceAll(key, "\r\n", "\n")\<close>\<close>

fun crlf_to_lf :: "string \<Rightarrow> string" where
  "crlf_to_lf [] = []"
| "crlf_to_lf [c] = [c]"
| "crlf_to_lf (c # d # cs) =
     (if c = CHR 13 \<and> d = CHR 10 then CHR 10 # crlf_to_lf cs else c # crlf_to_lf (d # cs))"

definition key_candidate :: "string \<Rightarrow> string option" where
  "key_candidate key =
     find key_line (map trim (js_split [CHR 10] (replace_char (CHR 13) [CHR 10] (crlf_to_lf (trim key)))))"

definition build_line :: "('p, 'k) ssh_lib \<Rightarrow> 'p \<Rightarrow> string \<Rightarrow> string list \<Rightarrow> string" where
  "build_line lib pub comment options =
     (let marshaled = trim (MarshalAuthorizedKey lib pub);
          line = (if comment \<noteq> [] then marshaled @ '' '' @ comment else marshaled);
          line = (if options \<noteq> [] then js_join '','' options @ '' '' @ line else line)
      in trim line)"

definition normalizeAuthorizedKeyLine ::
  "('p, 'k) ssh_lib \<Rightarrow> string \<Rightarrow> string \<Rightarrow> (key_error, string) sum" where
  "normalizeAuthorizedKeyLine lib key optionalComment =
     (case key_candidate key of
        None \<Rightarrow> Inl Public_key_required
      | Some candidate \<Rightarrow>
          (case ParseAuthorizedKey lib candidate of
             None \<Rightarrow> Inl Invalid_public_key
           | Some (pub, comment, options) \<Rightarrow>
               Inr (build_line lib pub
                 (if trim optionalComment \<noteq> [] then trim optionalComment else comment) options)))"

definition fingerprintFromLine :: "('p, 'k) ssh_lib \<Rightarrow> string \<Rightarrow> string" where
  "fingerprintFromLine lib line =
     (case ParseAuthorizedKey lib line of Some (pub, _) \<Rightarrow> FingerprintSHA256 lib pub | None \<Rightarrow> [])"

fun already_there :: "string \<Rightarrow> string \<Rightarrow> auth_key list \<Rightarrow> key_error option" where
  "already_there fp line [] = None"
| "already_there fp line (k # ks) =
     (if ak_fingerprint k \<noteq> [] \<and> fp \<noteq> [] \<and> ak_fingerprint k = fp then Some (Already_authorized (Some fp))
      else if trim (ak_line k) = line then Some (Already_authorized None)
      else already_there fp line ks)"

definition AddAuthorizedKey ::
  "('p, 'k) ssh_lib \<Rightarrow> (string \<rightharpoonup> string) \<Rightarrow> string \<Rightarrow> string \<Rightarrow> string \<Rightarrow> file_system \<Rightarrow>
    (key_error, keys_status) sum \<times> file_system" where
  "AddAuthorizedKey lib passwd username key optionalComment fs =
     (case requireAccount passwd username of
        Inl e \<Rightarrow> (Inl e, fs)
      | Inr acc \<Rightarrow>
          (case normalizeAuthorizedKeyLine lib key optionalComment of
             Inl e \<Rightarrow> (Inl e, fs)
           | Inr line \<Rightarrow>
               let fs = ensureSSHDir acc fs;
                   raw = (case read_file fs (auth_file acc) of Some raw \<Rightarrow> raw | None \<Rightarrow> []);
                   existing = readAuthorizedKeys lib raw
               in case already_there (fingerprintFromLine lib line) line existing of
                    Some e \<Rightarrow> (Inl e, fs)
                  | None \<Rightarrow>
                      let fs = write_file (auth_file acc) (raw @ line @ [CHR 10]) fs
                      in (SSHKeys lib passwd fs (ac_username acc) False, fs)))"

definition RemoveAuthorizedKey ::
  "('p, 'k) ssh_lib \<Rightarrow> (string \<rightharpoonup> string) \<Rightarrow> string \<Rightarrow> int \<Rightarrow> file_system \<Rightarrow>
    (key_error, keys_status) sum \<times> file_system" where
  "RemoveAuthorizedKey lib passwd username index fs =
     (case requireAccount passwd username of
        Inl e \<Rightarrow> (Inl e, fs)
      | Inr acc \<Rightarrow>
          (case read_file fs (auth_file acc) of
             None \<Rightarrow> (Inl No_authorized_keys, fs)
           | Some raw \<Rightarrow>
               let keys = readAuthorizedKeys lib raw in
               if index < 0 \<or> int (length keys) \<le> index then (Inl (Invalid_key_index index), fs)
               else
                 let kept = map (ak_line \<circ> snd) (filter (\<lambda>(i, k). int i \<noteq> index) (enumerate 0 keys));
                     content = (if kept \<noteq> [] then js_join [CHR 10] kept @ [CHR 10] else []);
                     fs = write_file (auth_file acc) content fs
                 in (SSHKeys lib passwd fs (ac_username acc) False, fs)))"

record generate_options =
  go_type :: string
  go_comment :: string
  go_passphrase :: string
  go_overwrite :: bool
  go_bits :: int

text \<open>The file of the chosen algorithm and the size of the key.\<close>

definition chosen_algorithm :: "generate_options \<Rightarrow> (key_error, string \<times> int) sum" where
  "chosen_algorithm opts =
     (let t = go_lower (trim (go_type opts)); keyType = (if t = [] then ''ed25519'' else t) in
      if keyType = ''ed25519'' then Inr (IdentityED25519, go_bits opts)
      else if keyType = ''rsa''
      then let bits = (if go_bits opts \<le> 0 then 4096 else go_bits opts)
           in if bits < 2048 then Inl Rsa_bits_too_few else Inr (IdentityRSA, bits)
      else Inl (Unsupported_key_type (go_type opts)))"

definition publicKeyLine :: "('p, 'k) ssh_lib \<Rightarrow> 'p \<Rightarrow> string \<Rightarrow> string" where
  "publicKeyLine lib pub comment =
     (let line = trim (MarshalAuthorizedKey lib pub)
      in (if comment \<noteq> [] then line @ '' '' @ comment else line) @ [CHR 10])"

definition marshalPrivate :: "('p, 'k) ssh_lib \<Rightarrow> 'k \<Rightarrow> string \<Rightarrow> string \<Rightarrow> (string, string) sum" where
  "marshalPrivate lib key comment passphrase =
     MarshalPrivateKey lib key comment (if trim passphrase \<noteq> [] then Some passphrase else None)"

definition generate_pair ::
  "('p, 'k) ssh_lib \<Rightarrow> string \<Rightarrow> int \<Rightarrow> string \<Rightarrow> string \<Rightarrow> (key_error, string \<times> string) sum" where
  "generate_pair lib baseName bits comment passphrase =
     (case GenerateKey lib baseName bits of
        Inl e \<Rightarrow> Inl (Generation_failed e)
      | Inr (key, pub) \<Rightarrow>
          (case marshalPrivate lib key comment passphrase of
             Inl e \<Rightarrow> Inl (Generation_failed e)
           | Inr pem \<Rightarrow> Inr (pem, publicKeyLine lib pub comment)))"

definition GenerateIdentity ::
  "('p, 'k) ssh_lib \<Rightarrow> (string \<rightharpoonup> string) \<Rightarrow> string \<Rightarrow> generate_options \<Rightarrow> file_system \<Rightarrow>
    (key_error, keys_status) sum \<times> file_system" where
  "GenerateIdentity lib passwd username opts fs =
     (case requireAccount passwd username of
        Inl e \<Rightarrow> (Inl e, fs)
      | Inr acc \<Rightarrow>
          (case chosen_algorithm opts of
             Inl e \<Rightarrow> (Inl e, fs)
           | Inr (baseName, bits) \<Rightarrow>
               let fs = ensureSSHDir acc fs;
                   privPath = filepath_join [ssh_path acc, baseName];
                   pubPath = privPath @ ''.pub''
               in if \<not> go_overwrite opts \<and> (fileExists fs privPath \<or> fileExists fs pubPath)
                  then (Inl (Identity_exists privPath), fs)
                  else
                    let comment = (if trim (go_comment opts) = [] then ac_username acc @ ''@containerws''
                                   else trim (go_comment opts))
                    in case generate_pair lib baseName bits comment (go_passphrase opts) of
                         Inl e \<Rightarrow> (Inl e, fs)
                       | Inr (privBytes, pubBytes) \<Rightarrow>
                           let fs = write_file pubPath pubBytes (write_file privPath privBytes fs);
                               alt = (if baseName = IdentityRSA then IdentityED25519 else IdentityRSA);
                               fs = remove_file (filepath_join [ssh_path acc, alt @ ''.pub''])
                                      (remove_file (filepath_join [ssh_path acc, alt]) fs)
                           in case SSHKeys lib passwd fs (ac_username acc) True of
                                Inl e \<Rightarrow> (Inl e, fs)
                              | Inr st \<Rightarrow>
                                  (Inr (st\<lparr>ks_identity := (ks_identity st)\<lparr>ik_private_key := privBytes,
                                     ik_has_private := True\<rparr>\<rparr>), fs)))"

definition remove_pair :: "string \<Rightarrow> string \<Rightarrow> file_system \<Rightarrow> file_system" where
  "remove_pair sshDir name fs =
     remove_file (filepath_join [sshDir, name @ ''.pub'']) (remove_file (filepath_join [sshDir, name]) fs)"

definition DeleteIdentity ::
  "('p, 'k) ssh_lib \<Rightarrow> (string \<rightharpoonup> string) \<Rightarrow> string \<Rightarrow> file_system \<Rightarrow>
    (key_error, keys_status) sum \<times> file_system" where
  "DeleteIdentity lib passwd username fs =
     (case requireAccount passwd username of
        Inl e \<Rightarrow> (Inl e, fs)
      | Inr acc \<Rightarrow>
          let fs = remove_pair (ssh_path acc) IdentityRSA (remove_pair (ssh_path acc) IdentityED25519 fs)
          in (SSHKeys lib passwd fs (ac_username acc) False, fs))"

definition AuthorizeIdentityPublicKey ::
  "('p, 'k) ssh_lib \<Rightarrow> (string \<rightharpoonup> string) \<Rightarrow> string \<Rightarrow> file_system \<Rightarrow>
    (key_error, keys_status) sum \<times> file_system" where
  "AuthorizeIdentityPublicKey lib passwd username fs =
     (case requireAccount passwd username of
        Inl e \<Rightarrow> (Inl e, fs)
      | Inr acc \<Rightarrow>
          let i = readIdentity lib fs (ssh_path acc) False in
          if \<not> ik_exists i \<or> trim (ik_public_key i) = [] then (Inl No_identity_public_key, fs)
          else AddAuthorizedKey lib passwd (ac_username acc) (ik_public_key i) [] fs)"

section \<open>The handlers\<close>

datatype key_failure =
    Bad_user_id
  | User_not_found
  | No_linux_username
  | Database_error string
  | Invalid_body
  | Invalid_index_text
  | Key_failure key_error

datatype keys_reply = Replied "string option" keys_status | Refused nat key_failure

definition loadUser :: "(string \<Rightarrow> (string, string option) sum) \<Rightarrow> string \<Rightarrow> (nat \<times> key_failure, string) sum" where
  "loadUser users param =
     (let i = trim param in
      if i = [] then Inl (400, Bad_user_id)
      else case users i of
        Inl e \<Rightarrow> Inl (500, Database_error e)
      | Inr None \<Rightarrow> Inl (404, User_not_found)
      | Inr (Some username) \<Rightarrow>
          if trim username = [] then Inl (400, No_linux_username) else Inr username)"

definition answer ::
  "string option \<Rightarrow> (key_error, keys_status) sum \<times> file_system \<Rightarrow> keys_reply \<times> file_system" where
  "answer message r =
     (case r of
        (Inl e, fs) \<Rightarrow> (Refused 400 (Key_failure e), fs)
      | (Inr st, fs) \<Rightarrow> (Replied message st, fs))"

text \<open>A handler: load the user, then act on the files.\<close>

definition with_user ::
  "(string \<Rightarrow> (string, string option) sum) \<Rightarrow> string \<Rightarrow> file_system \<Rightarrow>
    (string \<Rightarrow> keys_reply \<times> file_system) \<Rightarrow> keys_reply \<times> file_system" where
  "with_user users param fs act =
     (case loadUser users param of Inl (code, e) \<Rightarrow> (Refused code e, fs) | Inr username \<Rightarrow> act username)"

text \<open>A text of a decoded body; \<open>None\<close> when the JSON value is not a text.\<close>

definition body_text :: "obj \<Rightarrow> string \<Rightarrow> string option" where
  "body_text b k =
     (case oget b k of JUndef \<Rightarrow> Some [] | JNull \<Rightarrow> Some [] | JStr s \<Rightarrow> Some s | _ \<Rightarrow> None)"

definition body_or_empty :: "obj \<Rightarrow> string \<Rightarrow> string" where
  "body_or_empty b k = (case body_text b k of Some s \<Rightarrow> s | None \<Rightarrow> [])"

definition GetKeysAPI where
  "GetKeysAPI lib passwd users param includePrivate fs =
     with_user users param fs (\<lambda>u. answer None (SSHKeys lib passwd fs u includePrivate, fs))"

definition AddAuthorizedKeyAPI where
  "AddAuthorizedKeyAPI lib passwd users param body fs =
     with_user users param fs (\<lambda>u.
       case (body_text body ''key'', body_text body ''comment'') of
         (Some key, Some comment) \<Rightarrow>
           answer (Some ''Authorized key added'') (AddAuthorizedKey lib passwd u key comment fs)
       | _ \<Rightarrow> (Refused 400 Invalid_body, fs))"

definition RemoveAuthorizedKeyAPI where
  "RemoveAuthorizedKeyAPI lib passwd users param index fs =
     with_user users param fs (\<lambda>u.
       case atoi (trim index) of
         None \<Rightarrow> (Refused 400 Invalid_index_text, fs)
       | Some i \<Rightarrow> answer (Some ''Authorized key removed'') (RemoveAuthorizedKey lib passwd u i fs))"

text \<open>Errors of the binding are ignored here; a field of another type keeps its zero value.\<close>

definition read_generate_body :: "obj \<Rightarrow> generate_options" where
  "read_generate_body b =
     \<lparr>go_type = body_or_empty b ''type'', go_comment = body_or_empty b ''comment'',
      go_passphrase = body_or_empty b ''passphrase'',
      go_overwrite = (oget b ''overwrite'' = JBool True),
      go_bits = (case oget b ''bits'' of
         JNum n \<Rightarrow> if of_int \<lfloor>n\<rfloor> = n \<and> int64 \<lfloor>n\<rfloor> then \<lfloor>n\<rfloor> else 0 | _ \<Rightarrow> 0)\<rparr>"

definition GenerateIdentityAPI where
  "GenerateIdentityAPI lib passwd users param body fs =
     with_user users param fs (\<lambda>u.
       answer (Some ''SSH identity keypair generated'')
         (GenerateIdentity lib passwd u (read_generate_body body) fs))"

definition DeleteIdentityAPI where
  "DeleteIdentityAPI lib passwd users param fs =
     with_user users param fs (\<lambda>u.
       answer (Some ''SSH identity keypair deleted'') (DeleteIdentity lib passwd u fs))"

definition AuthorizeIdentityAPI where
  "AuthorizeIdentityAPI lib passwd users param fs =
     with_user users param fs (\<lambda>u.
       answer (Some ''Identity public key added to authorized_keys'')
         (AuthorizeIdentityPublicKey lib passwd u fs))"

section \<open>The page\<close>

text \<open>The dialogs stay mounted while they are closed, so what was typed into them is part of the
  state. The index of the key to remove is the one of the list that was shown.\<close>

record keys_page =
  kp_id :: string
  kp_addOpen :: bool
  kp_key :: string
  kp_comment :: string
  kp_adding :: bool
  kp_removeIndex :: "nat option"
  kp_removing :: bool
  kp_genOpen :: bool
  kp_type :: string
  kp_identComment :: string
  kp_passphrase :: string
  kp_generating :: bool
  kp_deleteOpen :: bool
  kp_deleting :: bool
  kp_freshPrivate :: string
  kp_notices :: "notice list"
  kp_requests :: "api_request list"
  kp_refetched :: nat

definition new_keys_page :: "string \<Rightarrow> string \<Rightarrow> keys_page" where
  "new_keys_page userId username =
     \<lparr>kp_id = userId, kp_addOpen = False, kp_key = [], kp_comment = [], kp_adding = False,
      kp_removeIndex = None, kp_removing = False, kp_genOpen = False, kp_type = ''ed25519'',
      kp_identComment = username @ ''@containerws'', kp_passphrase = [], kp_generating = False,
      kp_deleteOpen = False, kp_deleting = False, kp_freshPrivate = [], kp_notices = [],
      kp_requests = [], kp_refetched = 0\<rparr>"

definition kp_note :: "notice \<Rightarrow> keys_page \<Rightarrow> keys_page" where
  "kp_note n s = s\<lparr>kp_notices := kp_notices s @ [n]\<rparr>"

definition kp_send :: "api_request \<Rightarrow> keys_page \<Rightarrow> keys_page" where
  "kp_send r s = s\<lparr>kp_requests := kp_requests s @ [r]\<rparr>"

definition kp_invalidate :: "keys_page \<Rightarrow> keys_page" where
  "kp_invalidate s = s\<lparr>kp_refetched := Suc (kp_refetched s)\<rparr>"

datatype keys_event =
    Open_add
  | Type_key string
  | Type_comment string
  | Cancel_add
  | Dismiss_add
  | Submit_add
  | Added "string option"
  | Add_failed err
  | Ask_remove nat
  | Cancel_remove
  | Confirm_remove
  | Removed "string option"
  | Remove_failed err
  | Open_generate
  | Choose_type string
  | Type_ident_comment string
  | Type_passphrase string
  | Close_generate
  | Submit_generate bool
  | Generated "string option" "string option"
  | Generate_failed err
  | Ask_delete
  | Cancel_delete
  | Confirm_delete
  | Deleted "string option"
  | Delete_failed err

definition generate_body :: "bool \<Rightarrow> keys_page \<Rightarrow> obj" where
  "generate_body hasExisting s =
     [(''type'', JStr (kp_type s)), (''comment'', truthy_str (Some (trim (kp_identComment s)))),
      (''passphrase'', truthy_str (Some (kp_passphrase s))), (''overwrite'', JBool hasExisting)]"

definition add_body :: "keys_page \<Rightarrow> obj" where
  "add_body s = [(''key'', JStr (trim (kp_key s))), (''comment'', truthy_str (Some (trim (kp_comment s))))]"

definition kp_failed :: "(rat \<Rightarrow> string) \<Rightarrow> err \<Rightarrow> string \<Rightarrow> keys_page \<Rightarrow> keys_page" where
  "kp_failed numStr e fallback s = kp_note (Went_wrong (getRequestErrorMessage numStr e fallback)) s"

fun keys_step :: "(rat \<Rightarrow> string) \<Rightarrow> keys_event \<Rightarrow> keys_page \<Rightarrow> keys_page" where
  "keys_step numStr Open_add s = s\<lparr>kp_addOpen := True\<rparr>"
| "keys_step numStr (Type_key k) s = s\<lparr>kp_key := k\<rparr>"
| "keys_step numStr (Type_comment c) s = s\<lparr>kp_comment := c\<rparr>"
| "keys_step numStr Cancel_add s = s\<lparr>kp_addOpen := False\<rparr>"
| "keys_step numStr Dismiss_add s = s\<lparr>kp_addOpen := False, kp_key := [], kp_comment := []\<rparr>"
| "keys_step numStr Submit_add s =
     (if kp_adding s \<or> trim (kp_key s) = [] then s
      else kp_send (addAuthorizedKey (kp_id s) (JObj (add_body s))) (s\<lparr>kp_adding := True\<rparr>))"
| "keys_step numStr (Added message) s =
     kp_invalidate (kp_note (Succeeded (js_or message ''Key added''))
       (s\<lparr>kp_adding := False, kp_addOpen := False\<rparr>))"
| "keys_step numStr (Add_failed e) s = kp_failed numStr e ''Failed to add key'' (s\<lparr>kp_adding := False\<rparr>)"
| "keys_step numStr (Ask_remove i) s = s\<lparr>kp_removeIndex := Some i\<rparr>"
| "keys_step numStr Cancel_remove s = s\<lparr>kp_removeIndex := None\<rparr>"
| "keys_step numStr Confirm_remove s =
     (case kp_removeIndex s of
        None \<Rightarrow> s
      | Some i \<Rightarrow>
          if kp_removing s then s
          else kp_send (removeAuthorizedKey (kp_id s) i)
                 (s\<lparr>kp_removing := True, kp_removeIndex := None\<rparr>))"
| "keys_step numStr (Removed message) s =
     kp_invalidate (kp_note (Succeeded (js_or message ''Key removed''))
       (s\<lparr>kp_removing := False, kp_removeIndex := None\<rparr>))"
| "keys_step numStr (Remove_failed e) s =
     kp_failed numStr e ''Failed to remove key'' (s\<lparr>kp_removing := False\<rparr>)"
| "keys_step numStr Open_generate s = s\<lparr>kp_genOpen := True\<rparr>"
| "keys_step numStr (Choose_type t) s = s\<lparr>kp_type := t\<rparr>"
| "keys_step numStr (Type_ident_comment c) s = s\<lparr>kp_identComment := c\<rparr>"
| "keys_step numStr (Type_passphrase p) s = s\<lparr>kp_passphrase := p\<rparr>"
| "keys_step numStr Close_generate s = s\<lparr>kp_genOpen := False\<rparr>"
| "keys_step numStr (Submit_generate hasExisting) s =
     (if kp_generating s then s
      else kp_send (generateIdentityKey (kp_id s) (JObj (generate_body hasExisting s)))
             (s\<lparr>kp_generating := True\<rparr>))"
| "keys_step numStr (Generated message priv) s =
     kp_invalidate (kp_note (Succeeded (js_or message ''Keypair generated''))
       (s\<lparr>kp_generating := False, kp_genOpen := False, kp_freshPrivate := js_or priv []\<rparr>))"
| "keys_step numStr (Generate_failed e) s =
     kp_failed numStr e ''Failed to generate keypair'' (s\<lparr>kp_generating := False\<rparr>)"
| "keys_step numStr Ask_delete s = s\<lparr>kp_deleteOpen := True\<rparr>"
| "keys_step numStr Cancel_delete s = s\<lparr>kp_deleteOpen := False\<rparr>"
| "keys_step numStr Confirm_delete s =
     (if kp_deleting s then s
      else kp_send (deleteIdentityKey (kp_id s)) (s\<lparr>kp_deleting := True, kp_deleteOpen := False\<rparr>))"
| "keys_step numStr (Deleted message) s =
     kp_invalidate (kp_note (Succeeded (js_or message ''Identity deleted''))
       (s\<lparr>kp_deleting := False, kp_deleteOpen := False, kp_freshPrivate := []\<rparr>))"
| "keys_step numStr (Delete_failed e) s =
     kp_failed numStr e ''Failed to delete identity'' (s\<lparr>kp_deleting := False\<rparr>)"

definition privateMaterial :: "keys_page \<Rightarrow> string" where
  "privateMaterial s = (if trim (kp_freshPrivate s) \<noteq> [] then kp_freshPrivate s else [])"

text \<open>The files that the buttons save: a name and a content.\<close>

definition downloadPublic :: "string \<Rightarrow> identity_key \<Rightarrow> (string \<times> string) option" where
  "downloadPublic username i =
     (if ik_public_key i = [] then None
      else Some (let name = last (js_split ''/'' (ik_public_path i))
                 in if name \<noteq> [] then name else username @ ''.pub'',
        if ends_with (ik_public_key i) [CHR 10] then ik_public_key i else ik_public_key i @ [CHR 10]))"

definition downloadPrivate :: "identity_key option \<Rightarrow> keys_page \<Rightarrow> (string \<times> string) option" where
  "downloadPrivate i s =
     (if privateMaterial s = [] then None
      else Some (let name = (case i of Some i \<Rightarrow> last (js_split ''/'' (ik_private_path i)) | None \<Rightarrow> [])
                 in if name \<noteq> [] then name else ''id_ed25519'',
        privateMaterial s))"

text \<open>The client of a session, as the list and the dialog name it.\<close>

definition formatRemoteEndpoint :: "string option \<Rightarrow> nat option \<Rightarrow> string" where
  "formatRemoteEndpoint remote_host remote_port =
     (let host = (case remote_host of Some h \<Rightarrow> trim h | None \<Rightarrow> []) in
      if host = [] then ''Local console''
      else case remote_port of
        Some p \<Rightarrow> if 0 < p then host @ '':'' @ show_nat p else host
      | None \<Rightarrow> host)"

section \<open>Lemmas on the lines of a file\<close>

lemma trim_prefix_blank: "trim p = [] \<Longrightarrow> trim (p @ s) = trim s"
proof -
  assume "trim p = []"
  then have "dropWhile js_ws (p @ s) = dropWhile js_ws s" by (simp add: trim_Nil_iff dropWhile_append2)
  then show ?thesis by (simp add: trim_def trim_start_def)
qed

lemma trim_prefix_word:
  assumes "trim p \<noteq> []"
  shows "trim (p @ s) \<noteq> [] \<and> hd (trim (p @ s)) = hd (trim p)"
proof -
  have ne: "trim (p @ s) \<noteq> []" using assms by (auto simp: trim_Nil_iff)
  have "\<exists>c \<in> set p. \<not> js_ws c" using assms by (auto simp: trim_Nil_iff)
  then have "trim_start (p @ s) = trim_start p @ s" "trim_start p \<noteq> []"
    by (auto simp: trim_start_def dropWhile_append1)
  with ne assms show ?thesis unfolding trim_def by (simp add: hd_trim_end)
qed

text \<open>A line as it is listed.\<close>

definition good_line :: "string \<Rightarrow> bool" where
  "good_line l \<longleftrightarrow> key_line l \<and> tight l \<and> CHR 10 \<notin> set l"

text \<open>A line as it is added: it is not empty, but may be a comment.\<close>

definition text_line :: "string \<Rightarrow> bool" where
  "text_line l \<longleftrightarrow> l \<noteq> [] \<and> tight l \<and> CHR 10 \<notin> set l"

lemma key_lines_Nil [simp]: "key_lines [] = []"
  by (simp add: key_lines_def key_line_def)

lemma key_lines_split: "key_lines (a @ CHR 10 # b) = key_lines a @ key_lines b"
  by (simp add: key_lines_def js_split_char_at)

lemma key_lines_single: "CHR 10 \<notin> set l \<Longrightarrow> key_lines l = (if key_line (trim l) then [trim l] else [])"
  by (simp add: key_lines_def js_split_char_free)

lemma key_lines_good: "l \<in> set (key_lines raw) \<Longrightarrow> good_line l"
  using js_split_char_pieces set_trim
  by (fastforce simp: key_lines_def good_line_def tight_trim)

lemma good_lines_kept:
  assumes "list_all good_line ls" "ls \<noteq> []"
  shows "key_lines (js_join [CHR 10] ls @ [CHR 10]) = ls"
  using assms
proof (induction ls rule: induct_list012)
  case (2 l)
  then show ?case
    using key_lines_split [of l "[]"] by (simp add: good_line_def key_lines_single trim_id)
next
  case (3 l m ls)
  then have "key_lines (l @ CHR 10 # js_join [CHR 10] (m # ls) @ [CHR 10]) = [l] @ m # ls"
    by (subst key_lines_split) (simp add: good_line_def key_lines_single trim_id)
  then show ?case by simp
qed simp

text \<open>What is appended to a file whose last line has no end is added to that line.\<close>

definition unfinished :: "string \<Rightarrow> string" where
  "unfinished raw = last (js_split [CHR 10] raw)"

lemma key_lines_appended:
  assumes "text_line l"
  shows "(trim (unfinished raw) = [] \<longrightarrow>
       key_lines (raw @ l @ [CHR 10]) = key_lines raw @ (if key_line l then [l] else [])) \<and>
    (trim (unfinished raw) \<noteq> [] \<longrightarrow>
       length (key_lines (raw @ l @ [CHR 10])) = length (key_lines raw) \<and>
       butlast (key_lines (raw @ l @ [CHR 10])) = butlast (key_lines raw))"
proof -
  let ?u = "unfinished raw" and ?K = "filter key_line (map trim (butlast (js_split [CHR 10] raw)))"
  let ?one = "\<lambda>x. if key_line (trim x) then [trim x] else []"
  have split: "js_split [CHR 10] raw = butlast (js_split [CHR 10] raw) @ [?u]"
    by (simp add: unfinished_def)
  have "?u \<in> set (js_split [CHR 10] raw)" by (simp add: unfinished_def)
  then have free: "CHR 10 \<notin> set (?u @ l)" using js_split_char_pieces assms by (fastforce simp: text_line_def)
  have before: "key_lines raw = ?K @ ?one ?u"
    unfolding key_lines_def by (subst split) simp
  have "key_lines (raw @ l @ [CHR 10]) = key_lines (raw @ l)"
    using key_lines_split [of "raw @ l" "[]"] by simp
  also have "\<dots> = ?K @ ?one (?u @ l)"
    using js_split_append [of "[CHR 10]" raw l] free
    by (simp add: key_lines_def unfinished_def js_split_char_free)
  finally have after: "key_lines (raw @ l @ [CHR 10]) = ?K @ ?one (?u @ l)" .
  show ?thesis
  proof (cases "trim ?u = []")
    case True
    then have "?one ?u = []" "?one (?u @ l) = (if key_line l then [l] else [])"
      using assms by (auto simp: trim_prefix_blank key_line_def text_line_def trim_id)
    with True before after show ?thesis by simp
  next
    case False
    then have "key_line (trim (?u @ l)) = key_line (trim ?u)"
      using trim_prefix_word [OF False, of l]
      by (cases "trim ?u"; cases "trim (?u @ l)") (auto simp: key_line_def starts_with_def)
    with False before after show ?thesis by (simp add: butlast_append)
  qed
qed

text \<open>The contract of the package: a marshaled key is one line that is no comment, and the comment and
  the options parsed from one line have no line end. Nothing is said of the options otherwise: the
  package skips an empty first option, so that the options it returns may begin with a hash sign.\<close>

definition ssh_contract :: "('p, 'k) ssh_lib \<Rightarrow> bool" where
  "ssh_contract lib \<longleftrightarrow>
     (\<forall>pub. key_line (trim (MarshalAuthorizedKey lib pub)) \<and>
        CHR 10 \<notin> set (trim (MarshalAuthorizedKey lib pub))) \<and>
     (\<forall>l pub comment options. ParseAuthorizedKey lib l = Some (pub, comment, options) \<and> good_line l \<longrightarrow>
        CHR 10 \<notin> set comment \<and> CHR 10 \<notin> set (js_join '','' options))"

lemma key_line_extend: "key_line (trim p) \<Longrightarrow> key_line (trim (p @ s))"
  using trim_prefix_word [of p s]
  by (cases "trim p"; cases "trim (p @ s)") (auto simp: key_line_def starts_with_def)

lemma build_line_text:
  assumes "ssh_contract lib" "CHR 10 \<notin> set comment" "CHR 10 \<notin> set (js_join '','' options)"
  shows "text_line (build_line lib pub comment options)"
proof -
  let ?m = "trim (MarshalAuthorizedKey lib pub)" and ?o = "js_join '','' options"
  let ?line = "if comment \<noteq> [] then ?m @ '' '' @ comment else ?m"
  let ?all = "if options \<noteq> [] then ?o @ '' '' @ ?line else ?line"
  have m: "trim ?m \<noteq> []" "CHR 10 \<notin> set ?m" using assms(1) by (auto simp: ssh_contract_def key_line_def)
  then have "\<exists>x \<in> set ?m. \<not> js_ws x" by (simp add: trim_Nil_iff del: trim_trim)
  then have ne: "trim ?all \<noteq> []" unfolding trim_Nil_iff by auto
  have lf: "CHR 10 \<notin> set ?all" using m assms(2,3) by auto
  have "build_line lib pub comment options = trim ?all" by (simp add: build_line_def Let_def)
  moreover have "CHR 10 \<notin> set (trim ?all)" using lf set_trim by blast
  ultimately show ?thesis using ne by (simp add: text_line_def tight_trim)
qed

lemma candidate_good: "key_candidate key = Some l \<Longrightarrow> good_line l"
proof -
  assume "key_candidate key = Some l"
  then have "l \<in> set (key_lines (replace_char (CHR 13) [CHR 10] (crlf_to_lf (trim key))))"
    unfolding key_candidate_def key_lines_def by (auto simp: find_Some_iff)
  then show ?thesis by (rule key_lines_good)
qed

lemma normalized_text:
  assumes "ssh_contract lib" "normalizeAuthorizedKeyLine lib key c = Inr line" "CHR 10 \<notin> set c"
  shows "text_line line"
proof -
  obtain l pub comment options where l: "key_candidate key = Some l"
    "ParseAuthorizedKey lib l = Some (pub, comment, options)"
    "line = build_line lib pub (if trim c \<noteq> [] then trim c else comment) options"
    using assms(2) by (auto simp: normalizeAuthorizedKeyLine_def split: option.splits prod.splits)
  have "CHR 10 \<notin> set comment \<and> CHR 10 \<notin> set (js_join '','' options)"
    using assms(1) l(2) candidate_good [OF l(1)] unfolding ssh_contract_def by blast
  moreover have "CHR 10 \<notin> set (trim c)" using assms(3) set_trim by blast
  ultimately show ?thesis unfolding l(3) by (intro build_line_text assms(1)) auto
qed

section \<open>Lemmas on the files\<close>

lemma file_ops [simp]:
  "fs_files (write_file p t fs) q = (if q = p then Some t else fs_files fs q)"
  "fs_files (remove_file p fs) q = (if q = p then None else fs_files fs q)"
  "fs_files (ensureSSHDir acc fs) = fs_files fs"
  "fs_dirs (write_file p t fs) = fs_dirs fs" "fs_dirs (remove_file p fs) = fs_dirs fs"
  by (auto simp: write_file_def remove_file_def ensureSSHDir_def)

lemma account_lookup:
  assumes "passwd (trim u) = Some home" "trim u \<noteq> []" "home \<noteq> []" "tight home"
  shows "Lookup passwd u = \<lparr>ac_username = trim u, ac_home = home, ac_exists = True\<rparr>"
    "requireAccount passwd u = Inr \<lparr>ac_username = trim u, ac_home = home, ac_exists = True\<rparr>"
  using assms by (simp_all add: Lookup_def requireAccount_def Let_def trim_id)

lemma read_lines: "map ak_line (readAuthorizedKeys lib raw) = key_lines raw"
proof -
  have "ak_line (authorized_entry lib i l) = l" for i l
    by (auto simp: authorized_entry_def split: option.splits)
  then show ?thesis
    by (simp add: readAuthorizedKeys_def comp_def split_beta)
qed

text \<open>Files of one directory have different paths.\<close>

definition plain_name :: "string \<Rightarrow> bool" where
  "plain_name f \<longleftrightarrow> f \<noteq> [] \<and> f \<noteq> ''.'' \<and> f \<noteq> ''..'' \<and> CHR ''/'' \<notin> set f"

lemma js_join_snoc: "js_join sep (ps @ [p]) = (if ps = [] then p else js_join sep ps @ sep @ p)"
  by (induction sep ps rule: js_join.induct) simp_all

lemma join_in_dir:
  assumes "d \<noteq> []"
  shows "\<exists>pre. \<forall>f. plain_name f \<longrightarrow> filepath_join [d, f] = pre @ f"
proof -
  define r where "r = starts_with d ''/''"
  define acc where "acc = fold (clean_part r) (js_split ''/'' d) []"
  define pre where "pre = (if r then ''/'' else []) @
    (if acc = [] then [] else js_join ''/'' (rev acc) @ ''/'')"
  have "filepath_join [d, f] = pre @ f" if f: "plain_name f" for f
  proof -
    have "js_split ''/'' (d @ CHR ''/'' # f) = js_split ''/'' d @ [f]"
      using f by (simp add: js_split_char_at js_split_char_free plain_name_def)
    moreover have "starts_with (d @ CHR ''/'' # f) ''/'' = r"
      using assms by (cases d) (simp_all add: r_def starts_with_def)
    moreover have "clean_part r f acc = f # acc" using f by (simp add: clean_part_def plain_name_def)
    ultimately have "filepath_clean (d @ CHR ''/'' # f) =
        (if r then ''/'' else []) @ js_join ''/'' (rev acc @ [f])"
      by (cases r) (simp_all add: filepath_clean_def Let_def acc_def)
    then show ?thesis
      using assms f by (simp add: filepath_join_def Let_def js_join_snoc pre_def plain_name_def)
  qed
  then show ?thesis by blast
qed

lemma ssh_path_ne: "ssh_path acc \<noteq> []"
proof -
  have "filepath_clean p \<noteq> []" if "p \<noteq> []" for p
  proof (cases "starts_with p ''/''")
    case False
    let ?parts = "rev (fold (clean_part False) (js_split ''/'' p) [])"
    have clean: "[] \<notin> set qs \<Longrightarrow> [] \<notin> set (fold (clean_part False) ps qs)" for ps qs
    proof (induction ps arbitrary: qs)
      case (Cons p ps)
      from Cons.prems have "[] \<notin> set (clean_part False p qs)"
        by (auto simp: clean_part_def split: list.splits)
      with Cons show ?case by simp
    qed simp
    have "[] \<notin> set ?parts" using clean [of "[]"] by simp
    then have "?parts \<noteq> [] \<Longrightarrow> js_join ''/'' ?parts \<noteq> []"
      by (cases ?parts; cases "tl ?parts") auto
    then show ?thesis using that False by (simp add: filepath_clean_def Let_def)
  qed (use that in \<open>simp add: filepath_clean_def Let_def\<close>)
  then show ?thesis by (simp add: ssh_path_def filepath_join_def)
qed

section \<open>Properties of the authorized keys\<close>

text \<open>A server that knows the user and the account.\<close>

definition known_user ::
  "(string \<Rightarrow> (string, string option) sum) \<Rightarrow> (string \<rightharpoonup> string) \<Rightarrow> string \<Rightarrow> string \<Rightarrow> bool" where
  "known_user users passwd i home \<longleftrightarrow>
     trim i \<noteq> [] \<and> (\<exists>u. users (trim i) = Inr (Some u) \<and> trim u \<noteq> [] \<and> passwd (trim u) = Some home) \<and>
     home \<noteq> [] \<and> tight home"

definition keys_file :: "string \<Rightarrow> string" where
  "keys_file home = filepath_join [filepath_join [home, ''.ssh''], ''authorized_keys'']"

text \<open>What the page lists of a file, which may be absent.\<close>

definition listed :: "('p, 'k) ssh_lib \<Rightarrow> string option \<Rightarrow> auth_key list" where
  "listed lib raw = (case raw of Some t \<Rightarrow> readAuthorizedKeys lib t | None \<Rightarrow> [])"

lemma trim_idem_lookup: "Lookup passwd (trim u) = Lookup passwd u"
  by (simp add: Lookup_def)

lemma status_listed:
  assumes "passwd (trim u) = Some home" "trim u \<noteq> []" "home \<noteq> []" "tight home"
  shows "\<exists>st. SSHKeys lib passwd fs u p = Inr st \<and> ks_keys st = listed lib (read_file fs (keys_file home))"
proof -
  have "trim home \<noteq> []" using assms by (simp add: trim_id)
  then show ?thesis
    using assms by (simp add: SSHKeys_def account_lookup Let_def listed_def keys_file_def trim_id)
qed

lemma keys_shown:
  assumes "known_user users passwd i home"
  shows "\<exists>st. GetKeysAPI lib passwd users i p fs = (Replied None st, fs) \<and>
    ks_keys st = listed lib (read_file fs (keys_file home))"
proof -
  obtain u where u: "trim i \<noteq> []" "users (trim i) = Inr (Some u)" "trim u \<noteq> []" "passwd (trim u) = Some home"
    "home \<noteq> []" "tight home" using assms by (auto simp: known_user_def)
  from status_listed [of passwd u home lib fs p] u show ?thesis
    by (fastforce simp: GetKeysAPI_def with_user_def loadUser_def answer_def Let_def)
qed

lemma kept_lines:
  "map (ak_line \<circ> snd) (filter (\<lambda>(j, k). int j \<noteq> int i) (enumerate 0 ks)) =
   take i (map ak_line ks) @ drop (Suc i) (map ak_line ks)"
proof -
  have "map (ak_line \<circ> snd) (filter (\<lambda>(j, k). j \<noteq> n + i) (enumerate n ks)) =
      take i (map ak_line ks) @ drop (Suc i) (map ak_line ks)" for n
  proof (induction ks arbitrary: n i)
    case (Cons k ks)
    then show ?case
    proof (cases i)
      case 0
      have "filter (\<lambda>(j, k). j \<noteq> n) (enumerate (Suc n) ks) = enumerate (Suc n) ks"
        by (rule filter_True) (auto simp: in_set_enumerate_eq)
      moreover have "map (\<lambda>a. ak_line (snd a)) (enumerate (Suc n) ks) = map ak_line ks"
        using map_map [of ak_line snd "enumerate (Suc n) ks"] by (simp add: comp_def)
      ultimately show ?thesis using 0 by (simp add: comp_def)
    next
      case (Suc m)
      with Cons.IH [where n = "Suc n" and i = m] show ?thesis by simp
    qed
  qed simp
  from this [of 0] show ?thesis by simp
qed

definition file_of_lines :: "string list \<Rightarrow> string" where
  "file_of_lines ls = (if ls \<noteq> [] then js_join [CHR 10] ls @ [CHR 10] else [])"

lemma relisted:
  assumes "list_all good_line ls"
  shows "listed lib (Some (file_of_lines ls)) =
    map (\<lambda>(j, l). authorized_entry lib j l) (enumerate 0 ls)"
  using good_lines_kept [OF assms]
  by (cases "ls = []") (simp_all add: listed_def readAuthorizedKeys_def file_of_lines_def)

text \<open>An entry read at another place differs in its index only.\<close>

lemma authorized_entry_moved: "authorized_entry lib j (ak_line (authorized_entry lib i l)) = (authorized_entry lib i l)\<lparr>ak_index := j\<rparr>"
  by (auto simp: authorized_entry_def split: option.splits)

lemma listed_entries:
  "k \<in> set (listed lib raw) \<Longrightarrow> authorized_entry lib j (ak_line k) = k\<lparr>ak_index := j\<rparr>"
  by (auto simp: listed_def readAuthorizedKeys_def authorized_entry_moved split: option.splits)

lemma listed_good: "list_all good_line (map ak_line (listed lib raw))"
  using key_lines_good
  by (auto simp: listed_def read_lines list_all_iff simp del: set_map split: option.splits)

lemma listed_index:
  assumes "k \<in> set (listed lib raw)"
  shows "ak_index k < length (listed lib raw) \<and> listed lib raw ! ak_index k = k"
proof -
  obtain t where t: "raw = Some t" using assms by (auto simp: listed_def split: option.splits)
  have "ak_index (authorized_entry lib i l) = i" for i l by (simp add: authorized_entry_def split: option.splits)
  with assms t show ?thesis
    by (auto simp: listed_def readAuthorizedKeys_def in_set_enumerate_eq nth_enumerate_eq)
qed

lemma moved_entries:
  "set ks \<subseteq> set (listed lib raw) \<Longrightarrow>
   map (\<lambda>(j, l). authorized_entry lib j l) (enumerate n (map ak_line ks)) =
   map (\<lambda>(j, x). x\<lparr>ak_index := j\<rparr>) (enumerate n ks)"
  by (induction ks arbitrary: n) (auto simp: listed_entries)

lemma remove_shown:
  assumes "k \<in> set (listed lib raw)"
  shows "remove1 k (listed lib raw) =
    take (ak_index k) (listed lib raw) @ drop (Suc (ak_index k)) (listed lib raw)"
proof -
  let ?ks = "listed lib raw" and ?i = "ak_index k"
  have i: "?i < length ?ks" "?ks ! ?i = k" using listed_index [OF assms] by auto
  have "k \<notin> set (take ?i ?ks)"
  proof
    assume "k \<in> set (take ?i ?ks)"
    then obtain j where j: "j < ?i" "?ks ! j = k" using i by (auto simp: in_set_conv_nth)
    have nth: "ak_index (?ks ! j) = j" if "j < length ?ks" for j
    proof -
      have "ak_index (authorized_entry lib j l) = j" for j l by (simp add: authorized_entry_def split: option.splits)
      then show ?thesis
        using that by (auto simp: listed_def readAuthorizedKeys_def nth_enumerate_eq split: option.splits)
    qed
    show False using nth [of j] j i by simp
  qed
  then have short: "remove1 k (take ?i ?ks @ k # drop (Suc ?i) ?ks) = take ?i ?ks @ drop (Suc ?i) ?ks"
    by (simp add: remove1_append)
  have "?ks = take ?i ?ks @ k # drop (Suc ?i) ?ks" using id_take_nth_drop [OF i(1)] i by simp
  then have "remove1 k ?ks = remove1 k (take ?i ?ks @ k # drop (Suc ?i) ?ks)" by (rule arg_cong)
  also note short
  finally show ?thesis .
qed

text \<open>The path segment that the route gives to the handler.\<close>

definition last_segment :: "string \<Rightarrow> string" where
  "last_segment url = last (js_split ''/'' url)"

lemma removal_segment: "last_segment (rq_url (removeAuthorizedKey u i)) = show_nat i"
proof -
  have "CHR ''/'' \<notin> set (show_nat i)" using show_nat_digits [of "CHR ''/''" i] by (auto simp: char_code_def)
  then have "js_split ''/'' (rq_url (removeAuthorizedKey u i)) =
      js_split ''/'' (keysBase u @ ''/authorized'') @ [show_nat i]"
    using js_split_char_at [of "CHR ''/''" "keysBase u @ ''/authorized''" "show_nat i"]
    by (simp add: removeAuthorizedKey_def js_split_char_free)
  then show ?thesis by (simp add: last_segment_def)
qed

lemma auth_file_of [simp]:
  "auth_file \<lparr>ac_username = n, ac_home = home, ac_exists = e\<rparr> = keys_file home"
  by (simp add: auth_file_def ssh_path_def keys_file_def)

lemma remove_at:
  assumes "requireAccount passwd u = Inr acc" "read_file fs (auth_file acc) = Some t"
    "i < length (readAuthorizedKeys lib t)"
  shows "RemoveAuthorizedKey lib passwd u (int i) fs =
    (let ls = map ak_line (readAuthorizedKeys lib t);
         fs' = write_file (auth_file acc) (file_of_lines (take i ls @ drop (Suc i) ls)) fs
     in (SSHKeys lib passwd fs' (ac_username acc) False, fs'))"
  using assms by (simp add: RemoveAuthorizedKey_def kept_lines [simplified comp_def] comp_def
      file_of_lines_def Let_def del: of_nat_eq_iff)

text \<open>C10: The removal that the page asks for removes exactly the key that was shown, when the file is
  still the one that was listed: for a key of the list, the two clicks send a request whose last
  segment makes the handler answer with the list without that key, every other key as before and
  renumbered, and the file holds the remaining lines; no other file changes.\<close>

theorem removal_removes_shown_key:
  assumes "known_user users passwd (kp_id s) home"
    and "GetKeysAPI lib passwd users (kp_id s) False fs = (Replied None st, fs)"
    and "k \<in> set (ks_keys st)" "length (ks_keys st) < 2 ^ 63" "\<not> kp_removing s"
  shows "\<exists>rq st' fs'.
     kp_requests (fold (keys_step numStr) [Ask_remove (ak_index k), Confirm_remove] s) =
       kp_requests s @ [rq] \<and>
     RemoveAuthorizedKeyAPI lib passwd users (kp_id s) (last_segment (rq_url rq)) fs =
       (Replied (Some ''Authorized key removed'') st', fs') \<and>
     ks_keys st' = map (\<lambda>(j, x). x\<lparr>ak_index := j\<rparr>) (enumerate 0 (remove1 k (ks_keys st))) \<and>
     (\<forall>p. p \<noteq> keys_file home \<longrightarrow> read_file fs' p = read_file fs p)"
proof -
  let ?raw = "read_file fs (keys_file home)" and ?i = "ak_index k"
  let ?ks = "listed lib ?raw" and ?rq = "removeAuthorizedKey (kp_id s) (ak_index k)"
  obtain u where u: "trim (kp_id s) \<noteq> []" "users (trim (kp_id s)) = Inr (Some u)" "trim u \<noteq> []"
    "passwd (trim u) = Some home" "home \<noteq> []" "tight home"
    using assms(1) by (auto simp: known_user_def)
  have ks: "ks_keys st = ?ks" using keys_shown [OF assms(1), of lib False fs] assms(2) by auto
  then have k: "k \<in> set ?ks" "?i < length ?ks" using assms(3) listed_index by auto
  then obtain t where t: "?raw = Some t" by (auto simp: listed_def split: option.splits)
  let ?lines = "take ?i (map ak_line ?ks) @ drop (Suc ?i) (map ak_line ?ks)"
  have lines: "?lines = map ak_line (remove1 k ?ks)"
    by (simp add: remove_shown [OF k(1)] take_map drop_map)
  let ?fs = "write_file (keys_file home) (file_of_lines ?lines) fs"
  obtain st' where st': "SSHKeys lib passwd ?fs (trim u) False = Inr st'"
    "ks_keys st' = listed lib (read_file ?fs (keys_file home))"
    using status_listed [of passwd "trim u" home lib ?fs False] u by auto
  have "RemoveAuthorizedKey lib passwd u (int ?i) fs = (Inr st', ?fs)"
    using u t k st'(1) account_lookup(2) [of passwd u home]
      remove_at [of passwd u "\<lparr>ac_username = trim u, ac_home = home, ac_exists = True\<rparr>" fs t ?i lib]
    by (simp add: Let_def listed_def)
  moreover have "atoi (trim (last_segment (rq_url ?rq))) = Some (int ?i)"
    using k assms(4) ks by (simp add: removal_segment atoi_nat)
  ultimately have "RemoveAuthorizedKeyAPI lib passwd users (kp_id s) (last_segment (rq_url ?rq)) fs =
      (Replied (Some ''Authorized key removed'') st', ?fs)"
    using u by (simp add: RemoveAuthorizedKeyAPI_def with_user_def loadUser_def answer_def Let_def)
  moreover have "ks_keys st' = map (\<lambda>(j, x). x\<lparr>ak_index := j\<rparr>) (enumerate 0 (remove1 k ?ks))"
  proof -
    have "list_all good_line ?lines"
      unfolding lines using listed_good [of lib ?raw] set_remove1_subset [of k ?ks]
      by (auto simp: list_all_iff)
    moreover have "set (remove1 k ?ks) \<subseteq> set ?ks" by (rule set_remove1_subset)
    ultimately show ?thesis
      using relisted [of ?lines lib] moved_entries [of "remove1 k ?ks" lib ?raw 0]
      unfolding st'(2) lines by (simp add: read_file_def)
  qed
  moreover have "kp_requests (fold (keys_step numStr) [Ask_remove ?i, Confirm_remove] s) = kp_requests s @ [?rq]"
    using assms(5) by (simp add: kp_send_def)
  ultimately show ?thesis unfolding ks by (auto simp: read_file_def)
qed

text \<open>What a file that is absent or empty lists, and what more lines list.\<close>

lemma listed_default: "listed lib raw = readAuthorizedKeys lib (case raw of Some t \<Rightarrow> t | None \<Rightarrow> [])"
  by (simp add: listed_def readAuthorizedKeys_def split: option.splits)

lemma butlast_enumerate: "butlast (enumerate n xs) = enumerate n (butlast xs)"
  by (cases xs rule: rev_cases) (simp_all add: enumerate_append_eq)

lemma appended_keys:
  assumes "text_line l"
  shows "if trim (unfinished raw) = []
    then (if key_line l
      then \<exists>k. readAuthorizedKeys lib (raw @ l @ [CHR 10]) = readAuthorizedKeys lib raw @ [k] \<and> ak_line k = l
      else readAuthorizedKeys lib (raw @ l @ [CHR 10]) = readAuthorizedKeys lib raw)
    else length (readAuthorizedKeys lib (raw @ l @ [CHR 10])) = length (readAuthorizedKeys lib raw) \<and>
      butlast (readAuthorizedKeys lib (raw @ l @ [CHR 10])) = butlast (readAuthorizedKeys lib raw)"
proof -
  have line [simp]: "ak_line (authorized_entry lib n l) = l" for n by (simp add: authorized_entry_def split: option.splits)
  show ?thesis
    using key_lines_appended [OF assms, of raw]
    by (auto simp: readAuthorizedKeys_def enumerate_append_eq butlast_enumerate map_butlast [symmetric])
qed

lemma add_body_text:
  "body_text (add_body s) ''key'' = Some (trim (kp_key s))"
  "body_text (add_body s) ''comment'' = Some (trim (kp_comment s))"
  by (simp_all add: body_text_def add_body_def oget_def truthy_str_def)

lemma added_line:
  assumes "AddAuthorizedKey lib passwd u key comment fs = (Inr st, fs')" "requireAccount passwd u = Inr acc"
  obtains line where "normalizeAuthorizedKeyLine lib key comment = Inr line"
    "read_file fs' (auth_file acc) =
       Some ((case read_file fs (auth_file acc) of Some t \<Rightarrow> t | None \<Rightarrow> []) @ line @ [CHR 10])"
    "SSHKeys lib passwd fs' (ac_username acc) False = Inr st"
proof -
  obtain line where "normalizeAuthorizedKeyLine lib key comment = Inr line"
    using assms by (auto simp: AddAuthorizedKey_def split: sum.splits)
  with that [OF this] show thesis
    using assms by (auto simp: AddAuthorizedKey_def Let_def read_file_def split: option.splits)
qed

text \<open>C11: A key that the server reports as added is listed only if the last line of the file had
  its line end. For every key and every comment without a line end that the page sends, a successful
  answer means that the normalized line was written behind the text of the file. If what follows
  the last line end of the file is blank (also when the file is empty or absent), the answer lists
  the keys there were and behind them the new one with that line, unless the line begins with a hash
  sign, which options such as \<open>,#x\<close> make it do: then it is a comment and the keys are those there
  were. Otherwise the new key was written into the last line: there are just as many keys as before,
  and all but the last are the same.\<close>

theorem added_key_needs_line_end:
  assumes "ssh_contract lib" "known_user users passwd (kp_id s) home"
    and "GetKeysAPI lib passwd users (kp_id s) False fs = (Replied None st, fs)"
    and "AddAuthorizedKeyAPI lib passwd users (kp_id s) (add_body s) fs = (Replied m st', fs')"
    and "CHR 10 \<notin> set (kp_comment s)"
  shows "\<exists>line. normalizeAuthorizedKeyLine lib (trim (kp_key s)) (trim (kp_comment s)) = Inr line \<and>
    (let raw = (case read_file fs (keys_file home) of Some t \<Rightarrow> t | None \<Rightarrow> [])
     in read_file fs' (keys_file home) = Some (raw @ line @ [CHR 10]) \<and>
        (if trim (unfinished raw) = []
         then (if key_line line then \<exists>k. ks_keys st' = ks_keys st @ [k] \<and> ak_line k = line
               else ks_keys st' = ks_keys st)
         else length (ks_keys st') = length (ks_keys st) \<and>
              butlast (ks_keys st') = butlast (ks_keys st)))"
proof -
  obtain u where u: "trim (kp_id s) \<noteq> []" "users (trim (kp_id s)) = Inr (Some u)" "trim u \<noteq> []"
    "passwd (trim u) = Some home" "home \<noteq> []" "tight home"
    using assms(2) by (auto simp: known_user_def)
  let ?raw = "case read_file fs (keys_file home) of Some t \<Rightarrow> t | None \<Rightarrow> []"
  have ks: "ks_keys st = readAuthorizedKeys lib ?raw"
    using keys_shown [OF assms(2), of lib False fs] assms(3) by (simp add: listed_default)
  have "AddAuthorizedKey lib passwd u (trim (kp_key s)) (trim (kp_comment s)) fs = (Inr st', fs')"
    using assms(4) u by (auto simp: AddAuthorizedKeyAPI_def with_user_def loadUser_def answer_def
        add_body_text Let_def split: sum.splits prod.splits)
  moreover have "requireAccount passwd u = Inr \<lparr>ac_username = trim u, ac_home = home, ac_exists = True\<rparr>"
    using account_lookup(2) [of passwd u home] u by simp
  ultimately obtain line where
    line: "normalizeAuthorizedKeyLine lib (trim (kp_key s)) (trim (kp_comment s)) = Inr line"
    and written: "read_file fs' (keys_file home) = Some (?raw @ line @ [CHR 10])"
    and st': "SSHKeys lib passwd fs' (trim u) False = Inr st'"
    by (auto elim: added_line)
  have "CHR 10 \<notin> set (trim (kp_comment s))" using assms(5) set_trim by blast
  note keys = appended_keys [OF normalized_text [OF assms(1) line this], of ?raw lib]
  have st: "ks_keys st' = readAuthorizedKeys lib (?raw @ line @ [CHR 10])"
    using status_listed [of passwd "trim u" home lib fs' False] u st' written by (simp add: listed_def)
  show ?thesis
    unfolding Let_def ks st by (intro exI [of _ line] conjI line written keys)
qed

text \<open>The comment lines and empty lines of the file are lost when a key is removed.\<close>

lemma removal_loses_comments:
  assumes "requireAccount passwd u = Inr acc" "read_file fs (auth_file acc) = Some (''# laptop'' @ CHR 10 # ''ssh-rsa A'' @ CHR 10 # ''ssh-rsa B'')"
  shows "read_file (snd (RemoveAuthorizedKey lib passwd u 1 fs)) (auth_file acc) = Some (''ssh-rsa A'' @ [CHR 10])"
proof -
  let ?t = "''# laptop'' @ CHR 10 # ''ssh-rsa A'' @ CHR 10 # ''ssh-rsa B''"
  have lines: "map ak_line (readAuthorizedKeys lib ?t) = [''ssh-rsa A'', ''ssh-rsa B'']"
    unfolding read_lines by code_simp
  from arg_cong [OF this, of length] have "1 < length (readAuthorizedKeys lib ?t)" by simp
  from remove_at [OF assms this, unfolded lines Let_def] show ?thesis
    by (simp add: read_file_def file_of_lines_def)
qed

section \<open>Properties of the identity\<close>

lemma generated_cases:
  assumes "GenerateIdentity lib passwd u opts fs = (Inr st, fs')" "requireAccount passwd u = Inr acc"
  obtains base bits pub where "chosen_algorithm opts = Inr (base, bits)"
    "base = IdentityED25519 \<or> base = IdentityRSA"
    "go_overwrite opts \<or> fs_files fs (filepath_join [ssh_path acc, base]) = None \<and>
       fs_files fs (filepath_join [ssh_path acc, base] @ ''.pub'') = None"
    "fs' = remove_pair (ssh_path acc) (if base = IdentityRSA then IdentityED25519 else IdentityRSA)
       (write_file (filepath_join [ssh_path acc, base] @ ''.pub'') pub
         (write_file (filepath_join [ssh_path acc, base]) (ik_private_key (ks_identity st)) (ensureSSHDir acc fs)))"
proof -
  obtain base bits where b: "chosen_algorithm opts = Inr (base, bits)"
    using assms by (auto simp: GenerateIdentity_def split: sum.splits prod.splits)
  have "base = IdentityED25519 \<or> base = IdentityRSA"
    using b by (auto simp: chosen_algorithm_def Let_def split: if_splits)
  with that [OF b] show thesis
    using assms b by (auto simp: GenerateIdentity_def Let_def remove_pair_def fileExists_def
        split: if_splits sum.splits prod.splits)
qed

text \<open>C12: A generated pair of keys is the only identity of the user afterwards: the file of the chosen
  algorithm holds the private key of the answer, its public key lies beside it, and the files of the
  other algorithm are gone, whether or not the caller asked to overwrite; without that, the chosen
  files did not exist before. No other file changes.\<close>

theorem generated_identity_is_only_one:
  assumes "GenerateIdentity lib passwd u opts fs = (Inr st, fs')" "requireAccount passwd u = Inr acc"
  shows "\<exists>base other bits. chosen_algorithm opts = Inr (base, bits) \<and>
    {base, other} = {IdentityED25519, IdentityRSA} \<and>
    (let file = \<lambda>name. filepath_join [ssh_path acc, name]
     in read_file fs' (file base) = Some (ik_private_key (ks_identity st)) \<and>
        fileExists fs' (file (base @ ''.pub'')) \<and>
        \<not> fileExists fs' (file other) \<and> \<not> fileExists fs' (file (other @ ''.pub'')) \<and>
        (go_overwrite opts \<or> \<not> fileExists fs (file base) \<and> \<not> fileExists fs (file (base @ ''.pub''))) \<and>
        (\<forall>p. p \<notin> file ` {base, base @ ''.pub'', other, other @ ''.pub''} \<longrightarrow>
           read_file fs' p = read_file fs p))"
proof -
  obtain base bits pub where b: "chosen_algorithm opts = Inr (base, bits)"
    "base = IdentityED25519 \<or> base = IdentityRSA"
    "go_overwrite opts \<or> fs_files fs (filepath_join [ssh_path acc, base]) = None \<and>
       fs_files fs (filepath_join [ssh_path acc, base] @ ''.pub'') = None"
    "fs' = remove_pair (ssh_path acc) (if base = IdentityRSA then IdentityED25519 else IdentityRSA)
       (write_file (filepath_join [ssh_path acc, base] @ ''.pub'') pub
         (write_file (filepath_join [ssh_path acc, base]) (ik_private_key (ks_identity st)) (ensureSSHDir acc fs)))"
    by (rule generated_cases [OF assms])
  obtain pre where pre: "\<And>f. plain_name f \<Longrightarrow> filepath_join [ssh_path acc, f] = pre @ f"
    using join_in_dir [OF ssh_path_ne [of acc]] by blast
  have names: "plain_name IdentityED25519" "plain_name IdentityRSA" "plain_name (IdentityED25519 @ ''.pub'')"
    "plain_name (IdentityRSA @ ''.pub'')" by (simp_all add: plain_name_def IdentityED25519_def IdentityRSA_def)
  define other where "other = (if base = IdentityRSA then IdentityED25519 else IdentityRSA)"
  define pth where "pth name = filepath_join [ssh_path acc, name]" for name
  have pairs: "{base, other} = {IdentityED25519, IdentityRSA}" using b(2) by (auto simp: other_def)
  have distinct: "base \<noteq> other" "base @ ''.pub'' \<noteq> other" "base \<noteq> other @ ''.pub''"
    using b(2) by (auto simp: other_def IdentityED25519_def IdentityRSA_def)
  have paths: "pth base = pre @ base" "pth (base @ ''.pub'') = pre @ base @ ''.pub''"
    "pth other = pre @ other" "pth (other @ ''.pub'') = pre @ other @ ''.pub''"
    using b(2) names by (auto simp: pth_def other_def pre)
  have fs': "fs_files fs' = (fs_files fs)(pth base \<mapsto> ik_private_key (ks_identity st),
      pth (base @ ''.pub'') \<mapsto> pub, pth other := None, pth (other @ ''.pub'') := None)"
    using b(4) paths(1,2)
    by (simp add: fun_eq_iff remove_pair_def flip: other_def pth_def)
  have "fs_files fs' (pth base) = Some (ik_private_key (ks_identity st))"
    "fs_files fs' (pth (base @ ''.pub'')) = Some pub" "fs_files fs' (pth other) = None"
    "fs_files fs' (pth (other @ ''.pub'')) = None"
    "go_overwrite opts \<or> fs_files fs (pth base) = None \<and> fs_files fs (pth (base @ ''.pub'')) = None"
    using b(3) distinct paths(1,2) by (simp_all add: fs' paths flip: pth_def)
  moreover have "fs_files fs' p = fs_files fs p" if "p \<notin> pth ` {base, base @ ''.pub'', other, other @ ''.pub''}" for p
    using that by (auto simp: fs')
  ultimately show ?thesis
    using b(1) pairs unfolding Let_def pth_def read_file_def fileExists_def by blast
qed

text \<open>The page only asks to overwrite when an identity exists, and then it is never refused for one.\<close>

lemma page_generation_not_refused:
  assumes "requireAccount passwd u = Inr acc"
  shows "fst (GenerateIdentity lib passwd u
    (read_generate_body (generate_body (ik_exists (readIdentity lib fs (ssh_path acc) p)) s)) fs)
    \<noteq> Inl (Identity_exists q)"
proof -
  define opts where "opts = read_generate_body (generate_body (ik_exists (readIdentity lib fs (ssh_path acc) p)) s)"
  have ow: "go_overwrite opts = ik_exists (readIdentity lib fs (ssh_path acc) p)"
    by (simp add: opts_def read_generate_body_def generate_body_def oget_def)
  have some: "ik_exists i" if "read_pair lib fs d p b = Some i" for d b i
  proof -
    have "ik_exists (read_public lib raw i) = ik_exists i" for raw i
      by (simp add: read_public_def Let_def split: option.splits)
    then show ?thesis
      using that by (auto simp: read_pair_def no_identity_def Let_def split: if_splits option.splits)
  qed
  have pair: "ik_exists (readIdentity lib fs (ssh_path acc) p)"
    if "fileExists fs (filepath_join [ssh_path acc, b]) \<or> fileExists fs (filepath_join [ssh_path acc, b] @ ''.pub'')"
      "b = IdentityED25519 \<or> b = IdentityRSA" for b
  proof -
    have "read_pair lib fs (ssh_path acc) p b \<noteq> None" using that(1) by (auto simp: read_pair_def Let_def)
    then show ?thesis using that(2) some by (auto simp: readIdentity_def split: option.splits)
  qed
  have no_error: "generate_pair lib b n c w \<noteq> Inl (Identity_exists q)" for b n c w
    by (auto simp: generate_pair_def split: sum.splits)
  have alg: "chosen_algorithm opts \<noteq> Inl (Identity_exists q)" for opts
    by (auto simp: chosen_algorithm_def Let_def)
  have keys: "SSHKeys lib passwd fs' n v \<noteq> Inl (Identity_exists q)" for fs' n v
    by (auto simp: SSHKeys_def Let_def)
  have base: "b = IdentityED25519 \<or> b = IdentityRSA" if "chosen_algorithm opts = Inr (b, n)" for b n
    using that by (auto simp: chosen_algorithm_def Let_def split: if_splits)
  show ?thesis
  proof (fold opts_def, rule notI)
    assume e: "fst (GenerateIdentity lib passwd u opts fs) = Inl (Identity_exists q)"
    with assms alg obtain b n where c: "chosen_algorithm opts = Inr (b, n)"
      by (cases "chosen_algorithm opts") (auto simp: GenerateIdentity_def)
    show False
    proof (cases "\<not> go_overwrite opts \<and> (fileExists fs (filepath_join [ssh_path acc, b]) \<or>
        fileExists fs (filepath_join [ssh_path acc, b] @ ''.pub''))")
      case True
      with pair [OF _ base [OF c]] ow show False by blast
    next
      case False
      with e assms c no_error keys show False
        by (auto simp: GenerateIdentity_def fileExists_def Let_def split: sum.splits if_splits)
    qed
  qed
qed

text \<open>A passphrase of blanks encrypts nothing, and nobody is told.\<close>

lemma blank_passphrase_ignored:
  "trim w = [] \<Longrightarrow> generate_pair lib b n c w = generate_pair lib b n c []"
  by (auto simp: generate_pair_def marshalPrivate_def split: sum.split)

text \<open>The dialogs keep what was typed after a success: the comment typed for one key is still there for
  the next, and a passphrase is reused by the next generation, whatever happened in between but a
  change of the field.\<close>

lemma comment_kept_for_next_key:
  "kp_comment (fold (keys_step numStr) [Submit_add, Added m, Open_add, Type_key k] s) = kp_comment s"
  by (simp add: kp_send_def kp_note_def kp_invalidate_def)

lemma passphrase_kept:
  "\<forall>e \<in> set es. \<forall>p. e \<noteq> Type_passphrase p \<Longrightarrow>
   kp_passphrase (fold (keys_step numStr) es s) = kp_passphrase s"
proof (induction es arbitrary: s)
  case (Cons e es)
  have "kp_passphrase (keys_step numStr e s) = kp_passphrase s"
    using Cons.prems
    by (cases e) (auto simp: kp_send_def kp_note_def kp_invalidate_def kp_failed_def split: option.splits)
  with Cons show ?case by simp
qed simp

text \<open>The private key that is shown is the one of the last answer, until the identity is deleted.\<close>

lemma fresh_private_shown:
  "trim w \<noteq> [] \<Longrightarrow> privateMaterial (keys_step numStr (Generated m (Some w)) s) = w"
  "privateMaterial (keys_step numStr (Deleted m) s) = []"
  by (auto simp: privateMaterial_def kp_note_def kp_invalidate_def js_or_def)

section \<open>Witnesses\<close>

definition demo_lib :: "(string, unit) ssh_lib" where
  "demo_lib = \<lparr>ParseAuthorizedKey =
       (\<lambda>l. if starts_with l ''ssh-'' then Some (drop 4 l, [], []) else None),
     key_type = (\<lambda>_. ''ssh-demo''), FingerprintSHA256 = (\<lambda>p. p),
     MarshalAuthorizedKey = (\<lambda>p. ''ssh-'' @ filter (\<lambda>c. c \<noteq> CHR 10) p),
     GenerateKey = (\<lambda>_ _. Inr ((), ''new'')), MarshalPrivateKey = (\<lambda>_ _ _. Inr ''PRIVATE'')\<rparr>"

definition demo_users :: "string \<Rightarrow> (string, string option) sum" where
  "demo_users i = (if i = ''u1'' then Inr (Some ''ann'') else Inr None)"

definition demo_passwd :: "string \<rightharpoonup> string" where
  "demo_passwd n = (if n = ''ann'' then Some ''/home/ann'' else None)"

definition demo_fs :: "string \<Rightarrow> file_system" where
  "demo_fs t = \<lparr>fs_files = (\<lambda>p. if p = ''/home/ann/.ssh/authorized_keys'' then Some t else None), fs_dirs = {}\<rparr>"

lemma demo_contract: "ssh_contract demo_lib"
proof -
  have "key_line (trim (''ssh-'' @ s)) \<and> (CHR 10 \<notin> set s \<longrightarrow> CHR 10 \<notin> set (trim (''ssh-'' @ s)))" for s
  proof
    have "key_line (trim ''ssh-'')" by code_simp
    then show "key_line (trim (''ssh-'' @ s))" by (rule key_line_extend)
    show "CHR 10 \<notin> set s \<longrightarrow> CHR 10 \<notin> set (trim (''ssh-'' @ s))" using set_trim [of "''ssh-'' @ s"] by auto
  qed
  then show ?thesis
    by (auto simp: ssh_contract_def demo_lib_def starts_with_def split: if_splits)
qed

lemma demo_known: "known_user demo_users demo_passwd ''u1'' ''/home/ann''"
proof -
  have "trim ''u1'' = ''u1''" "trim ''ann'' = ''ann''" "tight ''/home/ann''" by code_simp+
  then show ?thesis by (simp add: known_user_def demo_users_def demo_passwd_def)
qed

lemma demo_keys_file: "keys_file ''/home/ann'' = ''/home/ann/.ssh/authorized_keys''"
  by code_simp

theorem removal_removes_shown_key_witness:
  "\<exists>(st :: keys_status) k st' fs'. k \<in> set (ks_keys st) \<and> length (ks_keys st) = 2 \<and>
     RemoveAuthorizedKeyAPI demo_lib demo_passwd demo_users ''u1'' (show_nat (ak_index k))
       (demo_fs (''ssh-a'' @ CHR 10 # ''ssh-b'')) = (Replied (Some ''Authorized key removed'') st', fs') \<and>
     ks_keys st' = map (\<lambda>(j, x). x\<lparr>ak_index := j\<rparr>) (enumerate 0 (remove1 k (ks_keys st)))"
proof -
  let ?fs = "demo_fs (''ssh-a'' @ CHR 10 # ''ssh-b'')" and ?s = "new_keys_page ''u1'' ''ann''"
  have known: "known_user demo_users demo_passwd (kp_id ?s) ''/home/ann''"
    using demo_known by (simp add: new_keys_page_def)
  from keys_shown [OF this, of demo_lib False ?fs] obtain st where
    st: "GetKeysAPI demo_lib demo_passwd demo_users (kp_id ?s) False ?fs = (Replied None st, ?fs)"
      "ks_keys st = listed demo_lib (read_file ?fs ''/home/ann/.ssh/authorized_keys'')"
    unfolding demo_keys_file by blast
  have "length (key_lines (''ssh-a'' @ CHR 10 # ''ssh-b'')) = 2" by code_simp
  then have l: "length (ks_keys st) = 2"
    using arg_cong [OF read_lines [of demo_lib "''ssh-a'' @ CHR 10 # ''ssh-b''"], of length]
    by (simp add: st(2) listed_def read_file_def demo_fs_def)
  then obtain k where k: "k \<in> set (ks_keys st)" by (cases "ks_keys st") auto
  have "\<not> kp_removing ?s" by (simp add: new_keys_page_def)
  from removal_removes_shown_key [OF known st(1) k _ this, of demo_num] l obtain rq st' fs' where r:
    "kp_requests (fold (keys_step demo_num) [Ask_remove (ak_index k), Confirm_remove] ?s) = kp_requests ?s @ [rq]"
    "RemoveAuthorizedKeyAPI demo_lib demo_passwd demo_users (kp_id ?s) (last_segment (rq_url rq)) ?fs =
       (Replied (Some ''Authorized key removed'') st', fs')"
    "ks_keys st' = map (\<lambda>(j, x). x\<lparr>ak_index := j\<rparr>) (enumerate 0 (remove1 k (ks_keys st)))"
    by auto
  then have "last_segment (rq_url rq) = show_nat (ak_index k)"
    using removal_segment [of "''u1''" "ak_index k"] by (simp add: new_keys_page_def kp_send_def)
  moreover have "kp_id ?s = ''u1''" by (simp add: new_keys_page_def)
  ultimately show ?thesis using r l k by (intro exI [of _ st] exI [of _ k] exI [of _ st'] exI [of _ fs']) simp
qed

theorem added_key_needs_line_end_witness:
  "\<exists>(st :: keys_status) st' fs'. AddAuthorizedKeyAPI demo_lib demo_passwd demo_users ''u1''
      (add_body (new_keys_page ''u1'' ''ann''\<lparr>kp_key := ''ssh-b''\<rparr>)) (demo_fs ''ssh-a'') =
        (Replied (Some ''Authorized key added'') st', fs') \<and>
     length (ks_keys st) = 1 \<and> length (ks_keys st') = length (ks_keys st)"
proof -
  let ?s = "new_keys_page ''u1'' ''ann''\<lparr>kp_key := ''ssh-b''\<rparr>" and ?fs = "demo_fs ''ssh-a''"
  have known: "known_user demo_users demo_passwd (kp_id ?s) ''/home/ann''"
    using demo_known by (simp add: new_keys_page_def)
  from keys_shown [OF this, of demo_lib False ?fs] obtain st where
    st: "GetKeysAPI demo_lib demo_passwd demo_users (kp_id ?s) False ?fs = (Replied None st, ?fs)"
      "ks_keys st = listed demo_lib (read_file ?fs ''/home/ann/.ssh/authorized_keys'')"
    unfolding demo_keys_file by blast
  have raw: "read_file ?fs ''/home/ann/.ssh/authorized_keys'' = Some ''ssh-a''"
    by (simp add: read_file_def demo_fs_def)
  have "length (key_lines ''ssh-a'') = 1" by code_simp
  then have l: "length (ks_keys st) = 1"
    using arg_cong [OF read_lines [of demo_lib "''ssh-a''"], of length] by (simp add: st(2) raw listed_def)
  have "case fst (AddAuthorizedKeyAPI demo_lib demo_passwd demo_users ''u1'' (add_body ?s) ?fs) of
      Replied m _ \<Rightarrow> m = Some ''Authorized key added'' | _ \<Rightarrow> False" by code_simp
  then obtain st' fs' where add: "AddAuthorizedKeyAPI demo_lib demo_passwd demo_users (kp_id ?s) (add_body ?s) ?fs =
      (Replied (Some ''Authorized key added'') st', fs')"
    by (cases "AddAuthorizedKeyAPI demo_lib demo_passwd demo_users ''u1'' (add_body ?s) ?fs")
      (auto simp: new_keys_page_def split: keys_reply.splits)
  have "CHR 10 \<notin> set (kp_comment ?s)" by (simp add: new_keys_page_def)
  note added = added_key_needs_line_end [OF demo_contract known st(1) add this, unfolded demo_keys_file raw]
  have "trim (unfinished ''ssh-a'') \<noteq> []" by code_simp
  with added have "length (ks_keys st') = length (ks_keys st)" by auto
  moreover have "kp_id ?s = ''u1''" by (simp add: new_keys_page_def)
  ultimately show ?thesis using add l by (intro exI [of _ st] exI [of _ st'] exI [of _ fs']) simp
qed

theorem generated_identity_is_only_one_witness:
  "\<exists>st fs' base. GenerateIdentity demo_lib demo_passwd ''ann''
      \<lparr>go_type = [], go_comment = [], go_passphrase = [], go_overwrite = False, go_bits = 0\<rparr> (demo_fs []) = (Inr st, fs') \<and>
     read_file fs' (filepath_join [''/home/ann/.ssh'', base]) = Some (ik_private_key (ks_identity st))"
proof -
  let ?opts = "\<lparr>go_type = [], go_comment = [], go_passphrase = [], go_overwrite = False, go_bits = 0\<rparr>"
  have acc: "requireAccount demo_passwd ''ann'' = Inr \<lparr>ac_username = ''ann'', ac_home = ''/home/ann'', ac_exists = True\<rparr>"
    and path: "ssh_path \<lparr>ac_username = ''ann'', ac_home = ''/home/ann'', ac_exists = True\<rparr> = ''/home/ann/.ssh''"
    by code_simp+
  have "case fst (GenerateIdentity demo_lib demo_passwd ''ann'' ?opts (demo_fs [])) of
      Inr _ \<Rightarrow> True | Inl _ \<Rightarrow> False" by code_simp
  then obtain st fs' where g: "GenerateIdentity demo_lib demo_passwd ''ann'' ?opts (demo_fs []) = (Inr st, fs')"
    by (cases "GenerateIdentity demo_lib demo_passwd ''ann'' ?opts (demo_fs [])") (auto split: sum.splits)
  from generated_identity_is_only_one [OF this acc, unfolded path Let_def] g show ?thesis by blast
qed

end
