(* ===== verification/Ingress_Edit.thy ===== *)
theory Ingress_Edit
  imports K8s_Api
begin

text \<open>
  Ingresses of a Kubernetes cluster: the editor \<open>kubernetes/pages/ingresses/ingress-form.tsx\<close>, the
  pages that use it (\<open>ingresses/index.tsx\<close>, \<open>ingresses/detail/overview.tsx\<close>) and the handlers of
  \<open>src/modules/kubernetes/ingresses/handlers.go\<close>. The cluster is a map from names to objects; what its
  API server accepts is the parameter \<open>admit\<close>. The dialog for long values, the YAML tab and the layout
  are not modelled.
\<close>

section \<open>Objects of the cluster\<close>

datatype ing_backend = Service_backend string int string | Resource_backend string

record ing_path =
  ip_path :: string
  ip_type :: "string option"
  ip_backend :: ing_backend

record ing_rule =
  ir_host :: string
  ir_http :: "ing_path list option"

record ing_tls =
  it_hosts :: "string list"
  it_secret :: string

record ing_spec =
  is_class :: "string option"
  is_default :: "ing_backend option"
  is_rules :: "ing_rule list"
  is_tls :: "ing_tls list"

type_synonym meta = "(string \<times> string) list"

record ingress =
  ig_ns :: string
  ig_name :: string
  ig_labels :: meta
  ig_annotations :: meta
  ig_spec :: ing_spec
  ig_addresses :: "(string \<times> string) list"
  ig_created :: string

text \<open>What is exchanged: a rule of the page, with the port as a number of JavaScript, and a
  certificate, whose hosts may be \<open>null\<close>.\<close>

record form_path =
  fp_path :: string
  fp_type :: string
  fp_service :: string
  fp_port :: rat
  fp_port_name :: "string option"

record form_rule =
  fr_host :: string
  fr_paths :: "form_path list"

record form_tls =
  ft_hosts :: "string list option"
  ft_secret :: string

record ing_detail =
  dt_ns :: string
  dt_name :: string
  dt_class :: string
  dt_hosts :: string
  dt_address :: string
  dt_rules :: "form_rule list"
  dt_tls :: "form_tls list"
  dt_labels :: meta
  dt_annotations :: meta
  dt_created :: string

record write_body =
  wb_ns :: "string option"
  wb_name :: "string option"
  wb_class :: "string option"
  wb_rules :: "form_rule list"
  wb_tls :: "(string list \<times> string) list"
  wb_labels :: "meta option"
  wb_annotations :: "meta option"

section \<open>The handlers\<close>

definition ingressClass :: "ingress \<Rightarrow> string" where
  "ingressClass ig =
     (case is_class (ig_spec ig) of
        Some c \<Rightarrow> c
      | None \<Rightarrow> (case map_of (ig_annotations ig) ''kubernetes.io/ingress.class'' of
          Some v \<Rightarrow> trim v | None \<Rightarrow> []))"

definition ingressAddresses :: "ingress \<Rightarrow> string" where
  "ingressAddresses ig =
     js_join '', '' (List.map_filter (\<lambda>(ip, hostname). if ip \<noteq> [] then Some ip
       else if hostname \<noteq> [] then Some hostname else None) (ig_addresses ig))"

definition add_seen :: "string \<Rightarrow> string list \<Rightarrow> string list" where
  "add_seen h hosts = (if h \<in> set hosts then hosts else hosts @ [h])"

definition ingressHosts :: "ingress \<Rightarrow> string" where
  "ingressHosts ig =
     (let hosts = fold (\<lambda>r. add_seen (if trim (ir_host r) = [] then ''*'' else trim (ir_host r)))
            (is_rules (ig_spec ig)) [];
          hosts = fold (\<lambda>h hs. if trim h = [] then hs else add_seen (trim h) hs)
            (concat (map it_hosts (is_tls (ig_spec ig)))) hosts
      in js_join '', '' hosts)"

definition pathTypeOf :: "string \<Rightarrow> string" where
  "pathTypeOf s =
     (let t = map js_lower (trim s) in
      if t = ''exact'' then ''Exact''
      else if t = ''implementationspecific'' then ''ImplementationSpecific'' else ''Prefix'')"

datatype ing_error =
    Rules_required
  | Paths_required
  | Service_required
  | Port_required
  | Body_invalid
  | Name_required
  | Cluster_error string

text \<open>A loop that stops at the first error.\<close>

fun all_right :: "('a \<Rightarrow> ('e, 'b) sum) \<Rightarrow> 'a list \<Rightarrow> ('e, 'b list) sum" where
  "all_right f [] = Inr []"
| "all_right f (x # xs) =
     (case f x of
        Inl e \<Rightarrow> Inl e
      | Inr y \<Rightarrow> (case all_right f xs of Inl e \<Rightarrow> Inl e | Inr ys \<Rightarrow> Inr (y # ys)))"

text \<open>The body once it is decoded: the port is a 32-bit integer.\<close>

record path_body =
  pb_path :: string
  pb_type :: string
  pb_service :: string
  pb_port :: int
  pb_port_name :: string

definition decode_path :: "form_path \<Rightarrow> (ing_error, path_body) sum" where
  "decode_path p =
     (let n = \<lfloor>fp_port p\<rfloor> in
      if of_int n = fp_port p \<and> - (2 ^ 31) \<le> n \<and> n < 2 ^ 31
      then Inr \<lparr>pb_path = fp_path p, pb_type = fp_type p, pb_service = fp_service p, pb_port = n,
             pb_port_name = (case fp_port_name p of Some s \<Rightarrow> s | None \<Rightarrow> [])\<rparr>
      else Inl Body_invalid)"

type_synonym rule_body = "string \<times> path_body list"

definition decode_rule :: "form_rule \<Rightarrow> (ing_error, rule_body) sum" where
  "decode_rule r =
     (case all_right decode_path (fr_paths r) of Inl e \<Rightarrow> Inl e | Inr ps \<Rightarrow> Inr (fr_host r, ps))"

definition build_path :: "path_body \<Rightarrow> (ing_error, ing_path) sum" where
  "build_path p =
     (let svc = trim (pb_service p); portName = trim (pb_port_name p) in
      if svc = [] then Inl Service_required
      else if pb_port p \<le> 0 \<and> portName = [] then Inl Port_required
      else Inr \<lparr>ip_path = (if trim (pb_path p) = [] then ''/'' else trim (pb_path p)),
             ip_type = Some (pathTypeOf (pb_type p)),
             ip_backend = (if 0 < pb_port p then Service_backend svc (pb_port p) []
                           else Service_backend svc 0 portName)\<rparr>)"

definition build_rule :: "rule_body \<Rightarrow> (ing_error, ing_rule) sum" where
  "build_rule r =
     (if snd r = [] then Inl Paths_required
      else case all_right build_path (snd r) of
        Inl e \<Rightarrow> Inl e
      | Inr ps \<Rightarrow> Inr \<lparr>ir_host = trim (fst r), ir_http = Some ps\<rparr>)"

definition build_tls :: "(string list \<times> string) list \<Rightarrow> ing_tls list" where
  "build_tls ts =
     List.map_filter (\<lambda>(hosts, secret).
       if trim secret = [] \<and> hosts = [] then None
       else Some \<lparr>it_hosts = filter (\<lambda>h. h \<noteq> []) (map trim hosts), it_secret = trim secret\<rparr>) ts"

definition buildSpec ::
  "string option \<Rightarrow> rule_body list \<Rightarrow> (string list \<times> string) list \<Rightarrow> (ing_error, ing_spec) sum" where
  "buildSpec class rules tls =
     (if rules = [] then Inl Rules_required
      else case all_right build_rule rules of
        Inl e \<Rightarrow> Inl e
      | Inr rs \<Rightarrow> Inr
          \<lparr>is_class = (let c = trim (case class of Some c \<Rightarrow> c | None \<Rightarrow> []) in if c \<noteq> [] then Some c else None),
           is_default = None, is_rules = rs, is_tls = build_tls tls\<rparr>)"

definition spec_of_body :: "write_body \<Rightarrow> (ing_error, ing_spec) sum" where
  "spec_of_body b =
     (case all_right decode_rule (wb_rules b) of
        Inl e \<Rightarrow> Inl e
      | Inr rules \<Rightarrow> buildSpec (wb_class b) rules (wb_tls b))"

text \<open>The detail that is sent back. A slice without elements that came from the API server is nil,
  which becomes \<open>null\<close>.\<close>

definition detail_path :: "ing_path \<Rightarrow> form_path" where
  "detail_path p =
     (case ip_backend p of
        Service_backend svc port portName \<Rightarrow>
          \<lparr>fp_path = ip_path p, fp_type = (case ip_type p of Some t \<Rightarrow> t | None \<Rightarrow> []), fp_service = svc,
           fp_port = of_int port, fp_port_name = (if portName \<noteq> [] then Some portName else None)\<rparr>
      | Resource_backend _ \<Rightarrow>
          \<lparr>fp_path = ip_path p, fp_type = (case ip_type p of Some t \<Rightarrow> t | None \<Rightarrow> []), fp_service = [],
           fp_port = 0, fp_port_name = None\<rparr>)"

definition detail_rule :: "ing_rule \<Rightarrow> form_rule" where
  "detail_rule r =
     \<lparr>fr_host = ir_host r, fr_paths = (case ir_http r of Some ps \<Rightarrow> map detail_path ps | None \<Rightarrow> [])\<rparr>"

definition detail_tls :: "ing_tls \<Rightarrow> form_tls" where
  "detail_tls t = \<lparr>ft_hosts = (if it_hosts t = [] then None else Some (it_hosts t)), ft_secret = it_secret t\<rparr>"

definition detailFrom :: "ingress \<Rightarrow> ing_detail" where
  "detailFrom ig =
     \<lparr>dt_ns = ig_ns ig, dt_name = ig_name ig, dt_class = ingressClass ig, dt_hosts = ingressHosts ig,
      dt_address = ingressAddresses ig, dt_rules = map detail_rule (is_rules (ig_spec ig)),
      dt_tls = map detail_tls (is_tls (ig_spec ig)), dt_labels = ig_labels ig,
      dt_annotations = ig_annotations ig, dt_created = ig_created ig\<rparr>"

type_synonym ing_cluster = "string \<times> string \<rightharpoonup> ingress"

type_synonym admission = "ingress \<Rightarrow> (string, ingress) sum"

definition IngressGetAPI :: "string \<Rightarrow> string \<Rightarrow> ing_cluster \<Rightarrow> (ing_error, ing_detail) sum" where
  "IngressGetAPI ns name cl =
     (case cl (trim ns, trim name) of
        None \<Rightarrow> Inl (Cluster_error ''not found'') | Some ig \<Rightarrow> Inr (detailFrom ig))"

definition IngressCreateAPI ::
  "admission \<Rightarrow> write_body \<Rightarrow> ing_cluster \<Rightarrow> (ing_error, string \<times> ing_detail) sum \<times> ing_cluster" where
  "IngressCreateAPI admit b cl =
     (let ns = trim (case wb_ns b of Some s \<Rightarrow> s | None \<Rightarrow> []); ns = (if ns = [] then ''default'' else ns);
          name = trim (case wb_name b of Some s \<Rightarrow> s | None \<Rightarrow> [])
      in case all_right decode_rule (wb_rules b) of
        Inl e \<Rightarrow> (Inl e, cl)
      | Inr rules \<Rightarrow>
          if name = [] then (Inl Name_required, cl)
          else case buildSpec (wb_class b) rules (wb_tls b) of
            Inl e \<Rightarrow> (Inl e, cl)
          | Inr spec \<Rightarrow>
              if cl (ns, name) \<noteq> None then (Inl (Cluster_error ''already exists''), cl)
              else case admit \<lparr>ig_ns = ns, ig_name = name,
                     ig_labels = (case wb_labels b of Some l \<Rightarrow> l | None \<Rightarrow> []),
                     ig_annotations = (case wb_annotations b of Some a \<Rightarrow> a | None \<Rightarrow> []),
                     ig_spec = spec, ig_addresses = [], ig_created = []\<rparr> of
                Inl e \<Rightarrow> (Inl (Cluster_error e), cl)
              | Inr ig \<Rightarrow> (Inr (''Ingress created'', detailFrom ig), cl((ns, name) \<mapsto> ig)))"

definition IngressUpdateAPI ::
  "admission \<Rightarrow> string \<Rightarrow> string \<Rightarrow> write_body \<Rightarrow> ing_cluster \<Rightarrow>
    (ing_error, string \<times> ing_detail) sum \<times> ing_cluster" where
  "IngressUpdateAPI admit ns name b cl =
     (case spec_of_body b of
        Inl e \<Rightarrow> (Inl e, cl)
      | Inr spec \<Rightarrow>
          (case cl (trim ns, trim name) of
             None \<Rightarrow> (Inl (Cluster_error ''not found''), cl)
           | Some ig \<Rightarrow>
               let ig = ig\<lparr>ig_spec := spec\<rparr>;
                   ig = (case wb_labels b of Some l \<Rightarrow> ig\<lparr>ig_labels := l\<rparr> | None \<Rightarrow> ig);
                   ig = (case wb_annotations b of Some a \<Rightarrow> ig\<lparr>ig_annotations := a\<rparr> | None \<Rightarrow> ig)
               in case admit ig of
                    Inl e \<Rightarrow> (Inl (Cluster_error e), cl)
                  | Inr ig \<Rightarrow> (Inr (''Ingress updated'', detailFrom ig), cl((trim ns, trim name) \<mapsto> ig))))"

section \<open>The editor of keys and values\<close>

record kv_pair =
  kv_id :: int
  kv_key :: string
  kv_value :: string

definition recordToPairs :: "meta \<Rightarrow> kv_pair list" where
  "recordToPairs m = map (\<lambda>(i, k, v). \<lparr>kv_id = int i, kv_key = k, kv_value = v\<rparr>) (enumerate 0 m)"

definition pairsToRecord :: "kv_pair list \<Rightarrow> meta" where
  "pairsToRecord ps =
     fold (\<lambda>p out. if trim (kv_key p) = [] then out else AList.update (trim (kv_key p)) (kv_value p) out) ps []"

datatype kv_op = Kv_add int | Kv_key int string | Kv_value int string | Kv_remove int

fun kv_apply :: "kv_op \<Rightarrow> kv_pair list \<Rightarrow> kv_pair list" where
  "kv_apply (Kv_add now) ps = ps @ [\<lparr>kv_id = now, kv_key = [], kv_value = []\<rparr>]"
| "kv_apply (Kv_key i k) ps = map (\<lambda>p. if kv_id p = i then p\<lparr>kv_key := k\<rparr> else p) ps"
| "kv_apply (Kv_value i v) ps = map (\<lambda>p. if kv_id p = i then p\<lparr>kv_value := v\<rparr> else p) ps"
| "kv_apply (Kv_remove i) ps = filter (\<lambda>p. kv_id p \<noteq> i) ps"

section \<open>The page of an ingress\<close>

definition emptyIngressPath :: form_path where
  "emptyIngressPath = \<lparr>fp_path = ''/'', fp_type = ''Prefix'', fp_service = [], fp_port = 80, fp_port_name = None\<rparr>"

definition emptyIngressRule :: form_rule where
  "emptyIngressRule = \<lparr>fr_host = [], fr_paths = [emptyIngressPath]\<rparr>"

definition emptyIngressTLS :: form_tls where
  "emptyIngressTLS = \<lparr>ft_hosts = Some [], ft_secret = []\<rparr>"

text \<open>The state of the page and, with the pairs, of its two editors of keys and values; \<open>ed_seen\<close> is the
  key both were last reset for.\<close>

record ing_page =
  ed_class :: string
  ed_rules :: "form_rule list"
  ed_tls :: "form_tls list"
  ed_labels :: meta
  ed_annotations :: meta
  ed_synced :: ing_detail
  ed_label_pairs :: "kv_pair list"
  ed_annotation_pairs :: "kv_pair list"
  ed_seen :: "meta \<times> meta"

definition shown_rules :: "ing_detail \<Rightarrow> form_rule list" where
  "shown_rules d = (if dt_rules d \<noteq> [] then dt_rules d else [emptyIngressRule])"

definition metadataResetKey :: "ing_detail \<Rightarrow> meta \<times> meta" where
  "metadataResetKey d = (dt_labels d, dt_annotations d)"

definition open_page :: "ing_detail \<Rightarrow> ing_page" where
  "open_page d =
     \<lparr>ed_class = dt_class d, ed_rules = shown_rules d, ed_tls = dt_tls d, ed_labels = dt_labels d,
      ed_annotations = dt_annotations d, ed_synced = d, ed_label_pairs = recordToPairs (dt_labels d),
      ed_annotation_pairs = recordToPairs (dt_annotations d), ed_seen = metadataResetKey d\<rparr>"

text \<open>Every eight seconds the ingress is asked for again; an answer equal to the last one changes
  nothing. The editors of keys and values are reset by their key.\<close>

definition refetched :: "ing_detail \<Rightarrow> ing_page \<Rightarrow> ing_page" where
  "refetched d s =
     (if d = ed_synced s then s
      else let s = s\<lparr>ed_synced := d, ed_class := dt_class d, ed_rules := shown_rules d, ed_tls := dt_tls d,
                     ed_labels := dt_labels d, ed_annotations := dt_annotations d\<rparr>
           in if metadataResetKey d = ed_seen s then s
              else s\<lparr>ed_seen := metadataResetKey d, ed_label_pairs := recordToPairs (ed_labels s),
                     ed_annotation_pairs := recordToPairs (ed_annotations s)\<rparr>)"

definition update_at :: "nat \<Rightarrow> ('a \<Rightarrow> 'a) \<Rightarrow> 'a list \<Rightarrow> 'a list" where
  "update_at i f xs = (if i < length xs then xs[i := f (xs ! i)] else xs)"

definition remove_nth :: "nat \<Rightarrow> 'a list \<Rightarrow> 'a list" where
  "remove_nth i xs = take i xs @ drop (Suc i) xs"

definition updateRule :: "nat \<Rightarrow> (form_rule \<Rightarrow> form_rule) \<Rightarrow> ing_page \<Rightarrow> ing_page" where
  "updateRule i f s = s\<lparr>ed_rules := update_at i f (ed_rules s)\<rparr>"

definition updatePath :: "nat \<Rightarrow> nat \<Rightarrow> (form_path \<Rightarrow> form_path) \<Rightarrow> ing_page \<Rightarrow> ing_page" where
  "updatePath i j f = updateRule i (\<lambda>r. r\<lparr>fr_paths := update_at j f (fr_paths r)\<rparr>)"

text \<open>The first port of a service, and what choosing a service or a port sets; \<open>readNum\<close> is the
  function \<open>Number\<close>, \<open>None\<close> for NaN.\<close>

type_synonym svc_options = "(string \<times> rat list) list"

definition first_port :: "svc_options \<Rightarrow> string \<Rightarrow> rat option" where
  "first_port services name =
     (case find (\<lambda>(n, _). n = name) services of Some (_, p # _) \<Rightarrow> Some p | _ \<Rightarrow> None)"

definition choose_service :: "svc_options \<Rightarrow> string \<Rightarrow> form_path \<Rightarrow> form_path" where
  "choose_service services name p =
     p\<lparr>fp_service := name,
       fp_port := (case first_port services name of
          Some n \<Rightarrow> n | None \<Rightarrow> if fp_port p \<noteq> 0 then fp_port p else 80),
       fp_port_name := None\<rparr>"

definition choose_port :: "(string \<Rightarrow> rat option) \<Rightarrow> string \<Rightarrow> form_path \<Rightarrow> form_path" where
  "choose_port readNum v p =
     p\<lparr>fp_port := (case readNum v of Some n \<Rightarrow> n | None \<Rightarrow> 0), fp_port_name := None\<rparr>"

datatype ing_event =
    Set_class string
  | Rule_host nat string
  | Add_rule
  | Remove_rule nat
  | Path_text nat nat string
  | Path_kind nat nat string
  | Choose_service nat nat svc_options string
  | Choose_port nat nat string
  | Add_path nat
  | Remove_path nat nat
  | Add_tls
  | Remove_tls nat
  | Tls_secret nat string
  | Tls_hosts nat "string list"
  | Edit_labels kv_op
  | Edit_annotations kv_op
  | Refetch ing_detail

fun ing_step :: "(string \<Rightarrow> rat option) \<Rightarrow> ing_event \<Rightarrow> ing_page \<Rightarrow> ing_page" where
  "ing_step readNum (Set_class c) s = s\<lparr>ed_class := c\<rparr>"
| "ing_step readNum (Rule_host i h) s = updateRule i (\<lambda>r. r\<lparr>fr_host := h\<rparr>) s"
| "ing_step readNum Add_rule s = s\<lparr>ed_rules := ed_rules s @ [emptyIngressRule]\<rparr>"
| "ing_step readNum (Remove_rule i) s =
     (if length (ed_rules s) \<le> 1 then s else s\<lparr>ed_rules := remove_nth i (ed_rules s)\<rparr>)"
| "ing_step readNum (Path_text i j t) s = updatePath i j (\<lambda>p. p\<lparr>fp_path := t\<rparr>) s"
| "ing_step readNum (Path_kind i j t) s =
     updatePath i j (\<lambda>p. p\<lparr>fp_type := (if t \<noteq> [] then t else ''Prefix'')\<rparr>) s"
| "ing_step readNum (Choose_service i j svcs n) s = updatePath i j (choose_service svcs n) s"
| "ing_step readNum (Choose_port i j v) s = updatePath i j (choose_port readNum v) s"
| "ing_step readNum (Add_path i) s = updateRule i (\<lambda>r. r\<lparr>fr_paths := fr_paths r @ [emptyIngressPath]\<rparr>) s"
| "ing_step readNum (Remove_path i j) s =
     updateRule i (\<lambda>r. if length (fr_paths r) \<le> 1 then r else r\<lparr>fr_paths := remove_nth j (fr_paths r)\<rparr>) s"
| "ing_step readNum Add_tls s = s\<lparr>ed_tls := ed_tls s @ [emptyIngressTLS]\<rparr>"
| "ing_step readNum (Remove_tls i) s = s\<lparr>ed_tls := remove_nth i (ed_tls s)\<rparr>"
| "ing_step readNum (Tls_secret i n) s = s\<lparr>ed_tls := update_at i (\<lambda>t. t\<lparr>ft_secret := n\<rparr>) (ed_tls s)\<rparr>"
| "ing_step readNum (Tls_hosts i hs) s = s\<lparr>ed_tls := update_at i (\<lambda>t. t\<lparr>ft_hosts := Some hs\<rparr>) (ed_tls s)\<rparr>"
| "ing_step readNum (Edit_labels op) s =
     (let ps = kv_apply op (ed_label_pairs s) in s\<lparr>ed_label_pairs := ps, ed_labels := pairsToRecord ps\<rparr>)"
| "ing_step readNum (Edit_annotations op) s =
     (let ps = kv_apply op (ed_annotation_pairs s)
      in s\<lparr>ed_annotation_pairs := ps, ed_annotations := pairsToRecord ps\<rparr>)"
| "ing_step readNum (Refetch d) s = refetched d s"

text \<open>The hosts that the editor offers. Iterating over \<open>null\<close> throws: \<open>None\<close>, and the page is not shown.\<close>

definition knownHosts :: "(string list \<Rightarrow> string list) \<Rightarrow> form_rule list \<Rightarrow> form_tls list \<Rightarrow> string list option" where
  "knownHosts sortHosts rules tls =
     (if list_all (\<lambda>t. ft_hosts t \<noteq> None) tls
      then Some (sortHosts (fold add_seen (filter (\<lambda>h. h \<noteq> [])
             (map (\<lambda>r. trim (fr_host r)) rules @
              map trim (concat (map (\<lambda>t. case ft_hosts t of Some hs \<Rightarrow> hs | None \<Rightarrow> []) tls)))) []))
      else None)"

definition page_shows :: "ing_page \<Rightarrow> bool" where
  "page_shows s \<longleftrightarrow> knownHosts id (ed_rules s) (ed_tls s) \<noteq> None"

text \<open>What is saved; \<open>None\<close> where the code throws.\<close>

definition save_path :: "form_path \<Rightarrow> form_path" where
  "save_path p =
     \<lparr>fp_path = (if trim (fp_path p) \<noteq> [] then trim (fp_path p) else ''/''),
      fp_type = (if fp_type p \<noteq> [] then fp_type p else ''Prefix''), fp_service = trim (fp_service p),
      fp_port = fp_port p,
      fp_port_name = (case fp_port_name p of
         Some n \<Rightarrow> if trim n \<noteq> [] then Some (trim n) else None | None \<Rightarrow> None)\<rparr>"

definition save_rule :: "form_rule \<Rightarrow> form_rule" where
  "save_rule r = \<lparr>fr_host = trim (fr_host r), fr_paths = map save_path (fr_paths r)\<rparr>"

fun save_tls :: "form_tls list \<Rightarrow> (string list \<times> string) list option" where
  "save_tls [] = Some []"
| "save_tls (t # ts) =
     (case ft_hosts t of
        None \<Rightarrow> None
      | Some hs \<Rightarrow>
          (case save_tls ts of
             None \<Rightarrow> None
           | Some rest \<Rightarrow>
               if trim (ft_secret t) \<noteq> [] \<or> list_ex (\<lambda>h. trim h \<noteq> []) hs
               then Some ((filter (\<lambda>h. h \<noteq> []) (map trim hs), trim (ft_secret t)) # rest)
               else Some rest))"

definition trimmed :: "string \<Rightarrow> string option" where
  "trimmed s = (if trim s \<noteq> [] then Some (trim s) else None)"

definition save_body :: "ing_page \<Rightarrow> write_body option" where
  "save_body s =
     map_option (\<lambda>tls. \<lparr>wb_ns = None, wb_name = None, wb_class = trimmed (ed_class s),
        wb_rules = map save_rule (ed_rules s), wb_tls = tls, wb_labels = Some (ed_labels s),
        wb_annotations = Some (ed_annotations s)\<rparr>) (save_tls (ed_tls s))"

definition ingress_create_body :: "string \<Rightarrow> string \<Rightarrow> ing_page \<Rightarrow> write_body option" where
  "ingress_create_body name ns s =
     map_option (\<lambda>b. b\<lparr>wb_name := Some (trim name),
        wb_ns := Some (if trim ns \<noteq> [] then trim ns else ''default'')\<rparr>) (save_body s)"

text \<open>The form of the dialog that creates an ingress.\<close>

definition create_form_page :: ing_page where
  "create_form_page =
     \<lparr>ed_class = [], ed_rules = [emptyIngressRule], ed_tls = [], ed_labels = [], ed_annotations = [],
      ed_synced = \<lparr>dt_ns = [], dt_name = [], dt_class = [], dt_hosts = [], dt_address = [], dt_rules = [],
        dt_tls = [], dt_labels = [], dt_annotations = [], dt_created = []\<rparr>,
      ed_label_pairs = [], ed_annotation_pairs = [], ed_seen = ([], [])\<rparr>"

definition ingress_canCreate :: "string \<Rightarrow> ing_page \<Rightarrow> bool" where
  "ingress_canCreate name s \<longleftrightarrow>
     trim name \<noteq> [] \<and>
     list_ex (\<lambda>r. list_ex (\<lambda>p. trim (fp_service p) \<noteq> [] \<and> 0 < fp_port p) (fr_paths r)) (ed_rules s)"

section \<open>Lemmas on the handlers\<close>

lemma all_right_map:
  "(\<And>x. x \<in> set xs \<Longrightarrow> f (h x) = Inr (g x)) \<Longrightarrow> all_right f (map h xs) = Inr (map g xs)"
  by (induction xs) auto

lemma all_right_Cons:
  "all_right f (x # xs) = Inr ys \<longleftrightarrow>
    (\<exists>y zs. f x = Inr y \<and> all_right f xs = Inr zs \<and> ys = y # zs)"
  by (auto split: sum.splits)

lemma all_right_same:
  "(\<And>x. x \<in> set xs \<Longrightarrow> f (h x) = Inr x \<longleftrightarrow> P x) \<Longrightarrow> all_right f (map h xs) = Inr xs \<longleftrightarrow> list_all P xs"
proof (induction xs)
  case (Cons x xs)
  have "f (h x) = Inr x \<longleftrightarrow> P x" using Cons.prems by simp
  moreover have "all_right f (map h xs) = Inr xs \<longleftrightarrow> list_all P xs" using Cons by simp
  ultimately show ?case by (simp only: list.map all_right_Cons) auto
qed simp

text \<open>What the API server has checked of an object. Of the path itself only that it is empty or
  begins with a slash where its type is \<open>ImplementationSpecific\<close>, so nothing is assumed of it.\<close>

definition clean_word :: "string \<Rightarrow> bool" where
  "clean_word s \<longleftrightarrow> s \<noteq> [] \<and> tight s"

definition valid_path :: "ing_path \<Rightarrow> bool" where
  "valid_path p \<longleftrightarrow>
     ip_type p \<in> {Some ''Exact'', Some ''Prefix'', Some ''ImplementationSpecific''} \<and>
     (case ip_backend p of
        Service_backend svc n pn \<Rightarrow> clean_word svc \<and> (0 < n \<and> n < 2 ^ 16 \<and> pn = [] \<or> n = 0 \<and> clean_word pn)
      | Resource_backend _ \<Rightarrow> True)"

definition valid_rule :: "ing_rule \<Rightarrow> bool" where
  "valid_rule r \<longleftrightarrow> tight (ir_host r) \<and> (\<forall>ps. ir_http r = Some ps \<longrightarrow> list_all valid_path ps)"

definition valid_cert :: "ing_tls \<Rightarrow> bool" where
  "valid_cert t \<longleftrightarrow> tight (it_secret t) \<and> list_all clean_word (it_hosts t)"

definition valid_ingress :: "ingress \<Rightarrow> bool" where
  "valid_ingress ig \<longleftrightarrow>
     (\<forall>c. is_class (ig_spec ig) = Some c \<longrightarrow> clean_word c) \<and>
     list_all valid_rule (is_rules (ig_spec ig)) \<and> list_all valid_cert (is_tls (ig_spec ig))"

text \<open>What the form can express: an empty path would become \<open>/\<close>, and white space around one would
  be cut off.\<close>

definition kept_path :: "ing_path \<Rightarrow> bool" where
  "kept_path p \<longleftrightarrow> clean_word (ip_path p) \<and>
     (case ip_backend p of Service_backend _ _ _ \<Rightarrow> True | Resource_backend _ \<Rightarrow> False)"

definition editable_rule :: "ing_rule \<Rightarrow> bool" where
  "editable_rule r \<longleftrightarrow> (case ir_http r of Some ps \<Rightarrow> ps \<noteq> [] \<and> list_all kept_path ps | None \<Rightarrow> False)"

definition editable :: "ingress \<Rightarrow> bool" where
  "editable ig \<longleftrightarrow>
     is_default (ig_spec ig) = None \<and> is_rules (ig_spec ig) \<noteq> [] \<and>
     list_all editable_rule (is_rules (ig_spec ig)) \<and>
     (is_class (ig_spec ig) = None \<longrightarrow> ingressClass ig = [])"

definition sent_path :: "ing_path \<Rightarrow> path_body" where
  "sent_path p =
     (let path = (if trim (ip_path p) = [] then ''/'' else trim (ip_path p)) in
      case ip_backend p of
        Service_backend svc n pn \<Rightarrow>
          \<lparr>pb_path = path, pb_type = the (ip_type p), pb_service = svc, pb_port = n, pb_port_name = pn\<rparr>
      | Resource_backend _ \<Rightarrow>
          \<lparr>pb_path = path, pb_type = the (ip_type p), pb_service = [], pb_port = 0, pb_port_name = []\<rparr>)"

lemma clean_word_trim [simp]: "clean_word s \<Longrightarrow> trim s = s" "clean_word s \<Longrightarrow> s \<noteq> []"
  by (simp_all add: clean_word_def trim_id)

lemma decode_saved: "valid_path p \<Longrightarrow> decode_path (save_path (detail_path p)) = Inr (sent_path p)"
  by (auto simp: valid_path_def decode_path_def save_path_def detail_path_def sent_path_def Let_def
      split: ing_backend.splits)

lemma path_types:
  "pathTypeOf ''Exact'' = ''Exact''" "pathTypeOf ''Prefix'' = ''Prefix''"
  "pathTypeOf ''ImplementationSpecific'' = ''ImplementationSpecific''"
  by code_simp+

lemma sent_path_kept:
  "(if trim s = [] then ''/'' else trim s) = s \<longleftrightarrow> clean_word s"
proof -
  have "trim ''/'' = ''/''" "clean_word ''/''" by code_simp+
  then show ?thesis using tight_trim [of s] by (auto simp: clean_word_def trim_id split: if_splits)
qed

lemma build_sent:
  assumes "valid_path p"
  shows "build_path (sent_path p) = Inr p \<longleftrightarrow> kept_path p"
proof (cases "ip_backend p")
  case (Service_backend svc n pn)
  let ?path = "if trim (ip_path p) = [] then ''/'' else trim (ip_path p)"
  have types: "pathTypeOf (the (ip_type p)) = the (ip_type p)" "ip_type p \<noteq> None"
    using assms path_types by (auto simp: valid_path_def)
  have "trim ''/'' = ''/''" by code_simp
  then have "trim ?path = ?path" "?path \<noteq> []" by simp_all
  then have "build_path (sent_path p) =
      Inr \<lparr>ip_path = ?path, ip_type = ip_type p, ip_backend = ip_backend p\<rparr>"
    using assms Service_backend types
    by (auto simp: valid_path_def sent_path_def build_path_def Let_def)
  moreover have "\<lparr>ip_path = ?path, ip_type = ip_type p, ip_backend = ip_backend p\<rparr> = p \<longleftrightarrow> ?path = ip_path p"
    by (cases p) auto
  ultimately show ?thesis
    using Service_backend sent_path_kept [of "ip_path p"] by (simp add: kept_path_def)
next
  case (Resource_backend x)
  then show ?thesis by (simp add: sent_path_def build_path_def kept_path_def Let_def)
qed

definition sent_rule :: "ing_rule \<Rightarrow> rule_body" where
  "sent_rule r = (ir_host r, case ir_http r of Some ps \<Rightarrow> map sent_path ps | None \<Rightarrow> [])"

lemma decode_saved_rule:
  assumes "valid_rule r"
  shows "decode_rule (save_rule (detail_rule r)) = Inr (sent_rule r)"
proof (cases "ir_http r")
  case (Some ps)
  have "all_right decode_path (map (\<lambda>p. save_path (detail_path p)) ps) = Inr (map sent_path ps)"
    using assms Some by (intro all_right_map decode_saved) (simp add: valid_rule_def list_all_iff)
  with assms Some show ?thesis
    by (simp add: decode_rule_def save_rule_def detail_rule_def sent_rule_def valid_rule_def comp_def trim_id)
qed (use assms in \<open>simp add: decode_rule_def save_rule_def detail_rule_def sent_rule_def valid_rule_def trim_id\<close>)

lemma build_rule_Inr:
  "build_rule r = Inr q \<longleftrightarrow>
    snd r \<noteq> [] \<and> (\<exists>ps. all_right build_path (snd r) = Inr ps \<and> q = \<lparr>ir_host = trim (fst r), ir_http = Some ps\<rparr>)"
  by (auto simp: build_rule_def split: sum.splits)

lemma buildSpec_Inr:
  "buildSpec c rules tls = Inr s \<longleftrightarrow>
    rules \<noteq> [] \<and> (\<exists>rs. all_right build_rule rules = Inr rs \<and>
      s = \<lparr>is_class = (let c = trim (case c of Some c \<Rightarrow> c | None \<Rightarrow> []) in if c \<noteq> [] then Some c else None),
           is_default = None, is_rules = rs, is_tls = build_tls tls\<rparr>)"
  by (auto simp: buildSpec_def split: sum.splits)

lemma build_sent_rule:
  assumes "valid_rule r"
  shows "build_rule (sent_rule r) = Inr r \<longleftrightarrow> editable_rule r"
proof (cases "ir_http r")
  case (Some ps)
  have "all_right build_path (map sent_path ps) = Inr ps \<longleftrightarrow> list_all kept_path ps"
    using assms Some by (intro all_right_same build_sent) (simp add: valid_rule_def list_all_iff)
  moreover have "trim (ir_host r) = ir_host r" using assms by (simp add: valid_rule_def trim_id)
  ultimately show ?thesis
    using Some by (cases r) (auto simp add: build_rule_Inr sent_rule_def editable_rule_def)
qed (simp add: build_rule_def sent_rule_def editable_rule_def)

lemma build_sent_rules:
  assumes "list_all valid_rule rs"
  shows "all_right build_rule (map sent_rule rs) = Inr rs \<longleftrightarrow> list_all editable_rule rs"
  using assms by (intro all_right_same build_sent_rule) (simp add: list_all_iff)

lemma saved_hosts:
  assumes "list_all clean_word hs"
  shows "map trim hs = hs" "filter (\<lambda>h. h \<noteq> []) hs = hs" "hs \<noteq> [] \<Longrightarrow> list_ex (\<lambda>h. trim h \<noteq> []) hs"
proof -
  show "map trim hs = hs" "filter (\<lambda>h. h \<noteq> []) hs = hs"
    using assms by (induction hs) auto
  show "hs \<noteq> [] \<Longrightarrow> list_ex (\<lambda>h. trim h \<noteq> []) hs"
    using assms by (cases hs) simp_all
qed

lemma saved_tls:
  assumes "list_all valid_cert ts" "list_all (\<lambda>t. it_hosts t \<noteq> []) ts"
  shows "save_tls (map detail_tls ts) = Some (map (\<lambda>t. (it_hosts t, it_secret t)) ts) \<and>
    build_tls (map (\<lambda>t. (it_hosts t, it_secret t)) ts) = ts"
  using assms
proof (induction ts)
  case (Cons t ts)
  then have t: "list_all clean_word (it_hosts t)" "tight (it_secret t)" "it_hosts t \<noteq> []"
    by (simp_all add: valid_cert_def)
  show ?case
    using Cons saved_hosts [OF t(1)] trim_id [OF t(2)] t(3)
    by (simp add: detail_tls_def build_tls_def List.map_filter_simps)
qed (simp add: build_tls_def List.map_filter_simps)

lemma empty_rule_refused:
  "decode_rule (save_rule emptyIngressRule) = Inr ([], [\<lparr>pb_path = ''/'', pb_type = ''Prefix'', pb_service = [],
     pb_port = 80, pb_port_name = []\<rparr>])"
proof -
  have "trim ''/'' = ''/''" by code_simp
  then show ?thesis
    by (simp add: emptyIngressRule_def emptyIngressPath_def save_rule_def save_path_def decode_rule_def
        decode_path_def Let_def)
qed

lemma unchanged_spec:
  assumes "valid_ingress ig" "list_all (\<lambda>t. it_hosts t \<noteq> []) (is_tls (ig_spec ig))"
  shows "\<exists>b. save_body (open_page (detailFrom ig)) = Some b \<and> wb_labels b = Some (ig_labels ig) \<and>
    wb_annotations b = Some (ig_annotations ig) \<and> (spec_of_body b = Inr (ig_spec ig) \<longleftrightarrow> editable ig) \<and>
    (\<forall>spec. spec_of_body b = Inr spec \<longrightarrow> is_default spec = None \<and> is_tls spec = is_tls (ig_spec ig) \<and>
       (is_class (ig_spec ig) = None \<or> is_class spec = is_class (ig_spec ig)))"
proof -
  let ?s = "ig_spec ig" and ?d = "detailFrom ig"
  have tls: "save_tls (map detail_tls (is_tls ?s)) = Some (map (\<lambda>t. (it_hosts t, it_secret t)) (is_tls ?s))"
    "build_tls (map (\<lambda>t. (it_hosts t, it_secret t)) (is_tls ?s)) = is_tls ?s"
    using assms saved_tls by (auto simp: valid_ingress_def)
  define b where "b = \<lparr>wb_ns = None, wb_name = None, wb_class = trimmed (dt_class ?d),
        wb_rules = map save_rule (shown_rules ?d), wb_tls = map (\<lambda>t. (it_hosts t, it_secret t)) (is_tls ?s),
        wb_labels = Some (ig_labels ig), wb_annotations = Some (ig_annotations ig)\<rparr>"
  have saved: "save_body (open_page ?d) = Some b"
    by (simp add: save_body_def open_page_def b_def detailFrom_def tls(1))
  have cls: "(let c = trim (case wb_class b of Some c \<Rightarrow> c | None \<Rightarrow> []) in if c \<noteq> [] then Some c else None) =
      is_class ?s \<longleftrightarrow> (is_class ?s = None \<longrightarrow> ingressClass ig = [])"
    using assms(1)
    by (auto simp: b_def trimmed_def detailFrom_def ingressClass_def valid_ingress_def Let_def split: option.splits)
  have "spec_of_body b = Inr ?s \<longleftrightarrow> editable ig"
  proof (cases "is_rules ?s = []")
    case True
    then have "all_right decode_rule (wb_rules b) = Inr [([], [\<lparr>pb_path = ''/'', pb_type = ''Prefix'',
        pb_service = [], pb_port = 80, pb_port_name = []\<rparr>])]"
      by (simp add: b_def shown_rules_def detailFrom_def empty_rule_refused)
    then show ?thesis
      using True by (simp add: spec_of_body_def buildSpec_def build_rule_def build_path_def editable_def)
  next
    case False
    have v: "list_all valid_rule (is_rules ?s)" using assms(1) by (simp add: valid_ingress_def)
    have "all_right decode_rule (map (\<lambda>r. save_rule (detail_rule r)) (is_rules ?s)) =
        Inr (map sent_rule (is_rules ?s))"
      using v by (intro all_right_map decode_saved_rule) (simp add: list_all_iff)
    then have "all_right decode_rule (wb_rules b) = Inr (map sent_rule (is_rules ?s))"
      using False by (simp add: b_def shown_rules_def detailFrom_def comp_def)
    then have "spec_of_body b = buildSpec (wb_class b) (map sent_rule (is_rules ?s)) (wb_tls b)"
      by (simp add: spec_of_body_def)
    also have "\<dots> = Inr ?s \<longleftrightarrow> list_all editable_rule (is_rules ?s) \<and> is_default ?s = None \<and>
        (is_class ?s = None \<longrightarrow> ingressClass ig = [])"
    proof -
      have "?s = \<lparr>is_class = c, is_default = None, is_rules = rs, is_tls = is_tls ?s\<rparr> \<longleftrightarrow>
          is_default ?s = None \<and> c = is_class ?s \<and> rs = is_rules ?s" for c rs
        by (cases ?s) auto
      with False build_sent_rules [OF v] tls(2) cls show ?thesis
        by (auto simp only: buildSpec_Inr b_def write_body.simps map_is_Nil_conv)
    qed
    also have "\<dots> \<longleftrightarrow> editable ig" using False by (auto simp: editable_def)
    finally show ?thesis .
  qed
  moreover have "is_default spec = None \<and> is_tls spec = is_tls ?s \<and>
      (is_class ?s = None \<or> is_class spec = is_class ?s)" if "spec_of_body b = Inr spec" for spec
    using that cls tls(2) by (auto simp: spec_of_body_def buildSpec_Inr b_def split: sum.splits)
  ultimately show ?thesis using saved by (intro exI [of _ b]) (simp add: b_def)
qed


section \<open>Lemmas on the editor\<close>

text \<open>Labels of a cluster: keys that occur once, without blanks at their ends.\<close>

definition meta_ok :: "meta \<Rightarrow> bool" where
  "meta_ok m \<longleftrightarrow> distinct (map fst m) \<and> (\<forall>k \<in> set (map fst m). clean_word k)"

lemma update_new: "k \<notin> set (map fst m) \<Longrightarrow> AList.update k v m = m @ [(k, v)]"
  by (induction m) auto

lemma pairs_of_record:
  assumes "meta_ok (acc @ m)"
  shows "fold (\<lambda>p out. if trim (kv_key p) = [] then out else AList.update (trim (kv_key p)) (kv_value p) out)
    (map (\<lambda>(i, k, v). \<lparr>kv_id = int i, kv_key = k, kv_value = v\<rparr>) (enumerate n m)) acc = acc @ m"
  using assms
proof (induction m arbitrary: n acc)
  case (Cons e m)
  obtain k v where e: "e = (k, v)" by fastforce
  have "clean_word k" "k \<notin> set (map fst acc)"
    using Cons.prems by (auto simp: e meta_ok_def)
  moreover have "meta_ok ((acc @ [e]) @ m)" using Cons.prems by simp
  ultimately show ?case using Cons.IH [of "acc @ [e]" "Suc n"] by (simp add: e update_new)
qed simp

lemma pairs_record: "meta_ok m \<Longrightarrow> pairsToRecord (recordToPairs m) = m"
  using pairs_of_record [of "[]" m 0] by (simp add: pairsToRecord_def recordToPairs_def)

text \<open>What the two editors of keys and values show is what would be sent.\<close>

definition coherent :: "ing_page \<Rightarrow> bool" where
  "coherent s \<longleftrightarrow> ed_labels s = pairsToRecord (ed_label_pairs s) \<and>
     ed_annotations s = pairsToRecord (ed_annotation_pairs s)"

fun local_event :: "ing_event \<Rightarrow> bool" where
  "local_event (Refetch d) = False"
| "local_event _ = True"

text \<open>A page between two answers of the server: each rule has a path, each certificate has hosts.\<close>

definition whole_rules :: "ing_page \<Rightarrow> bool" where
  "whole_rules s \<longleftrightarrow> ed_rules s \<noteq> [] \<and> (\<forall>r \<in> set (ed_rules s). fr_paths r \<noteq> [])"

definition hosts_known :: "ing_page \<Rightarrow> bool" where
  "hosts_known s \<longleftrightarrow> (\<forall>t \<in> set (ed_tls s). ft_hosts t \<noteq> None)"

lemma update_at_simps [simp]:
  "length (update_at i f xs) = length xs" "update_at i f xs = [] \<longleftrightarrow> xs = []"
  by (simp_all add: update_at_def)

lemma update_at_all:
  "\<forall>x \<in> set xs. P x \<Longrightarrow> (\<And>x. P x \<Longrightarrow> P (f x)) \<Longrightarrow> \<forall>x \<in> set (update_at i f xs). P x"
  by (auto simp: update_at_def dest: set_update_subset_insert [THEN subsetD])

lemma remove_nth_set: "set (remove_nth i xs) \<subseteq> set xs"
  by (auto simp: remove_nth_def dest: in_set_takeD in_set_dropD)

lemma remove_nth_nonempty: "1 < length xs \<Longrightarrow> remove_nth i xs \<noteq> []"
  by (auto simp: remove_nth_def)

lemma updateRule_whole:
  assumes "whole_rules s" "\<And>r. fr_paths r \<noteq> [] \<Longrightarrow> fr_paths (f r) \<noteq> []"
  shows "whole_rules (updateRule i f s)"
  using assms update_at_all [of "ed_rules s" "\<lambda>r. fr_paths r \<noteq> []" f i]
  by (simp add: whole_rules_def updateRule_def)

lemma step_whole: "local_event e \<Longrightarrow> whole_rules s \<Longrightarrow> whole_rules (ing_step readNum e s)"
proof (cases e)
  case (Remove_rule i)
  moreover assume "whole_rules s"
  ultimately show ?thesis
    using remove_nth_set [of i "ed_rules s"] remove_nth_nonempty [of "ed_rules s" i]
    by (auto simp: whole_rules_def not_le)
next
  case (Remove_path i j)
  moreover assume "whole_rules s"
  ultimately show ?thesis
    by (auto intro!: updateRule_whole simp: remove_nth_nonempty not_le split: if_splits)
next
  case Add_rule
  moreover assume "whole_rules s"
  ultimately show ?thesis by (auto simp: whole_rules_def emptyIngressRule_def)
qed (auto intro!: updateRule_whole simp: updatePath_def, auto simp: whole_rules_def Let_def)

lemma updateRule_simps [simp]:
  "ed_tls (updateRule i f s) = ed_tls s" "ed_labels (updateRule i f s) = ed_labels s"
  "ed_annotations (updateRule i f s) = ed_annotations s" "ed_synced (updateRule i f s) = ed_synced s"
  "ed_label_pairs (updateRule i f s) = ed_label_pairs s" "ed_seen (updateRule i f s) = ed_seen s"
  "ed_annotation_pairs (updateRule i f s) = ed_annotation_pairs s"
  by (simp_all add: updateRule_def)

lemma step_hosts: "local_event e \<Longrightarrow> hosts_known s \<Longrightarrow> hosts_known (ing_step readNum e s)"
proof (cases e)
  case (Remove_tls i)
  moreover assume "hosts_known s"
  ultimately show ?thesis
    using remove_nth_set [of i "ed_tls s"] by (auto simp: hosts_known_def)
next
  case (Tls_secret i n)
  moreover assume "hosts_known s"
  ultimately show ?thesis
    using update_at_all [of "ed_tls s" "\<lambda>t. ft_hosts t \<noteq> None" "\<lambda>t. t\<lparr>ft_secret := n\<rparr>" i]
    by (simp add: hosts_known_def)
next
  case (Tls_hosts i hs)
  moreover assume "hosts_known s"
  ultimately show ?thesis
    using update_at_all [of "ed_tls s" "\<lambda>t. ft_hosts t \<noteq> None" "\<lambda>t. t\<lparr>ft_hosts := Some hs\<rparr>" i]
    by (simp add: hosts_known_def)
qed (auto simp: hosts_known_def updatePath_def emptyIngressTLS_def Let_def)

lemma step_coherent:
  "local_event e \<Longrightarrow> coherent s \<Longrightarrow>
    coherent (ing_step readNum e s) \<and> ed_synced (ing_step readNum e s) = ed_synced s \<and>
    ed_seen (ing_step readNum e s) = ed_seen s"
  by (cases e) (auto simp: coherent_def updatePath_def Let_def)

interpretation ingress_form: guarded_machine "ing_step readNum" "\<lambda>e _. local_event e" "\<lambda>s. whole_rules s \<and> hosts_known s"
  by unfold_locales (auto intro: step_whole step_hosts)

interpretation ingress_meta: guarded_machine "ing_step readNum" "\<lambda>e _. local_event e"
  "\<lambda>s. coherent s \<and> ed_synced s = d \<and> ed_seen s = metadataResetKey d"
  by unfold_locales (use step_coherent in auto)

lemma admissible_local: "list_all local_event es \<Longrightarrow> admissible (\<lambda>e _. local_event e) step es s"
  by (induction es arbitrary: s) auto

lemma open_coherent:
  "meta_ok (dt_labels d) \<Longrightarrow> meta_ok (dt_annotations d) \<Longrightarrow> coherent (open_page d)"
  by (simp add: coherent_def open_page_def pairs_record)

lemma refetched_coherent:
  assumes "coherent s" "meta_ok (dt_labels d)" "meta_ok (dt_annotations d)"
  shows "coherent (refetched d s) \<longleftrightarrow>
    d = ed_synced s \<or> metadataResetKey d \<noteq> ed_seen s \<or> (ed_labels s, ed_annotations s) = metadataResetKey d"
  using assms pairs_record by (auto simp: refetched_def coherent_def Let_def metadataResetKey_def)

section \<open>Lemmas on certificates\<close>

lemma save_tls_known:
  "\<forall>t \<in> set ts. ft_hosts t \<noteq> None \<Longrightarrow>
    save_tls ts = Some (map (\<lambda>t. (filter (\<lambda>h. h \<noteq> []) (map trim (the (ft_hosts t))), trim (ft_secret t)))
      (filter (\<lambda>t. trim (ft_secret t) \<noteq> [] \<or> list_ex (\<lambda>h. trim h \<noteq> []) (the (ft_hosts t))) ts))"
  by (induction ts) auto

definition shown_cert :: "form_tls \<Rightarrow> bool" where
  "shown_cert t \<longleftrightarrow> (trim (ft_secret t) \<noteq> [] \<longrightarrow> list_ex (\<lambda>h. trim h \<noteq> []) (the (ft_hosts t)))"

lemma filter_trimmed: "filter (\<lambda>h. h \<noteq> []) (map trim hs) = [] \<longleftrightarrow> \<not> list_ex (\<lambda>h. trim h \<noteq> []) hs"
  by (induction hs) auto

lemma page_shows_known: "page_shows s \<longleftrightarrow> hosts_known s"
  by (auto simp: page_shows_def knownHosts_def hosts_known_def list_all_iff)

lemma build_tls_simps [simp]:
  "build_tls [] = []"
  "build_tls ((hosts, secret) # ts) =
    (if trim secret = [] \<and> hosts = [] then build_tls ts
     else \<lparr>it_hosts = filter (\<lambda>h. h \<noteq> []) (map trim hosts), it_secret = trim secret\<rparr> # build_tls ts)"
  by (simp_all add: build_tls_def List.map_filter_simps)

lemma saved_certificates_shown:
  assumes "\<forall>t \<in> set ts. ft_hosts t \<noteq> None" "save_tls ts = Some tls"
  shows "list_all (\<lambda>t. it_hosts t \<noteq> []) (build_tls tls) \<longleftrightarrow> list_all shown_cert ts"
  using assms
proof (induction ts arbitrary: tls)
  case (Cons t ts)
  obtain hs rest where t: "ft_hosts t = Some hs" "save_tls ts = Some rest"
    using Cons.prems save_tls_known [of ts] by auto
  have f: "filter (\<lambda>h. h \<noteq> []) (map trim (filter (\<lambda>h. h \<noteq> []) (map trim hs))) = filter (\<lambda>h. h \<noteq> []) (map trim hs)"
    by (induction hs) auto
  show ?case
    using Cons t filter_trimmed [of hs] f
    by (cases "trim (ft_secret t) = []"; cases "list_ex (\<lambda>h. trim h \<noteq> []) hs") (auto simp: shown_cert_def)
qed simp

section \<open>Lemmas on what the server accepts\<close>

lemma all_right_ok: "(\<exists>ys. all_right f xs = Inr ys) \<longleftrightarrow> (\<forall>x \<in> set xs. \<exists>y. f x = Inr y)"
proof (induction xs)
  case (Cons x xs)
  then show ?case by (simp only: all_right_Cons) auto
qed simp

lemma all_right_error: "all_right f xs = Inl e \<Longrightarrow> \<exists>x \<in> set xs. f x = Inl e"
  by (induction xs) (auto split: sum.splits)

lemma all_right_set: "all_right f xs = Inr ys \<Longrightarrow> y \<in> set ys \<Longrightarrow> \<exists>x \<in> set xs. f x = Inr y"
  by (induction xs arbitrary: ys) (auto split: sum.splits)

definition port_number :: "rat \<Rightarrow> bool" where
  "port_number n \<longleftrightarrow> of_int \<lfloor>n\<rfloor> = n \<and> - (2 ^ 31) \<le> n \<and> n < 2 ^ 31"

definition good_path :: "form_path \<Rightarrow> bool" where
  "good_path p \<longleftrightarrow> port_number (fp_port p) \<and> trim (fp_service p) \<noteq> [] \<and>
     (0 < fp_port p \<or> (\<exists>n. fp_port_name p = Some n \<and> trim n \<noteq> []))"

definition decoded :: "form_path \<Rightarrow> path_body" where
  "decoded p = \<lparr>pb_path = fp_path (save_path p), pb_type = fp_type (save_path p),
     pb_service = trim (fp_service p), pb_port = \<lfloor>fp_port p\<rfloor>,
     pb_port_name = (case fp_port_name p of Some n \<Rightarrow> trim n | None \<Rightarrow> [])\<rparr>"

lemma floor_range: "of_int \<lfloor>n\<rfloor> = n \<Longrightarrow> - (2 ^ 31) \<le> \<lfloor>n\<rfloor> \<and> \<lfloor>n\<rfloor> < 2 ^ 31 \<longleftrightarrow> - (2 ^ 31) \<le> n \<and> n < (2 ^ 31 :: rat)"
  by (metis le_floor_iff floor_less_iff of_int_minus of_int_numeral of_int_power)

lemma decode_save:
  "decode_path (save_path p) = (if port_number (fp_port p) then Inr (decoded p) else Inl Body_invalid)"
  using floor_range [of "fp_port p"]
  by (auto simp: decode_path_def port_number_def decoded_def save_path_def Let_def split: option.splits)

lemma build_decoded:
  assumes "port_number (fp_port p)"
  shows "(\<exists>q. build_path (decoded p) = Inr q) \<longleftrightarrow> good_path p"
proof -
  have "\<lfloor>fp_port p\<rfloor> \<le> 0 \<longleftrightarrow> fp_port p \<le> 0"
    using assms by (metis port_number_def of_int_0 of_int_le_iff)
  then show ?thesis
    using assms by (auto simp: build_path_def decoded_def good_path_def Let_def split: option.splits)
qed

lemma decode_save_rule:
  "decode_rule (save_rule r) =
    (if list_all (\<lambda>p. port_number (fp_port p)) (fr_paths r)
     then Inr (trim (fr_host r), map decoded (fr_paths r)) else Inl Body_invalid)"
proof -
  have "all_right decode_path (map save_path ps) =
      (if list_all (\<lambda>p. port_number (fp_port p)) ps then Inr (map decoded ps) else Inl Body_invalid)" for ps
    by (induction ps) (auto simp: decode_save)
  then show ?thesis by (simp add: decode_rule_def save_rule_def)
qed

lemma decode_save_rules:
  "all_right decode_rule (map save_rule rs) =
    (if list_all (\<lambda>r. list_all (\<lambda>p. port_number (fp_port p)) (fr_paths r)) rs
     then Inr (map (\<lambda>r. (trim (fr_host r), map decoded (fr_paths r))) rs) else Inl Body_invalid)"
  by (induction rs) (auto simp: decode_save_rule)

lemma build_ok_iff:
  "(\<exists>q. build_rule r = Inr q) \<longleftrightarrow> snd r \<noteq> [] \<and> (\<forall>p \<in> set (snd r). \<exists>q. build_path p = Inr q)"
  using all_right_ok [of build_path "snd r"] by (auto simp: build_rule_Inr)

lemma buildSpec_ok_iff:
  "(\<exists>s. buildSpec c rules tls = Inr s) \<longleftrightarrow> rules \<noteq> [] \<and> (\<forall>r \<in> set rules. \<exists>q. build_rule r = Inr q)"
  using all_right_ok [of build_rule rules] by (auto simp: buildSpec_Inr)

lemma build_path_error: "build_path p = Inl e \<Longrightarrow> e = Service_required \<or> e = Port_required"
  by (auto simp: build_path_def Let_def split: if_splits)

lemma build_rule_error:
  "snd r \<noteq> [] \<Longrightarrow> build_rule r = Inl e \<Longrightarrow> e = Service_required \<or> e = Port_required"
  by (auto simp: build_rule_def split: sum.splits dest!: all_right_error build_path_error)

lemma buildSpec_error:
  "rules \<noteq> [] \<Longrightarrow> \<forall>r \<in> set rules. snd r \<noteq> [] \<Longrightarrow> buildSpec c rules tls = Inl e \<Longrightarrow>
    e = Service_required \<or> e = Port_required"
  by (auto simp: buildSpec_def split: sum.splits dest!: all_right_error build_rule_error)

lemma save_body_parts:
  "save_body s = Some b \<Longrightarrow> wb_rules b = map save_rule (ed_rules s) \<and> save_tls (ed_tls s) = Some (wb_tls b)"
  by (auto simp: save_body_def)

lemma create_body_parts:
  "ingress_create_body name ns s = Some b \<Longrightarrow>
    wb_rules b = map save_rule (ed_rules s) \<and> save_tls (ed_tls s) = Some (wb_tls b) \<and>
    wb_name b = Some (trim name) \<and> wb_ns b = Some (if trim ns \<noteq> [] then trim ns else ''default'')"
  by (auto simp: ingress_create_body_def save_body_def)

lemma spec_of_form:
  assumes "whole_rules s" "wb_rules b = map save_rule (ed_rules s)"
  shows "(\<exists>spec. spec_of_body b = Inr spec) \<longleftrightarrow> (\<forall>r \<in> set (ed_rules s). list_all good_path (fr_paths r))"
    and "spec_of_body b = Inl e \<Longrightarrow> e \<in> {Body_invalid, Service_required, Port_required}"
proof -
  let ?ok = "list_all (\<lambda>r. list_all (\<lambda>p. port_number (fp_port p)) (fr_paths r)) (ed_rules s)"
  let ?rs = "map (\<lambda>r. (trim (fr_host r), map decoded (fr_paths r))) (ed_rules s)"
  have whole: "?rs \<noteq> []" "\<forall>r \<in> set ?rs. snd r \<noteq> []" using assms(1) by (auto simp: whole_rules_def)
  have spec: "spec_of_body b = (if ?ok then buildSpec (wb_class b) ?rs (wb_tls b) else Inl Body_invalid)"
    using assms(2) by (simp add: spec_of_body_def decode_save_rules)
  show "(\<exists>spec. spec_of_body b = Inr spec) \<longleftrightarrow> (\<forall>r \<in> set (ed_rules s). list_all good_path (fr_paths r))"
  proof (cases ?ok)
    case True
    then have "(\<forall>r \<in> set ?rs. \<exists>q. build_rule r = Inr q) \<longleftrightarrow>
        (\<forall>r \<in> set (ed_rules s). list_all good_path (fr_paths r))"
      using assms(1) by (auto simp: build_ok_iff list_all_iff whole_rules_def build_decoded)
    with True show ?thesis using whole(1) by (simp only: spec if_True buildSpec_ok_iff) simp
  next
    case False
    then have "\<not> (\<forall>r \<in> set (ed_rules s). list_all good_path (fr_paths r))"
      by (auto simp: list_all_iff good_path_def)
    with False show ?thesis by (simp add: spec)
  qed
  show "spec_of_body b = Inl e \<Longrightarrow> e \<in> {Body_invalid, Service_required, Port_required}"
    using buildSpec_error [OF whole] by (auto simp: spec split: if_splits)
qed

lemma form_whole:
  assumes "list_all local_event es"
  shows "whole_rules (fold (ing_step readNum) es create_form_page)"
    and "hosts_known (fold (ing_step readNum) es create_form_page)"
proof -
  have "whole_rules create_form_page \<and> hosts_known create_form_page"
    by (simp add: create_form_page_def whole_rules_def hosts_known_def emptyIngressRule_def)
  from ingress_form.run_inv [OF this admissible_local [OF assms]]
  show "whole_rules (fold (ing_step readNum) es create_form_page)"
    and "hosts_known (fold (ing_step readNum) es create_form_page)" by simp_all
qed

section \<open>Properties\<close>

text \<open>The API server refuses an object or stores it with the name, the rules, the default backend and the
  certificates it was sent with, and with the class if one was given. It sets the time of creation
  and may set the default class.\<close>

definition keeps_given :: "admission \<Rightarrow> bool" where
  "keeps_given admit \<longleftrightarrow> (\<forall>g g'. admit g = Inr g' \<longrightarrow>
     ig_ns g' = ig_ns g \<and> ig_name g' = ig_name g \<and> is_rules (ig_spec g') = is_rules (ig_spec g) \<and>
     is_default (ig_spec g') = is_default (ig_spec g) \<and> is_tls (ig_spec g') = is_tls (ig_spec g) \<and>
     (is_class (ig_spec g) = None \<or> is_class (ig_spec g') = is_class (ig_spec g)))"

text \<open>C13: Saving the page of an ingress without having changed anything is accepted and leaves the
  cluster as it is exactly when the ingress has no default backend; has rules, each with paths that
  all lead to services and are neither empty nor begin or end in white space; and takes its class from its
  specification or has none at all: every other ingress is refused or changed. An empty path, which
  Kubernetes accepts for \<open>ImplementationSpecific\<close>, becomes \<open>/\<close>. The certificates are assumed to have hosts, as a
  page without them cannot be shown, and the server to accept the stored object as it is.\<close>

theorem unchanged_save_exact:
  assumes "valid_ingress ig" "list_all (\<lambda>t. it_hosts t \<noteq> []) (is_tls (ig_spec ig))"
    and "tight ns" "tight name" "cl (ns, name) = Some ig"
    and "keeps_given admit" "admit ig = Inr ig"
  shows "\<exists>b. save_body (open_page (detailFrom ig)) = Some b \<and>
    (IngressUpdateAPI admit ns name b cl = (Inr (''Ingress updated'', detailFrom ig), cl) \<longleftrightarrow> editable ig)"
proof -
  obtain b where b: "save_body (open_page (detailFrom ig)) = Some b" "wb_labels b = Some (ig_labels ig)"
    "wb_annotations b = Some (ig_annotations ig)" "spec_of_body b = Inr (ig_spec ig) \<longleftrightarrow> editable ig"
    and given: "\<And>spec. spec_of_body b = Inr spec \<Longrightarrow> is_default spec = None \<and> is_tls spec = is_tls (ig_spec ig) \<and>
      (is_class (ig_spec ig) = None \<or> is_class spec = is_class (ig_spec ig))"
    using unchanged_spec [OF assms(1,2)] by blast
  let ?g = "\<lambda>spec. ig\<lparr>ig_labels := ig_labels ig, ig_annotations := ig_annotations ig, ig_spec := spec\<rparr>"
  have "IngressUpdateAPI admit ns name b cl = (Inr (''Ingress updated'', detailFrom ig), cl) \<longleftrightarrow>
      (\<exists>spec. spec_of_body b = Inr spec \<and> admit (?g spec) = Inr ig)"
  proof (cases "spec_of_body b")
    case (Inr spec)
    have "cl((ns, name) \<mapsto> g) = cl \<longleftrightarrow> g = ig" for g
      using assms(5) by (metis fun_upd_same fun_upd_triv option.inject)
    then show ?thesis
      using Inr b assms(3-5) by (cases "admit (?g spec)") (auto simp: IngressUpdateAPI_def trim_id)
  qed (simp add: IngressUpdateAPI_def)
  also have "\<dots> \<longleftrightarrow> spec_of_body b = Inr (ig_spec ig)"
  proof
    assume "spec_of_body b = Inr (ig_spec ig)"
    moreover have "?g (ig_spec ig) = ig" by simp
    ultimately show "\<exists>spec. spec_of_body b = Inr spec \<and> admit (?g spec) = Inr ig" using assms(7) by auto
  next
    assume "\<exists>spec. spec_of_body b = Inr spec \<and> admit (?g spec) = Inr ig"
    then obtain spec where spec: "spec_of_body b = Inr spec" "admit (?g spec) = Inr ig" by blast
    have "is_rules (ig_spec ig) = is_rules spec \<and> is_default (ig_spec ig) = is_default spec \<and>
        (is_class spec = None \<or> is_class (ig_spec ig) = is_class spec)"
      using assms(6) spec(2) unfolding keeps_given_def by fastforce
    with given [OF spec(1)] have "spec = ig_spec ig" by (intro ing_spec.equality) auto
    with spec(1) show "spec_of_body b = Inr (ig_spec ig)" by simp
  qed
  finally show ?thesis using b by blast
qed

text \<open>A server that stamps what it stores and has a default class for what is new.\<close>

definition stamping :: admission where
  "stamping g =
     Inr (if ig_created g \<noteq> [] then g
          else g\<lparr>ig_created := ''2025-01-01T00:00:00Z'',
             ig_spec := (ig_spec g)\<lparr>is_class := Some (case is_class (ig_spec g) of Some c \<Rightarrow> c | None \<Rightarrow> ''nginx'')\<rparr>\<rparr>)"

lemma stamping_keeps: "keeps_given stamping"
  by (auto simp: keeps_given_def stamping_def split: option.splits)

definition sample_path :: ing_path where
  "sample_path = \<lparr>ip_path = ''/'', ip_type = Some ''Prefix'', ip_backend = Service_backend ''web'' 80 []\<rparr>"

definition sample_ingress :: "ing_backend option \<Rightarrow> ingress" where
  "sample_ingress dflt = \<lparr>ig_ns = ''ns'', ig_name = ''shop'', ig_labels = [(''app'', ''shop'')], ig_annotations = [],
     ig_spec = \<lparr>is_class = Some ''nginx'', is_default = dflt,
       is_rules = [\<lparr>ir_host = ''a.io'', ir_http = Some [sample_path]\<rparr>],
       is_tls = [\<lparr>it_hosts = [''a.io''], it_secret = ''cert''\<rparr>]\<rparr>,
     ig_addresses = [], ig_created = ''2024-01-01T00:00:00Z''\<rparr>"

lemma sample_words:
  "tight ''ns''" "tight ''shop''" "clean_word ''nginx''" "clean_word ''/''" "clean_word ''web''" "tight ''a.io''"
  "clean_word ''a.io''" "tight ''cert''" "tight []"
  by code_simp+

lemma unchanged_save_exact_witness:
  "\<exists>b. save_body (open_page (detailFrom (sample_ingress (Some (Resource_backend ''fallback''))))) = Some b \<and>
     IngressUpdateAPI stamping ''ns'' ''shop'' b [(''ns'', ''shop'') \<mapsto> sample_ingress (Some (Resource_backend ''fallback''))] \<noteq>
       (Inr (''Ingress updated'', detailFrom (sample_ingress (Some (Resource_backend ''fallback'')))),
        [(''ns'', ''shop'') \<mapsto> sample_ingress (Some (Resource_backend ''fallback''))])"
proof -
  let ?g = "sample_ingress (Some (Resource_backend ''fallback''))"
  have "valid_ingress ?g" "list_all (\<lambda>t. it_hosts t \<noteq> []) (is_tls (ig_spec ?g))" "\<not> editable ?g"
    using sample_words
    by (simp_all add: sample_ingress_def sample_path_def valid_ingress_def valid_rule_def valid_path_def
        valid_cert_def editable_def)
  moreover have "stamping ?g = Inr ?g" by (simp add: stamping_def sample_ingress_def)
  ultimately show ?thesis
    using unchanged_save_exact [of ?g "''ns''" "''shop''" "[(''ns'', ''shop'') \<mapsto> ?g]" stamping] stamping_keeps sample_words
    by auto
qed

lemma created_stored:
  assumes "IngressCreateAPI admit b cl = (Inr (m, d), cl')" "keeps_given admit"
    and "wb_name b = Some name" "wb_ns b = Some ns" "trim ns \<noteq> []"
  shows "\<exists>g. is_tls (ig_spec g) = build_tls (wb_tls b) \<and> d = detailFrom g \<and> cl' (trim ns, trim name) = Some g"
proof -
  obtain rules spec g where g: "buildSpec (wb_class b) rules (wb_tls b) = Inr spec"
    "admit \<lparr>ig_ns = trim ns, ig_name = trim name,
       ig_labels = (case wb_labels b of Some l \<Rightarrow> l | None \<Rightarrow> []),
       ig_annotations = (case wb_annotations b of Some a \<Rightarrow> a | None \<Rightarrow> []),
       ig_spec = spec, ig_addresses = [], ig_created = []\<rparr> = Inr g"
    "d = detailFrom g" "cl' (trim ns, trim name) = Some g"
    using assms(1,3-5) by (auto simp: IngressCreateAPI_def Let_def split: sum.splits if_splits)
  have "is_tls (ig_spec g) = is_tls spec" using assms(2) g(2) unfolding keeps_given_def by fastforce
  also have "\<dots> = build_tls (wb_tls b)" using g(1) by (auto simp: buildSpec_Inr)
  finally show ?thesis using g(3,4) by blast
qed

text \<open>C14: The page of an ingress that the dialog has just created can be shown exactly when
  every certificate of the form with a secret has a host that is not blank: a certificate without hosts
  is stored without them, the server answers \<open>null\<close> for them, and the page iterates over it.\<close>

theorem created_page_shown_iff:
  assumes "keeps_given admit" "list_all local_event es"
    and "s = fold (ing_step readNum) es create_form_page"
    and "ingress_create_body name ns s = Some b"
    and "IngressCreateAPI admit b cl = (Inr (m, d), cl')"
  shows "IngressGetAPI (if trim ns \<noteq> [] then ns else ''default'') name cl' = Inr d \<and>
    (page_shows (open_page d) \<longleftrightarrow> list_all shown_cert (ed_tls s))"
proof -
  have known: "hosts_known s" unfolding assms(3) by (rule form_whole [OF assms(2)])
  have b: "save_tls (ed_tls s) = Some (wb_tls b)" "wb_name b = Some (trim name)"
    "wb_ns b = Some (if trim ns \<noteq> [] then trim ns else ''default'')"
    using create_body_parts [OF assms(4)] by simp_all
  have dflt: "trim ''default'' = ''default''" by code_simp
  have ns: "trim (if trim ns \<noteq> [] then trim ns else ''default'') =
      (if trim ns \<noteq> [] then trim ns else ''default'')" "(if trim ns \<noteq> [] then trim ns else ''default'') \<noteq> []"
    using dflt by simp_all
  obtain g where create: "is_tls (ig_spec g) = build_tls (wb_tls b)" "d = detailFrom g"
    "cl' (if trim ns \<noteq> [] then trim ns else ''default'', trim name) = Some g"
    using created_stored [OF assms(5,1) b(2,3)] unfolding ns(1) trim_trim using ns(2) by blast
  have "page_shows (open_page d) \<longleftrightarrow> list_all (\<lambda>t. it_hosts t \<noteq> []) (build_tls (wb_tls b))"
    by (auto simp: page_shows_known hosts_known_def create open_page_def detailFrom_def detail_tls_def list_all_iff)
  also have "\<dots> \<longleftrightarrow> list_all shown_cert (ed_tls s)"
    using known b(1) by (intro saved_certificates_shown) (simp_all add: hosts_known_def)
  finally show ?thesis using create(2,3) dflt by (auto simp: IngressGetAPI_def)
qed

definition form_run :: "ing_event list" where
  "form_run = [Choose_service 0 0 [(''web'', [8080])] ''web'', Add_tls, Tls_secret 0 ''cert'']"

definition form_body :: write_body where
  "form_body = the (ingress_create_body ''shop'' [] (fold (ing_step Map.empty) form_run create_form_page))"

definition form_result :: "(ing_error, string \<times> ing_detail) sum \<times> ing_cluster" where
  "form_result = IngressCreateAPI stamping form_body Map.empty"

lemma created_page_shown_iff_witness:
  "\<exists>m d cl'. form_result = (Inr (m, d), cl') \<and> IngressGetAPI ''default'' ''shop'' cl' = Inr d \<and>
     \<not> page_shows (open_page d)"
proof -
  let ?s = "fold (ing_step Map.empty) form_run create_form_page"
  have s: "list_all local_event form_run" "\<not> list_all shown_cert (ed_tls ?s)"
    "ingress_create_body ''shop'' [] ?s = Some form_body"
    by code_simp+
  have "\<not> isl (fst form_result)" by code_simp
  then obtain m d cl' where r: "form_result = (Inr (m, d), cl')"
    by (metis isl_def obj_sumE prod.collapse)
  have "trim [] = []" by code_simp
  with created_page_shown_iff [OF stamping_keeps s(1) refl s(3) r [unfolded form_result_def]] s(2)
  have "IngressGetAPI ''default'' ''shop'' cl' = Inr d \<and> \<not> page_shows (open_page d)" by simp
  with r show ?thesis by blast
qed

text \<open>C15: As long as no answer replaces it, the page sends the labels and annotations that
  its two editors show. An answer keeps this exactly when it equals the last one, has other labels
  or annotations, or finds them unedited: otherwise the editors go on showing edits that would no longer be sent.\<close>

theorem metadata_shown_is_sent:
  assumes "meta_ok (dt_labels d0)" "meta_ok (dt_annotations d0)" "meta_ok (dt_labels d)" "meta_ok (dt_annotations d)"
    and "list_all local_event es" and "s = fold (ing_step readNum) es (open_page d0)"
  shows "coherent s \<and>
    (coherent (ing_step readNum (Refetch d) s) \<longleftrightarrow>
      d = d0 \<or> metadataResetKey d \<noteq> metadataResetKey d0 \<or> (ed_labels s, ed_annotations s) = metadataResetKey d)"
proof -
  have "coherent s \<and> ed_synced s = d0 \<and> ed_seen s = metadataResetKey d0"
    unfolding assms(6)
    by (rule ingress_meta.run_inv [OF _ admissible_local [OF assms(5)]])
      (use open_coherent [OF assms(1,2)] in \<open>simp add: open_page_def\<close>)
  with refetched_coherent [OF _ assms(3,4)] show ?thesis by auto
qed

lemma metadata_shown_is_sent_witness:
  "\<not> coherent (ing_step Map.empty (Refetch (detailFrom (sample_ingress None\<lparr>ig_addresses := [(''10.0.0.1'', [])]\<rparr>)))
       (fold (ing_step Map.empty) [Edit_labels (Kv_value 0 ''store'')] (open_page (detailFrom (sample_ingress None)))))"
proof -
  let ?old = "detailFrom (sample_ingress None)"
  let ?new = "detailFrom (sample_ingress None\<lparr>ig_addresses := [(''10.0.0.1'', [])]\<rparr>)"
  let ?s = "fold (ing_step Map.empty) [Edit_labels (Kv_value 0 ''store'')] (open_page ?old)"
  have m: "dt_labels ?old = [(''app'', ''shop'')]" "dt_annotations ?old = []"
    "dt_labels ?new = [(''app'', ''shop'')]" "dt_annotations ?new = []"
    by (simp_all add: detailFrom_def sample_ingress_def)
  have "clean_word ''app''" by code_simp
  then have ok: "meta_ok (dt_labels ?old)" "meta_ok (dt_annotations ?old)" "meta_ok (dt_labels ?new)" "meta_ok (dt_annotations ?new)"
    unfolding m by (simp_all add: meta_ok_def)
  have "?new \<noteq> ?old" by code_simp
  moreover have "ed_labels ?s \<noteq> dt_labels ?new" by code_simp
  moreover have "list_all local_event [Edit_labels (Kv_value 0 ''store'')]" by simp
  note metadata_shown_is_sent [OF ok this refl, THEN conjunct2, of Map.empty]
  ultimately show ?thesis
    unfolding metadataResetKey_def m prod.inject by blast
qed

text \<open>C16: The rules of the form are never missing from what it sends, and the server
  accepts them exactly when every path of every rule has a service and a port that is a 32-bit integer, positive
  or with a name. The button, which asks for one such path only, is enabled for forms that are refused.\<close>

theorem form_accepted_iff:
  assumes "list_all local_event es" and "s = fold (ing_step readNum) es create_form_page"
    and "ingress_create_body name ns s = Some b"
  shows "((\<exists>spec. spec_of_body b = Inr spec) \<longleftrightarrow> (\<forall>r \<in> set (ed_rules s). list_all good_path (fr_paths r))) \<and>
    spec_of_body b \<notin> {Inl Rules_required, Inl Paths_required}"
proof -
  have "whole_rules s" unfolding assms(2) by (rule form_whole [OF assms(1)])
  then show ?thesis
    using spec_of_form [of s b] create_body_parts [OF assms(3)] by auto
qed

lemma form_accepted_iff_witness:
  "ingress_canCreate ''shop'' (fold (ing_step Map.empty) [Choose_service 0 0 [] ''web'', Add_path 0] create_form_page) \<and>
   (\<nexists>spec. spec_of_body (the (ingress_create_body ''shop'' []
      (fold (ing_step Map.empty) [Choose_service 0 0 [] ''web'', Add_path 0] create_form_page))) = Inr spec)"
proof -
  let ?es = "[Choose_service 0 0 [] ''web'', Add_path 0]"
  let ?s = "fold (ing_step Map.empty) ?es create_form_page"
  have "\<not> list_all (\<lambda>r. list_all good_path (fr_paths r)) (ed_rules ?s)"
  proof -
    have "trim [] = []" by code_simp
    then show ?thesis
      by (simp add: create_form_page_def updatePath_def updateRule_def update_at_def emptyIngressRule_def
          emptyIngressPath_def good_path_def)
  qed
  moreover have "ingress_create_body ''shop'' [] ?s = Some (the (ingress_create_body ''shop'' [] ?s))" by code_simp
  moreover have "ingress_canCreate ''shop'' ?s" by code_simp
  moreover have "list_all local_event ?es" by simp
  ultimately show ?thesis
    using form_accepted_iff [of ?es ?s Map.empty "''shop''" "[]" "the (ingress_create_body ''shop'' [] ?s)"]
    by (auto simp: list_all_iff)
qed
end
