(* ===== verification/Spec2Isabelle.thy ===== *)
theory Spec2Isabelle
  imports Table_Url Table_Request Live_Terminal Net_Errors Cloud_Shell K8s_Api File_Browser Stack_Env
    Container_Update Exec_Console Install_Jobs Module_Api Software_Catalog Workspaces Ssh_Keys Ingress_Edit
begin

text \<open>
  \<^bold>\<open>containerws: a verification development of its web frontend\<close>

  containerws serves a browser workspace for a host: terminals, a file manager, Docker and
  Kubernetes pages, users, packages and settings. The frontend, a TypeScript program under
  \<open>src/frontend/src\<close>, holds the state and the protocol of the system: who is signed in, how a
  request gets its token, how a table becomes a query, how a terminal survives a lost connection.
  This development models these parts, and of the Go server the
  handlers whose meaning is decided by what the frontend sends them: the replacement of a container,
  the console of a container, the reconciliation of a desktop setup, the software catalogue, the SSH keys
  of a user and the ingresses of a cluster.

  \<^bold>\<open>Parts, theories and sources\<close> (paths under \<open>frontend/src\<close> unless they start with \<open>src/modules\<close>)

  \<^item> \<open>Js_Prelude\<close>: strings, lists, maps and the string methods of JavaScript the code uses; the
    locales of machines that several components instantiate.
  \<^item> \<open>Token_Interface\<close>: the contract between the sign-in store and the request pipeline.
  \<^item> \<open>Auth_Store\<close>: \<open>store/authorization.ts\<close>, \<open>lib/switch-account.ts\<close>. The record \<open>auth_state\<close> is the
    zustand state; the sessions are an association list because a JavaScript object keeps its
    insertion order and the code takes the first or last key.
  \<^item> \<open>Jwt\<close>: \<open>lib/network/jwt.ts\<close>, the expiry of an access token and the window in which it is
    refreshed ahead of time.
  \<^item> \<open>Auth_Pipeline\<close>: \<open>lib/network/{constants,refresh,interceptors,client}.ts\<close>. Every request is a
    task at a program point between two awaits, and a step of the relation is the code from one
    await to the next; the store of the sign-in theory is part of the state, and the shared refresh
    promise is one field.
  \<^item> \<open>Net_Errors\<close>: \<open>lib/network/errors.ts\<close>, from the value a request throws to the text of a toast.
  \<^item> \<open>Sse_Stream\<close>: the progress streams of \<open>modules/softwares\<close>, \<open>modules/vnc-novnc\<close> and the desktop
    pages of \<open>modules/users\<close>: their requests and the reader that splits the text at empty lines.
  \<^item> \<open>Table_Filters\<close>: \<open>components/datatable/lib/advanced-filter-utils.ts\<close> and the panel around it.
  \<^item> \<open>Table_Url\<close>: \<open>filter-schema.ts\<close> and \<open>parsers.ts\<close>, the table state in the page's URL.
  \<^item> \<open>Table_Request\<close>: \<open>serialize-server-table-params.ts\<close>, \<open>use-server-table-data.ts\<close>,
    \<open>use-datatable.ts\<close>: what the server is asked for, and the debounced writes of column filters.
  \<^item> \<open>Cloud_Shell\<close>: \<open>components/cloudshell/store.ts\<close> and \<open>special-keys.ts\<close>, the tabs of the terminal
    dock, their persistence and the control keys.
  \<^item> \<open>Live_Terminal\<close>: \<open>components/cloudshell/terminal/live-terminal.tsx\<close> and the socket URL of
    \<open>components/cloudshell/api.ts\<close>: connecting, reconnecting, resuming and ending a terminal.
  \<^item> \<open>File_Manager\<close>: \<open>sessions.ts\<close>, \<open>clipboard.ts\<close>, \<open>open-helpers.ts\<close> and the requests of
    \<open>modules/filemanager/pages/browser\<close>.
  \<^item> \<open>Url_Coding\<close>: \<open>encodeURIComponent\<close>, \<open>decodeURIComponent\<close> and \<open>URLSearchParams\<close>, shared by all
    request modules, with their round trips.
  \<^item> \<open>K8s_Api\<close>: \<open>modules/kubernetes/pages/_shared\<close>: every request, the deep links between resources
    and the filter of system namespaces.
  \<^item> \<open>Docker_Api\<close>: the request modules of \<open>modules/docker/pages\<close> and the chosen environment.
  \<^item> \<open>Stack_Env\<close>: \<open>modules/docker/pages/stacks/edit\<close>: the environment file of a stack and the local
    check of its compose file.
  \<^item> \<open>Container_Edit\<close>: \<open>modules/docker/pages/containers/edit/index.tsx\<close>: the form of a container, how an
    inspected container fills it and the body it sends.
  \<^item> \<open>Container_Update\<close>: \<open>src/modules/docker/containers/handlers.go\<close>: what the server makes of that
    body, down to the engine's options, and the replacement of the old container.

  \<^item> \<open>File_Browser\<close>: \<open>modules/filemanager/pages/browser/index.tsx\<close>: the file page around its tabs, its
    selection, dialogs, bulk operations, drag and drop and trash.
  \<^item> \<open>Exec_Console\<close>: \<open>modules/docker/pages/containers/single/exec-terminal.tsx\<close>, \<open>pods/detail/exec-terminal.tsx\<close>
    of Kubernetes and \<open>src/modules/docker/containers/exec_ws.go\<close>:
    the console of a container, its socket, UTF-8 in both directions and the end of the process.
  \<^item> \<open>Install_Jobs\<close>: the pages that install something and follow it (\<open>modules/vnc-novnc\<close>,
    \<open>modules/softwares\<close>, \<open>components/module-status\<close>), with the snapshots of
    \<open>src/modules/vncnovnc/install/setup/reconcile.go\<close>.
  \<^item> \<open>Module_Api\<close>: the request modules of users, VS Code, softwares, proxy manager, settings, dashboard.
  \<^item> \<open>Software_Catalog\<close>: \<open>modules/softwares/pages/{list,installed}\<close>, \<open>software-catalog.tsx\<close> and the
    handler \<open>src/modules/softwares/list/list.go\<close>.
  \<^item> \<open>Workspaces\<close>: \<open>modules/vscode/pages/list\<close>: the workspaces, their dialogs and folders.
  \<^item> \<open>Ssh_Keys\<close>: \<open>modules/users/pages/single/keys\<close>, \<open>src/modules/users/single/keys/c.go\<close> and
    \<open>src/packages/linuxuser/sshkeys.go\<close>: the page of a user's keys, its handlers and the files of \<open>~/.ssh\<close>.
  \<^item> \<open>Ingress_Edit\<close>: \<open>modules/kubernetes/pages/ingresses\<close> and \<open>src/modules/kubernetes/ingresses/handlers.go\<close>:
    the form of an ingress, the dialog and the page around it, and the handlers that read and write it.

  \<^bold>\<open>How the parts interact\<close>

  A page calls a request function (\<open>K8s_Api\<close>, \<open>Docker_Api\<close>, \<open>File_Manager\<close>); its address is built with
  \<open>Url_Coding\<close>; the request passes the interceptors (\<open>Auth_Pipeline\<close>), which read the pair of tokens
  through \<open>Token_Interface\<close> from \<open>Auth_Store\<close> and ask \<open>Jwt\<close> whether it is stale; an error becomes
  a message in \<open>Net_Errors\<close>. A table's URL (\<open>Table_Url\<close>) and filter panel (\<open>Table_Filters\<close>) meet in
  \<open>Table_Request\<close>. The dock (\<open>Cloud_Shell\<close>) mounts one \<open>Live_Terminal\<close> per tab and keeps the backend
  session the terminal reports; the file manager injects a command into it. The container form,
  its request and the server's handler are composed in \<open>Container_Update\<close>, the console and its
  handler in \<open>Exec_Console\<close>, the filters of the catalogue, the request and the server's pages in
  \<open>Software_Catalog\<close>; in \<open>Ssh_Keys\<close> and \<open>Ingress_Edit\<close> a page, its request, the handler and what is stored
  (files, objects of the cluster) are composed in the same way. The installation pages and the workspace dialogs follow the streams of
  \<open>Sse_Stream\<close> with the panel of \<open>Install_Jobs\<close>, and show errors as \<open>Net_Errors\<close> reads them. The file
  page keeps its folder in step with the tabs of \<open>File_Manager\<close>.

  \<^bold>\<open>What the lemmas show\<close>

  \<^item> Invariants by induction over runs. \<open>guarded_machine\<close> (a step function, a guard on events, an
    invariant) is interpreted on the sign-in store, the dock, the filter panel and the file tabs;
    \<open>state_machine\<close> on the stream reader and the installation pages; \<open>keyed_tabs\<close> gives the facts about removing the current
    key of a collection, for accounts, dock tabs and file tabs. The request pipeline is an
    \<open>inductive\<close> step relation with invariants by rule induction.
  \<^item> Refinement. \<open>refining_machine\<close> extends \<open>guarded_machine\<close> by an abstraction function and an
    abstract step, with which every step commutes: the terminal does event by event what a supervisor
    without sockets, timers and flags does with what the events tell it. The console is
    shown to feed the process exactly the bytes of what is typed. The save of a
    container is shown to be its specification, a recreation of the inspected container, for the values
    (\<open>plain_detail\<close>, \<open>numbers_ok\<close>, \<open>server_ok\<close>) that form, number texts and server can carry.
  \<^item> Signing in: an account is lost only by the user, by a 401 that no refresh can cure, or by a refresh
    that was awaited after one and brought no token, over every step of the pipeline; and a refresh
    stores its token in the account that is current when it returns.
  \<^item> Round trips: persisted stores, URL state, stream frames, environment files, container forms.
    Where the code does not restore a value, the theorem is an equivalence that says which values
    are restored: for an environment file, which names and values, without any assumption on the rows.
  \<^item> Requests: addresses are injective in what they name (\<open>k8s_resource\<close>, one interpretation for
    each kind of resource), carry the chosen environment, and carry the conditions of the filters.
  \<^item> Streams: every event is delivered as soon as its frame is complete, under any chunking. \<open>job_view\<close> is
    the contract of a view that follows one job and \<open>played_run\<close> that of a run from its start to the
    end of its stream, both interpreted on the pages that install something; with them, what a
    page shows once its stream has ended, for runs that were started, attached, resumed or stopped.
  \<^item> Pages: the selection and paths of bulk operations, the folder that is asked for, when a dialog can be
    closed, the pages of the
    catalogue, which together list every wanted entry once, and the crumbs of a folder.
  \<^item> Stored state: which key a removal takes from the file and what a generation leaves, over every
    content of the files; where an added key ends up, for every key library with the contract
    \<open>ssh_contract\<close> (keys, comments and options parsed from one line are one line); which ingresses
    survive being opened and saved, as an equivalence, for every API server with the contract
    \<open>keeps_given\<close> (it may set the time of creation and a default class).
  \<^item> Liveness and termination of the pipeline (no waiter is stranded) and of the terminal (a socket,
    a timer, or the attempts are used up).
  \<^item> Flaws the models exposed are theorems about the code as it is: a refreshed token stored in another
    account, a lost removal of a filter, a container removed before its replacement is checked,
    mount options dropped by an edit, a comparison of categories that is no order, a setup that is followed for ever, a list of installed
    softwares that sees only the first hundred, a dialog that can no longer be closed, a key appended to an
    unfinished line, an identity removed by the generation of another, an ingress that loses its
    default backend or whose page cannot be shown.

  \<^bold>\<open>Bounds\<close>

  No definition uses fuel: the recursions are structural or have a measure. The bounds are the
  code's own: two transmissions of a request, 40 reconnects of a terminal with delays between 0.8
  and 12.25 seconds, 40 attempts to hand a command to a terminal, 4000 characters of an error
  message. A number of JavaScript is a \<open>nat\<close> or \<open>int\<close> where the code only counts and a \<open>rat\<close> where it
  computes (no NaN: the branches that test for it are separate); the memory, port and retry values of the server are \<open>int\<close>
  with the range checks of the code, and a body whose number does not fit is \<open>INVALID_BODY\<close>.

  \<^bold>\<open>Parameters\<close>

  Code outside the repository is an argument of the definitions that use it: \<open>jwtDecode\<close>, zod (its
  documented behaviour is the locale \<open>zod_parser\<close>, interpreted on a reference reader of the
  schemas), the YAML parser, the rendering and reading of numbers (\<open>numStr\<close>, \<open>render\<close>), the order of
  \<open>localeCompare\<close> (\<open>collate\<close>), \<open>Date.parse\<close> (\<open>parseDate\<close>), the answers of the Docker client, the rows
  of the database and of the registries (\<open>rows\<close>, \<open>remotes\<close>), the SSH library (\<open>ssh_lib\<close>), what an API
  server admits (\<open>admit\<close>), \<open>Number\<close> of a text (\<open>readNum\<close>), random ids and the clock. The server, the network and the user are the free inputs of the step relations.

  \<^bold>\<open>Not modelled\<close>

  Rendering (React, xterm, TanStack Table, the vendored widgets), the caches of react-query, the
  other handlers of the Go server and the packaging. A character is one UTF-16 code unit among the 256
  of Windows-1252, so surrogate pairs do not occur; case conversion and white space are those of
  these characters, among which \<open>strings.TrimSpace\<close> and \<open>trim\<close> agree. \<open>sort.SliceStable\<close> is an insertion
  sort, which gives its result where the comparison is a strict weak order; where the code's is
  not (\<open>category_order_not_weak\<close>), the order of the result is not claimed. What a move or the purge of the trash
  loses on the server's disk is outside the model of the file page.\<close>

end
